(* ===== verification/Vm_Prelude.thy ===== *)
theory Vm_Prelude
  imports Main "HOL-Library.Word" "HOL-Library.List_Lexorder" "HOL-Library.Char_ord"
    "HOL-Library.Product_Lexorder" "HOL-Library.Option_ord" "HOL-Library.Multiset"
begin

text \<open>
  Shared vocabulary of the VibeMux development.

  \<^item> Machine integers: Rust's \<open>u32\<close> and \<open>u64\<close> are words of that width, \<open>usize\<close> counts of
    collections are naturals; \<open>saturating_add\<close> and \<open>checked_add\<close> are Rust's.
  \<^item> \<open>Uuid\<close> is a 128-bit word (Rust orders it by its bytes, most significant first, which is the
    unsigned order) and \<open>Sha256Digest\<close> is a 256-bit word, for the same reason.
  \<^item> A \<open>String\<close> is its list of UTF-8 bytes: \<open>len()\<close> is the length of the list, \<open>Ord\<close> is the
    lexicographic order of the bytes.
  \<^item> \<open>Result\<close> is a sum, \<open>Inl\<close> the error.
  \<^item> \<open>sort(); dedup()\<close> and the in-order contents of a \<open>BTreeSet\<close> are \<open>sort_dedup\<close>.
  \<^item> The locales at the end are the contracts several components share: reducers that keep an
    invariant, reducers that spend an allowance, and tables of allowed edges.
\<close>

named_theorems rust_simps \<open>definitions of the Rust standard operations the models use\<close>

section \<open>Machine integers and identities\<close>

type_synonym u32 = "32 word"
type_synonym u64 = "64 word"
type_synonym uuid = "128 word"
type_synonym digest = "256 word"

abbreviation is_nil :: "uuid \<Rightarrow> bool" where
  "is_nil u \<equiv> u = 0"

definition saturating_add :: "'a::len word \<Rightarrow> 'a word \<Rightarrow> 'a word" where
  "saturating_add a b = (if unat a + unat b < 2 ^ LENGTH('a) then a + b else - 1)"

definition checked_add :: "'a::len word \<Rightarrow> 'a word \<Rightarrow> 'a word option" where
  "checked_add a b = (if unat a + unat b < 2 ^ LENGTH('a) then Some (a + b) else None)"

lemma unat_saturating_add:
  fixes a b :: "'a::len word"
  shows "unat (saturating_add a b) = min (unat a + unat b) (2 ^ LENGTH('a) - 1)"
  by (auto simp: saturating_add_def unat_word_ariths unsigned_minus_1_eq_mask mask_eq_exp_minus_1)

lemma saturating_add_0 [simp]: "saturating_add a 0 = a"
  by (simp add: saturating_add_def unsigned_less)

lemma saturating_add_ge: "a \<le> saturating_add a b"
  for a b :: "'a::len word"
proof -
  have "unat a < 2 ^ LENGTH('a)" by (rule unsigned_less)
  then have "unat a \<le> 2 ^ LENGTH('a) - 1" by linarith
  then show ?thesis unfolding word_le_nat_alt unat_saturating_add by simp
qed

lemma checked_add_Some:
  "checked_add a b = Some c \<Longrightarrow> unat c = unat a + unat b"
  by (auto simp: checked_add_def unat_word_ariths split: if_splits)

lemma checked_add_less:
  "checked_add a 1 = Some c \<Longrightarrow> a < c"
  by (drule checked_add_Some) (simp add: word_less_nat_alt)

lemma checked_add_one_iff: "checked_add a 1 \<noteq> None \<longleftrightarrow> a \<noteq> - 1"
  for a :: "'a::len word"
proof -
  have lt: "unat a < 2 ^ LENGTH('a)" by (rule unsigned_less)
  have "a = - 1 \<longleftrightarrow> unat a = 2 ^ LENGTH('a) - 1"
    by (metis mask_eq_exp_minus_1 unsigned_minus_1_eq_mask word_unat_eq_iff)
  moreover have "unat a + 1 < 2 ^ LENGTH('a) \<longleftrightarrow> unat a \<noteq> 2 ^ LENGTH('a) - 1"
    using lt by linarith
  ultimately show ?thesis
    by (simp add: checked_add_def)
qed

lemma unat_Suc_below:
  fixes a b :: "'a::len word"
  assumes "a < b"
  shows "unat (a + 1) = Suc (unat a)"
proof -
  have "unat a < unat b" using assms by (simp add: word_less_nat_alt)
  moreover have "unat b < 2 ^ LENGTH('a)" by (rule unsigned_less)
  ultimately have "Suc (unat a) < 2 ^ LENGTH('a)" by linarith
  then show ?thesis by (simp add: unat_word_ariths)
qed

lemma unat_pred_pos:
  fixes a :: "'a::len word"
  assumes "a \<noteq> 0"
  shows "Suc (unat (a - 1)) = unat a"
  using assms by (metis Suc_pred' unat_gt_0 unat_minus_one)

section \<open>Strings as UTF-8 bytes\<close>

abbreviation byte :: "char \<Rightarrow> nat" where
  "byte c \<equiv> of_char c"

definition is_ascii_lowercase :: "char \<Rightarrow> bool" where
  "is_ascii_lowercase c \<longleftrightarrow> 97 \<le> byte c \<and> byte c \<le> 122"

definition is_ascii_uppercase :: "char \<Rightarrow> bool" where
  "is_ascii_uppercase c \<longleftrightarrow> 65 \<le> byte c \<and> byte c \<le> 90"

definition is_ascii_digit :: "char \<Rightarrow> bool" where
  "is_ascii_digit c \<longleftrightarrow> 48 \<le> byte c \<and> byte c \<le> 57"

definition is_ascii_alphanumeric :: "char \<Rightarrow> bool" where
  "is_ascii_alphanumeric c \<longleftrightarrow> is_ascii_lowercase c \<or> is_ascii_uppercase c \<or> is_ascii_digit c"

definition is_ascii_hexdigit :: "char \<Rightarrow> bool" where
  "is_ascii_hexdigit c \<longleftrightarrow>
     is_ascii_digit c \<or> (97 \<le> byte c \<and> byte c \<le> 102) \<or> (65 \<le> byte c \<and> byte c \<le> 70)"

lemmas ascii_defs [rust_simps] =
  is_ascii_lowercase_def is_ascii_uppercase_def is_ascii_digit_def
  is_ascii_alphanumeric_def is_ascii_hexdigit_def

text \<open>
  \<open>str::trim\<close> strips the characters with the Unicode property White\_Space; \<open>trim_is_empty s\<close> is
  \<open>s.trim().is_empty()\<close>, i.e. every character of \<open>s\<close> is one of them. Their UTF-8 encodings are one
  byte (tab, newline, vertical tab, form feed, return, space), two bytes (U+0085, U+00A0) or three
  bytes (U+1680, U+2000 to U+200A, U+2028, U+2029, U+202F, U+205F, U+3000).
\<close>

definition whitespace1 :: "char \<Rightarrow> bool" where
  "whitespace1 c \<longleftrightarrow> (9 \<le> byte c \<and> byte c \<le> 13) \<or> byte c = 32"

definition whitespace2 :: "char \<Rightarrow> char \<Rightarrow> bool" where
  "whitespace2 c d \<longleftrightarrow> byte c = 0xC2 \<and> (byte d = 0x85 \<or> byte d = 0xA0)"

definition whitespace3 :: "char \<Rightarrow> char \<Rightarrow> char \<Rightarrow> bool" where
  "whitespace3 c d e \<longleftrightarrow>
     (byte c = 0xE1 \<and> byte d = 0x9A \<and> byte e = 0x80) \<or>
     (byte c = 0xE2 \<and> byte d = 0x80 \<and>
        ((0x80 \<le> byte e \<and> byte e \<le> 0x8A) \<or> byte e = 0xA8 \<or> byte e = 0xA9 \<or> byte e = 0xAF)) \<or>
     (byte c = 0xE2 \<and> byte d = 0x81 \<and> byte e = 0x9F) \<or>
     (byte c = 0xE3 \<and> byte d = 0x80 \<and> byte e = 0x80)"

fun trim_is_empty :: "string \<Rightarrow> bool" where
  "trim_is_empty [] = True"
| "trim_is_empty [c] = whitespace1 c"
| "trim_is_empty [c, d] =
     (if whitespace1 c then trim_is_empty [d] else whitespace2 c d)"
| "trim_is_empty (c # d # e # cs) =
     (if whitespace1 c then trim_is_empty (d # e # cs)
      else if whitespace2 c d then trim_is_empty (e # cs)
      else whitespace3 c d e \<and> trim_is_empty cs)"

lemmas whitespace_defs [rust_simps] = whitespace1_def whitespace2_def whitespace3_def

lemma trim_is_empty_Nil: "\<not> trim_is_empty s \<Longrightarrow> s \<noteq> []"
  by auto

text \<open>\<open>char::is_control\<close> on UTF-8 bytes: U+0000 to U+001F, U+007F and, as C2 80 to C2 9F, U+0080 to U+009F.\<close>

fun contains_control :: "string \<Rightarrow> bool" where
  "contains_control [] = False"
| "contains_control (c # cs) =
     (byte c < 0x20 \<or> byte c = 0x7F
      \<or> (byte c = 0xC2 \<and> cs \<noteq> [] \<and> 0x80 \<le> byte (hd cs) \<and> byte (hd cs) \<le> 0x9F)
      \<or> contains_control cs)"

section \<open>Results\<close>

text \<open>
  An early return \<open>if c { return Err(e) }\<close> and the operator \<open>?\<close>, read backwards from a success: the
  guard did not fire, the call before succeeded. Rewriting with these follows one path through a
  handler instead of splitting all of them.
\<close>

named_theorems result_simps \<open>success of a guarded computation\<close>

lemma guard_Inr [result_simps]:
  "(if c then Inl e else y) = Inr z \<longleftrightarrow> \<not> c \<and> y = Inr z"
  by simp

lemma try_unit_Inr [result_simps]:
  "(case x of Inl e \<Rightarrow> Inl e | Inr (u :: unit) \<Rightarrow> y) = Inr z \<longleftrightarrow> x = Inr () \<and> y = Inr z"
  by (auto split: sum.splits)

lemma try_Inr [result_simps]:
  "(case x of Inl e \<Rightarrow> Inl e | Inr a \<Rightarrow> f a) = Inr z \<longleftrightarrow> (\<exists>a. x = Inr a \<and> f a = Inr z)"
  by (auto split: sum.splits)

lemma ok_or_Inr [result_simps]:
  "(case x of None \<Rightarrow> Inl e | Some a \<Rightarrow> f a) = Inr z \<longleftrightarrow> (\<exists>a. x = Some a \<and> f a = Inr z)"
  by (auto split: option.splits)

lemma option_check_Inr [result_simps]:
  "(case x of None \<Rightarrow> Inr () | Some a \<Rightarrow> f a) = Inr () \<longleftrightarrow> (\<forall>a. x = Some a \<longrightarrow> f a = Inr ())"
  by (auto split: option.splits)

section \<open>Lists\<close>

text \<open>\<open>xs.sort(); xs.dedup()\<close>, and the in-order contents of a \<open>BTreeSet\<close> filled with \<open>xs\<close>.\<close>

definition sort_dedup :: "'a::linorder list \<Rightarrow> 'a list" where
  "sort_dedup xs = remdups_adj (sort xs)"

lemma distinct_remdups_adj_sorted: "sorted xs \<Longrightarrow> distinct (remdups_adj xs)"
proof (induction xs rule: remdups_adj.induct)
  case (3 x y xs)
  then show ?case by (cases "x = y") (auto simp: less_le)
qed simp_all

lemma set_sort_dedup [simp]: "set (sort_dedup xs) = set xs"
  by (simp add: sort_dedup_def)

lemma sort_dedup_Nil_iff [simp]: "sort_dedup xs = [] \<longleftrightarrow> xs = []"
  by (metis set_empty set_sort_dedup)

lemma sorted_sort_dedup [simp]: "sorted (sort_dedup xs)"
  by (simp add: sort_dedup_def sorted_remdups_adj)

lemma distinct_sort_dedup [simp]: "distinct (sort_dedup xs)"
  by (simp add: sort_dedup_def distinct_remdups_adj_sorted)

lemma sort_dedup_eq: "sort_dedup xs = sorted_list_of_set (set xs)"
  by (metis distinct_sort_dedup set_sort_dedup sorted_list_of_set.idem_if_sorted_distinct
      sorted_sort_dedup)

lemma sort_dedup_eq_iff: "sort_dedup xs = sort_dedup ys \<longleftrightarrow> set xs = set ys"
proof
  assume "sort_dedup xs = sort_dedup ys"
  then have "set (sort_dedup xs) = set (sort_dedup ys)" by (rule arg_cong)
  then show "set xs = set ys" by simp
qed (simp add: sort_dedup_eq)

text \<open>Two vectors compared after \<open>sort()\<close> are equal iff they hold the same elements as often.\<close>

lemma sort_eq_iff_mset: "sort xs = sort ys \<longleftrightarrow> mset xs = mset ys"
  by (metis mset_sort properties_for_sort sorted_sort)

text \<open>\<open>keys.sort(); keys.dedup(); keys.len() == count\<close>: no key occurs twice.\<close>

lemma length_sort_dedup_eq_iff: "length (sort_dedup xs) = length xs \<longleftrightarrow> distinct xs"
  by (metis card_distinct distinct_card distinct_sort_dedup set_sort_dedup)

text \<open>Sorting after a map is sorting by the composed key.\<close>

lemma insort_key_map: "insort_key k (f x) (map f ys) = map f (insort_key (\<lambda>y. k (f y)) x ys)"
  by (induction ys) auto

lemma sort_key_map: "sort_key k (map f xs) = map f (sort_key (\<lambda>y. k (f y)) xs)"
  by (induction xs) (simp_all add: insort_key_map)

lemma find_Some_filter: "find P xs = Some x \<Longrightarrow> x \<in> set xs \<and> P x"
  by (auto simp: find_Some_iff)

lemma find_SomeI: "x \<in> set xs \<Longrightarrow> P x \<Longrightarrow> \<exists>y. find P xs = Some y"
  by (metis find_None_iff not_Some_eq)

lemma list_all_iff_set: "list_all P xs \<longleftrightarrow> (\<forall>x \<in> set xs. P x)"
  by (rule list_all_iff)

section \<open>Contracts several components share\<close>

text \<open>
  A component of the daemon is a reducer \<open>step :: state \<Rightarrow> event \<Rightarrow> error + state\<close>: it returns the
  next state or the reason of the refusal, and a refused event changes nothing.
\<close>

fun run_events :: "('s \<Rightarrow> 'e \<Rightarrow> 'err + 's) \<Rightarrow> 's \<Rightarrow> 'e list \<Rightarrow> 's" where
  "run_events step s [] = s"
| "run_events step s (e # es) =
     (case step s e of Inl _ \<Rightarrow> run_events step s es | Inr t \<Rightarrow> run_events step t es)"

fun accepted_events :: "('s \<Rightarrow> 'e \<Rightarrow> 'err + 's) \<Rightarrow> 's \<Rightarrow> 'e list \<Rightarrow> 'e list" where
  "accepted_events step s [] = []"
| "accepted_events step s (e # es) =
     (case step s e of Inl _ \<Rightarrow> accepted_events step s es
      | Inr t \<Rightarrow> e # accepted_events step t es)"

lemma run_events_append:
  "run_events step s (es @ fs) = run_events step (run_events step s es) fs"
  by (induction es arbitrary: s) (auto split: sum.splits)

text \<open>The last accepted event was accepted in the state its accepted predecessors lead to.\<close>

lemma accepted_events_snoc:
  "accepted_events step s es = ps @ [e] \<Longrightarrow>
   step (run_events step s ps) e = Inr (run_events step s es)"
proof (induction es arbitrary: s ps)
  case (Cons d es)
  show ?case
  proof (cases "step s d")
    case (Inl x)
    with Cons show ?thesis by simp
  next
    case (Inr t)
    show ?thesis
    proof (cases ps)
      case Nil
      with Inr Cons.prems have "accepted_events step t es = []" and "e = d" by auto
      then have "run_events step t es = t"
        by (induction es) (auto split: sum.splits)
      with Inr Nil \<open>e = d\<close> show ?thesis by simp
    next
      case (Cons p qs)
      with Inr Cons.prems have "accepted_events step t es = qs @ [e]" and "p = d" by auto
      with Inr Cons Cons.IH show ?thesis by simp
    qed
  qed
qed simp

text \<open>A reducer that keeps an invariant keeps it along every history.\<close>

locale guarded_reducer =
  fixes step :: "'s \<Rightarrow> 'e \<Rightarrow> 'err + 's" and inv :: "'s \<Rightarrow> bool"
  assumes step_inv: "inv s \<Longrightarrow> step s e = Inr t \<Longrightarrow> inv t"
begin

lemma run_inv: "inv s \<Longrightarrow> inv (run_events step s es)"
  by (induction es arbitrary: s) (auto split: sum.splits intro: step_inv)

end

text \<open>A reducer that spends an allowance accepts no more events than the allowance pays for.\<close>

locale metered_reducer = guarded_reducer +
  fixes meter :: "'s \<Rightarrow> nat"
  assumes step_meter: "inv s \<Longrightarrow> step s e = Inr t \<Longrightarrow> meter t < meter s"
begin

lemma accepted_meter:
  "inv s \<Longrightarrow> length (accepted_events step s es) + meter (run_events step s es) \<le> meter s"
proof (induction es arbitrary: s)
  case (Cons e es)
  show ?case
  proof (cases "step s e")
    case (Inr t)
    then have "inv t" and "meter t < meter s"
      using Cons.prems by (auto intro: step_inv step_meter)
    with Inr Cons.IH [of t] show ?thesis by simp
  qed (use Cons in simp)
qed simp

lemma accepted_bounded: "inv s \<Longrightarrow> length (accepted_events step s es) \<le> meter s"
  using accepted_meter [of s es] by simp

end

text \<open>A reducer whose ended states refuse every event never leaves an ended state.\<close>

locale ending_reducer =
  fixes step :: "'s \<Rightarrow> 'e \<Rightarrow> 'err + 's" and ended :: "'s \<Rightarrow> bool"
  assumes ended_refuses: "ended s \<Longrightarrow> step s e \<noteq> Inr t"
begin

lemma run_ended: "ended s \<Longrightarrow> run_events step s es = s"
  by (induction es) (auto split: sum.splits simp: ended_refuses)

lemma accepted_ended: "ended s \<Longrightarrow> accepted_events step s es = []"
  by (induction es) (auto split: sum.splits simp: ended_refuses)

end

text \<open>
  A table of allowed edges \<open>can_transition_to\<close> between status values: the terminal values are
  exactly those without an outgoing edge.
\<close>

locale edge_table =
  fixes can :: "'s \<Rightarrow> 's \<Rightarrow> bool" and terminal :: "'s \<Rightarrow> bool"
  assumes terminal_iff: "terminal s \<longleftrightarrow> (\<forall>t. \<not> can s t)"
begin

lemma terminal_absorbs: "can\<^sup>*\<^sup>* s t \<Longrightarrow> terminal s \<Longrightarrow> t = s"
  by (induction rule: rtranclp_induct) (auto simp: terminal_iff)

lemma progress: "\<not> terminal s \<Longrightarrow> \<exists>t. can s t"
  by (simp add: terminal_iff)

end

end
