(* ===== verification/Btree.thy ===== *)
theory Btree
  imports Vm_Prelude
begin

text \<open>
  \<open>std::collections::BTreeMap\<close> as the code uses it: an association list with strictly increasing
  keys, which is what iteration over the map yields. \<open>btree_insert\<close> is \<open>insert\<close> (the last value
  stays), \<open>btree_collect\<close> is \<open>collect()\<close> from an iterator of pairs, \<open>map_of\<close> is \<open>get\<close>.

  The locale \<open>ordered_map\<close> is the contract the components rely on: what a lookup returns after an
  insert, and that two maps with the same lookups are the same.
\<close>

fun btree_insert :: "'k::linorder \<Rightarrow> 'v \<Rightarrow> ('k \<times> 'v) list \<Rightarrow> ('k \<times> 'v) list" where
  "btree_insert k v [] = [(k, v)]"
| "btree_insert k v ((l, w) # m) =
     (if k < l then (k, v) # (l, w) # m
      else if k = l then (k, v) # m
      else (l, w) # btree_insert k v m)"

definition btree_collect :: "('k::linorder \<times> 'v) list \<Rightarrow> ('k \<times> 'v) list" where
  "btree_collect ps = fold (\<lambda>(k, v). btree_insert k v) ps []"

definition btree :: "('k::linorder \<times> 'v) list \<Rightarrow> bool" where
  "btree m \<longleftrightarrow> sorted_wrt (<) (map fst m)"

lemma btree_Nil [simp]: "btree []"
  by (simp add: btree_def)

lemma keys_btree_insert: "fst ` set (btree_insert k v m) = insert k (fst ` set m)"
  by (induction k v m rule: btree_insert.induct) auto

lemma btree_insert_btree [simp]: "btree m \<Longrightarrow> btree (btree_insert k v m)"
proof (induction k v m rule: btree_insert.induct)
  case (2 k v l w m)
  have "\<forall>x \<in> fst ` set (btree_insert k v m). l < x" if "l < k"
    using that "2.prems" by (simp add: keys_btree_insert btree_def)
  with 2 show ?case by (fastforce simp: btree_def not_less)
qed (simp add: btree_def)

lemma map_of_btree_insert [simp]: "btree m \<Longrightarrow> map_of (btree_insert k v m) = (map_of m)(k \<mapsto> v)"
proof (induction k v m rule: btree_insert.induct)
  case (2 k v l w m)
  then have "btree m" by (simp add: btree_def)
  with 2 show ?case by (auto simp: fun_upd_twist)
qed simp

lemma btree_distinct: "btree m \<Longrightarrow> distinct (map fst m)"
  by (simp add: btree_def strict_sorted_iff)

lemma btree_sorted: "btree m \<Longrightarrow> sorted (map fst m)"
  by (simp add: btree_def strict_sorted_iff)

lemma map_of_nth_distinct:
  "distinct (map fst m) \<Longrightarrow> i < length m \<Longrightarrow> map_of m (fst (m ! i)) = Some (snd (m ! i))"
  by (metis map_of_is_SomeI nth_mem prod.collapse)

lemma btree_unfold: "btree m \<Longrightarrow> m = map (\<lambda>k. (k, the (map_of m k))) (map fst m)"
  by (rule nth_equalityI) (auto simp: map_of_nth_distinct btree_distinct)

lemma btree_eqI: "btree m \<Longrightarrow> btree n \<Longrightarrow> map_of m = map_of n \<Longrightarrow> m = n"
proof -
  assume m: "btree m" and n: "btree n" and eq: "map_of m = map_of n"
  have "set (map fst m) = set (map fst n)"
    using eq by (metis dom_map_of_conv_image_fst list.set_map)
  then have "map fst m = map fst n"
    using m n by (meson btree_distinct btree_sorted sorted_distinct_set_unique)
  then show "m = n"
    using btree_unfold [OF m] btree_unfold [OF n] eq by simp
qed

section \<open>The contract of an ordered map\<close>

locale ordered_map =
  fixes emp :: 'm and ins :: "'k \<Rightarrow> 'v \<Rightarrow> 'm \<Rightarrow> 'm" and get :: "'m \<Rightarrow> 'k \<rightharpoonup> 'v"
    and inv :: "'m \<Rightarrow> bool"
  assumes inv_emp: "inv emp" and inv_ins: "inv m \<Longrightarrow> inv (ins k v m)"
    and get_emp: "get emp = Map.empty"
    and get_ins: "inv m \<Longrightarrow> get (ins k v m) = (get m)(k \<mapsto> v)"
    and get_inject: "inv m \<Longrightarrow> inv n \<Longrightarrow> get m = get n \<Longrightarrow> m = n"
begin

lemma inv_fold: "inv m \<Longrightarrow> inv (fold (\<lambda>(k, v). ins k v) ps m)"
  by (induction ps arbitrary: m) (auto simp: inv_ins)

text \<open>Collecting pairs keeps the last value of every key.\<close>

lemma get_fold: "inv m \<Longrightarrow> get (fold (\<lambda>(k, v). ins k v) ps m) = get m ++ map_of (rev ps)"
proof (induction ps arbitrary: m)
  case (Cons p ps)
  then show ?case
    by (cases p) (simp add: inv_ins get_ins map_add_upd_left [symmetric] map_add_assoc [symmetric]
        map_add_def fun_eq_iff split: option.splits)
qed simp

lemma collect_eq_iff:
  "fold (\<lambda>(k, v). ins k v) ps emp = fold (\<lambda>(k, v). ins k v) qs emp \<longleftrightarrow>
   map_of (rev ps) = map_of (rev qs)"
proof -
  have "get (fold (\<lambda>(k, v). ins k v) xs emp) = map_of (rev xs)" for xs
    by (simp add: get_fold inv_emp get_emp)
  then show ?thesis by (metis get_inject inv_emp inv_fold)
qed

end

interpretation btree_map: ordered_map "[]" btree_insert map_of btree
  by unfold_locales (auto intro: btree_eqI)

lemma btree_collect_btree [simp]: "btree (btree_collect ps)"
  unfolding btree_collect_def by (simp add: btree_map.inv_fold)

lemma map_of_btree_collect [simp]: "map_of (btree_collect ps) = map_of (rev ps)"
  unfolding btree_collect_def by (simp add: btree_map.get_fold)

lemma btree_collect_id: "btree m \<Longrightarrow> btree_collect m = m"
proof (rule btree_eqI)
  assume "btree m"
  then show "map_of (btree_collect m) = map_of m"
    by (simp add: map_of_inject_set btree_distinct rev_map [symmetric] distinct_rev)
qed simp_all

end
