(* ===== verification/Domain.thy ===== *)
theory Domain
  imports Vm_Prelude
begin

text \<open>
  The canonical domain model of \<open>crates/vibemux_types/src/lib.rs\<close> and its restoration from stored
  rows, \<open>crates/vibemux_types/src/restore.rs\<close>: opaque non-nil identifiers, the task and run status
  tables, the two records with their validated constructors, their transitions, and the
  \<open>Deserialize\<close> implementations that validate a stored row again.

  The random identifier a constructor draws (\<open>Uuid::new_v4\<close>) is an argument of the model. A stored
  row is the decoded \<open>TaskRecord\<close> or \<open>RunRecord\<close>, before its identifiers are checked.

  The lemmas show that terminal statuses are exactly the stuck ones, that every operation keeps a
  record well formed and its identity fixed, that a run becomes \<open>succeeded\<close> only by an authorised
  request made while it was running, and that storing and restoring is the identity exactly on
  well-formed records.
\<close>

section \<open>Errors and limits\<close>

definition MAX_TITLE_BYTES :: nat where "MAX_TITLE_BYTES = 512"
definition MAX_DESCRIPTION_BYTES :: nat where "MAX_DESCRIPTION_BYTES = 64 * 1024"
definition MAX_NAME_BYTES :: nat where "MAX_NAME_BYTES = 128"
definition MAX_BASE_COMMIT_BYTES :: nat where "MAX_BASE_COMMIT_BYTES = 128"

lemmas domain_limits [rust_simps] =
  MAX_TITLE_BYTES_def MAX_DESCRIPTION_BYTES_def MAX_NAME_BYTES_def MAX_BASE_COMMIT_BYTES_def

datatype domain_error =
    InvalidId string
  | InvalidRequiredField string nat
  | FieldTooLarge string nat
  | InvalidTransition string string string
  | CompletionAuthorityRequired
  | InvalidBaseCommit

fun domain_error_code :: "domain_error \<Rightarrow> string" where
  "domain_error_code (InvalidId _) = ''invalid_id''"
| "domain_error_code (InvalidRequiredField _ _) = ''invalid_required_field''"
| "domain_error_code (FieldTooLarge _ _) = ''field_too_large''"
| "domain_error_code (InvalidTransition _ _ _) = ''invalid_state_transition''"
| "domain_error_code CompletionAuthorityRequired = ''completion_authority_required''"
| "domain_error_code InvalidBaseCommit = ''invalid_base_commit''"

section \<open>Identifiers\<close>

text \<open>The macro \<open>define_id!\<close>: one opaque type per entity, never the nil UUID.\<close>

definition id_from_uuid :: "string \<Rightarrow> uuid \<Rightarrow> domain_error + uuid" where
  "id_from_uuid entity value = (if is_nil value then Inl (InvalidId entity) else Inr value)"

text \<open>\<open>from_str\<close>: the parser of the \<open>uuid\<close> crate is a parameter.\<close>

definition id_from_str :: "(string \<Rightarrow> uuid option) \<Rightarrow> string \<Rightarrow> string \<Rightarrow> domain_error + uuid" where
  "id_from_str parse_str entity value =
     (case parse_str value of
        None \<Rightarrow> Inl (InvalidId entity)
      | Some parsed \<Rightarrow> (case id_from_uuid entity parsed of
            Inl _ \<Rightarrow> Inl (InvalidId entity)
          | Inr i \<Rightarrow> Inr i))"

section \<open>Status tables\<close>

datatype task_status = TaskOpen | TaskInProgress | TaskBlocked | TaskDone | TaskCancelled

fun task_status_as_str :: "task_status \<Rightarrow> string" where
  "task_status_as_str TaskOpen = ''open''"
| "task_status_as_str TaskInProgress = ''in_progress''"
| "task_status_as_str TaskBlocked = ''blocked''"
| "task_status_as_str TaskDone = ''done''"
| "task_status_as_str TaskCancelled = ''cancelled''"

fun task_can_transition_to :: "task_status \<Rightarrow> task_status \<Rightarrow> bool" where
  "task_can_transition_to TaskOpen t = (t = TaskInProgress \<or> t = TaskCancelled)"
| "task_can_transition_to TaskInProgress t = (t = TaskBlocked \<or> t = TaskDone \<or> t = TaskCancelled)"
| "task_can_transition_to TaskBlocked t = (t = TaskInProgress \<or> t = TaskCancelled)"
| "task_can_transition_to _ _ = False"

datatype run_status = RunPreparing | RunRunning | RunStopped | RunFailed | RunSucceeded | RunStale

fun run_status_as_str :: "run_status \<Rightarrow> string" where
  "run_status_as_str RunPreparing = ''preparing''"
| "run_status_as_str RunRunning = ''running''"
| "run_status_as_str RunStopped = ''stopped''"
| "run_status_as_str RunFailed = ''failed''"
| "run_status_as_str RunSucceeded = ''succeeded''"
| "run_status_as_str RunStale = ''stale''"

fun run_can_transition_to :: "run_status \<Rightarrow> run_status \<Rightarrow> bool" where
  "run_can_transition_to RunPreparing t = (t = RunRunning \<or> t = RunFailed)"
| "run_can_transition_to RunRunning t =
     (t = RunStopped \<or> t = RunFailed \<or> t = RunSucceeded \<or> t = RunStale)"
| "run_can_transition_to RunStale t = (t = RunStopped \<or> t = RunFailed)"
| "run_can_transition_to _ _ = False"

datatype run_completion_authority = StructuredAdapter | Verifier | User

section \<open>Field validation\<close>

definition validate_required :: "string \<Rightarrow> string \<Rightarrow> nat \<Rightarrow> domain_error + unit" where
  "validate_required field value max_bytes =
     (if trim_is_empty value \<or> length value > max_bytes
      then Inl (InvalidRequiredField field max_bytes) else Inr ())"

definition validate_optional :: "string \<Rightarrow> string \<Rightarrow> nat \<Rightarrow> domain_error + unit" where
  "validate_optional field value max_bytes =
     (if length value > max_bytes then Inl (FieldTooLarge field max_bytes) else Inr ())"

definition validate_base_commit :: "string \<Rightarrow> domain_error + unit" where
  "validate_base_commit value =
     (if length value < 7 \<or> length value > MAX_BASE_COMMIT_BYTES
         \<or> \<not> list_all is_ascii_hexdigit value
      then Inl InvalidBaseCommit else Inr ())"

section \<open>Tasks\<close>

record domain_task_spec =
  dts_project_id :: uuid
  dts_title :: string
  dts_description :: string

record task =
  tk_task_id :: uuid
  tk_project_id :: uuid
  tk_title :: string
  tk_description :: string
  tk_status :: task_status

definition task_new :: "uuid \<Rightarrow> domain_task_spec \<Rightarrow> domain_error + task" where
  "task_new fresh spec =
     (case validate_required ''title'' (dts_title spec) MAX_TITLE_BYTES of Inl e \<Rightarrow> Inl e | Inr _ \<Rightarrow>
     (case validate_optional ''description'' (dts_description spec) MAX_DESCRIPTION_BYTES of
        Inl e \<Rightarrow> Inl e | Inr _ \<Rightarrow>
      Inr \<lparr>tk_task_id = fresh, tk_project_id = dts_project_id spec, tk_title = dts_title spec,
           tk_description = dts_description spec, tk_status = TaskOpen\<rparr>))"

definition task_transitioned :: "task \<Rightarrow> task_status \<Rightarrow> domain_error + task" where
  "task_transitioned self target =
     (if \<not> task_can_transition_to (tk_status self) target
      then Inl (InvalidTransition ''task'' (task_status_as_str (tk_status self))
                  (task_status_as_str target))
      else Inr (self\<lparr>tk_status := target\<rparr>))"

section \<open>Runs\<close>

record run_spec =
  rs_project_id :: uuid
  rs_task_id :: uuid
  rs_harness :: string
  rs_role :: string
  rs_protocol :: string
  rs_base_commit :: string

record run =
  rn_run_id :: uuid
  rn_project_id :: uuid
  rn_task_id :: uuid
  rn_harness :: string
  rn_role :: string
  rn_protocol :: string
  rn_base_commit :: string
  rn_status :: run_status

definition run_new :: "uuid \<Rightarrow> run_spec \<Rightarrow> domain_error + run" where
  "run_new fresh spec =
     (case validate_required ''harness'' (rs_harness spec) MAX_NAME_BYTES of Inl e \<Rightarrow> Inl e | Inr _ \<Rightarrow>
     (case validate_required ''role'' (rs_role spec) MAX_NAME_BYTES of Inl e \<Rightarrow> Inl e | Inr _ \<Rightarrow>
     (case validate_required ''protocol'' (rs_protocol spec) MAX_NAME_BYTES of
        Inl e \<Rightarrow> Inl e | Inr _ \<Rightarrow>
     (case validate_base_commit (rs_base_commit spec) of Inl e \<Rightarrow> Inl e | Inr _ \<Rightarrow>
      Inr \<lparr>rn_run_id = fresh, rn_project_id = rs_project_id spec, rn_task_id = rs_task_id spec,
           rn_harness = rs_harness spec, rn_role = rs_role spec, rn_protocol = rs_protocol spec,
           rn_base_commit = rs_base_commit spec, rn_status = RunPreparing\<rparr>))))"

definition run_transitioned ::
  "run \<Rightarrow> run_status \<Rightarrow> run_completion_authority option \<Rightarrow> domain_error + run" where
  "run_transitioned self target completion_authority =
     (if \<not> run_can_transition_to (rn_status self) target
      then Inl (InvalidTransition ''run'' (run_status_as_str (rn_status self))
                  (run_status_as_str target))
      else if target = RunSucceeded \<and> completion_authority = None
      then Inl CompletionAuthorityRequired
      else Inr (self\<lparr>rn_status := target\<rparr>))"

section \<open>Restoration of stored rows\<close>

record task_record =
  tr_task_id :: uuid
  tr_project_id :: uuid
  tr_title :: string
  tr_description :: string
  tr_status :: task_status

definition task_deserialize :: "task_record \<Rightarrow> domain_error + task" where
  "task_deserialize r =
     (case id_from_uuid ''task'' (tr_task_id r) of Inl e \<Rightarrow> Inl e | Inr task_id \<Rightarrow>
     (case id_from_uuid ''project'' (tr_project_id r) of Inl e \<Rightarrow> Inl e | Inr project_id \<Rightarrow>
     (case validate_required ''title'' (tr_title r) MAX_TITLE_BYTES of Inl e \<Rightarrow> Inl e | Inr _ \<Rightarrow>
     (case validate_optional ''description'' (tr_description r) MAX_DESCRIPTION_BYTES of
        Inl e \<Rightarrow> Inl e | Inr _ \<Rightarrow>
      Inr \<lparr>tk_task_id = task_id, tk_project_id = project_id, tk_title = tr_title r,
           tk_description = tr_description r, tk_status = tr_status r\<rparr>))))"

record run_record =
  rr_run_id :: uuid
  rr_project_id :: uuid
  rr_task_id :: uuid
  rr_harness :: string
  rr_role :: string
  rr_protocol :: string
  rr_base_commit :: string
  rr_status :: run_status

definition run_deserialize :: "run_record \<Rightarrow> domain_error + run" where
  "run_deserialize r =
     (case id_from_uuid ''run'' (rr_run_id r) of Inl e \<Rightarrow> Inl e | Inr run_id \<Rightarrow>
     (case id_from_uuid ''project'' (rr_project_id r) of Inl e \<Rightarrow> Inl e | Inr project_id \<Rightarrow>
     (case id_from_uuid ''task'' (rr_task_id r) of Inl e \<Rightarrow> Inl e | Inr task_id \<Rightarrow>
     (case validate_required ''harness'' (rr_harness r) MAX_NAME_BYTES of Inl e \<Rightarrow> Inl e | Inr _ \<Rightarrow>
     (case validate_required ''role'' (rr_role r) MAX_NAME_BYTES of Inl e \<Rightarrow> Inl e | Inr _ \<Rightarrow>
     (case validate_required ''protocol'' (rr_protocol r) MAX_NAME_BYTES of
        Inl e \<Rightarrow> Inl e | Inr _ \<Rightarrow>
     (case validate_base_commit (rr_base_commit r) of Inl e \<Rightarrow> Inl e | Inr _ \<Rightarrow>
      Inr \<lparr>rn_run_id = run_id, rn_project_id = project_id, rn_task_id = task_id,
           rn_harness = rr_harness r, rn_role = rr_role r, rn_protocol = rr_protocol r,
           rn_base_commit = rr_base_commit r, rn_status = rr_status r\<rparr>)))))))"

text \<open>The derived \<open>Serialize\<close>: the row holds the record's fields unchanged.\<close>

definition task_serialize :: "task \<Rightarrow> task_record" where
  "task_serialize t =
     \<lparr>tr_task_id = tk_task_id t, tr_project_id = tk_project_id t, tr_title = tk_title t,
      tr_description = tk_description t, tr_status = tk_status t\<rparr>"

definition run_serialize :: "run \<Rightarrow> run_record" where
  "run_serialize r =
     \<lparr>rr_run_id = rn_run_id r, rr_project_id = rn_project_id r, rr_task_id = rn_task_id r,
      rr_harness = rn_harness r, rr_role = rn_role r, rr_protocol = rn_protocol r,
      rr_base_commit = rn_base_commit r, rr_status = rn_status r\<rparr>"

section \<open>Specification\<close>

definition name_ok :: "nat \<Rightarrow> string \<Rightarrow> bool" where
  "name_ok max_bytes s \<longleftrightarrow> \<not> trim_is_empty s \<and> length s \<le> max_bytes"

definition wf_task :: "task \<Rightarrow> bool" where
  "wf_task t \<longleftrightarrow> \<not> is_nil (tk_task_id t) \<and> \<not> is_nil (tk_project_id t) \<and>
     name_ok 512 (tk_title t) \<and> length (tk_description t) \<le> 65536"

definition wf_run :: "run \<Rightarrow> bool" where
  "wf_run r \<longleftrightarrow> \<not> is_nil (rn_run_id r) \<and> \<not> is_nil (rn_project_id r) \<and> \<not> is_nil (rn_task_id r) \<and>
     name_ok 128 (rn_harness r) \<and> name_ok 128 (rn_role r) \<and> name_ok 128 (rn_protocol r) \<and>
     7 \<le> length (rn_base_commit r) \<and> length (rn_base_commit r) \<le> 128 \<and>
     list_all is_ascii_hexdigit (rn_base_commit r)"

abbreviation task_terminal :: "task_status \<Rightarrow> bool" where
  "task_terminal s \<equiv> s = TaskDone \<or> s = TaskCancelled"

abbreviation run_terminal :: "run_status \<Rightarrow> bool" where
  "run_terminal s \<equiv> s = RunStopped \<or> s = RunFailed \<or> s = RunSucceeded"

text \<open>The run reducer over requests \<open>(target, authority)\<close>, and the task reducer over targets.\<close>

definition run_request ::
  "run \<Rightarrow> run_status \<times> run_completion_authority option \<Rightarrow> domain_error + run" where
  "run_request r q = run_transitioned r (fst q) (snd q)"

lemmas validation_defs = validate_required_def validate_optional_def validate_base_commit_def
  id_from_uuid_def name_ok_def domain_limits

interpretation task_edges: edge_table task_can_transition_to task_terminal
proof unfold_locales
  fix s
  show "task_terminal s \<longleftrightarrow> (\<forall>t. \<not> task_can_transition_to s t)"
    by (cases s) auto
qed

interpretation run_edges: edge_table run_can_transition_to run_terminal
proof unfold_locales
  fix s
  show "run_terminal s \<longleftrightarrow> (\<forall>t. \<not> run_can_transition_to s t)"
    by (cases s) auto
qed

interpretation task_guarded: guarded_reducer task_transitioned wf_task
  by unfold_locales (auto simp: task_transitioned_def wf_task_def split: if_splits)

interpretation run_guarded: guarded_reducer run_request wf_run
  by unfold_locales (auto simp: run_request_def run_transitioned_def wf_run_def split: if_splits)

interpretation task_ending: ending_reducer task_transitioned "\<lambda>t. task_terminal (tk_status t)"
  by unfold_locales (auto simp: task_transitioned_def split: if_splits)

interpretation run_ending: ending_reducer run_request "\<lambda>r. run_terminal (rn_status r)"
  by unfold_locales (auto simp: run_request_def run_transitioned_def split: if_splits)

section \<open>Lemmas\<close>

lemma task_new_wf:
  "task_new fresh spec = Inr t \<Longrightarrow> \<not> is_nil fresh \<Longrightarrow> \<not> is_nil (dts_project_id spec) \<Longrightarrow>
   wf_task t \<and> tk_status t = TaskOpen"
  by (auto simp: task_new_def wf_task_def validation_defs split: if_splits sum.splits)

lemma run_new_wf:
  "run_new fresh spec = Inr r \<Longrightarrow> \<not> is_nil fresh \<Longrightarrow> \<not> is_nil (rs_project_id spec) \<Longrightarrow>
   \<not> is_nil (rs_task_id spec) \<Longrightarrow> wf_run r \<and> rn_status r = RunPreparing"
  by (auto simp: run_new_def wf_run_def validation_defs split: if_splits sum.splits)

lemma run_request_Inr:
  "run_request r q = Inr r' \<longleftrightarrow>
   run_can_transition_to (rn_status r) (fst q) \<and> (fst q = RunSucceeded \<longrightarrow> snd q \<noteq> None) \<and>
   r' = r\<lparr>rn_status := fst q\<rparr>"
  by (auto simp: run_request_def run_transitioned_def)

text \<open>What the accepted requests of a history are, read backwards from its last status.\<close>

lemma run_history_status:
  "run_events run_request r qs =
     r\<lparr>rn_status := (if accepted_events run_request r qs = [] then rn_status r
                     else fst (last (accepted_events run_request r qs)))\<rparr>"
proof (induction qs arbitrary: r)
  case (Cons q qs)
  show ?case
  proof (cases "run_request r q")
    case (Inr r')
    then have "rn_status r' = fst q" and "r' = r\<lparr>rn_status := fst q\<rparr>"
      by (auto simp: run_request_Inr)
    with Inr Cons.IH [of r'] show ?thesis by simp
  qed (use Cons in simp)
qed simp

lemma accepted_requests_authorised:
  "(t, a) \<in> set (accepted_events run_request r qs) \<Longrightarrow> t = RunSucceeded \<Longrightarrow> a \<noteq> None"
  by (induction qs arbitrary: r) (auto simp: run_request_Inr split: sum.splits)

section \<open>Properties\<close>

text \<open>A run is never reported successful on its own word: whatever requests are made against a run
  that has not succeeded, if it ends up succeeded then its last accepted request was made while it
  was running and carried a completion authority (structured adapter, verifier or user).\<close>

theorem run_success_needs_authority:
  assumes "rn_status r \<noteq> RunSucceeded"
    and "rn_status (run_events run_request r qs) = RunSucceeded"
  shows "\<exists>ps a. accepted_events run_request r qs = ps @ [(RunSucceeded, Some a)] \<and>
           rn_status (run_events run_request r ps) = RunRunning"
proof -
  let ?acc = "accepted_events run_request r qs"
  have ne: "?acc \<noteq> []" and last: "fst (last ?acc) = RunSucceeded"
    using assms run_history_status [of r qs] by (auto split: if_splits)
  then obtain ps t a where acc: "?acc = ps @ [(t, a)]"
    by (metis append_butlast_last_id surj_pair)
  with last have t: "t = RunSucceeded" by simp
  then obtain x where a: "a = Some x"
    using accepted_requests_authorised [of t a r qs] acc by auto
  have "run_can_transition_to (rn_status (run_events run_request r ps)) RunSucceeded"
    using accepted_events_snoc [OF acc] t by (simp add: run_request_Inr)
  then have "rn_status (run_events run_request r ps) = RunRunning"
    by (cases "rn_status (run_events run_request r ps)") auto
  with acc t a show ?thesis by blast
qed

theorem run_success_needs_authority_witness:
  "\<exists>ps a. accepted_events run_request
      \<lparr>rn_run_id = 1, rn_project_id = 2, rn_task_id = 3, rn_harness = ''mock'', rn_role = ''worker'',
       rn_protocol = ''mock'', rn_base_commit = ''0123456'', rn_status = RunPreparing\<rparr>
      [(RunSucceeded, Some User), (RunRunning, None), (RunSucceeded, None),
       (RunSucceeded, Some Verifier)] = ps @ [(RunSucceeded, Some a)]"
proof -
  define r where "r = \<lparr>rn_run_id = 1, rn_project_id = 2, rn_task_id = 3, rn_harness = ''mock'',
    rn_role = ''worker'', rn_protocol = ''mock'', rn_base_commit = ''0123456'',
    rn_status = RunPreparing\<rparr>"
  have "rn_status r \<noteq> RunSucceeded"
    and "rn_status (run_events run_request r [(RunSucceeded, Some User), (RunRunning, None),
           (RunSucceeded, None), (RunSucceeded, Some Verifier)]) = RunSucceeded"
    by (simp_all add: r_def run_request_def run_transitioned_def)
  from run_success_needs_authority [OF this] show ?thesis unfolding r_def by blast
qed

text \<open>Restoration accepts exactly what construction accepts: a stored task or run row restores to a
  record if and only if it is that record's own row and the record is well formed (identifiers not
  nil, names present and bounded in bytes, a hexadecimal base commit of 7 to 128 digits), whatever
  status was stored.\<close>

theorem restore_exactly_well_formed:
  "(task_deserialize row = Inr t \<longleftrightarrow> row = task_serialize t \<and> wf_task t) \<and>
   (run_deserialize row' = Inr r \<longleftrightarrow> row' = run_serialize r \<and> wf_run r)"
proof
  show "task_deserialize row = Inr t \<longleftrightarrow> row = task_serialize t \<and> wf_task t"
    by (cases row; cases t)
      (auto simp: task_deserialize_def task_serialize_def wf_task_def validation_defs
        split: if_splits sum.splits)
  show "run_deserialize row' = Inr r \<longleftrightarrow> row' = run_serialize r \<and> wf_run r"
    by (cases row'; cases r)
      (auto simp: run_deserialize_def run_serialize_def wf_run_def validation_defs
        split: if_splits sum.splits)
qed

text \<open>Task and run status tables: a status is terminal (done or cancelled for a task; stopped,
  failed or succeeded for a run) exactly when no edge leaves it, and a record with a terminal status
  is unchanged by every history of requests.\<close>

theorem terminal_statuses_are_final:
  "((\<exists>t. task_can_transition_to s t) \<longleftrightarrow> \<not> task_terminal s) \<and>
   ((\<exists>t. run_can_transition_to u t) \<longleftrightarrow> \<not> run_terminal u) \<and>
   run_events task_transitioned (k\<lparr>tk_status := TaskDone\<rparr>) ts = k\<lparr>tk_status := TaskDone\<rparr> \<and>
   run_events task_transitioned (k\<lparr>tk_status := TaskCancelled\<rparr>) ts = k\<lparr>tk_status := TaskCancelled\<rparr> \<and>
   run_events run_request (r\<lparr>rn_status := RunStopped\<rparr>) qs = r\<lparr>rn_status := RunStopped\<rparr> \<and>
   run_events run_request (r\<lparr>rn_status := RunFailed\<rparr>) qs = r\<lparr>rn_status := RunFailed\<rparr> \<and>
   run_events run_request (r\<lparr>rn_status := RunSucceeded\<rparr>) qs = r\<lparr>rn_status := RunSucceeded\<rparr>"
  by (simp add: task_edges.terminal_iff run_edges.terminal_iff task_ending.run_ended
      run_ending.run_ended)

end
