(* ===== verification/Identifiers.thy ===== *)
theory Identifiers
  imports Vm_Prelude "HOL-Library.Sublist"
begin

text \<open>
  Bounded identifiers and path patterns, \<open>crates/vibemux_workflow/src/identifiers.rs\<close>: the
  \<open>SpecIdentifier\<close> and \<open>PathPattern\<close> newtypes with their checked constructors, and the scope algebra
  of patterns (\<open>matches\<close>, \<open>is_within\<close>, \<open>overlaps\<close>) on which path ownership, forbidden paths and
  writable roots rest.

  Both newtypes are strings here; \<open>spec_identifier_new\<close> and \<open>path_pattern_new\<close> are the only way the
  program makes them, so a valid one satisfies \<open>is_snake_case\<close> or \<open>valid_pattern\<close>.

  The lemmas give the semantics of the algebra: a pattern covers the set of valid relative paths it
  matches, \<open>is_within\<close> is exactly inclusion of those sets and \<open>overlaps\<close> exactly their meeting. The
  locale \<open>scope_algebra\<close> is the contract the snapshot and policy code relies on.
\<close>

section \<open>Snake case identifiers\<close>

type_synonym spec_identifier = string

definition MAX_IDENTIFIER_BYTES :: nat where "MAX_IDENTIFIER_BYTES = 64"
definition MAX_PATH_PATTERN_BYTES :: nat where "MAX_PATH_PATTERN_BYTES = 240"
definition RECURSIVE_SUFFIX :: string where "RECURSIVE_SUFFIX = ''/**''"

datatype identifier_error = InvalidIdentifier | InvalidPathPattern

fun identifier_error_code :: "identifier_error \<Rightarrow> string" where
  "identifier_error_code InvalidIdentifier = ''workflow_invalid_identifier''"
| "identifier_error_code InvalidPathPattern = ''workflow_invalid_path_pattern''"

definition is_snake_case :: "string \<Rightarrow> bool" where
  "is_snake_case value \<longleftrightarrow>
     value \<noteq> [] \<and> length value \<le> MAX_IDENTIFIER_BYTES \<and>
     is_ascii_lowercase (hd value) \<and>
     list_all (\<lambda>b. is_ascii_lowercase b \<or> is_ascii_digit b \<or> b = CHR ''_'') value \<and>
     \<not> sublist ''__'' value \<and> \<not> suffix ''_'' value"

definition spec_identifier_new :: "string \<Rightarrow> identifier_error + spec_identifier" where
  "spec_identifier_new value = (if is_snake_case value then Inr value else Inl InvalidIdentifier)"

section \<open>Relative paths\<close>

text \<open>\<open>str::split('/')\<close>: the segments between slashes, one more than there are slashes.\<close>

fun split_slash :: "string \<Rightarrow> string list" where
  "split_slash [] = [[]]"
| "split_slash (c # cs) =
     (if c = CHR ''/'' then [] # split_slash cs
      else (case split_slash cs of [] \<Rightarrow> [[c]] | seg # segs \<Rightarrow> (c # seg) # segs))"

definition path_byte :: "char \<Rightarrow> bool" where
  "path_byte b \<longleftrightarrow> is_ascii_alphanumeric b \<or> b = CHR ''.'' \<or> b = CHR ''_'' \<or> b = CHR ''-''"

definition path_segment :: "string \<Rightarrow> bool" where
  "path_segment segment \<longleftrightarrow>
     segment \<noteq> [] \<and> segment \<noteq> ''.'' \<and> segment \<noteq> ''..'' \<and> list_all path_byte segment"

definition is_relative_path :: "string \<Rightarrow> bool" where
  "is_relative_path value \<longleftrightarrow>
     value \<noteq> [] \<and> length value \<le> MAX_PATH_PATTERN_BYTES \<and>
     list_all path_segment (split_slash value)"

section \<open>Path patterns\<close>

type_synonym path_pattern = string

text \<open>\<open>strip_suffix("/**")\<close>, falling back to the value itself.\<close>

definition pattern_base :: "path_pattern \<Rightarrow> string" where
  "pattern_base self =
     (if suffix RECURSIVE_SUFFIX self then take (length self - length RECURSIVE_SUFFIX) self
      else self)"

definition path_pattern_new :: "string \<Rightarrow> identifier_error + path_pattern" where
  "path_pattern_new value =
     (if length value > MAX_PATH_PATTERN_BYTES then Inl InvalidPathPattern
      else if \<not> is_relative_path (pattern_base value) then Inl InvalidPathPattern
      else Inr value)"

definition is_recursive :: "path_pattern \<Rightarrow> bool" where
  "is_recursive self \<longleftrightarrow> suffix RECURSIVE_SUFFIX self"

text \<open>The indexing \<open>path.as_bytes()[base.len()]\<close> is guarded by the length test before it.\<close>

definition pattern_matches :: "path_pattern \<Rightarrow> string \<Rightarrow> bool" where
  "pattern_matches self path =
     (if is_recursive self
      then (let base = pattern_base self in
              length path > length base \<and> prefix base path \<and> path ! length base = CHR ''/'')
      else path = self)"

definition is_within :: "path_pattern \<Rightarrow> path_pattern \<Rightarrow> bool" where
  "is_within self outer =
     (if is_recursive outer
      then pattern_matches outer (pattern_base self) \<or>
           (is_recursive self \<and> pattern_base self = pattern_base outer)
      else \<not> is_recursive self \<and> self = outer)"

definition overlaps :: "path_pattern \<Rightarrow> path_pattern \<Rightarrow> bool" where
  "overlaps self other \<longleftrightarrow>
     is_within self other \<or> is_within other self \<or>
     (is_recursive self \<and> pattern_matches self (pattern_base other)) \<or>
     (is_recursive other \<and> pattern_matches other (pattern_base self))"

abbreviation valid_pattern :: "path_pattern \<Rightarrow> bool" where
  "valid_pattern p \<equiv> path_pattern_new p = Inr p"

section \<open>What a pattern covers\<close>

definition covers :: "path_pattern \<Rightarrow> string set" where
  "covers p = {path. is_relative_path path \<and> pattern_matches p path}"

subsection \<open>Splitting\<close>

lemma split_slash_not_Nil [simp]: "split_slash s \<noteq> []"
  by (cases s) (auto split: list.splits)

lemma split_slash_append_slash:
  "split_slash (xs @ CHR ''/'' # ys) = split_slash xs @ split_slash ys"
  by (induction xs) (auto split: list.splits)

lemma split_slash_no_slash: "CHR ''/'' \<notin> set s \<Longrightarrow> split_slash s = [s]"
  by (induction s) auto

lemma path_byte_not_slash [simp]: "\<not> path_byte CHR ''/''"
  by (simp add: path_byte_def ascii_defs)

lemma path_byte_not_star [simp]: "\<not> path_byte CHR ''*''"
  by (simp add: path_byte_def ascii_defs)

lemma path_segment_no_slash: "path_segment s \<Longrightarrow> CHR ''/'' \<notin> set s"
  by (auto simp: path_segment_def list_all_iff)

lemma is_relative_path_append:
  "is_relative_path (xs @ CHR ''/'' # ys) \<longleftrightarrow>
     length xs + length ys < MAX_PATH_PATTERN_BYTES \<and>
     list_all path_segment (split_slash xs) \<and> list_all path_segment (split_slash ys)"
  by (auto simp: is_relative_path_def split_slash_append_slash)

lemma path_segment_Nil [simp]: "\<not> path_segment []"
  by (simp add: path_segment_def)

lemma not_relative_trailing_slash: "\<not> is_relative_path (xs @ ''/'')"
  using is_relative_path_append [of xs "[]"] by auto

lemma star_not_relative: "\<not> is_relative_path (xs @ ''/**'')"
proof -
  have "\<not> path_segment ''**''" by (simp add: path_segment_def)
  moreover have "split_slash ''**'' = [''**'']" by (simp add: split_slash_no_slash)
  ultimately show ?thesis using is_relative_path_append [of xs "''**''"] by auto
qed

lemma path_segment_x [simp]: "path_segment [CHR ''x'']" "path_segment [CHR ''y'']"
  by (simp_all add: path_segment_def path_byte_def ascii_defs)

subsection \<open>The two shapes of a valid pattern\<close>

lemma recursive_suffix_simps [simp]:
  "is_recursive (b @ ''/**'')" "pattern_base (b @ ''/**'') = b"
  by (simp_all add: is_recursive_def pattern_base_def RECURSIVE_SUFFIX_def suffix_def)

lemma is_recursiveE:
  assumes "is_recursive p"
  obtains b where "p = b @ ''/**''"
  using assms by (auto simp: is_recursive_def RECURSIVE_SUFFIX_def suffix_def)

lemma pattern_base_plain: "\<not> is_recursive p \<Longrightarrow> pattern_base p = p"
  by (simp add: is_recursive_def pattern_base_def)

lemma valid_pattern_cases [consumes 1, case_names tree plain]:
  assumes "valid_pattern p"
  obtains b where "p = b @ ''/**''" "is_relative_path b" "length b \<le> 237"
  | "\<not> is_recursive p" "is_relative_path p" "pattern_base p = p"
proof (cases "is_recursive p")
  case True
  then obtain b where "p = b @ ''/**''" by (rule is_recursiveE)
  with assms show ?thesis
    by (intro that(1)) (auto simp: path_pattern_new_def MAX_PATH_PATTERN_BYTES_def split: if_splits)
next
  case False
  with assms show ?thesis
    by (intro that(2)) (auto simp: path_pattern_new_def pattern_base_plain split: if_splits)
qed

lemma matches_tree: "pattern_matches (b @ ''/**'') path \<longleftrightarrow> (\<exists>rest. path = b @ CHR ''/'' # rest)"
proof -
  have "length path > length b \<and> prefix b path \<and> path ! length b = CHR ''/'' \<longleftrightarrow>
        (\<exists>rest. path = b @ CHR ''/'' # rest)"
    by (auto simp: prefix_def nth_append) (metis Cons_nth_drop_Suc append_Nil2 drop0
        length_append less_add_same_cancel1 nth_Cons_0 length_greater_0_conv list.exhaust)
  then show ?thesis by (simp add: pattern_matches_def)
qed

lemma matches_plain: "\<not> is_recursive p \<Longrightarrow> pattern_matches p path \<longleftrightarrow> path = p"
  by (simp add: pattern_matches_def)

lemma relative_child:
  "is_relative_path b \<Longrightarrow> length b \<le> 237 \<Longrightarrow> path_segment [c] \<Longrightarrow>
   is_relative_path (b @ [CHR ''/'', c])"
  using is_relative_path_append [of b "[c]"] path_segment_no_slash [of "[c]"]
  by (auto simp: is_relative_path_def MAX_PATH_PATTERN_BYTES_def split_slash_no_slash)

text \<open>A path below one directory and below another: one directory is below or equal to the other.\<close>

lemma slash_prefix_cases:
  assumes "s @ CHR ''/'' # r = t @ CHR ''/'' # r'"
  shows "s = t \<or> (\<exists>u. s = t @ CHR ''/'' # u) \<or> (\<exists>u. t = s @ CHR ''/'' # u)"
  using assms by (auto simp: append_eq_append_conv2 Cons_eq_append_conv append_eq_Cons_conv)

lemma child_prefix_cases:
  assumes "s @ [CHR ''/'', c] = t @ CHR ''/'' # r" and "c \<noteq> CHR ''/''"
  shows "s = t \<or> (\<exists>u. s = t @ CHR ''/'' # u)"
  using assms by (auto simp: append_eq_append_conv2 Cons_eq_append_conv append_eq_Cons_conv)

lemma covers_tree:
  "covers (b @ ''/**'') = {path. is_relative_path path \<and> (\<exists>rest. path = b @ CHR ''/'' # rest)}"
  by (simp add: covers_def matches_tree)

lemma covers_plain:
  "\<not> is_recursive p \<Longrightarrow> is_relative_path p \<Longrightarrow> covers p = {p}"
  by (auto simp: covers_def matches_plain)

lemma covers_not_empty:
  assumes "valid_pattern p"
  shows "covers p \<noteq> {}"
  using assms
proof (cases p rule: valid_pattern_cases)
  case (tree b)
  then have "b @ ''/x'' \<in> covers p" by (simp add: covers_tree relative_child)
  then show ?thesis by blast
qed (simp_all add: covers_plain)

subsection \<open>Containment and meeting\<close>

lemma within_tree:
  "is_within p (b @ ''/**'') \<longleftrightarrow>
   (\<exists>u. pattern_base p = b @ CHR ''/'' # u) \<or> (is_recursive p \<and> pattern_base p = b)"
  by (simp add: is_within_def matches_tree)

lemma is_within_imp_covers:
  assumes "valid_pattern p" and "valid_pattern q" and "is_within p q"
  shows "covers p \<subseteq> covers q"
  using assms(2)
proof (cases q rule: valid_pattern_cases)
  case (tree b)
  show ?thesis
    using assms(1)
  proof (cases p rule: valid_pattern_cases)
    case (tree c)
    with assms(3) \<open>q = b @ ''/**''\<close> show ?thesis by (auto simp: within_tree covers_tree)
  next
    case plain
    with assms(3) \<open>q = b @ ''/**''\<close> show ?thesis by (auto simp: within_tree covers_tree covers_plain)
  qed
qed (use assms(3) in \<open>auto simp: is_within_def\<close>)

lemma covers_imp_is_within:
  assumes "valid_pattern p" and "valid_pattern q" and "covers p \<subseteq> covers q"
  shows "is_within p q"
  using assms(1)
proof (cases p rule: valid_pattern_cases)
  case (tree c)
  then have x: "c @ ''/x'' \<in> covers q" and y: "c @ ''/y'' \<in> covers q"
    using assms(3) by (auto simp: covers_tree relative_child)
  show ?thesis
    using assms(2)
  proof (cases q rule: valid_pattern_cases)
    case (tree b)
    with x have "c = b \<or> (\<exists>u. c = b @ CHR ''/'' # u)"
      by (auto simp: covers_tree dest: child_prefix_cases)
    with tree \<open>p = c @ ''/**''\<close> show ?thesis by (auto simp: within_tree)
  next
    case plain
    with x y have "c @ ''/x'' = c @ ''/y''" by (metis covers_plain singletonD)
    then show ?thesis by simp
  qed
next
  case plain
  then have "p \<in> covers q" using assms(3) by (simp add: covers_plain)
  show ?thesis
    using assms(2)
  proof (cases q rule: valid_pattern_cases)
    case (tree b)
    with \<open>p \<in> covers q\<close> plain show ?thesis by (auto simp: covers_tree within_tree)
  next
    case 2: plain
    with \<open>p \<in> covers q\<close> plain show ?thesis by (simp add: covers_plain is_within_def)
  qed
qed

lemma overlaps_eq: "overlaps p q \<longleftrightarrow> is_within p q \<or> is_within q p"
  by (auto simp: overlaps_def is_within_def)

lemma meet_imp_within:
  assumes "valid_pattern p" and "valid_pattern q" and "z \<in> covers p" and "z \<in> covers q"
  shows "is_within p q \<or> is_within q p"
  using assms(1)
proof (cases p rule: valid_pattern_cases)
  case (tree c)
  show ?thesis
    using assms(2)
  proof (cases q rule: valid_pattern_cases)
    case (tree b)
    with assms(3,4) \<open>p = c @ ''/**''\<close> have "c = b \<or> (\<exists>u. c = b @ CHR ''/'' # u) \<or> (\<exists>u. b = c @ CHR ''/'' # u)"
      by (auto simp: covers_tree dest: slash_prefix_cases)
    with tree \<open>p = c @ ''/**''\<close> show ?thesis by (auto simp: within_tree)
  next
    case plain
    with assms(3,4) \<open>p = c @ ''/**''\<close> show ?thesis by (auto simp: covers_tree covers_plain within_tree)
  qed
next
  case plain
  with assms(3,4) have "p \<in> covers q" by (simp add: covers_plain)
  with plain have "covers p \<subseteq> covers q" by (simp add: covers_plain)
  with assms(1,2) show ?thesis by (blast intro: covers_imp_is_within)
qed

text \<open>The contract of path scopes, for the code that asks only these three questions.\<close>

locale scope_algebra =
  fixes scope_valid :: "'p \<Rightarrow> bool" and scope_covers :: "'p \<Rightarrow> 'f set"
    and scope_within :: "'p \<Rightarrow> 'p \<Rightarrow> bool" and scope_meets :: "'p \<Rightarrow> 'p \<Rightarrow> bool"
  assumes within_iff: "scope_valid p \<Longrightarrow> scope_valid q \<Longrightarrow>
      scope_within p q \<longleftrightarrow> scope_covers p \<subseteq> scope_covers q"
    and meets_iff: "scope_valid p \<Longrightarrow> scope_valid q \<Longrightarrow>
      scope_meets p q \<longleftrightarrow> scope_covers p \<inter> scope_covers q \<noteq> {}"
begin

lemma within_trans:
  "scope_valid p \<Longrightarrow> scope_valid q \<Longrightarrow> scope_valid r \<Longrightarrow>
   scope_within p q \<Longrightarrow> scope_within q r \<Longrightarrow> scope_within p r"
  by (simp add: within_iff)

lemma meets_sym: "scope_valid p \<Longrightarrow> scope_valid q \<Longrightarrow> scope_meets p q \<longleftrightarrow> scope_meets q p"
  by (auto simp: meets_iff)

text \<open>Owned scopes inside the roots and apart from the forbidden ones: what is owned is writable.\<close>

lemma owned_paths_writable:
  assumes "scope_valid p" "\<forall>q \<in> Q. scope_valid q" "\<forall>r \<in> R. scope_valid r"
    and "\<exists>q \<in> Q. scope_within p q" and "\<forall>r \<in> R. \<not> scope_meets p r"
  shows "scope_covers p \<subseteq> (\<Union>q \<in> Q. scope_covers q) - (\<Union>r \<in> R. scope_covers r)"
  using assms by (fastforce simp: within_iff meets_iff)

end

interpretation path_scopes: scope_algebra valid_pattern covers is_within overlaps
proof unfold_locales
  fix p q
  assume valid: "valid_pattern p" "valid_pattern q"
  then show within: "is_within p q \<longleftrightarrow> covers p \<subseteq> covers q"
    by (metis is_within_imp_covers covers_imp_is_within)
  show "overlaps p q \<longleftrightarrow> covers p \<inter> covers q \<noteq> {}"
    using valid covers_not_empty [of p] covers_not_empty [of q] is_within_imp_covers [of p q]
      is_within_imp_covers [of q p] meet_imp_within [of p q]
    unfolding overlaps_eq by blast
qed

section \<open>Properties\<close>

text \<open>C37. The path scope algebra is exact. For two patterns that passed the constructor,
  \<open>is_within\<close> holds if and only if every valid relative path the first covers is covered by the
  second, and \<open>overlaps\<close> holds if and only if some valid relative path is covered by both; so no
  prefix that is not a directory boundary (\<open>tests/worker_a\<close> against \<open>tests/worker_ab\<close>) is mistaken
  for containment, and no real overlap is missed.\<close>

theorem path_pattern_algebra_exact:
  assumes "path_pattern_new p = Inr p" and "path_pattern_new q = Inr q"
  shows "(is_within p q \<longleftrightarrow>
            (\<forall>path. is_relative_path path \<and> pattern_matches p path \<longrightarrow> pattern_matches q path)) \<and>
         (overlaps p q \<longleftrightarrow>
            (\<exists>path. is_relative_path path \<and> pattern_matches p path \<and> pattern_matches q path))"
  using path_scopes.within_iff [OF assms] path_scopes.meets_iff [OF assms]
  unfolding covers_def by blast

lemma example_patterns:
  "valid_pattern ''tests/worker_a/**''" "valid_pattern ''tests/worker_ab/x.mjs''"
  by code_simp+

theorem path_pattern_algebra_exact_witness:
  "\<not> (\<exists>path. is_relative_path path \<and> pattern_matches ''tests/worker_a/**'' path \<and>
         pattern_matches ''tests/worker_ab/x.mjs'' path)"
proof -
  have "\<not> overlaps ''tests/worker_a/**'' ''tests/worker_ab/x.mjs''"
    by code_simp
  then show ?thesis
    using path_pattern_algebra_exact [OF example_patterns(1) example_patterns(2)] by blast
qed

end
