(* ===== verification/Leases.thy ===== *)
theory Leases
  imports Vm_Prelude
begin

text \<open>
  Fenced slot and worktree leases, \<open>crates/vibemux_workflow/src/leases.rs\<close>: the lease states and
  events, the reducer \<open>apply\<close> and the completion fence \<open>check_fence\<close>. Generations, clocks and
  deadlines are 64-bit words and the deadline extension saturates, as in the source.

  The lemmas classify each accepted event. They give the fencing story over whole histories: a missed
  heartbeat only quarantines, quarantine is never undone by a heartbeat, and a reservation ends only
  through a settled, reconciled or revoked attempt of the lease's own generation.
\<close>

section \<open>Model\<close>

datatype lease_state = LeaseActive | LeaseQuarantined | LeaseReleased | LeaseRevoked

fun lease_state_as_str :: "lease_state \<Rightarrow> string" where
  "lease_state_as_str LeaseActive = ''active''"
| "lease_state_as_str LeaseQuarantined = ''quarantined''"
| "lease_state_as_str LeaseReleased = ''released''"
| "lease_state_as_str LeaseRevoked = ''revoked''"

definition holds_reservation :: "lease_state \<Rightarrow> bool" where
  "holds_reservation s \<longleftrightarrow> s = LeaseActive \<or> s = LeaseQuarantined"

datatype lease_event =
    Heartbeat u64 u64             \<comment> \<open>generation, now\_ms\<close>
  | HeartbeatMissed u64           \<comment> \<open>now\_ms\<close>
  | AttemptSettled u64            \<comment> \<open>generation\<close>
  | Reconciled u64 bool           \<comment> \<open>generation, process\_gone\<close>
  | Revoke u64 bool               \<comment> \<open>generation, attempt\_settled\<close>

datatype lease_error =
  LeaseStaleGeneration | LeaseNotActive | LeaseEnded | HeartbeatNotMissed | AttemptUnsettled

fun lease_error_code :: "lease_error \<Rightarrow> string" where
  "lease_error_code LeaseStaleGeneration = ''workflow_lease_stale_generation''"
| "lease_error_code LeaseNotActive = ''workflow_lease_not_active''"
| "lease_error_code LeaseEnded = ''workflow_lease_ended''"
| "lease_error_code HeartbeatNotMissed = ''workflow_lease_heartbeat_not_missed''"
| "lease_error_code AttemptUnsettled = ''workflow_lease_attempt_unsettled''"

record lease_view =
  lv_generation :: u64
  lv_state :: lease_state
  lv_heartbeat_deadline_ms :: u64

definition lease_next :: "lease_view \<Rightarrow> lease_state \<Rightarrow> u64 \<Rightarrow> lease_view" where
  "lease_next lease state deadline =
     lease\<lparr>lv_state := state, lv_heartbeat_deadline_ms := deadline\<rparr>"

fun lease_apply :: "lease_view \<Rightarrow> lease_event \<Rightarrow> u64 \<Rightarrow> lease_error + lease_view" where
  "lease_apply lease event heartbeat_ms =
     (if \<not> holds_reservation (lv_state lease) then Inl LeaseEnded
      else (case event of
        Heartbeat generation now_ms \<Rightarrow>
          if generation \<noteq> lv_generation lease then Inl LeaseStaleGeneration
          else if lv_state lease \<noteq> LeaseActive then Inl LeaseNotActive
          else Inr (lease_next lease LeaseActive (saturating_add now_ms heartbeat_ms))
      | HeartbeatMissed now_ms \<Rightarrow>
          if now_ms \<le> lv_heartbeat_deadline_ms lease then Inl HeartbeatNotMissed
          else Inr (lease_next lease LeaseQuarantined (lv_heartbeat_deadline_ms lease))
      | AttemptSettled generation \<Rightarrow>
          if generation \<noteq> lv_generation lease then Inl LeaseStaleGeneration
          else Inr (lease_next lease LeaseReleased (lv_heartbeat_deadline_ms lease))
      | Reconciled generation process_gone \<Rightarrow>
          if generation \<noteq> lv_generation lease then Inl LeaseStaleGeneration
          else if lv_state lease \<noteq> LeaseQuarantined then Inl LeaseNotActive
          else Inr (lease_next lease (if process_gone then LeaseReleased else LeaseQuarantined)
                      (lv_heartbeat_deadline_ms lease))
      | Revoke generation attempt_settled \<Rightarrow>
          if generation \<noteq> lv_generation lease then Inl LeaseStaleGeneration
          else if \<not> attempt_settled then Inl AttemptUnsettled
          else Inr (lease_next lease LeaseRevoked (lv_heartbeat_deadline_ms lease))))"

definition check_fence :: "lease_view \<Rightarrow> u64 \<Rightarrow> lease_error + unit" where
  "check_fence lease claimed_generation =
     (if \<not> holds_reservation (lv_state lease) then Inl LeaseEnded
      else if claimed_generation \<noteq> lv_generation lease then Inl LeaseStaleGeneration
      else Inr ())"

section \<open>Specification and lemmas\<close>

text \<open>A lease's own step at a fixed heartbeat interval.\<close>

definition lease_step :: "u64 \<Rightarrow> lease_view \<Rightarrow> lease_event \<Rightarrow> lease_error + lease_view" where
  "lease_step h l e = lease_apply l e h"

text \<open>The events that end a reservation, for the generation that holds it.\<close>

fun ends_reservation :: "u64 \<Rightarrow> lease_event \<Rightarrow> bool" where
  "ends_reservation g (AttemptSettled generation) = (generation = g)"
| "ends_reservation g (Reconciled generation process_gone) = (generation = g \<and> process_gone)"
| "ends_reservation g (Revoke generation attempt_settled) = (generation = g \<and> attempt_settled)"
| "ends_reservation _ _ = False"

fun event_generation :: "lease_event \<Rightarrow> u64 option" where
  "event_generation (Heartbeat g _) = Some g"
| "event_generation (HeartbeatMissed _) = None"
| "event_generation (AttemptSettled g) = Some g"
| "event_generation (Reconciled g _) = Some g"
| "event_generation (Revoke g _) = Some g"

lemmas lease_defs = lease_step_def lease_next_def holds_reservation_def

lemma lease_step_holds: "lease_step h l e = Inr l' \<Longrightarrow> holds_reservation (lv_state l)"
  by (simp add: lease_step_def split: if_splits)

lemma lease_step_generation: "lease_step h l e = Inr l' \<Longrightarrow> lv_generation l' = lv_generation l"
  by (cases e) (auto simp: lease_defs split: if_splits)

lemma lease_step_end_iff:
  "lease_step h l e = Inr l' \<Longrightarrow>
   holds_reservation (lv_state l') \<longleftrightarrow> \<not> ends_reservation (lv_generation l) e"
  by (cases e) (auto simp: lease_defs split: if_splits)

lemma lease_step_fenced:
  "lease_step h l e = Inr l' \<Longrightarrow> event_generation e \<in> {None, Some (lv_generation l)}"
  by (cases e) (auto simp: lease_defs split: if_splits)

lemma lease_step_not_reactivated:
  "lease_step h l e = Inr l' \<Longrightarrow> lv_state l \<noteq> LeaseActive \<Longrightarrow> lv_state l' \<noteq> LeaseActive"
  by (cases e) (auto simp: lease_defs split: if_splits)

interpretation lease_generation: guarded_reducer "lease_step h" "\<lambda>l. lv_generation l = g" for h g
  by unfold_locales (simp add: lease_step_generation)

interpretation lease_inactive: guarded_reducer "lease_step h" "\<lambda>l. lv_state l \<noteq> LeaseActive" for h
  by unfold_locales (simp add: lease_step_not_reactivated)

interpretation lease_ending: ending_reducer "lease_step h" "\<lambda>l. \<not> holds_reservation (lv_state l)" for h
  by unfold_locales (auto dest: lease_step_holds)

lemma accepted_lease_events_fenced:
  "e \<in> set (accepted_events (lease_step h) l es) \<Longrightarrow>
   event_generation e \<in> {None, Some (lv_generation l)}"
proof (induction es arbitrary: l)
  case (Cons d es)
  then show ?case
    by (cases "lease_step h l d") (auto dest: lease_step_fenced, metis lease_step_generation)
qed simp

text \<open>The events accepted before the last one left the reservation in place.\<close>

lemma lease_history_end:
  assumes "holds_reservation (lv_state l)"
  shows "holds_reservation (lv_state (run_events (lease_step h) l es)) \<longleftrightarrow>
         (\<forall>e \<in> set (accepted_events (lease_step h) l es). \<not> ends_reservation (lv_generation l) e)"
  using assms
proof (induction es arbitrary: l)
  case (Cons e es)
  show ?case
  proof (cases "lease_step h l e")
    case (Inl x)
    with Cons show ?thesis by simp
  next
    case (Inr t)
    then have g: "lv_generation t = lv_generation l"
      and end_iff: "holds_reservation (lv_state t) \<longleftrightarrow> \<not> ends_reservation (lv_generation l) e"
      by (auto simp: lease_step_generation lease_step_end_iff)
    show ?thesis
    proof (cases "holds_reservation (lv_state t)")
      case True
      with Cons.IH [of t] Inr g end_iff show ?thesis by simp
    next
      case False
      with Inr end_iff show ?thesis by (simp add: lease_ending.run_ended)
    qed
  qed
qed simp

section \<open>Properties\<close>

text \<open>C10. A reservation is never lost silently. Starting from a lease that holds its slot and worktree,
  after any history of events the reservation is gone if and only if one of the accepted events
  settled the attempt, proved the process gone, or revoked a settled attempt, under the lease's own
  generation; heartbeats, missed heartbeats and inconclusive reconciliations never release it.\<close>

theorem lease_ends_only_when_proved:
  assumes "holds_reservation (lv_state l)"
  shows "\<not> holds_reservation (lv_state (run_events (lease_step h) l es)) \<longleftrightarrow>
         (\<exists>e \<in> set (accepted_events (lease_step h) l es). ends_reservation (lv_generation l) e)"
  using lease_history_end [OF assms] by blast

theorem lease_ends_only_when_proved_witness:
  "\<not> holds_reservation (lv_state (run_events (lease_step 500)
      \<lparr>lv_generation = 4, lv_state = LeaseActive, lv_heartbeat_deadline_ms = 1000\<rparr>
      [HeartbeatMissed 1001, Reconciled 4 False, AttemptSettled 3, Reconciled 4 True]))"
proof -
  let ?l = "\<lparr>lv_generation = 4, lv_state = LeaseActive, lv_heartbeat_deadline_ms = 1000\<rparr> :: lease_view"
  have holds: "holds_reservation (lv_state ?l)" by (simp add: holds_reservation_def)
  have "Reconciled 4 True \<in> set (accepted_events (lease_step 500) ?l
      [HeartbeatMissed 1001, Reconciled 4 False, AttemptSettled 3, Reconciled 4 True])"
    by (simp add: lease_defs)
  with lease_ends_only_when_proved [OF holds, of 500 "[HeartbeatMissed 1001, Reconciled 4 False, AttemptSettled 3, Reconciled 4 True]"]
  show ?thesis by force
qed

text \<open>Fencing over whole histories: the generation of a lease never changes, every accepted event
  that carries a generation carries the lease's own, a completion report passes \<open>check_fence\<close> exactly
  when the reservation still holds and the claimed generation is the lease's, and once a lease has
  been quarantined (or ended) no history makes it active again.\<close>

theorem lease_history_fenced:
  "lv_generation (run_events (lease_step h) l es) = lv_generation l \<and>
   set (List.map_filter event_generation (accepted_events (lease_step h) l es)) \<subseteq> {lv_generation l} \<and>
   (check_fence (run_events (lease_step h) l es) g = Inr () \<longleftrightarrow>
      holds_reservation (lv_state (run_events (lease_step h) l es)) \<and> g = lv_generation l) \<and>
   lv_state (run_events (lease_step h) (l\<lparr>lv_state := LeaseQuarantined\<rparr>) es) \<noteq> LeaseActive"
proof -
  have gen: "lv_generation (run_events (lease_step h) l es) = lv_generation l"
    by (rule lease_generation.run_inv) simp
  moreover have "set (List.map_filter event_generation (accepted_events (lease_step h) l es))
      \<subseteq> {lv_generation l}"
    using accepted_lease_events_fenced by (fastforce simp: map_filter_def)
  moreover have "lv_state (run_events (lease_step h) (l\<lparr>lv_state := LeaseQuarantined\<rparr>) es) \<noteq> LeaseActive"
    by (rule lease_inactive.run_inv) simp
  ultimately show ?thesis by (auto simp: check_fence_def)
qed

end
