(* ===== verification/Native_Controller.thy ===== *)
theory Native_Controller
  imports Vm_Prelude
begin

text \<open>
  Ownership and input delivery for a native or structured controller,
  \<open>crates/vibemux_workflow/src/native_controller.rs\<close>: the controller record with its validation, and
  the reducer \<open>apply_controller_command\<close>, one definition per command of the source's \<open>match\<close>. A
  command returns the next record and whether it was a duplicate; \<open>apply_controller_command\<close> is the
  frame around it (validation, fence, version, actor class, version bump, validation of the result).

  The lemmas show, over whole command histories, that input is begun at most once and in strictly
  increasing sequence, that the fence generation only grows and grows only by attaching the target of
  a handoff whose old owner was observed terminal with nothing unsettled, that only a human resolves
  the exact pending approval, and that the reducer's final validation never rejects what it built.
\<close>

section \<open>Data\<close>

definition CONTROLLER_SCHEMA_VERSION :: u32 where "CONTROLLER_SCHEMA_VERSION = 1"
definition MAX_INPUT_BYTES :: u64 where "MAX_INPUT_BYTES = 256 * 1024"

datatype controller_owner = OwnerStructured | OwnerNative | OwnerHuman uuid

definition owner_valid :: "controller_owner \<Rightarrow> bool" where
  "owner_valid self \<longleftrightarrow> (case self of OwnerHuman operator_id \<Rightarrow> \<not> is_nil operator_id | _ \<Rightarrow> True)"

datatype controller_actor = Automation | Adapter | ActorHuman uuid

datatype controller_phase =
  CtlActive | CtlPaused | CtlQuiescing | CtlAwaitingAttach | CtlClosed

record controller_identity =
  ci_workflow_id :: uuid
  ci_session_id :: uuid
  ci_controller_id :: uuid
  ci_contract_id :: digest
  ci_contract_version :: u32

record controller_fence =
  cf_controller_id :: uuid
  cf_generation :: u64

datatype delivery_state =
  DlvReserved | DlvSubmitted | DlvAcknowledged | DlvDeliveryUnknown | DlvSettled

datatype submission_outcome = OutCompleted | OutCancelled | OutFailed | OutNotDelivered

record input_reservation =
  ir_submission_id :: uuid
  ir_sequence :: u64
  ir_contract_id :: digest
  ir_prompt_digest :: digest
  ir_prompt_bytes :: u64

record submission_record =
  sr_reservation :: input_reservation
  sr_state :: delivery_state
  sr_outcome :: "submission_outcome option"

datatype interruption_state = IntRequested | IntAcknowledged | IntUnknown | IntSettled

record approval_challenge =
  ac_challenge_id :: uuid
  ac_requester_id :: uuid
  ac_session_id :: uuid
  ac_controller :: controller_fence
  ac_submission_id :: uuid
  ac_operation_digest :: digest
  ac_scope_digest :: digest

datatype approval_decision = Allow | Deny

record approval_resolution =
  ap_challenge :: approval_challenge
  ap_decision :: "approval_decision option"
  ap_operator_id :: "uuid option"

datatype handoff_transfer = SameSession digest | ContextTransfer uuid

record handoff_target =
  ht_controller_id :: uuid
  ht_session_id :: uuid
  ht_owner :: controller_owner
  ht_transfer :: handoff_transfer

record native_controller =
  nc_schema_version :: u32
  nc_identity :: controller_identity
  nc_generation :: u64
  nc_version :: u64
  nc_owner :: controller_owner
  nc_phase :: controller_phase
  nc_last_submission :: "submission_record option"
  nc_interruption :: "interruption_state option"
  nc_pending_approval :: "approval_challenge option"
  nc_last_approval_resolution :: "approval_resolution option"
  nc_handoff :: "handoff_target option"

datatype controller_error =
    CtlInvalid | CtlStaleFence | CtlStaleVersion | CtlActorNotAllowed | CtlPhaseForbids
  | CtlUnsettled | CtlSubmissionConflict | CtlDeliveryNotReplayable | CtlApprovalMismatch
  | CtlOldControllerNotTerminal | CtlInvalidContextTransfer | CtlCounterExhausted

fun controller_error_code :: "controller_error \<Rightarrow> string" where
  "controller_error_code CtlInvalid = ''controller_invalid''"
| "controller_error_code CtlStaleFence = ''controller_stale_fence''"
| "controller_error_code CtlStaleVersion = ''controller_stale_version''"
| "controller_error_code CtlActorNotAllowed = ''controller_actor_not_allowed''"
| "controller_error_code CtlPhaseForbids = ''controller_phase_forbids''"
| "controller_error_code CtlUnsettled = ''controller_unsettled''"
| "controller_error_code CtlSubmissionConflict = ''controller_submission_conflict''"
| "controller_error_code CtlDeliveryNotReplayable = ''controller_delivery_not_replayable''"
| "controller_error_code CtlApprovalMismatch = ''controller_approval_mismatch''"
| "controller_error_code CtlOldControllerNotTerminal = ''controller_old_owner_not_terminal''"
| "controller_error_code CtlInvalidContextTransfer = ''controller_invalid_context_transfer''"
| "controller_error_code CtlCounterExhausted = ''controller_counter_exhausted''"

datatype controller_observation = ObsTerminal | ObsPresent | ObsUnknown

datatype controller_command =
    Pause
  | Resume
  | ReserveSubmission input_reservation
  | BeginSubmission uuid
  | AcknowledgeSubmission uuid
  | DeliveryUnknown uuid
  | SettleSubmission uuid submission_outcome
  | RequestInterruption uuid
  | ObserveInterruption uuid bool
  | RaiseApproval approval_challenge
  | ResolveApproval approval_challenge approval_decision
  | BeginHandoff handoff_target
  | ObserveOldController controller_observation
  | Attach uuid uuid                 \<comment> \<open>controller\_id, session\_id\<close>
  | Close

section \<open>Validation\<close>

definition ctl_fence :: "native_controller \<Rightarrow> controller_fence" where
  "ctl_fence self =
     \<lparr>cf_controller_id = ci_controller_id (nc_identity self), cf_generation = nc_generation self\<rparr>"

definition has_unsettled_input :: "native_controller \<Rightarrow> bool" where
  "has_unsettled_input self =
     (case nc_last_submission self of None \<Rightarrow> False | Some sub \<Rightarrow> sr_state sub \<noteq> DlvSettled)"

definition validate_reservation ::
  "native_controller \<Rightarrow> input_reservation \<Rightarrow> controller_error + unit" where
  "validate_reservation self reservation =
     (if is_nil (ir_submission_id reservation) \<or> ir_sequence reservation = 0
         \<or> ir_prompt_bytes reservation = 0 \<or> ir_prompt_bytes reservation > MAX_INPUT_BYTES
         \<or> ir_contract_id reservation \<noteq> ci_contract_id (nc_identity self)
      then Inl CtlInvalid else Inr ())"

definition validate_challenge ::
  "native_controller \<Rightarrow> approval_challenge \<Rightarrow> controller_error + unit" where
  "validate_challenge self challenge =
     (let valid_submission =
        (case nc_last_submission self of None \<Rightarrow> False
         | Some sub \<Rightarrow> ir_submission_id (sr_reservation sub) = ac_submission_id challenge \<and>
             (sr_state sub = DlvSubmitted \<or> sr_state sub = DlvAcknowledged))
      in if is_nil (ac_challenge_id challenge) \<or> is_nil (ac_requester_id challenge)
            \<or> ac_session_id challenge \<noteq> ci_session_id (nc_identity self)
            \<or> ac_controller challenge \<noteq> ctl_fence self
            \<or> \<not> valid_submission
         then Inl CtlApprovalMismatch else Inr ())"

definition validate_target ::
  "native_controller \<Rightarrow> handoff_target \<Rightarrow> controller_error + unit" where
  "validate_target self target =
     (if is_nil (ht_controller_id target)
         \<or> ht_controller_id target = ci_controller_id (nc_identity self)
         \<or> is_nil (ht_session_id target) \<or> \<not> owner_valid (ht_owner target)
      then Inl CtlInvalid
      else if \<not> (case ht_transfer target of
                   SameSession _ \<Rightarrow> ht_session_id target = ci_session_id (nc_identity self)
                 | ContextTransfer bundle_id \<Rightarrow>
                     ht_session_id target \<noteq> ci_session_id (nc_identity self) \<and> \<not> is_nil bundle_id)
      then Inl CtlInvalidContextTransfer
      else Inr ())"

definition check_input_actor ::
  "native_controller \<Rightarrow> controller_actor \<Rightarrow> controller_error + unit" where
  "check_input_actor self actor =
     (let allowed = (case (nc_owner self, actor) of
         (OwnerStructured, Automation) \<Rightarrow> True
       | (OwnerNative, Automation) \<Rightarrow> True
       | (OwnerHuman operator_id, ActorHuman actual) \<Rightarrow> operator_id = actual
       | _ \<Rightarrow> False)
      in if allowed then Inr () else Inl CtlActorNotAllowed)"

text \<open>\<open>validate\<close>, in the source's order: identity and counters, the submission and its dependants, the
  pending approval, the last resolution, the handoff and its target, and the settled phases.\<close>

definition controller_validate :: "native_controller \<Rightarrow> controller_error + unit" where
  "controller_validate self =
     (if nc_schema_version self \<noteq> CONTROLLER_SCHEMA_VERSION
         \<or> is_nil (ci_workflow_id (nc_identity self)) \<or> is_nil (ci_session_id (nc_identity self))
         \<or> is_nil (ci_controller_id (nc_identity self)) \<or> ci_contract_version (nc_identity self) = 0
         \<or> nc_generation self = 0 \<or> nc_version self = 0 \<or> nc_version self < nc_generation self
         \<or> \<not> owner_valid (nc_owner self)
      then Inl CtlInvalid else
     (case (case nc_last_submission self of
         Some submission \<Rightarrow>
           (case validate_reservation self (sr_reservation submission) of Inl e \<Rightarrow> Inl e
            | Inr _ \<Rightarrow> if (sr_state submission = DlvSettled) \<noteq> (sr_outcome submission \<noteq> None)
                       then Inl CtlInvalid else Inr ())
       | None \<Rightarrow> if nc_interruption self \<noteq> None \<or> nc_pending_approval self \<noteq> None
                 then Inl CtlInvalid else Inr ()) of Inl e \<Rightarrow> Inl e | Inr _ \<Rightarrow>
     (case (case nc_pending_approval self of None \<Rightarrow> Inr ()
            | Some approval \<Rightarrow> validate_challenge self approval) of Inl e \<Rightarrow> Inl e | Inr _ \<Rightarrow>
      if (case nc_last_approval_resolution self of None \<Rightarrow> False
          | Some resolution \<Rightarrow>
              (ap_decision resolution \<noteq> None) \<noteq> (ap_operator_id resolution \<noteq> None)
              \<or> ap_operator_id resolution = Some 0
              \<or> is_nil (ac_challenge_id (ap_challenge resolution)))
      then Inl CtlInvalid
      else if (nc_phase self = CtlQuiescing \<or> nc_phase self = CtlAwaitingAttach)
              \<noteq> (nc_handoff self \<noteq> None)
      then Inl CtlInvalid
      else
     (case (case nc_handoff self of None \<Rightarrow> Inr ()
            | Some target \<Rightarrow> validate_target self target) of Inl e \<Rightarrow> Inl e | Inr _ \<Rightarrow>
      if (nc_phase self = CtlAwaitingAttach \<or> nc_phase self = CtlClosed)
         \<and> (has_unsettled_input self \<or> nc_pending_approval self \<noteq> None)
      then Inl CtlUnsettled
      else if nc_interruption self = Some IntSettled \<and> has_unsettled_input self
      then Inl CtlInvalid
      else Inr ()))))"

definition controller_new ::
  "controller_identity \<Rightarrow> controller_owner \<Rightarrow> controller_error + native_controller" where
  "controller_new identity owner =
     (let r = \<lparr>nc_schema_version = CONTROLLER_SCHEMA_VERSION, nc_identity = identity,
               nc_generation = 1, nc_version = 1, nc_owner = owner, nc_phase = CtlPaused,
               nc_last_submission = None, nc_interruption = None, nc_pending_approval = None,
               nc_last_approval_resolution = None, nc_handoff = None\<rparr>
      in case controller_validate r of Inl e \<Rightarrow> Inl e | Inr _ \<Rightarrow> Inr r)"

section \<open>Commands\<close>

type_synonym command_result = "controller_error + native_controller \<times> bool"

text \<open>\<open>matching_submission\<close> borrows the last submission mutably; here the update is given with it.\<close>

definition matching_submission ::
  "native_controller \<Rightarrow> uuid \<Rightarrow> controller_error + submission_record" where
  "matching_submission r submission_id =
     (case nc_last_submission r of
        Some sub \<Rightarrow> if ir_submission_id (sr_reservation sub) = submission_id then Inr sub
                    else Inl CtlSubmissionConflict
      | None \<Rightarrow> Inl CtlSubmissionConflict)"

definition set_submission :: "native_controller \<Rightarrow> submission_record \<Rightarrow> native_controller" where
  "set_submission r sub = r\<lparr>nc_last_submission := Some sub\<rparr>"

definition cmd_pause :: "native_controller \<Rightarrow> command_result" where
  "cmd_pause r =
     (if \<not> (nc_phase r = CtlActive \<or> nc_phase r = CtlPaused) then Inl CtlPhaseForbids
      else Inr (if nc_handoff r = None then r\<lparr>nc_phase := CtlPaused\<rparr> else r, False))"

definition cmd_resume :: "native_controller \<Rightarrow> controller_actor \<Rightarrow> command_result" where
  "cmd_resume r actor =
     (case check_input_actor r actor of Inl e \<Rightarrow> Inl e | Inr _ \<Rightarrow>
      if nc_phase r \<noteq> CtlPaused \<or> nc_pending_approval r \<noteq> None then Inl CtlPhaseForbids
      else Inr (r\<lparr>nc_phase := CtlActive\<rparr>, False))"

definition cmd_reserve_submission ::
  "native_controller \<Rightarrow> controller_actor \<Rightarrow> input_reservation \<Rightarrow> command_result" where
  "cmd_reserve_submission r actor reservation =
     (case check_input_actor r actor of Inl e \<Rightarrow> Inl e | Inr _ \<Rightarrow>
     (case validate_reservation r reservation of Inl e \<Rightarrow> Inl e | Inr _ \<Rightarrow>
      if nc_phase r \<noteq> CtlActive then Inl CtlPhaseForbids else
     (case (case nc_last_submission r of
         Some previous \<Rightarrow>
           if ir_submission_id (sr_reservation previous) = ir_submission_id reservation
           then (if sr_reservation previous \<noteq> reservation then Inl CtlSubmissionConflict else Inr True)
           else if sr_state previous \<noteq> DlvSettled \<or> nc_pending_approval r \<noteq> None
           then Inl CtlUnsettled else Inr False
       | None \<Rightarrow> Inr False) of
        Inl e \<Rightarrow> Inl e
      | Inr True \<Rightarrow> Inr (r, True)
      | Inr False \<Rightarrow>
         (case checked_add (case nc_last_submission r of None \<Rightarrow> 0
                            | Some value \<Rightarrow> ir_sequence (sr_reservation value)) 1 of
            None \<Rightarrow> Inl CtlCounterExhausted
          | Some sequence \<Rightarrow>
              if ir_sequence reservation \<noteq> sequence then Inl CtlSubmissionConflict
              else Inr (r\<lparr>nc_last_submission := Some \<lparr>sr_reservation = reservation,
                             sr_state = DlvReserved, sr_outcome = None\<rparr>,
                          nc_interruption := None\<rparr>, False)))))"

definition cmd_begin_submission ::
  "native_controller \<Rightarrow> controller_actor \<Rightarrow> uuid \<Rightarrow> command_result" where
  "cmd_begin_submission r actor submission_id =
     (case check_input_actor r actor of Inl e \<Rightarrow> Inl e | Inr _ \<Rightarrow>
      if nc_phase r \<noteq> CtlActive \<or> nc_pending_approval r \<noteq> None then Inl CtlPhaseForbids else
     (case matching_submission r submission_id of Inl e \<Rightarrow> Inl e | Inr sub \<Rightarrow>
      if sr_state sub \<noteq> DlvReserved then Inl CtlDeliveryNotReplayable
      else Inr (set_submission r (sub\<lparr>sr_state := DlvSubmitted\<rparr>), False)))"

definition cmd_acknowledge_submission :: "native_controller \<Rightarrow> uuid \<Rightarrow> command_result" where
  "cmd_acknowledge_submission r submission_id =
     (case matching_submission r submission_id of Inl e \<Rightarrow> Inl e | Inr sub \<Rightarrow>
      if \<not> (sr_state sub = DlvSubmitted \<or> sr_state sub = DlvDeliveryUnknown)
      then Inl CtlDeliveryNotReplayable
      else Inr (set_submission r (sub\<lparr>sr_state := DlvAcknowledged\<rparr>), False))"

definition cmd_delivery_unknown :: "native_controller \<Rightarrow> uuid \<Rightarrow> command_result" where
  "cmd_delivery_unknown r submission_id =
     (if nc_pending_approval r \<noteq> None then Inl CtlUnsettled else
     (case matching_submission r submission_id of Inl e \<Rightarrow> Inl e | Inr sub \<Rightarrow>
      if sr_state sub \<noteq> DlvSubmitted then Inl CtlDeliveryNotReplayable
      else (let next = set_submission r (sub\<lparr>sr_state := DlvDeliveryUnknown\<rparr>)
            in Inr (if nc_handoff next = None then next\<lparr>nc_phase := CtlPaused\<rparr> else next, False))))"

text \<open>Which delivery states an outcome may settle.\<close>

fun outcome_settles :: "submission_outcome \<Rightarrow> delivery_state \<Rightarrow> bool" where
  "outcome_settles OutCompleted st = (st = DlvAcknowledged)"
| "outcome_settles OutNotDelivered st = (st = DlvReserved \<or> st = DlvDeliveryUnknown)"
| "outcome_settles _ st = (st = DlvSubmitted \<or> st = DlvAcknowledged \<or> st = DlvDeliveryUnknown)"

definition cmd_settle_submission ::
  "native_controller \<Rightarrow> uuid \<Rightarrow> submission_outcome \<Rightarrow> command_result" where
  "cmd_settle_submission r submission_id outcome =
     (case matching_submission r submission_id of Inl e \<Rightarrow> Inl e | Inr sub \<Rightarrow>
      if \<not> outcome_settles outcome (sr_state sub) then Inl CtlDeliveryNotReplayable
      else if nc_pending_approval r \<noteq> None \<and> outcome = OutCompleted then Inl CtlUnsettled
      else (let n1 = set_submission r (sub\<lparr>sr_state := DlvSettled, sr_outcome := Some outcome\<rparr>);
                n2 = (case nc_pending_approval n1 of None \<Rightarrow> n1
                      | Some challenge \<Rightarrow> n1\<lparr>nc_pending_approval := None,
                          nc_last_approval_resolution := Some \<lparr>ap_challenge = challenge,
                            ap_decision = None, ap_operator_id = None\<rparr>\<rparr>);
                n3 = (if nc_interruption n2 \<noteq> None then n2\<lparr>nc_interruption := Some IntSettled\<rparr>
                      else n2)
            in Inr (n3, False)))"

definition cmd_request_interruption :: "native_controller \<Rightarrow> uuid \<Rightarrow> command_result" where
  "cmd_request_interruption r submission_id =
     (case matching_submission r submission_id of Inl e \<Rightarrow> Inl e | Inr sub \<Rightarrow>
      if sr_state sub = DlvReserved \<or> sr_state sub = DlvSettled then Inl CtlPhaseForbids
      else (let duplicate = (nc_interruption r \<noteq> None);
                n1 = (if duplicate then r else r\<lparr>nc_interruption := Some IntRequested\<rparr>);
                n2 = (if nc_phase n1 \<noteq> CtlQuiescing then n1\<lparr>nc_phase := CtlPaused\<rparr> else n1)
            in Inr (n2, duplicate)))"

definition cmd_observe_interruption :: "native_controller \<Rightarrow> uuid \<Rightarrow> bool \<Rightarrow> command_result" where
  "cmd_observe_interruption r submission_id acknowledged =
     (case matching_submission r submission_id of Inl e \<Rightarrow> Inl e | Inr _ \<Rightarrow>
      if \<not> (nc_interruption r = Some IntRequested \<or> nc_interruption r = Some IntUnknown)
      then Inl CtlPhaseForbids
      else Inr (r\<lparr>nc_interruption :=
                     Some (if acknowledged then IntAcknowledged else IntUnknown)\<rparr>, False))"

definition cmd_raise_approval :: "native_controller \<Rightarrow> approval_challenge \<Rightarrow> command_result" where
  "cmd_raise_approval r challenge =
     (case validate_challenge r challenge of Inl e \<Rightarrow> Inl e | Inr _ \<Rightarrow>
     (case nc_pending_approval r of
        Some existing \<Rightarrow> if existing \<noteq> challenge then Inl CtlApprovalMismatch else Inr (r, True)
      | None \<Rightarrow>
          if (case nc_last_approval_resolution r of None \<Rightarrow> False
              | Some value \<Rightarrow> ac_challenge_id (ap_challenge value) = ac_challenge_id challenge)
          then Inl CtlApprovalMismatch
          else Inr (r\<lparr>nc_pending_approval := Some challenge\<rparr>, False)))"

definition cmd_resolve_approval ::
  "native_controller \<Rightarrow> controller_actor \<Rightarrow> approval_challenge \<Rightarrow> approval_decision \<Rightarrow> command_result"
where
  "cmd_resolve_approval r actor challenge decision =
     (case actor of
        ActorHuman operator_id \<Rightarrow>
          if nc_pending_approval r \<noteq> Some challenge then Inl CtlApprovalMismatch else
         (case validate_challenge r challenge of Inl e \<Rightarrow> Inl e | Inr _ \<Rightarrow>
          Inr (r\<lparr>nc_pending_approval := None,
                 nc_last_approval_resolution := Some \<lparr>ap_challenge = challenge,
                   ap_decision = Some decision, ap_operator_id = Some operator_id\<rparr>\<rparr>, False))
      | _ \<Rightarrow> Inl CtlActorNotAllowed)"

definition cmd_begin_handoff ::
  "native_controller \<Rightarrow> controller_actor \<Rightarrow> handoff_target \<Rightarrow> command_result" where
  "cmd_begin_handoff r actor target =
     (if \<not> (nc_phase r = CtlActive \<or> nc_phase r = CtlPaused) then Inl CtlPhaseForbids else
     (case (case nc_owner r of OwnerHuman _ \<Rightarrow> check_input_actor r actor | _ \<Rightarrow> Inr ()) of
        Inl e \<Rightarrow> Inl e | Inr _ \<Rightarrow>
      if (case ht_owner target of
            OwnerHuman operator_id \<Rightarrow> actor \<noteq> ActorHuman operator_id | _ \<Rightarrow> False)
      then Inl CtlActorNotAllowed else
     (case validate_target r target of Inl e \<Rightarrow> Inl e | Inr _ \<Rightarrow>
      Inr (r\<lparr>nc_handoff := Some target, nc_phase := CtlQuiescing\<rparr>, False))))"

definition cmd_observe_old_controller ::
  "native_controller \<Rightarrow> controller_observation \<Rightarrow> command_result" where
  "cmd_observe_old_controller r observation =
     (if nc_phase r \<noteq> CtlQuiescing then Inl CtlPhaseForbids
      else if observation \<noteq> ObsTerminal then Inl CtlOldControllerNotTerminal
      else if has_unsettled_input r \<or> nc_pending_approval r \<noteq> None then Inl CtlUnsettled
      else Inr (r\<lparr>nc_phase := CtlAwaitingAttach\<rparr>, False))"

definition cmd_attach :: "native_controller \<Rightarrow> uuid \<Rightarrow> uuid \<Rightarrow> command_result" where
  "cmd_attach r controller_id session_id =
     (if nc_phase r \<noteq> CtlAwaitingAttach then Inl CtlOldControllerNotTerminal else
     (case nc_handoff r of None \<Rightarrow> Inl CtlInvalid | Some target \<Rightarrow>
      if controller_id \<noteq> ht_controller_id target \<or> session_id \<noteq> ht_session_id target
      then Inl CtlStaleFence else
     (case checked_add (nc_generation r) 1 of None \<Rightarrow> Inl CtlCounterExhausted | Some generation \<Rightarrow>
      Inr (r\<lparr>nc_generation := generation,
             nc_identity := (nc_identity r)\<lparr>ci_controller_id := ht_controller_id target,
                                            ci_session_id := ht_session_id target\<rparr>,
             nc_owner := ht_owner target, nc_phase := CtlPaused, nc_handoff := None\<rparr>, False))))"

definition cmd_close :: "native_controller \<Rightarrow> controller_actor \<Rightarrow> command_result" where
  "cmd_close r actor =
     (case check_input_actor r actor of Inl e \<Rightarrow> Inl e | Inr _ \<Rightarrow>
      if has_unsettled_input r \<or> nc_pending_approval r \<noteq> None \<or> nc_handoff r \<noteq> None
      then Inl CtlUnsettled
      else Inr (r\<lparr>nc_phase := CtlClosed\<rparr>, False))"

section \<open>The reducer\<close>

fun controller_dispatch ::
  "native_controller \<Rightarrow> controller_actor \<Rightarrow> controller_command \<Rightarrow> command_result" where
  "controller_dispatch r actor Pause = cmd_pause r"
| "controller_dispatch r actor Resume = cmd_resume r actor"
| "controller_dispatch r actor (ReserveSubmission i) = cmd_reserve_submission r actor i"
| "controller_dispatch r actor (BeginSubmission i) = cmd_begin_submission r actor i"
| "controller_dispatch r actor (AcknowledgeSubmission i) = cmd_acknowledge_submission r i"
| "controller_dispatch r actor (DeliveryUnknown i) = cmd_delivery_unknown r i"
| "controller_dispatch r actor (SettleSubmission i out) = cmd_settle_submission r i out"
| "controller_dispatch r actor (RequestInterruption i) = cmd_request_interruption r i"
| "controller_dispatch r actor (ObserveInterruption i ack) = cmd_observe_interruption r i ack"
| "controller_dispatch r actor (RaiseApproval c) = cmd_raise_approval r c"
| "controller_dispatch r actor (ResolveApproval c d) = cmd_resolve_approval r actor c d"
| "controller_dispatch r actor (BeginHandoff target) = cmd_begin_handoff r actor target"
| "controller_dispatch r actor (ObserveOldController ob) = cmd_observe_old_controller r ob"
| "controller_dispatch r actor (Attach c s) = cmd_attach r c s"
| "controller_dispatch r actor Close = cmd_close r actor"

fun adapter_command :: "controller_command \<Rightarrow> bool" where
  "adapter_command (AcknowledgeSubmission _) = True"
| "adapter_command (DeliveryUnknown _) = True"
| "adapter_command (SettleSubmission _ _) = True"
| "adapter_command (ObserveInterruption _ _) = True"
| "adapter_command (RaiseApproval _) = True"
| "adapter_command (ObserveOldController _) = True"
| "adapter_command (Attach _ _) = True"
| "adapter_command _ = False"

record controller_transition =
  ct_record :: native_controller
  ct_duplicate :: bool

definition apply_controller_command ::
  "native_controller \<Rightarrow> u64 \<Rightarrow> controller_fence \<Rightarrow> controller_actor \<Rightarrow> controller_command \<Rightarrow>
   controller_error + controller_transition" where
  "apply_controller_command r expected_version fence actor command =
     (case controller_validate r of Inl e \<Rightarrow> Inl e | Inr _ \<Rightarrow>
      if fence \<noteq> ctl_fence r then Inl CtlStaleFence
      else if expected_version \<noteq> nc_version r then Inl CtlStaleVersion
      else if nc_phase r = CtlClosed then Inl CtlPhaseForbids
      else if adapter_command command \<noteq> (actor = Adapter) \<or> actor = ActorHuman 0
      then Inl CtlActorNotAllowed
      else
     (case controller_dispatch r actor command of
        Inl e \<Rightarrow> Inl e
      | Inr (next, duplicate) \<Rightarrow>
          if duplicate then Inr \<lparr>ct_record = r, ct_duplicate = True\<rparr>
          else (case checked_add (nc_version r) 1 of None \<Rightarrow> Inl CtlCounterExhausted
                | Some version \<Rightarrow>
                   (let next = next\<lparr>nc_version := version\<rparr>
                    in case controller_validate next of Inl e \<Rightarrow> Inl e
                       | Inr _ \<Rightarrow> Inr \<lparr>ct_record = next, ct_duplicate = False\<rparr>))))"

lemmas command_defs = cmd_pause_def cmd_resume_def cmd_reserve_submission_def
  cmd_begin_submission_def cmd_acknowledge_submission_def cmd_delivery_unknown_def
  cmd_settle_submission_def cmd_request_interruption_def cmd_observe_interruption_def
  cmd_raise_approval_def cmd_resolve_approval_def cmd_begin_handoff_def
  cmd_observe_old_controller_def cmd_attach_def cmd_close_def

lemmas controller_splits = if_splits sum.splits option.splits prod.splits bool.splits
  controller_actor.splits controller_owner.splits

section \<open>Well-formed controllers\<close>

definition wf_submission :: "native_controller \<Rightarrow> bool" where
  "wf_submission r \<longleftrightarrow> (case nc_last_submission r of
      None \<Rightarrow> nc_interruption r = None \<and> nc_pending_approval r = None
    | Some sub \<Rightarrow> validate_reservation r (sr_reservation sub) = Inr () \<and>
        (sr_state sub = DlvSettled \<longleftrightarrow> sr_outcome sub \<noteq> None))"

definition wf_resolution :: "approval_resolution \<Rightarrow> bool" where
  "wf_resolution a \<longleftrightarrow> (ap_decision a \<noteq> None \<longleftrightarrow> ap_operator_id a \<noteq> None) \<and>
     ap_operator_id a \<noteq> Some 0 \<and> \<not> is_nil (ac_challenge_id (ap_challenge a))"

definition wf_identity :: "native_controller \<Rightarrow> bool" where
  "wf_identity r \<longleftrightarrow> nc_schema_version r = CONTROLLER_SCHEMA_VERSION \<and>
     \<not> is_nil (ci_workflow_id (nc_identity r)) \<and> \<not> is_nil (ci_session_id (nc_identity r)) \<and>
     \<not> is_nil (ci_controller_id (nc_identity r)) \<and> ci_contract_version (nc_identity r) \<noteq> 0 \<and>
     nc_generation r \<noteq> 0 \<and> nc_generation r \<le> nc_version r \<and> owner_valid (nc_owner r)"

definition wf_controller :: "native_controller \<Rightarrow> bool" where
  "wf_controller r \<longleftrightarrow> wf_identity r \<and> wf_submission r \<and>
     (\<forall>c. nc_pending_approval r = Some c \<longrightarrow> validate_challenge r c = Inr ()) \<and>
     (\<forall>a. nc_last_approval_resolution r = Some a \<longrightarrow> wf_resolution a) \<and>
     (nc_handoff r \<noteq> None \<longleftrightarrow> nc_phase r \<in> {CtlQuiescing, CtlAwaitingAttach}) \<and>
     (\<forall>t. nc_handoff r = Some t \<longrightarrow> validate_target r t = Inr ()) \<and>
     (nc_phase r \<in> {CtlAwaitingAttach, CtlClosed} \<longrightarrow>
        \<not> has_unsettled_input r \<and> nc_pending_approval r = None) \<and>
     (nc_interruption r = Some IntSettled \<longrightarrow> \<not> has_unsettled_input r)"

lemma controller_validate_iff: "controller_validate r = Inr () \<longleftrightarrow> wf_controller r"
proof -
  have sub: "(case nc_last_submission r of
         Some submission \<Rightarrow>
           (case validate_reservation r (sr_reservation submission) of Inl e \<Rightarrow> Inl e
            | Inr _ \<Rightarrow> if (sr_state submission = DlvSettled) \<noteq> (sr_outcome submission \<noteq> None)
                       then Inl CtlInvalid else Inr ())
       | None \<Rightarrow> if nc_interruption r \<noteq> None \<or> nc_pending_approval r \<noteq> None
                 then Inl CtlInvalid else Inr ()) = Inr () \<longleftrightarrow> wf_submission r"
    by (cases "nc_last_submission r") (simp_all add: wf_submission_def result_simps)
  have res: "(case nc_last_approval_resolution r of None \<Rightarrow> False
          | Some resolution \<Rightarrow>
              (ap_decision resolution \<noteq> None) \<noteq> (ap_operator_id resolution \<noteq> None)
              \<or> ap_operator_id resolution = Some 0
              \<or> is_nil (ac_challenge_id (ap_challenge resolution))) \<longleftrightarrow>
      \<not> (\<forall>a. nc_last_approval_resolution r = Some a \<longrightarrow> wf_resolution a)"
    by (cases "nc_last_approval_resolution r") (auto simp: wf_resolution_def)
  have "nc_generation r \<noteq> 0 \<Longrightarrow> nc_generation r \<le> nc_version r \<Longrightarrow> nc_version r \<noteq> 0"
    by auto
  then show ?thesis
    unfolding controller_validate_def result_simps sub res wf_controller_def wf_identity_def
    by (auto simp: not_less)
qed

section \<open>Every command keeps a controller well formed\<close>

text \<open>Validation of a part reads only the fields named here, so updates of the others drop out.\<close>

lemma validate_frames [simp]:
  "validate_reservation (nc_phase_update f r) = validate_reservation r"
  "validate_reservation (nc_last_submission_update g r) = validate_reservation r"
  "validate_reservation (nc_interruption_update i r) = validate_reservation r"
  "validate_reservation (nc_pending_approval_update p r) = validate_reservation r"
  "validate_reservation (nc_last_approval_resolution_update l r) = validate_reservation r"
  "validate_reservation (nc_handoff_update h r) = validate_reservation r"
  "validate_reservation (nc_version_update v r) = validate_reservation r"
  "validate_challenge (nc_phase_update f r) = validate_challenge r"
  "validate_challenge (nc_interruption_update i r) = validate_challenge r"
  "validate_challenge (nc_pending_approval_update p r) = validate_challenge r"
  "validate_challenge (nc_last_approval_resolution_update l r) = validate_challenge r"
  "validate_challenge (nc_handoff_update h r) = validate_challenge r"
  "validate_challenge (nc_version_update v r) = validate_challenge r"
  "validate_target (nc_phase_update f r) = validate_target r"
  "validate_target (nc_last_submission_update g r) = validate_target r"
  "validate_target (nc_interruption_update i r) = validate_target r"
  "validate_target (nc_pending_approval_update p r) = validate_target r"
  "validate_target (nc_last_approval_resolution_update l r) = validate_target r"
  "validate_target (nc_handoff_update h r) = validate_target r"
  "validate_target (nc_version_update v r) = validate_target r"
  by (rule ext, simp add: validate_reservation_def validate_challenge_def validate_target_def
      ctl_fence_def split: handoff_transfer.split)+

lemma has_unsettled_frames [simp]:
  "has_unsettled_input (nc_phase_update f r) = has_unsettled_input r"
  "has_unsettled_input (nc_interruption_update i r) = has_unsettled_input r"
  "has_unsettled_input (nc_pending_approval_update p r) = has_unsettled_input r"
  "has_unsettled_input (nc_last_approval_resolution_update l r) = has_unsettled_input r"
  "has_unsettled_input (nc_handoff_update h r) = has_unsettled_input r"
  "has_unsettled_input (nc_version_update v r) = has_unsettled_input r"
  by (simp_all add: has_unsettled_input_def)

lemma matching_submission_Inr:
  "matching_submission r s = Inr sub \<longleftrightarrow>
   nc_last_submission r = Some sub \<and> ir_submission_id (sr_reservation sub) = s"
  by (auto simp: matching_submission_def split: option.splits if_splits)

lemmas wf_defs = wf_controller_def wf_identity_def wf_submission_def

lemma wf_version: "wf_controller r \<Longrightarrow> nc_version r \<le> v \<Longrightarrow> wf_controller (r\<lparr>nc_version := v\<rparr>)"
  by (auto simp: wf_defs split: option.splits)

lemma wf_phase:
  "wf_controller r \<Longrightarrow> nc_handoff r = None \<Longrightarrow> p = CtlActive \<or> p = CtlPaused \<Longrightarrow>
   wf_controller (r\<lparr>nc_phase := p\<rparr>)"
  by (auto simp: wf_defs split: option.splits)

lemma wf_close:
  "wf_controller r \<Longrightarrow> nc_handoff r = None \<Longrightarrow> \<not> has_unsettled_input r \<Longrightarrow>
   nc_pending_approval r = None \<Longrightarrow> wf_controller (r\<lparr>nc_phase := CtlClosed\<rparr>)"
  by (auto simp: wf_defs split: option.splits)

lemma wf_handoff_iff:
  "wf_controller r \<Longrightarrow> nc_handoff r = None \<longleftrightarrow> nc_phase r \<notin> {CtlQuiescing, CtlAwaitingAttach}"
  unfolding wf_controller_def by blast

lemma wf_not_awaiting:
  "wf_controller r \<Longrightarrow> has_unsettled_input r \<Longrightarrow>
   nc_phase r \<in> {CtlActive, CtlPaused, CtlQuiescing}"
  unfolding wf_controller_def by (cases "nc_phase r") auto

text \<open>An unsettled submission moves between its delivery states.\<close>

lemma wf_set_state:
  assumes "wf_controller r" "nc_last_submission r = Some sub" "sr_state sub \<noteq> DlvSettled"
    "st \<noteq> DlvSettled"
    "nc_pending_approval r \<noteq> None \<longrightarrow> st = DlvSubmitted \<or> st = DlvAcknowledged"
  shows "wf_controller (set_submission r (sub\<lparr>sr_state := st\<rparr>))"
  using assms
  by (auto simp: wf_defs set_submission_def validate_challenge_def ctl_fence_def
      has_unsettled_input_def Let_def result_simps)

lemma wf_pause: "wf_controller r \<Longrightarrow> cmd_pause r = Inr (n, False) \<Longrightarrow> wf_controller n"
  by (auto simp: cmd_pause_def wf_phase split: if_splits)

lemma wf_resume: "wf_controller r \<Longrightarrow> cmd_resume r a = Inr (n, False) \<Longrightarrow> wf_controller n"
  by (auto simp: cmd_resume_def wf_phase wf_handoff_iff result_simps)

lemma wf_reserve:
  assumes "wf_controller r" "cmd_reserve_submission r a i = Inr (n, False)"
  shows "wf_controller n"
proof -
  from assms(2) have v: "validate_reservation r i = Inr ()" and act: "nc_phase r = CtlActive"
    and n: "n = r\<lparr>nc_last_submission := Some \<lparr>sr_reservation = i, sr_state = DlvReserved,
                                              sr_outcome = None\<rparr>, nc_interruption := None\<rparr>"
    and old: "\<And>sub. nc_last_submission r = Some sub \<Longrightarrow> nc_pending_approval r = None"
    by (auto simp: cmd_reserve_submission_def result_simps split: bool.splits option.splits if_splits)
  have "nc_pending_approval r = None"
    using assms(1) old by (cases "nc_last_submission r") (auto simp: wf_defs)
  then show ?thesis
    using assms(1) v act unfolding n wf_defs by (auto simp: has_unsettled_input_def)
qed

lemma wf_begin:
  "wf_controller r \<Longrightarrow> cmd_begin_submission r a i = Inr (n, False) \<Longrightarrow> wf_controller n"
  by (auto simp: cmd_begin_submission_def result_simps matching_submission_Inr wf_set_state)

lemma wf_acknowledge:
  "wf_controller r \<Longrightarrow> cmd_acknowledge_submission r i = Inr (n, False) \<Longrightarrow> wf_controller n"
  by (auto simp: cmd_acknowledge_submission_def result_simps matching_submission_Inr wf_set_state)

lemma wf_delivery_unknown:
  "wf_controller r \<Longrightarrow> cmd_delivery_unknown r i = Inr (n, False) \<Longrightarrow> wf_controller n"
  by (auto simp: cmd_delivery_unknown_def result_simps matching_submission_Inr wf_set_state Let_def
      wf_phase)

lemma wf_settle:
  assumes "wf_controller r" "cmd_settle_submission r i out = Inr (n, False)"
  shows "wf_controller n"
proof -
  from assms(2) obtain sub where sub: "nc_last_submission r = Some sub"
    and n: "n = (let n1 = set_submission r (sub\<lparr>sr_state := DlvSettled, sr_outcome := Some out\<rparr>);
                n2 = (case nc_pending_approval n1 of None \<Rightarrow> n1
                      | Some challenge \<Rightarrow> n1\<lparr>nc_pending_approval := None,
                          nc_last_approval_resolution := Some \<lparr>ap_challenge = challenge,
                            ap_decision = None, ap_operator_id = None\<rparr>\<rparr>)
            in (if nc_interruption n2 \<noteq> None then n2\<lparr>nc_interruption := Some IntSettled\<rparr> else n2))"
    by (auto simp: cmd_settle_submission_def result_simps matching_submission_Inr Let_def)
  have chal: "nc_pending_approval r = Some c \<Longrightarrow> \<not> is_nil (ac_challenge_id c)" for c
    using assms(1) by (auto simp: wf_defs validate_challenge_def Let_def result_simps)
  show ?thesis
    using assms(1) sub chal unfolding n wf_defs Let_def
    by (cases "nc_pending_approval r"; cases "nc_interruption r")
       (auto simp: set_submission_def has_unsettled_input_def wf_resolution_def)
qed

lemma wf_request_interruption:
  assumes "wf_controller r" "cmd_request_interruption r i = Inr (n, False)"
  shows "wf_controller n"
proof -
  from assms(2) obtain sub where sub: "nc_last_submission r = Some sub" "sr_state sub \<noteq> DlvSettled"
    and n: "n = (if nc_phase r \<noteq> CtlQuiescing
                 then r\<lparr>nc_interruption := Some IntRequested, nc_phase := CtlPaused\<rparr>
                 else r\<lparr>nc_interruption := Some IntRequested\<rparr>)"
    by (auto simp: cmd_request_interruption_def result_simps matching_submission_Inr Let_def)
  have ph: "nc_phase r \<in> {CtlActive, CtlPaused, CtlQuiescing}"
    by (rule wf_not_awaiting [OF assms(1)]) (simp add: has_unsettled_input_def sub)
  have "wf_controller (r\<lparr>nc_interruption := Some IntRequested\<rparr>)"
    using assms(1) sub by (auto simp: wf_defs)
  then show ?thesis
    using ph wf_handoff_iff [OF assms(1)] unfolding n by (auto simp: wf_phase)
qed

lemma wf_observe_interruption:
  assumes "wf_controller r" "cmd_observe_interruption r i k = Inr (n, False)"
  shows "wf_controller n"
proof -
  from assms(2) obtain sub where "nc_last_submission r = Some sub"
    and "n = r\<lparr>nc_interruption := Some (if k then IntAcknowledged else IntUnknown)\<rparr>"
    by (auto simp: cmd_observe_interruption_def result_simps matching_submission_Inr)
  with assms(1) show ?thesis unfolding wf_defs by simp
qed

lemma wf_raise:
  assumes "wf_controller r" "cmd_raise_approval r c = Inr (n, False)"
  shows "wf_controller n"
proof -
  from assms(2) have v: "validate_challenge r c = Inr ()"
    and n: "n = r\<lparr>nc_pending_approval := Some c\<rparr>"
    by (auto simp: cmd_raise_approval_def result_simps split: option.splits if_splits)
  from v have "has_unsettled_input r" and "nc_last_submission r \<noteq> None"
    by (auto simp: validate_challenge_def Let_def has_unsettled_input_def result_simps
        split: option.splits)
  then show ?thesis
    using assms(1) v unfolding n wf_defs by auto
qed

lemma wf_resolve:
  assumes "wf_controller r" "a \<noteq> ActorHuman 0" "cmd_resolve_approval r a c d = Inr (n, False)"
  shows "wf_controller n"
proof -
  from assms(2,3) obtain op where "op \<noteq> 0" and v: "validate_challenge r c = Inr ()"
    and n: "n = r\<lparr>nc_pending_approval := None,
                  nc_last_approval_resolution := Some \<lparr>ap_challenge = c,
                    ap_decision = Some d, ap_operator_id = Some op\<rparr>\<rparr>"
    by (cases a) (auto simp: cmd_resolve_approval_def result_simps)
  moreover from v have "\<not> is_nil (ac_challenge_id c)"
    by (simp add: validate_challenge_def Let_def result_simps)
  ultimately have "wf_resolution \<lparr>ap_challenge = c, ap_decision = Some d, ap_operator_id = Some op\<rparr>"
    by (simp add: wf_resolution_def)
  with assms(1) show ?thesis
    unfolding n wf_defs by (simp split: option.splits)
qed

lemma wf_begin_handoff:
  assumes "wf_controller r" "cmd_begin_handoff r a t = Inr (n, False)"
  shows "wf_controller n"
proof -
  from assms(2) have "validate_target r t = Inr ()"
    and "n = r\<lparr>nc_handoff := Some t, nc_phase := CtlQuiescing\<rparr>"
    by (simp_all add: cmd_begin_handoff_def result_simps)
  with assms(1) show ?thesis unfolding wf_defs by (simp split: option.splits)
qed

lemma wf_observe_old:
  "wf_controller r \<Longrightarrow> cmd_observe_old_controller r ob = Inr (n, False) \<Longrightarrow> wf_controller n"
  by (auto simp: cmd_observe_old_controller_def result_simps wf_defs split: option.splits)

lemma wf_cmd_close: "wf_controller r \<Longrightarrow> cmd_close r a = Inr (n, False) \<Longrightarrow> wf_controller n"
  by (auto simp: cmd_close_def result_simps wf_close)

text \<open>Attaching raises the generation, so the record is well formed under the next version only.\<close>

lemma wf_attach:
  assumes wf: "wf_controller r" and n: "cmd_attach r c s = Inr (n, False)"
    and v: "checked_add (nc_version r) 1 = Some v"
  shows "wf_controller (n\<lparr>nc_version := v\<rparr>)"
proof -
  from n obtain t g where t: "nc_handoff r = Some t" "nc_phase r = CtlAwaitingAttach"
    and g: "checked_add (nc_generation r) 1 = Some g"
    and n: "n = r\<lparr>nc_generation := g,
             nc_identity := (nc_identity r)\<lparr>ci_controller_id := ht_controller_id t,
                                            ci_session_id := ht_session_id t\<rparr>,
             nc_owner := ht_owner t, nc_phase := CtlPaused, nc_handoff := None\<rparr>"
    by (auto simp: cmd_attach_def result_simps)
  have gv: "g \<noteq> 0" "g \<le> v"
    using wf checked_add_Some [OF g] checked_add_Some [OF v]
    by (auto simp: wf_defs word_le_nat_alt)
  have none: "nc_pending_approval r = None" "\<not> has_unsettled_input r"
    and tgt: "validate_target r t = Inr ()"
    using wf t by (auto simp: wf_defs)
  then have "\<not> is_nil (ht_controller_id t)" "\<not> is_nil (ht_session_id t)" "owner_valid (ht_owner t)"
    by (auto simp: validate_target_def result_simps)
  then show ?thesis
    using wf gv none unfolding n wf_defs
    by (auto simp: has_unsettled_input_def validate_reservation_def split: option.splits)
qed

lemma dispatch_version:
  "controller_dispatch r a c = Inr (n, d) \<Longrightarrow> nc_version n = nc_version r"
proof (cases c)
  case (SettleSubmission i out)
  then show "controller_dispatch r a c = Inr (n, d) \<Longrightarrow> ?thesis"
    by (cases "nc_pending_approval r")
       (auto simp: cmd_settle_submission_def set_submission_def Let_def result_simps)
next
  case (ReserveSubmission i)
  then show "controller_dispatch r a c = Inr (n, d) \<Longrightarrow> ?thesis"
    by (auto simp: cmd_reserve_submission_def result_simps split: bool.splits)
next
  case (RaiseApproval i)
  then show "controller_dispatch r a c = Inr (n, d) \<Longrightarrow> ?thesis"
    by (auto simp: cmd_raise_approval_def result_simps split: option.splits)
next
  case (ResolveApproval i k)
  then show "controller_dispatch r a c = Inr (n, d) \<Longrightarrow> ?thesis"
    by (cases a) (auto simp: cmd_resolve_approval_def result_simps)
qed (auto simp: command_defs set_submission_def Let_def result_simps)

lemma dispatch_wf:
  assumes "wf_controller r" "a \<noteq> ActorHuman 0" "controller_dispatch r a c = Inr (n, False)"
    "checked_add (nc_version r) 1 = Some v"
  shows "wf_controller (n\<lparr>nc_version := v\<rparr>)"
proof (cases "\<exists>x y. c = Attach x y")
  case True
  with assms wf_attach show ?thesis by auto
next
  case False
  have "nc_version n = nc_version r" by (rule dispatch_version [OF assms(3)])
  moreover have "wf_controller n"
    using assms False
    by (cases c) (auto intro: wf_pause wf_resume wf_reserve wf_begin wf_acknowledge
        wf_delivery_unknown wf_settle wf_request_interruption wf_observe_interruption wf_raise
        wf_resolve wf_begin_handoff wf_observe_old wf_cmd_close)
  ultimately show ?thesis
    using checked_add_less [OF assms(4)] by (simp add: wf_version)
qed

section \<open>The accepted transitions\<close>

text \<open>A refused command leaves the record alone; an accepted one was valid, fenced, current, from the
  right class of actor, and either a duplicate that changes nothing or an advance by one version. The
  validation of the result is the one step that never refuses.\<close>

lemma apply_controller_command_Inr:
  "apply_controller_command r v f a c = Inr t \<longleftrightarrow>
     wf_controller r \<and> f = ctl_fence r \<and> v = nc_version r \<and> nc_phase r \<noteq> CtlClosed \<and>
     (adapter_command c \<longleftrightarrow> a = Adapter) \<and> a \<noteq> ActorHuman 0 \<and>
     ((\<exists>n. controller_dispatch r a c = Inr (n, True)) \<and>
        t = \<lparr>ct_record = r, ct_duplicate = True\<rparr> \<or>
      (\<exists>n w. controller_dispatch r a c = Inr (n, False) \<and> checked_add (nc_version r) 1 = Some w \<and>
         t = \<lparr>ct_record = n\<lparr>nc_version := w\<rparr>, ct_duplicate = False\<rparr>))"
proof -
  have fin: "wf_controller r \<Longrightarrow> a \<noteq> ActorHuman 0 \<Longrightarrow> controller_dispatch r a c = Inr (n, False) \<Longrightarrow>
      checked_add (nc_version r) 1 = Some w \<Longrightarrow>
      controller_validate (n\<lparr>nc_version := w\<rparr>) = Inr ()" for n w
    by (simp add: controller_validate_iff dispatch_wf)
  show ?thesis
    unfolding apply_controller_command_def result_simps controller_validate_iff
    by (cases "controller_dispatch r a c")
       (auto simp: result_simps Let_def fin dest: fin split: prod.splits if_splits)
qed

lemma apply_controller_wf:
  "apply_controller_command r v f a c = Inr t \<Longrightarrow> wf_controller (ct_record t)"
  by (auto simp: apply_controller_command_Inr split: if_splits intro: dispatch_wf)

type_synonym controller_event = "u64 \<times> controller_fence \<times> controller_actor \<times> controller_command"

text \<open>The store keeps the record of the last accepted transition.\<close>

fun controller_step :: "native_controller \<Rightarrow> controller_event \<Rightarrow> controller_error + native_controller" where
  "controller_step r (v, f, a, c) =
     (case apply_controller_command r v f a c of Inl e \<Rightarrow> Inl e | Inr t \<Rightarrow> Inr (ct_record t))"

lemma controller_step_Inr:
  "controller_step r (v, f, a, c) = Inr n' \<longleftrightarrow>
   (\<exists>t. apply_controller_command r v f a c = Inr t \<and> n' = ct_record t)"
  by (auto split: sum.splits)

lemma controller_step_wf: "controller_step r e = Inr n \<Longrightarrow> wf_controller n"
  by (cases e) (auto split: sum.splits intro: apply_controller_wf)

interpretation controller_wf: guarded_reducer controller_step wf_controller
  by unfold_locales (rule controller_step_wf)

interpretation controller_closed: ending_reducer controller_step "\<lambda>r. nc_phase r = CtlClosed"
  by unfold_locales
     (auto simp: apply_controller_command_Inr split: sum.splits)

lemma controller_step_cases:
  assumes "controller_step r (v, f, a, c) = Inr n"
  obtains (Same) m where "controller_dispatch r a c = Inr (m, True)" "n = r"
  | (Advance) m w where "controller_dispatch r a c = Inr (m, False)" "n = m\<lparr>nc_version := w\<rparr>"
      "checked_add (nc_version r) 1 = Some w"
  using assms unfolding controller_step_Inr apply_controller_command_Inr
  by (auto split: if_splits)

section \<open>Input is begun at most once, in sequence\<close>

text \<open>The highest sequence number an input with which may already have been begun.\<close>

definition begun_bound :: "native_controller \<Rightarrow> nat" where
  "begun_bound r = (case nc_last_submission r of None \<Rightarrow> 0
     | Some sub \<Rightarrow> if sr_state sub = DlvReserved then unat (ir_sequence (sr_reservation sub)) - 1
                   else unat (ir_sequence (sr_reservation sub)))"

definition begun_input :: "native_controller \<Rightarrow> controller_event \<Rightarrow> input_reservation list" where
  "begun_input r e = (case e of
       (_, _, _, BeginSubmission _) \<Rightarrow>
         (case nc_last_submission r of None \<Rightarrow> [] | Some sub \<Rightarrow> [sr_reservation sub])
     | _ \<Rightarrow> [])"

fun begun_inputs :: "native_controller \<Rightarrow> controller_event list \<Rightarrow> input_reservation list" where
  "begun_inputs r [] = []"
| "begun_inputs r (e # es) = (case controller_step r e of
       Inl _ \<Rightarrow> begun_inputs r es
     | Inr n \<Rightarrow> begun_input r e @ begun_inputs n es)"

lemma begun_bound_frames [simp]:
  "begun_bound (nc_phase_update p r) = begun_bound r"
  "begun_bound (nc_version_update v r) = begun_bound r"
  "begun_bound (nc_interruption_update i r) = begun_bound r"
  "begun_bound (nc_pending_approval_update q r) = begun_bound r"
  "begun_bound (nc_last_approval_resolution_update l r) = begun_bound r"
  "begun_bound (nc_handoff_update h r) = begun_bound r"
  by (simp_all add: begun_bound_def)

lemma begun_bound_set_submission:
  "nc_last_submission r = Some sub \<Longrightarrow> st \<noteq> DlvReserved \<Longrightarrow>
   begun_bound r \<le> begun_bound (set_submission r (sub\<lparr>sr_state := st\<rparr>)) \<and>
   begun_bound r \<le> begun_bound (set_submission r (sub\<lparr>sr_state := st, sr_outcome := x\<rparr>))"
  by (simp add: begun_bound_def set_submission_def)

lemma begun_bound_reserve:
  assumes "cmd_reserve_submission r a i = Inr (n, d)"
  shows "begun_bound r \<le> begun_bound n"
proof (cases d)
  case True
  with assms show ?thesis
    by (auto simp: cmd_reserve_submission_def result_simps split: bool.splits)
next
  case False
  with assms have "checked_add (case nc_last_submission r of None \<Rightarrow> 0
        | Some value \<Rightarrow> ir_sequence (sr_reservation value)) 1 = Some (ir_sequence i)"
    and "nc_last_submission n = Some \<lparr>sr_reservation = i, sr_state = DlvReserved, sr_outcome = None\<rparr>"
    by (auto simp: cmd_reserve_submission_def result_simps split: bool.splits)
  then show ?thesis
    by (cases "nc_last_submission r") (auto simp: begun_bound_def dest: checked_add_Some)
qed

lemma begun_bound_dispatch:
  assumes "controller_dispatch r a c = Inr (n, d)"
  shows "begun_bound r \<le> begun_bound n"
proof (cases c)
  case (ReserveSubmission i)
  with assms show ?thesis by (simp add: begun_bound_reserve)
next
  case (SettleSubmission i out)
  with assms show ?thesis
    by (cases "nc_pending_approval r"; cases "nc_interruption r")
       (auto simp: cmd_settle_submission_def Let_def result_simps matching_submission_Inr
         begun_bound_set_submission set_submission_def begun_bound_def)
next
  case (Attach x y)
  with assms show ?thesis by (auto simp: cmd_attach_def result_simps begun_bound_def)
next
  case (RaiseApproval i)
  with assms show ?thesis by (auto simp: cmd_raise_approval_def result_simps split: option.splits)
next
  case (ResolveApproval i k)
  with assms show ?thesis by (cases a) (auto simp: cmd_resolve_approval_def result_simps)
qed (use assms in \<open>auto simp: command_defs Let_def result_simps matching_submission_Inr
       begun_bound_set_submission\<close>)

lemma begin_step:
  assumes "controller_step r e = Inr n" "i \<in> set (begun_input r e)"
  shows "begun_bound r < unat (ir_sequence i) \<and> begun_bound n = unat (ir_sequence i) \<and>
         begun_input r e = [i]"
proof -
  obtain v f a c where e: "e = (v, f, a, c)" by (cases e)
  from assms(2) e obtain s sub where c: "c = BeginSubmission s"
    and sub: "nc_last_submission r = Some sub" "i = sr_reservation sub" and bi: "begun_input r e = [i]"
    by (cases c; cases "nc_last_submission r") (auto simp: begun_input_def)
  from assms(1) e have wf: "wf_controller r"
    by (auto simp: apply_controller_command_Inr split: sum.splits)
  from assms(1) [unfolded e] show ?thesis
  proof (cases rule: controller_step_cases)
    case (Advance m w)
    moreover from wf sub have "ir_sequence i \<noteq> 0"
      by (auto simp: wf_controller_def wf_submission_def validate_reservation_def result_simps)
    ultimately show ?thesis
      using c sub bi
      by (auto simp: cmd_begin_submission_def result_simps matching_submission_Inr begun_bound_def
          set_submission_def unat_gt_0)
  qed (use c in \<open>auto simp: cmd_begin_submission_def result_simps\<close>)
qed

lemma begun_bound_step:
  assumes "controller_step r e = Inr n"
  shows "begun_bound r \<le> begun_bound n"
proof -
  obtain v f a c where e: "e = (v, f, a, c)" by (cases e)
  from assms [unfolded e] show ?thesis
    by (cases rule: controller_step_cases) (auto dest: begun_bound_dispatch)
qed

lemma begun_inputs_increasing:
  "sorted_wrt (<) (map (unat \<circ> ir_sequence) (begun_inputs r es)) \<and>
   (\<forall>i \<in> set (begun_inputs r es). begun_bound r < unat (ir_sequence i))"
proof (induction es arbitrary: r)
  case (Cons e es)
  show ?case
  proof (cases "controller_step r e")
    case (Inr n)
    have le: "begun_bound r \<le> begun_bound n" using Inr by (rule begun_bound_step)
    show ?thesis
    proof (cases "begun_input r e")
      case Nil
      with Inr Cons [of n] le show ?thesis by fastforce
    next
      case (Cons i rest)
      with begin_step [OF Inr, of i] have "begun_input r e = [i]"
        "begun_bound r < unat (ir_sequence i)" "begun_bound n = unat (ir_sequence i)" by auto
      with Inr Cons.IH [of n] show ?thesis by fastforce
    qed
  qed (use Cons in simp)
qed simp

section \<open>Reading an accepted command backwards\<close>

lemma apply_controller_accepted:
  assumes "apply_controller_command r v f a c = Inr t"
  obtains n d w where "wf_controller r" "adapter_command c \<longleftrightarrow> a = Adapter" "a \<noteq> ActorHuman 0"
    "controller_dispatch r a c = Inr (n, d)" "ct_record t = (if d then r else n\<lparr>nc_version := w\<rparr>)"
proof -
  from assms consider n where "controller_dispatch r a c = Inr (n, True)" "ct_record t = r"
    | n w where "controller_dispatch r a c = Inr (n, False)" "ct_record t = n\<lparr>nc_version := w\<rparr>"
    unfolding apply_controller_command_Inr by auto
  moreover from assms have "wf_controller r" "adapter_command c \<longleftrightarrow> a = Adapter" "a \<noteq> ActorHuman 0"
    unfolding apply_controller_command_Inr by simp_all
  ultimately show thesis using that by cases auto
qed

section \<open>Ownership and approvals\<close>

lemma dispatch_owner:
  assumes "controller_dispatch r a c = Inr (n, d)" "\<And>x y. c \<noteq> Attach x y"
  shows "nc_generation n = nc_generation r \<and> nc_identity n = nc_identity r \<and> nc_owner n = nc_owner r"
proof (cases c)
  case (SettleSubmission i out)
  with assms(1) show ?thesis
    by (cases "nc_pending_approval r")
       (auto simp: cmd_settle_submission_def set_submission_def Let_def result_simps)
next
  case (ReserveSubmission i)
  with assms(1) show ?thesis
    by (auto simp: cmd_reserve_submission_def result_simps split: bool.splits)
next
  case (RaiseApproval i)
  with assms(1) show ?thesis by (auto simp: cmd_raise_approval_def result_simps split: option.splits)
next
  case (ResolveApproval i k)
  with assms(1) show ?thesis by (cases a) (auto simp: cmd_resolve_approval_def result_simps)
qed (use assms in \<open>auto simp: command_defs set_submission_def Let_def result_simps\<close>)

lemma dispatch_awaiting:
  assumes "controller_dispatch r a c = Inr (n, d)" "nc_phase n = CtlAwaitingAttach"
    "c \<noteq> ObserveOldController ObsTerminal"
  shows "nc_phase r = CtlAwaitingAttach"
proof (cases c)
  case (SettleSubmission i out)
  with assms show ?thesis
    by (cases "nc_pending_approval r"; cases "nc_interruption r")
       (auto simp: cmd_settle_submission_def set_submission_def Let_def result_simps)
next
  case (ReserveSubmission i)
  with assms show ?thesis
    by (auto simp: cmd_reserve_submission_def result_simps split: bool.splits)
next
  case (RaiseApproval i)
  with assms show ?thesis by (auto simp: cmd_raise_approval_def result_simps split: option.splits)
next
  case (ResolveApproval i k)
  with assms show ?thesis by (cases a) (auto simp: cmd_resolve_approval_def result_simps)
next
  case (RequestInterruption i)
  with assms show ?thesis
    by (auto simp: cmd_request_interruption_def result_simps Let_def split: if_splits)
next
  case (ObserveOldController ob)
  with assms show ?thesis by (auto simp: cmd_observe_old_controller_def result_simps)
qed (use assms in \<open>auto simp: command_defs set_submission_def Let_def result_simps split: if_splits\<close>)

lemma attach_step:
  assumes "wf_controller r" "controller_dispatch r a (Attach x y) = Inr (n, d)"
  obtains target where "nc_handoff r = Some target" "x = ht_controller_id target"
    "y = ht_session_id target" "nc_phase r = CtlAwaitingAttach" "\<not> has_unsettled_input r"
    "nc_pending_approval r = None" "\<not> d" "nc_owner n = ht_owner target" "nc_phase n = CtlPaused"
    "ci_controller_id (nc_identity n) = ht_controller_id target"
    "ci_session_id (nc_identity n) = ht_session_id target"
    "unat (nc_generation n) = Suc (unat (nc_generation r))"
proof -
  from assms(2) obtain target g where h: "nc_handoff r = Some target" "nc_phase r = CtlAwaitingAttach"
    "x = ht_controller_id target" "y = ht_session_id target" "\<not> d"
    and g: "checked_add (nc_generation r) 1 = Some g"
    and n: "n = r\<lparr>nc_generation := g,
             nc_identity := (nc_identity r)\<lparr>ci_controller_id := ht_controller_id target,
                                            ci_session_id := ht_session_id target\<rparr>,
             nc_owner := ht_owner target, nc_phase := CtlPaused, nc_handoff := None\<rparr>"
    by (auto simp: cmd_attach_def result_simps)
  moreover have "\<not> has_unsettled_input r" "nc_pending_approval r = None"
    using assms(1) h(2) by (simp_all add: wf_controller_def)
  ultimately show thesis
    using checked_add_Some [OF g] by (intro that [of target]) simp_all
qed

definition same_owner :: "native_controller \<Rightarrow> native_controller \<Rightarrow> bool" where
  "same_owner r n \<longleftrightarrow> ctl_fence n = ctl_fence r \<and> nc_identity n = nc_identity r \<and> nc_owner n = nc_owner r"

lemma same_owner_step:
  assumes step: "controller_step r (v, f, a, c) = Inr n" and no: "c \<noteq> ObserveOldController ObsTerminal"
    and ph: "nc_phase r \<noteq> CtlAwaitingAttach"
  shows "same_owner r n \<and> nc_phase n \<noteq> CtlAwaitingAttach"
  using step
proof (cases rule: controller_step_cases)
  case (Advance m w)
  have na: "c \<noteq> Attach x y" for x y
    using Advance(1) ph by (auto simp: cmd_attach_def result_simps)
  have "nc_phase m \<noteq> CtlAwaitingAttach"
    using dispatch_awaiting [OF Advance(1) _ no] ph by blast
  with dispatch_owner [OF Advance(1) na] show ?thesis
    by (simp add: Advance(2) same_owner_def ctl_fence_def)
qed (use ph in \<open>simp add: same_owner_def\<close>)

lemma same_owner_run:
  assumes "nc_phase r \<noteq> CtlAwaitingAttach"
    "\<forall>(v, f, a, c) \<in> set (accepted_events controller_step r es). c \<noteq> ObserveOldController ObsTerminal"
  shows "same_owner r (run_events controller_step r es)"
  using assms
proof (induction es arbitrary: r)
  case (Cons e es)
  obtain v f a c where e: "e = (v, f, a, c)" by (cases e)
  show ?case
  proof (cases "controller_step r e")
    case (Inr n)
    with Cons.prems e have "same_owner r n" "nc_phase n \<noteq> CtlAwaitingAttach"
      using same_owner_step [of r v f a c n] by auto
    with Cons.IH [of n] Cons.prems Inr show ?thesis by (auto simp: same_owner_def)
  qed (use Cons in auto)
qed (simp add: same_owner_def)

text \<open>What may end a pending approval.\<close>

lemma dispatch_pending:
  assumes "controller_dispatch r a c = Inr (n, d)" "nc_pending_approval r = Some p"
    "wf_controller r"
  shows "(nc_pending_approval n = Some p \<and> nc_last_approval_resolution n = nc_last_approval_resolution r) \<or>
    (\<exists>op k. a = ActorHuman op \<and> c = ResolveApproval p k \<and> nc_pending_approval n = None \<and>
       nc_last_approval_resolution n =
         Some \<lparr>ap_challenge = p, ap_decision = Some k, ap_operator_id = Some op\<rparr>) \<or>
    (\<exists>out. c = SettleSubmission (ac_submission_id p) out \<and> out \<noteq> OutCompleted \<and>
       nc_pending_approval n = None \<and> nc_last_approval_resolution n =
         Some \<lparr>ap_challenge = p, ap_decision = None, ap_operator_id = None\<rparr>)"
proof (cases c)
  case (SettleSubmission i out)
  with assms(1,2) obtain sub where "nc_last_submission r = Some sub"
    "ir_submission_id (sr_reservation sub) = i" and "out \<noteq> OutCompleted"
    by (auto simp: cmd_settle_submission_def result_simps matching_submission_Inr)
  moreover have "validate_challenge r p = Inr ()"
    using assms(2,3) by (simp add: wf_controller_def)
  ultimately have "ac_submission_id p = i" "out \<noteq> OutCompleted"
    by (simp_all add: validate_challenge_def Let_def result_simps)
  with assms SettleSubmission show ?thesis
    by (cases "nc_interruption r")
       (auto simp: cmd_settle_submission_def set_submission_def Let_def result_simps)
next
  case (ReserveSubmission i)
  with assms(1,2) show ?thesis
    by (auto simp: cmd_reserve_submission_def result_simps split: bool.splits)
next
  case (ResolveApproval i k)
  with assms(1,2) show ?thesis by (cases a) (auto simp: cmd_resolve_approval_def result_simps)
next
  case (Attach x y)
  with assms(1,2) show ?thesis by (auto simp: cmd_attach_def result_simps)
qed (use assms(1,2) in \<open>auto simp: command_defs set_submission_def Let_def result_simps\<close>)

section \<open>Properties\<close>

text \<open>C7. Input reaches a session at most once and in order. Over any history of commands, whatever
  their versions, fences, actors and order, the reservations whose delivery was begun carry strictly
  increasing sequence numbers, so no reservation is ever begun twice, not even after an unknown
  delivery, a pause, a settlement or a change of owner.\<close>

theorem controller_input_at_most_once:
  "sorted_wrt (<) (map (unat \<circ> ir_sequence) (begun_inputs r es)) \<and> distinct (begun_inputs r es)"
proof -
  have "sorted_wrt (<) (map (unat \<circ> ir_sequence) (begun_inputs r es))"
    using begun_inputs_increasing by blast
  then show ?thesis
    by (simp add: strict_sorted_iff distinct_map)
qed

text \<open>C13. The reducer keeps the record valid by itself. Every record reached from a newly created
  controller passes \<open>validate\<close>, and the reducer's own validation of its result never refuses: a
  command is accepted exactly when the record is valid, the fence and version are current, the
  controller is not closed, the actor is of the right class, and the command's own checks pass (with
  a version left to consume unless it was a duplicate).\<close>

theorem controller_histories_valid:
  assumes "controller_new identity owner = Inr r0"
  shows "controller_validate (run_events controller_step r0 es) = Inr () \<and>
    ((\<exists>t. apply_controller_command r v f a c = Inr t) \<longleftrightarrow>
       controller_validate r = Inr () \<and> f = ctl_fence r \<and> v = nc_version r \<and>
       nc_phase r \<noteq> CtlClosed \<and> (adapter_command c \<longleftrightarrow> a = Adapter) \<and> a \<noteq> ActorHuman 0 \<and>
       (\<exists>n d. controller_dispatch r a c = Inr (n, d) \<and> (d \<or> nc_version r \<noteq> - 1)))"
proof
  have "wf_controller r0"
    using assms by (auto simp: controller_new_def Let_def result_simps controller_validate_iff)
  then show "controller_validate (run_events controller_step r0 es) = Inr ()"
    by (simp add: controller_validate_iff controller_wf.run_inv)
  have "checked_add (nc_version r) 1 \<noteq> None \<longleftrightarrow> nc_version r \<noteq> - 1"
    by (rule checked_add_one_iff)
  then show "(\<exists>t. apply_controller_command r v f a c = Inr t) \<longleftrightarrow>
       controller_validate r = Inr () \<and> f = ctl_fence r \<and> v = nc_version r \<and>
       nc_phase r \<noteq> CtlClosed \<and> (adapter_command c \<longleftrightarrow> a = Adapter) \<and> a \<noteq> ActorHuman 0 \<and>
       (\<exists>n d. controller_dispatch r a c = Inr (n, d) \<and> (d \<or> nc_version r \<noteq> - 1))"
    unfolding apply_controller_command_Inr controller_validate_iff
    by (cases "controller_dispatch r a c") auto
qed

definition sample_identity :: controller_identity where
  "sample_identity = \<lparr>ci_workflow_id = 1, ci_session_id = 2, ci_controller_id = 3,
     ci_contract_id = 4, ci_contract_version = 1\<rparr>"

definition sample_controller :: native_controller where
  "sample_controller = \<lparr>nc_schema_version = 1, nc_identity = sample_identity, nc_generation = 1,
     nc_version = 1, nc_owner = OwnerNative, nc_phase = CtlPaused, nc_last_submission = None,
     nc_interruption = None, nc_pending_approval = None, nc_last_approval_resolution = None,
     nc_handoff = None\<rparr>"

lemma sample_controller_new: "controller_new sample_identity OwnerNative = Inr sample_controller"
  by (simp add: controller_new_def controller_validate_def sample_identity_def sample_controller_def
      CONTROLLER_SCHEMA_VERSION_def owner_valid_def has_unsettled_input_def)

theorem controller_histories_valid_witness:
  "controller_validate (run_events controller_step sample_controller
     [(1, ctl_fence sample_controller, Automation, Resume)]) = Inr ()"
  using controller_histories_valid [OF sample_controller_new] by blast

text \<open>C12. Ownership moves only through a completed handoff. An accepted command leaves fence, identity
  and owner alone, unless it is \<open>Attach\<close> naming the target of the pending handoff, in the phase
  \<open>AwaitingAttach\<close>, with every input settled and no approval pending; then the generation grows by
  one. And without an accepted observation that the old controller is terminal, no history from a
  record that is not already awaiting the attach changes fence, identity or owner.\<close>

theorem controller_ownership_by_handoff:
  assumes "apply_controller_command r v f a c = Inr t"
    and "nc_phase q \<noteq> CtlAwaitingAttach"
    and "\<forall>(v, f, a, c) \<in> set (accepted_events controller_step q es).
           c \<noteq> ObserveOldController ObsTerminal"
  shows "(same_owner r (ct_record t) \<or>
     (\<exists>target. c = Attach (ht_controller_id target) (ht_session_id target) \<and> a = Adapter \<and>
        nc_handoff r = Some target \<and> nc_phase r = CtlAwaitingAttach \<and>
        \<not> has_unsettled_input r \<and> nc_pending_approval r = None \<and>
        nc_owner (ct_record t) = ht_owner target \<and> nc_phase (ct_record t) = CtlPaused \<and>
        unat (nc_generation (ct_record t)) = Suc (unat (nc_generation r)))) \<and>
     same_owner q (run_events controller_step q es)"
proof
  show "same_owner q (run_events controller_step q es)"
    using assms(2,3) by (rule same_owner_run)
  obtain n d w where wf: "wf_controller r" and ad: "adapter_command c \<longleftrightarrow> a = Adapter"
    and n: "controller_dispatch r a c = Inr (n, d)"
    and t: "ct_record t = (if d then r else n\<lparr>nc_version := w\<rparr>)"
    using assms(1) by (rule apply_controller_accepted)
  show "same_owner r (ct_record t) \<or>
     (\<exists>target. c = Attach (ht_controller_id target) (ht_session_id target) \<and> a = Adapter \<and>
        nc_handoff r = Some target \<and> nc_phase r = CtlAwaitingAttach \<and>
        \<not> has_unsettled_input r \<and> nc_pending_approval r = None \<and>
        nc_owner (ct_record t) = ht_owner target \<and> nc_phase (ct_record t) = CtlPaused \<and>
        unat (nc_generation (ct_record t)) = Suc (unat (nc_generation r)))"
  proof (cases "\<exists>x y. c = Attach x y")
    case True
    then obtain x y where c: "c = Attach x y" by blast
    from n [unfolded c] show ?thesis
      by (rule attach_step [OF wf]) (use c ad t in auto)
  next
    case False
    with dispatch_owner [OF n] have "same_owner r (ct_record t)"
      using t by (auto simp: same_owner_def ctl_fence_def)
    then show ?thesis ..
  qed
qed

theorem controller_ownership_by_handoff_witness:
  "same_owner sample_controller (run_events controller_step sample_controller
     [(1, ctl_fence sample_controller, Automation, Resume)])"
proof -
  have wf: "wf_controller sample_controller"
    using sample_controller_new
    by (auto simp: controller_new_def Let_def result_simps controller_validate_iff)
  have t: "apply_controller_command sample_controller 1 (ctl_fence sample_controller) Automation Resume
      = Inr \<lparr>ct_record = sample_controller\<lparr>nc_phase := CtlActive, nc_version := 2\<rparr>,
             ct_duplicate = False\<rparr>"
    unfolding apply_controller_command_Inr
    by (simp add: wf) (simp add: sample_controller_def cmd_resume_def check_input_actor_def
        checked_add_def)
  show ?thesis
    using controller_ownership_by_handoff [OF t, of sample_controller
        "[(1, ctl_fence sample_controller, Automation, Resume)]"]
    by (auto simp: sample_controller_def split: sum.splits)
qed

text \<open>C14. A pending approval holds everything up until it is answered. While a challenge is pending,
  an accepted command keeps it pending and unanswered, or is a human's answer to exactly that
  challenge, recorded with the operator and the decision, or is the adapter settling the challenged
  input as anything but completed, recorded as unanswered; and no input is begun meanwhile.\<close>

theorem approval_answered_by_human:
  assumes "apply_controller_command r v f a c = Inr t" "nc_pending_approval r = Some p"
  shows "(\<forall>s. c \<noteq> BeginSubmission s) \<and> c \<noteq> Resume \<and>
    (let n = ct_record t in
     (nc_pending_approval n = Some p \<and>
        nc_last_approval_resolution n = nc_last_approval_resolution r) \<or>
     (\<exists>op k. a = ActorHuman op \<and> op \<noteq> 0 \<and> c = ResolveApproval p k \<and> nc_pending_approval n = None \<and>
        nc_last_approval_resolution n =
          Some \<lparr>ap_challenge = p, ap_decision = Some k, ap_operator_id = Some op\<rparr>) \<or>
     (\<exists>out. a = Adapter \<and> c = SettleSubmission (ac_submission_id p) out \<and> out \<noteq> OutCompleted \<and>
        nc_pending_approval n = None \<and> nc_last_approval_resolution n =
          Some \<lparr>ap_challenge = p, ap_decision = None, ap_operator_id = None\<rparr>))"
proof -
  obtain n d w where wf: "wf_controller r" and ad: "adapter_command c \<longleftrightarrow> a = Adapter"
    and a0: "a \<noteq> ActorHuman 0" and n: "controller_dispatch r a c = Inr (n, d)"
    and t: "ct_record t = (if d then r else n\<lparr>nc_version := w\<rparr>)"
    using assms(1) by (rule apply_controller_accepted)
  have "(\<forall>s. c \<noteq> BeginSubmission s) \<and> c \<noteq> Resume"
    using n assms(2) by (auto simp: cmd_begin_submission_def cmd_resume_def result_simps)
  with dispatch_pending [OF n assms(2) wf] assms(2) ad a0 show ?thesis
    unfolding t by (auto simp: Let_def)
qed

definition sample_challenge :: approval_challenge where
  "sample_challenge = \<lparr>ac_challenge_id = 11, ac_requester_id = 12, ac_session_id = 2,
     ac_controller = \<lparr>cf_controller_id = 3, cf_generation = 1\<rparr>, ac_submission_id = 21,
     ac_operation_digest = 31, ac_scope_digest = 32\<rparr>"

definition sample_pending :: native_controller where
  "sample_pending = sample_controller\<lparr>nc_version := 5, nc_phase := CtlActive,
     nc_last_submission := Some \<lparr>sr_reservation = \<lparr>ir_submission_id = 21, ir_sequence = 1,
        ir_contract_id = 4, ir_prompt_digest = 41, ir_prompt_bytes = 100\<rparr>,
        sr_state = DlvSubmitted, sr_outcome = None\<rparr>,
     nc_pending_approval := Some sample_challenge\<rparr>"

theorem approval_answered_by_human_witness:
  "\<exists>t. apply_controller_command sample_pending 5 (ctl_fence sample_pending) (ActorHuman 9)
         (ResolveApproval sample_challenge Allow) = Inr t \<and>
       nc_pending_approval (ct_record t) = None"
proof -
  have v: "validate_challenge sample_pending sample_challenge = Inr ()"
    by (simp add: validate_challenge_def sample_pending_def sample_challenge_def sample_controller_def
        sample_identity_def ctl_fence_def)
  then have "controller_validate sample_pending = Inr ()"
    by (simp add: controller_validate_def sample_pending_def sample_controller_def sample_identity_def
        CONTROLLER_SCHEMA_VERSION_def MAX_INPUT_BYTES_def owner_valid_def has_unsettled_input_def
        validate_reservation_def)
  then have wf: "wf_controller sample_pending" by (simp add: controller_validate_iff)
  have p: "nc_pending_approval sample_pending = Some sample_challenge"
    and ph: "nc_phase sample_pending = CtlActive" and ver: "nc_version sample_pending = 5"
    by (simp_all add: sample_pending_def)
  let ?n = "sample_pending\<lparr>nc_pending_approval := None, nc_last_approval_resolution := Some
      \<lparr>ap_challenge = sample_challenge, ap_decision = Some Allow, ap_operator_id = Some 9\<rparr>\<rparr>"
  have t: "apply_controller_command sample_pending 5 (ctl_fence sample_pending) (ActorHuman 9)
      (ResolveApproval sample_challenge Allow)
      = Inr \<lparr>ct_record = ?n\<lparr>nc_version := 6\<rparr>, ct_duplicate = False\<rparr>"
    unfolding apply_controller_command_Inr
    by (simp add: wf ph ver cmd_resolve_approval_def p v checked_add_def)
  then show ?thesis
    using approval_answered_by_human [OF t p] by (auto simp: Let_def)
qed

end
