(* ===== verification/Slots.thy ===== *)
theory Slots
  imports Identifiers
begin

text \<open>
  Agent slots, \<open>crates/vibemux_workflow/src/slots.rs\<close>: capability evidence, eligibility with its
  reasons, ranking, and the width of parallel work. The derived \<open>Ord\<close> of the enums (declaration
  order, then payload) is an instance of \<open>linorder\<close> here, so that the source's \<open>sort\<close> is HOL's.

  The lemmas show that the eligible slots are exactly those a declarative predicate admits, that the
  ranking is the eligible slots ordered by score and then identifier with no overflow in the score,
  and that the planned width never exceeds slots, tasks or the operator's limit.
\<close>

section \<open>Data\<close>

datatype agent_kind = Claude | Codex | OpenCode | Copilot | Grok | Qwen | Iflow | Trae | Codebuddy
  | Kimi | Dsh

datatype slot_capability = StructuredTurn | WritableWorktree | CapNativeTui | ContextExport
  | Cancellation | NativeResume | VerbatimPrompt | ModelRouting

datatype evidence_level = Declared | InstallationDetected | VersionVerified | HandshakeVerified
  | AuthenticatedTurnVerified | WriteModeCertified

datatype evidence_class = Fixture | Live

record capability_evidence =
  ce_level :: evidence_level
  ce_class :: evidence_class
  ce_evidence_ref :: string
  ce_checked_at_ms :: u64
  ce_expires_at_ms :: u64

datatype interface_mode = ModeStructured | ModeNativeTui

datatype slot_health = HealthIdle | HealthBusy | WaitingForInput | WaitingForPermission
  | Unresponsive | Exited | QuotaUnknown | Cooldown

datatype slot_budget = BudgetUnknown | Remaining u32 | Exhausted

text \<open>The capability map is a \<open>BTreeMap\<close>: an association list with the keys distinct.\<close>

record slot_facts =
  sf_slot_id :: spec_identifier
  sf_harness :: agent_kind
  sf_interface_mode :: interface_mode
  sf_capabilities :: "(slot_capability \<times> capability_evidence) list"
  sf_health :: slot_health
  sf_route_role :: "spec_identifier option"
  sf_cooldown_until_ms :: "u64 option"
  sf_leased_generation :: "u64 option"
  sf_budget :: slot_budget

record eligibility_request =
  er_required :: "(slot_capability \<times> evidence_level) list"
  er_class :: evidence_class
  er_interface_mode :: interface_mode
  er_now_ms :: u64
  er_excluded_slots :: "spec_identifier list"
  er_allow_unknown_quota :: bool

datatype ineligibility =
    MissingCapability slot_capability
  | EvidenceTooWeak slot_capability
  | EvidenceWrongClass slot_capability
  | EvidenceExpired slot_capability
  | InterfaceMismatch
  | Unhealthy slot_health
  | CoolingDown
  | Leased
  | Excluded
  | QuotaExhausted
  | QuotaUnknownNotAllowed

section \<open>Derived orders\<close>

fun capability_rank :: "slot_capability \<Rightarrow> nat" where
  "capability_rank StructuredTurn = 0"
| "capability_rank WritableWorktree = 1"
| "capability_rank CapNativeTui = 2"
| "capability_rank ContextExport = 3"
| "capability_rank Cancellation = 4"
| "capability_rank NativeResume = 5"
| "capability_rank VerbatimPrompt = 6"
| "capability_rank ModelRouting = 7"

fun level_rank :: "evidence_level \<Rightarrow> nat" where
  "level_rank Declared = 0"
| "level_rank InstallationDetected = 1"
| "level_rank VersionVerified = 2"
| "level_rank HandshakeVerified = 3"
| "level_rank AuthenticatedTurnVerified = 4"
| "level_rank WriteModeCertified = 5"

fun health_rank :: "slot_health \<Rightarrow> nat" where
  "health_rank HealthIdle = 0"
| "health_rank HealthBusy = 1"
| "health_rank WaitingForInput = 2"
| "health_rank WaitingForPermission = 3"
| "health_rank Unresponsive = 4"
| "health_rank Exited = 5"
| "health_rank QuotaUnknown = 6"
| "health_rank Cooldown = 7"

fun ineligibility_rank :: "ineligibility \<Rightarrow> nat \<times> nat" where
  "ineligibility_rank (MissingCapability c) = (0, capability_rank c)"
| "ineligibility_rank (EvidenceTooWeak c) = (1, capability_rank c)"
| "ineligibility_rank (EvidenceWrongClass c) = (2, capability_rank c)"
| "ineligibility_rank (EvidenceExpired c) = (3, capability_rank c)"
| "ineligibility_rank InterfaceMismatch = (4, 0)"
| "ineligibility_rank (Unhealthy h) = (5, health_rank h)"
| "ineligibility_rank CoolingDown = (6, 0)"
| "ineligibility_rank Leased = (7, 0)"
| "ineligibility_rank Excluded = (8, 0)"
| "ineligibility_rank QuotaExhausted = (9, 0)"
| "ineligibility_rank QuotaUnknownNotAllowed = (10, 0)"

lemma capability_rank_eq_iff [simp]: "capability_rank a = capability_rank b \<longleftrightarrow> a = b"
  by (cases a; cases b) auto

lemma level_rank_eq_iff [simp]: "level_rank a = level_rank b \<longleftrightarrow> a = b"
  by (cases a; cases b) auto

lemma health_rank_eq_iff [simp]: "health_rank a = health_rank b \<longleftrightarrow> a = b"
  by (cases a; cases b) auto

lemma ineligibility_rank_eq_iff [simp]: "ineligibility_rank x = ineligibility_rank y \<longleftrightarrow> x = y"
  by (cases x; cases y) auto

instantiation evidence_level :: linorder
begin

definition less_eq_evidence_level :: "evidence_level \<Rightarrow> evidence_level \<Rightarrow> bool" where
  "less_eq_evidence_level a b \<longleftrightarrow> level_rank a \<le> level_rank b"

definition less_evidence_level :: "evidence_level \<Rightarrow> evidence_level \<Rightarrow> bool" where
  "less_evidence_level a b \<longleftrightarrow> level_rank a < level_rank b"

instance
  by (standard; unfold less_eq_evidence_level_def less_evidence_level_def;
      (rule less_le_not_le order_refl linear | erule (1) order_trans
       | (drule (1) order_antisym, simp)))

end

instantiation ineligibility :: linorder
begin

definition less_eq_ineligibility :: "ineligibility \<Rightarrow> ineligibility \<Rightarrow> bool" where
  "less_eq_ineligibility a b \<longleftrightarrow> ineligibility_rank a \<le> ineligibility_rank b"

definition less_ineligibility :: "ineligibility \<Rightarrow> ineligibility \<Rightarrow> bool" where
  "less_ineligibility a b \<longleftrightarrow> ineligibility_rank a < ineligibility_rank b"

instance
  by (standard; unfold less_eq_ineligibility_def less_ineligibility_def;
      (rule less_le_not_le order_refl linear | erule (1) order_trans
       | (drule (1) order_antisym, simp)))

end

section \<open>Eligibility\<close>

definition capability_reasons ::
  "slot_facts \<Rightarrow> eligibility_request \<Rightarrow> slot_capability \<times> evidence_level \<Rightarrow> ineligibility list" where
  "capability_reasons slot request req =
     (case req of (capability, minimum) \<Rightarrow>
      (case map_of (sf_capabilities slot) capability of
         None \<Rightarrow> [MissingCapability capability]
       | Some evidence \<Rightarrow>
           (if ce_level evidence < minimum then [EvidenceTooWeak capability] else []) @
           (if ce_class evidence \<noteq> er_class request then [EvidenceWrongClass capability] else []) @
           (if ce_expires_at_ms evidence \<le> er_now_ms request then [EvidenceExpired capability]
            else [])))"

definition ineligibility_reasons :: "slot_facts \<Rightarrow> eligibility_request \<Rightarrow> ineligibility list" where
  "ineligibility_reasons slot request = sort_dedup
     (concat (map (capability_reasons slot request) (er_required request)) @
      (if sf_interface_mode slot \<noteq> er_interface_mode request then [InterfaceMismatch] else []) @
      (case sf_health slot of
         HealthIdle \<Rightarrow> []
       | QuotaUnknown \<Rightarrow> if er_allow_unknown_quota request then [] else [QuotaUnknownNotAllowed]
       | Cooldown \<Rightarrow> [CoolingDown]
       | other \<Rightarrow> [Unhealthy other]) @
      (if (case sf_cooldown_until_ms slot of None \<Rightarrow> False | Some until \<Rightarrow> until > er_now_ms request)
          \<and> sf_health slot \<noteq> Cooldown then [CoolingDown] else []) @
      (if sf_leased_generation slot \<noteq> None then [Leased] else []) @
      (if sf_slot_id slot \<in> set (er_excluded_slots request) then [Excluded] else []) @
      (case sf_budget slot of
         Exhausted \<Rightarrow> [QuotaExhausted]
       | Remaining n \<Rightarrow> if n = 0 then [QuotaExhausted] else []
       | BudgetUnknown \<Rightarrow> if \<not> er_allow_unknown_quota request then [QuotaUnknownNotAllowed] else []))"

record eligibility_report =
  rp_eligible :: "spec_identifier list"
  rp_ineligible :: "(spec_identifier \<times> ineligibility list) list"

definition push_slot ::
  "eligibility_request \<Rightarrow> slot_facts \<Rightarrow> eligibility_report \<Rightarrow> eligibility_report" where
  "push_slot request slot report =
     (let reasons = ineligibility_reasons slot request
      in if reasons = [] then report\<lparr>rp_eligible := rp_eligible report @ [sf_slot_id slot]\<rparr>
         else report\<lparr>rp_ineligible := rp_ineligible report @ [(sf_slot_id slot, reasons)]\<rparr>)"

definition evaluate_eligibility ::
  "slot_facts list \<Rightarrow> eligibility_request \<Rightarrow> eligibility_report" where
  "evaluate_eligibility slots request =
     (let report = fold (push_slot request) slots \<lparr>rp_eligible = [], rp_ineligible = []\<rparr>
      in report\<lparr>rp_eligible := sort (rp_eligible report),
                rp_ineligible := sort (rp_ineligible report)\<rparr>)"

section \<open>Ranking and parallelism\<close>

record ranking_weights =
  rw_known_budget :: u32
  rw_live_evidence :: u32
  rw_native_resume :: u32

definition RANKING_BASELINE :: ranking_weights where
  "RANKING_BASELINE = \<lparr>rw_known_budget = 2, rw_live_evidence = 1, rw_native_resume = 0\<rparr>"

definition slot_score :: "ranking_weights \<Rightarrow> slot_facts \<Rightarrow> u64" where
  "slot_score weights slot =
     0 + (case sf_budget slot of Remaining _ \<Rightarrow> ucast (rw_known_budget weights) | _ \<Rightarrow> 0)
       + (if list_all (\<lambda>(_, evidence). ce_class evidence = Live) (sf_capabilities slot)
          then ucast (rw_live_evidence weights) else 0)
       + (if map_of (sf_capabilities slot) NativeResume \<noteq> None
          then ucast (rw_native_resume weights) else 0)"

text \<open>The comparator is the score, higher first, then the identifier.\<close>

definition rank_key :: "u64 \<times> spec_identifier \<Rightarrow> int \<times> spec_identifier" where
  "rank_key p = (- uint (fst p), snd p)"

definition rank_slots ::
  "slot_facts list \<Rightarrow> spec_identifier list \<Rightarrow> ranking_weights \<Rightarrow> spec_identifier list" where
  "rank_slots slots eligible weights =
     map snd (sort_key rank_key
       (map (\<lambda>slot. (slot_score weights slot, sf_slot_id slot))
         (List.map_filter (\<lambda>i. find (\<lambda>slot. sf_slot_id slot = i) slots) eligible)))"

datatype parallelism_plan = PlanBlocked string | Sequential | Parallel u32

definition plan_parallelism :: "nat \<Rightarrow> nat \<Rightarrow> u32 \<Rightarrow> parallelism_plan" where
  "plan_parallelism eligible_slots runnable_tasks max_parallel =
     (if runnable_tasks = 0 then PlanBlocked ''no_runnable_task''
      else if eligible_slots = 0 then PlanBlocked ''no_eligible_slot''
      else if max_parallel = 0 then PlanBlocked ''zero_concurrency_limit''
      else (let width = min (min eligible_slots runnable_tasks) (unat max_parallel)
            in if width \<le> 1 then Sequential
               else Parallel (if width < 2 ^ 32 then of_nat width else max_parallel)))"

section \<open>What the routines compute\<close>

definition budget_usable :: "bool \<Rightarrow> slot_budget \<Rightarrow> bool" where
  "budget_usable allow b \<longleftrightarrow> (case b of Remaining n \<Rightarrow> n \<noteq> 0 | BudgetUnknown \<Rightarrow> allow | Exhausted \<Rightarrow> False)"

text \<open>The declarative reading of eligibility.\<close>

definition admissible :: "eligibility_request \<Rightarrow> slot_facts \<Rightarrow> bool" where
  "admissible q s \<longleftrightarrow>
     (\<forall>(c, minimum) \<in> set (er_required q). \<exists>ev. map_of (sf_capabilities s) c = Some ev \<and>
        minimum \<le> ce_level ev \<and> ce_class ev = er_class q \<and> er_now_ms q < ce_expires_at_ms ev) \<and>
     sf_interface_mode s = er_interface_mode q \<and>
     (sf_health s = HealthIdle \<or> sf_health s = QuotaUnknown \<and> er_allow_unknown_quota q) \<and>
     (\<forall>until. sf_cooldown_until_ms s = Some until \<longrightarrow> until \<le> er_now_ms q) \<and>
     sf_leased_generation s = None \<and> sf_slot_id s \<notin> set (er_excluded_slots q) \<and>
     budget_usable (er_allow_unknown_quota q) (sf_budget s)"

lemma capability_reasons_Nil_iff:
  "capability_reasons s q (c, minimum) = [] \<longleftrightarrow>
   (\<exists>ev. map_of (sf_capabilities s) c = Some ev \<and> minimum \<le> ce_level ev \<and>
         ce_class ev = er_class q \<and> er_now_ms q < ce_expires_at_ms ev)"
  by (auto simp: capability_reasons_def not_less not_le split: option.splits)

lemma ineligibility_reasons_Nil_iff: "ineligibility_reasons s q = [] \<longleftrightarrow> admissible q s"
proof -
  have caps: "concat (map (capability_reasons s q) rs) = [] \<longleftrightarrow>
      (\<forall>(c, minimum) \<in> set rs. \<exists>ev. map_of (sf_capabilities s) c = Some ev \<and>
        minimum \<le> ce_level ev \<and> ce_class ev = er_class q \<and> er_now_ms q < ce_expires_at_ms ev)" for rs
    by (induction rs) (auto simp: capability_reasons_Nil_iff)
  have health: "(case sf_health s of
         HealthIdle \<Rightarrow> []
       | QuotaUnknown \<Rightarrow> if er_allow_unknown_quota q then [] else [QuotaUnknownNotAllowed]
       | Cooldown \<Rightarrow> [CoolingDown]
       | other \<Rightarrow> [Unhealthy other]) = [] \<longleftrightarrow>
      sf_health s = HealthIdle \<or> sf_health s = QuotaUnknown \<and> er_allow_unknown_quota q"
    by (cases "sf_health s") auto
  show ?thesis
    unfolding ineligibility_reasons_def sort_dedup_Nil_iff append_is_Nil_conv caps health
      admissible_def budget_usable_def
    by (auto simp: not_less split: option.splits slot_budget.splits if_splits)
qed

lemma distinct_reasons: "distinct (ineligibility_reasons s q)"
  by (simp add: ineligibility_reasons_def)

lemma fold_push_slot:
  "fold (push_slot q) slots r =
     r\<lparr>rp_eligible := rp_eligible r @ map sf_slot_id (filter (admissible q) slots),
       rp_ineligible := rp_ineligible r @
         map (\<lambda>s. (sf_slot_id s, ineligibility_reasons s q)) (filter (\<lambda>s. \<not> admissible q s) slots)\<rparr>"
  by (induction slots arbitrary: r)
     (simp_all add: push_slot_def ineligibility_reasons_Nil_iff)

lemma evaluate_eligibility_eq:
  "evaluate_eligibility slots q =
     \<lparr>rp_eligible = sort (map sf_slot_id (filter (admissible q) slots)),
      rp_ineligible = sort (map (\<lambda>s. (sf_slot_id s, ineligibility_reasons s q))
                             (filter (\<lambda>s. \<not> admissible q s) slots))\<rparr>"
  by (simp add: evaluate_eligibility_def fold_push_slot)

lemma find_slot:
  "distinct (map sf_slot_id slots) \<Longrightarrow> s \<in> set slots \<Longrightarrow>
   find (\<lambda>t. sf_slot_id t = sf_slot_id s) slots = Some s"
  by (induction slots) (auto simp: image_iff)

text \<open>The score adds three 32-bit weights in 64 bits, so it never wraps.\<close>

lemma unat_slot_score:
  "unat (slot_score w s) =
     (case sf_budget s of Remaining _ \<Rightarrow> unat (rw_known_budget w) | _ \<Rightarrow> 0) +
     (if list_all (\<lambda>(_, ev). ce_class ev = Live) (sf_capabilities s)
      then unat (rw_live_evidence w) else 0) +
     (if map_of (sf_capabilities s) NativeResume \<noteq> None then unat (rw_native_resume w) else 0)"
proof -
  have lt: "unat x < 2 ^ 32" for x :: u32 using unsigned_less [of x] by simp
  have u: "unat (ucast x :: u64) = unat x" for x :: u32 using lt [of x] by (simp add: unsigned_ucast_eq unsigned_take_bit_eq take_bit_nat_eq_self)
  note bounds = lt [of "rw_known_budget w"] lt [of "rw_live_evidence w"] lt [of "rw_native_resume w"]
  show ?thesis
    using bounds
    by (auto simp: slot_score_def unat_word_ariths u split: slot_budget.splits)
qed

lemma sorted_rank:
  "sorted_wrt (\<lambda>p q. fst q < fst p \<or> fst p = fst q \<and> snd p \<le> snd q)
     (sort_key rank_key ps)"
proof -
  have "sorted (map rank_key (sort_key rank_key ps))" by simp
  then show ?thesis
    unfolding sorted_map
    by (rule sorted_wrt_mono_rel [rotated])
       (auto simp: rank_key_def less_eq_prod_def less_prod_def word_less_def word_uint_eq_iff)
qed

text \<open>On the report of its own evaluation, the ranking orders the admissible slots.\<close>

lemma map_filter_find_slots:
  "distinct (map sf_slot_id slots) \<Longrightarrow> set ss \<subseteq> set slots \<Longrightarrow>
   List.map_filter (\<lambda>i. find (\<lambda>slot. sf_slot_id slot = i) slots) (map sf_slot_id ss) = ss"
  by (induction ss) (auto simp: find_slot map_filter_simps)

section \<open>Properties\<close>

text \<open>Eligibility says exactly what the policy asks. A slot is listed as eligible iff every required
  capability has unexpired evidence of the run's class at or above the required level, the interface
  mode matches, the slot is idle (or of unknown quota, with the operator's consent), not cooling down,
  not leased, not excluded, and its budget is usable; every other slot is listed once with a non-empty,
  duplicate-free list of reasons, and no slot is lost.\<close>

theorem eligibility_exact:
  "mset (rp_eligible (evaluate_eligibility slots q)) =
     image_mset sf_slot_id (filter_mset (admissible q) (mset slots)) \<and>
   mset (map fst (rp_ineligible (evaluate_eligibility slots q))) =
     image_mset sf_slot_id (filter_mset (\<lambda>s. \<not> admissible q s) (mset slots)) \<and>
   sorted (rp_eligible (evaluate_eligibility slots q)) \<and>
   list_all (\<lambda>(_, reasons). reasons \<noteq> [] \<and> distinct reasons)
     (rp_ineligible (evaluate_eligibility slots q))"
  by (auto simp: evaluate_eligibility_eq list_all_iff ineligibility_reasons_Nil_iff
      distinct_reasons image_mset.compositionality comp_def)

text \<open>The ranking of the eligible slots is a reordering of exactly those slots, by decreasing score
  and then by identifier; the score is the plain sum of the weights that apply, with no wrap-around.\<close>

theorem ranking_orders_eligible:
  assumes "distinct (map sf_slot_id slots)"
  shows "mset (rank_slots slots (rp_eligible (evaluate_eligibility slots q)) w) =
           mset (rp_eligible (evaluate_eligibility slots q)) \<and>
         (\<exists>ss. rank_slots slots (rp_eligible (evaluate_eligibility slots q)) w = map sf_slot_id ss \<and>
            set ss \<subseteq> set slots \<and>
            sorted_wrt (\<lambda>s t. slot_score w t < slot_score w s \<or>
              slot_score w s = slot_score w t \<and> sf_slot_id s \<le> sf_slot_id t) ss)"
proof -
  let ?f = "\<lambda>s. (slot_score w s, sf_slot_id s)"
  obtain es where es: "rp_eligible (evaluate_eligibility slots q) = map sf_slot_id es"
    and sub: "set es \<subseteq> set slots"
  proof
    show "rp_eligible (evaluate_eligibility slots q) =
        map sf_slot_id (sort_key sf_slot_id (filter (admissible q) slots))"
      by (simp add: evaluate_eligibility_eq sort_key_map)
  qed auto
  let ?ss = "sort_key (rank_key \<circ> ?f) es"
  have srt: "sort_key rank_key (map ?f es) = map ?f ?ss"
    by (simp add: sort_key_map comp_def)
  have rank: "rank_slots slots (map sf_slot_id es) w = map sf_slot_id ?ss"
    unfolding rank_slots_def map_filter_find_slots [OF assms sub] srt by (simp add: comp_def)
  have "sorted_wrt (\<lambda>s t. slot_score w t < slot_score w s \<or>
              slot_score w s = slot_score w t \<and> sf_slot_id s \<le> sf_slot_id t) ?ss"
    using sorted_rank [of "map ?f es"] unfolding srt by (simp add: sorted_wrt_map)
  moreover have "set ?ss \<subseteq> set slots" using sub by simp
  ultimately show ?thesis
    unfolding es rank by (intro conjI exI [of _ ?ss]) simp_all
qed

definition sample_slot :: "string \<Rightarrow> slot_budget \<Rightarrow> slot_facts" where
  "sample_slot name b = \<lparr>sf_slot_id = name, sf_harness = Codex, sf_interface_mode = ModeStructured,
     sf_capabilities = [], sf_health = HealthIdle, sf_route_role = None, sf_cooldown_until_ms = None,
     sf_leased_generation = None, sf_budget = b\<rparr>"

definition sample_request :: eligibility_request where
  "sample_request = \<lparr>er_required = [], er_class = Live, er_interface_mode = ModeStructured,
     er_now_ms = 5, er_excluded_slots = [], er_allow_unknown_quota = True\<rparr>"

theorem ranking_orders_eligible_witness:
  "let slots = [sample_slot ''a'' BudgetUnknown, sample_slot ''b'' (Remaining 3),
                sample_slot ''c'' Exhausted]
   in mset (rank_slots slots (rp_eligible (evaluate_eligibility slots sample_request))
              RANKING_BASELINE) = {#''a'', ''b''#}"
proof -
  let ?slots = "[sample_slot ''a'' BudgetUnknown, sample_slot ''b'' (Remaining 3),
                 sample_slot ''c'' Exhausted]"
  have "distinct (map sf_slot_id ?slots)" by (simp add: sample_slot_def)
  from ranking_orders_eligible [OF this, of sample_request RANKING_BASELINE]
  show ?thesis
    by (simp add: evaluate_eligibility_eq admissible_def sample_slot_def sample_request_def
        budget_usable_def)
qed

text \<open>Parallelism is never overstated. The plan is blocked iff there is no task, no eligible slot or
  no allowance; a parallel plan has at least two lanes and no more than the eligible slots, the
  runnable tasks and the operator's limit; and it is the widest such plan.\<close>

theorem parallelism_bounded:
  "((\<exists>reason. plan_parallelism slots tasks limit = PlanBlocked reason) \<longleftrightarrow>
      tasks = 0 \<or> slots = 0 \<or> limit = 0) \<and>
   (\<forall>width. plan_parallelism slots tasks limit = Parallel width \<longleftrightarrow>
      2 \<le> unat width \<and> unat width = min (min slots tasks) (unat limit))"
proof -
  have lim: "unat limit < 2 ^ 32" using unsigned_less [of limit] by simp
  define m where "m = min (min slots tasks) (unat limit)"
  have m: "m < 2 ^ 32" using lim by (simp add: m_def)
  have of_nat: "of_nat m = width \<longleftrightarrow> unat width = m" for width :: u32
    using m by (auto simp: unat_of_nat take_bit_nat_eq_self unsigned_of_nat)
  have pos: "2 \<le> m \<Longrightarrow> tasks \<noteq> 0 \<and> slots \<noteq> 0 \<and> limit \<noteq> 0" by (auto simp: m_def)
  show ?thesis
    unfolding plan_parallelism_def Let_def m_def [symmetric]
    using m of_nat pos by (auto simp: not_le)
qed

end
