(* ===== verification/Snapshot.thy ===== *)
theory Snapshot
  imports Identifiers Btree
begin

text \<open>
  Candidate snapshots and artifact scope checks, \<open>crates/vibemux_workflow/src/snapshot.rs\<close>: the
  observed changes of a worktree become a manifest only when every one of them is in scope, and
  \<open>mutated_paths\<close> compares two collections of the same candidate.

  The lemmas characterise success exactly, change by change, show that what is admitted is owned and
  that no spelling of an admitted path in other letter case is protected or forbidden, and that the
  manifest lists each path once, in order, with the last observed change.
\<close>

section \<open>Data\<close>

definition SNAPSHOT_SCHEMA_VERSION :: u32 where "SNAPSHOT_SCHEMA_VERSION = 1"

datatype observed_file_type = Regular | FileSymlink | Special

datatype observed_change_kind = Added | Modified | Deleted

record observed_content =
  oc_sha256 :: digest
  oc_byte_count :: u64
  oc_is_text :: bool

record observed_change =
  ob_path :: string
  ob_kind :: observed_change_kind
  ob_file_type :: observed_file_type
  ob_mode_changed :: bool
  ob_content :: "observed_content option"

datatype snapshot_change = Write digest u64 | Delete

record snapshot_entry =
  se_path :: string
  se_change :: snapshot_change

record snapshot_manifest =
  sm_schema_version :: u32
  sm_base_commit :: string
  sm_entries :: "snapshot_entry list"

fun change_bytes :: "snapshot_change \<Rightarrow> u64" where
  "change_bytes (Write _ byte_count) = byte_count"
| "change_bytes Delete = 0"

definition total_bytes :: "snapshot_manifest \<Rightarrow> u64" where
  "total_bytes self = sum_list (map (\<lambda>entry. change_bytes (se_change entry)) (sm_entries self))"

definition snapshot_paths :: "snapshot_manifest \<Rightarrow> string list" where
  "snapshot_paths self = map se_path (sm_entries self)"

record scope_policy =
  sp_owned :: "path_pattern list"
  sp_forbidden :: "path_pattern list"
  sp_protected :: "path_pattern list"
  sp_max_files :: nat
  sp_max_file_bytes :: u64
  sp_max_total_bytes :: u64

datatype scope_violation =
    InvalidPath string
  | OutsideOwnedPaths string
  | ProtectedPath string
  | ForbiddenPath string
  | SymlinkFound string
  | SpecialFile string
  | ModeChange string
  | BinaryContent string
  | FileTooLarge string
  | TooManyFiles
  | TotalTooLarge
  | EmptyChange

fun scope_violation_code :: "scope_violation \<Rightarrow> string" where
  "scope_violation_code (InvalidPath _) = ''snapshot_invalid_path''"
| "scope_violation_code (OutsideOwnedPaths _) = ''snapshot_outside_owned_paths''"
| "scope_violation_code (ProtectedPath _) = ''snapshot_protected_path''"
| "scope_violation_code (ForbiddenPath _) = ''snapshot_forbidden_path''"
| "scope_violation_code (SymlinkFound _) = ''snapshot_symlink''"
| "scope_violation_code (SpecialFile _) = ''snapshot_special_file''"
| "scope_violation_code (ModeChange _) = ''snapshot_mode_change''"
| "scope_violation_code (BinaryContent _) = ''snapshot_binary_content''"
| "scope_violation_code (FileTooLarge _) = ''snapshot_file_too_large''"
| "scope_violation_code TooManyFiles = ''snapshot_too_many_files''"
| "scope_violation_code TotalTooLarge = ''snapshot_total_too_large''"
| "scope_violation_code EmptyChange = ''snapshot_empty''"

fun fails_run :: "scope_violation \<Rightarrow> bool" where
  "fails_run (ProtectedPath _) = True"
| "fails_run (ForbiddenPath _) = True"
| "fails_run _ = False"

text \<open>The derived order: declaration order, then the path.\<close>

fun violation_rank :: "scope_violation \<Rightarrow> nat \<times> string" where
  "violation_rank (InvalidPath p) = (0, p)"
| "violation_rank (OutsideOwnedPaths p) = (1, p)"
| "violation_rank (ProtectedPath p) = (2, p)"
| "violation_rank (ForbiddenPath p) = (3, p)"
| "violation_rank (SymlinkFound p) = (4, p)"
| "violation_rank (SpecialFile p) = (5, p)"
| "violation_rank (ModeChange p) = (6, p)"
| "violation_rank (BinaryContent p) = (7, p)"
| "violation_rank (FileTooLarge p) = (8, p)"
| "violation_rank TooManyFiles = (9, [])"
| "violation_rank TotalTooLarge = (10, [])"
| "violation_rank EmptyChange = (11, [])"

lemma violation_rank_eq_iff [simp]: "violation_rank x = violation_rank y \<longleftrightarrow> x = y"
  by (cases x; cases y) auto

instantiation scope_violation :: linorder
begin

definition less_eq_scope_violation :: "scope_violation \<Rightarrow> scope_violation \<Rightarrow> bool" where
  "less_eq_scope_violation a b \<longleftrightarrow> violation_rank a \<le> violation_rank b"

definition less_scope_violation :: "scope_violation \<Rightarrow> scope_violation \<Rightarrow> bool" where
  "less_scope_violation a b \<longleftrightarrow> violation_rank a < violation_rank b"

instance
  by (standard; unfold less_eq_scope_violation_def less_scope_violation_def;
      (rule less_le_not_le order_refl linear | erule (1) order_trans
       | (drule (1) order_antisym, simp)))

end

section \<open>Scope checks\<close>

definition lower_char :: "char \<Rightarrow> char" where
  "lower_char c = (if is_ascii_uppercase c then char_of (byte c + 32) else c)"

definition to_ascii_lowercase :: "string \<Rightarrow> string" where
  "to_ascii_lowercase s = map lower_char s"

definition matches_case_insensitively :: "path_pattern \<Rightarrow> string \<Rightarrow> bool" where
  "matches_case_insensitively pattern path =
     (let lower_path = to_ascii_lowercase path;
          lower_pattern = to_ascii_lowercase pattern
      in case path_pattern_new lower_pattern of Inl _ \<Rightarrow> False
         | Inr lowered \<Rightarrow> pattern_matches lowered lower_path)"

type_synonym manifest_state = "scope_violation list \<times> (string \<times> snapshot_change) list \<times> u64"

text \<open>Where a path stands: protected first, then forbidden, then not owned.\<close>

definition place_violations :: "scope_policy \<Rightarrow> string \<Rightarrow> scope_violation list" where
  "place_violations scope path =
     (if list_ex (\<lambda>p. matches_case_insensitively p path) (sp_protected scope) then [ProtectedPath path]
      else if list_ex (\<lambda>p. matches_case_insensitively p path) (sp_forbidden scope)
      then [ForbiddenPath path]
      else if \<not> list_ex (\<lambda>p. pattern_matches p path) (sp_owned scope) then [OutsideOwnedPaths path]
      else [])"

definition type_violations :: "observed_change \<Rightarrow> scope_violation list" where
  "type_violations change =
     (case ob_file_type change of
        FileSymlink \<Rightarrow> [SymlinkFound (ob_path change)]
      | Special \<Rightarrow> [SpecialFile (ob_path change)]
      | Regular \<Rightarrow> [])
     @ (if ob_mode_changed change then [ModeChange (ob_path change)] else [])"

definition content_violations :: "scope_policy \<Rightarrow> string \<Rightarrow> observed_content \<Rightarrow> scope_violation list" where
  "content_violations scope path content =
     (if \<not> oc_is_text content then [BinaryContent path] else []) @
     (if oc_byte_count content > sp_max_file_bytes scope then [FileTooLarge path] else [])"

text \<open>One iteration of the loop over the observed changes.\<close>

definition observe_change ::
  "scope_policy \<Rightarrow> observed_change \<Rightarrow> manifest_state \<Rightarrow> manifest_state" where
  "observe_change scope change st =
     (case st of (violations, entries, tot) \<Rightarrow>
      let path = ob_path change in
      if \<not> is_relative_path path then (violations @ [InvalidPath path], entries, tot)
      else
        let violations = violations @ place_violations scope path @ type_violations change in
        (case (ob_kind change, ob_content change) of
           (Deleted, _) \<Rightarrow> (violations, btree_insert path Delete entries, tot)
         | (_, Some content) \<Rightarrow>
             (violations @ content_violations scope path content,
              btree_insert path (Write (oc_sha256 content) (oc_byte_count content)) entries,
              saturating_add tot (oc_byte_count content))
         | (_, None) \<Rightarrow> (violations @ [InvalidPath path], entries, tot)))"

definition build_manifest ::
  "string \<Rightarrow> observed_change list \<Rightarrow> scope_policy \<Rightarrow> scope_violation list + snapshot_manifest" where
  "build_manifest base_commit changes scope =
     (let v0 = (if changes = [] then [EmptyChange] else []) @
               (if length changes > sp_max_files scope then [TooManyFiles] else []);
          (violations, entries, tot) = fold (observe_change scope) changes (v0, [], 0);
          violations = violations @ (if tot > sp_max_total_bytes scope then [TotalTooLarge] else [])
      in if violations \<noteq> [] then Inl (sort_dedup violations)
         else Inr \<lparr>sm_schema_version = SNAPSHOT_SCHEMA_VERSION, sm_base_commit = base_commit,
                   sm_entries = map (\<lambda>(path, change). \<lparr>se_path = path, se_change = change\<rparr>) entries\<rparr>)"

definition manifest_map :: "snapshot_manifest \<Rightarrow> (string \<times> snapshot_change) list" where
  "manifest_map m = btree_collect (map (\<lambda>entry. (se_path entry, se_change entry)) (sm_entries m))"

definition mutated_paths :: "snapshot_manifest \<Rightarrow> snapshot_manifest \<Rightarrow> string list" where
  "mutated_paths collected observed =
     (let before = manifest_map collected; after = manifest_map observed
      in sort_dedup (filter (\<lambda>path. map_of before path \<noteq> map_of after path)
                       (map fst before @ map fst after)))"

section \<open>Lower case\<close>

lemma byte_lower_char: "byte (lower_char c) = (if 65 \<le> byte c \<and> byte c \<le> 90 then byte c + 32 else byte c)"
  by (simp add: lower_char_def is_ascii_uppercase_def)

lemma char_eq_byte: "c = d \<longleftrightarrow> byte c = byte d"
  by simp

lemma lower_char_special [simp]:
  "lower_char c = CHR ''/'' \<longleftrightarrow> c = CHR ''/''"
  "lower_char c = CHR ''*'' \<longleftrightarrow> c = CHR ''*''"
  "lower_char c = CHR ''.'' \<longleftrightarrow> c = CHR ''.''"
  by (simp_all add: char_eq_byte byte_lower_char del: of_char_eq_iff)

lemma path_byte_lower [simp]: "path_byte (lower_char c) \<longleftrightarrow> path_byte c"
  by (simp add: path_byte_def ascii_defs char_eq_byte byte_lower_char del: of_char_eq_iff)

lemma lower_length [simp]: "length (to_ascii_lowercase s) = length s"
  by (simp add: to_ascii_lowercase_def)

lemma lower_Nil_iff [simp]: "to_ascii_lowercase s = [] \<longleftrightarrow> s = []"
  by (simp add: to_ascii_lowercase_def)

lemma split_slash_lower: "split_slash (to_ascii_lowercase s) = map to_ascii_lowercase (split_slash s)"
  by (induction s) (auto simp: to_ascii_lowercase_def split: list.splits)

lemma path_segment_lower [simp]: "path_segment (to_ascii_lowercase s) \<longleftrightarrow> path_segment s"
  by (auto simp: path_segment_def to_ascii_lowercase_def list_all_iff map_eq_Cons_conv)

lemma is_relative_path_lower [simp]: "is_relative_path (to_ascii_lowercase s) \<longleftrightarrow> is_relative_path s"
  by (simp add: is_relative_path_def split_slash_lower list_all_iff)

lemma is_recursive_lower [simp]: "is_recursive (to_ascii_lowercase p) \<longleftrightarrow> is_recursive p"
proof
  assume "is_recursive (to_ascii_lowercase p)"
  then obtain b where "map lower_char p = b @ ''/**''"
    by (auto simp: is_recursive_def RECURSIVE_SUFFIX_def suffix_def to_ascii_lowercase_def)
  then obtain q r where "p = q @ r" "map lower_char r = ''/**''"
    by (metis map_eq_append_conv)
  then show "is_recursive p"
    by (auto simp: map_eq_Cons_conv is_recursive_def RECURSIVE_SUFFIX_def suffix_def)
next
  assume "is_recursive p"
  then obtain b where "p = b @ ''/**''" by (rule is_recursiveE)
  then show "is_recursive (to_ascii_lowercase p)"
    by (auto simp: is_recursive_def RECURSIVE_SUFFIX_def suffix_def to_ascii_lowercase_def
        lower_char_def ascii_defs)
qed

lemma pattern_base_lower: "pattern_base (to_ascii_lowercase p) = to_ascii_lowercase (pattern_base p)"
  using is_recursive_lower [of p]
  by (simp add: pattern_base_def is_recursive_def to_ascii_lowercase_def take_map)

lemma valid_pattern_lower: "valid_pattern p \<Longrightarrow> valid_pattern (to_ascii_lowercase p)"
  by (simp add: path_pattern_new_def pattern_base_lower split: if_splits)

lemma pattern_matches_lower:
  "pattern_matches p path \<Longrightarrow> pattern_matches (to_ascii_lowercase p) (to_ascii_lowercase path)"
  by (auto simp: pattern_matches_def Let_def pattern_base_lower split: if_splits)
     (auto simp: to_ascii_lowercase_def prefix_def nth_append)

lemma matches_case_insensitively_iff:
  "valid_pattern p \<Longrightarrow> matches_case_insensitively p path \<longleftrightarrow>
   pattern_matches (to_ascii_lowercase p) (to_ascii_lowercase path)"
  using valid_pattern_lower by (simp add: matches_case_insensitively_def)

text \<open>No alias in letter case escapes.\<close>

lemma matches_alias:
  "valid_pattern p \<Longrightarrow> pattern_matches p alias \<Longrightarrow>
   to_ascii_lowercase alias = to_ascii_lowercase path \<Longrightarrow> matches_case_insensitively p path"
  by (metis matches_case_insensitively_iff pattern_matches_lower)

section \<open>Exactly the changes in scope\<close>

definition change_ok :: "scope_policy \<Rightarrow> observed_change \<Rightarrow> bool" where
  "change_ok scope c \<longleftrightarrow> is_relative_path (ob_path c) \<and> place_violations scope (ob_path c) = [] \<and>
     ob_file_type c = Regular \<and> \<not> ob_mode_changed c \<and>
     (ob_kind c = Deleted \<or> (\<exists>content. ob_content c = Some content \<and> oc_is_text content \<and>
        oc_byte_count content \<le> sp_max_file_bytes scope))"

definition recorded_change :: "observed_change \<Rightarrow> snapshot_change" where
  "recorded_change c = (case (ob_kind c, ob_content c) of
       (Deleted, _) \<Rightarrow> Delete
     | (_, Some content) \<Rightarrow> Write (oc_sha256 content) (oc_byte_count content)
     | (_, None) \<Rightarrow> Delete)"

text \<open>A change out of scope leaves a violation behind, a change in scope none.\<close>

lemma observe_change_violations:
  "\<exists>new. fst (observe_change scope c (v, e, t)) = v @ new \<and> (new = [] \<longleftrightarrow> change_ok scope c)"
  by (cases "ob_kind c"; cases "ob_content c"; cases "ob_file_type c")
     (auto simp: observe_change_def change_ok_def type_violations_def content_violations_def Let_def
       not_less)

lemma observe_change_ok:
  "change_ok scope c \<Longrightarrow> observe_change scope c (v, e, t) =
     (v, btree_insert (ob_path c) (recorded_change c) e,
      saturating_add t (change_bytes (recorded_change c)))"
  by (cases "ob_kind c"; cases "ob_content c")
     (auto simp: observe_change_def change_ok_def type_violations_def content_violations_def Let_def
       recorded_change_def not_less saturating_add_0)

lemma observe_changes_violations:
  "\<exists>new. fst (fold (observe_change scope) cs (v, e, t)) = v @ new \<and>
     (new = [] \<longleftrightarrow> (\<forall>c \<in> set cs. change_ok scope c))"
proof (induction cs arbitrary: v e t)
  case (Cons c cs)
  obtain v' e' t' where st: "observe_change scope c (v, e, t) = (v', e', t')"
    by (cases "observe_change scope c (v, e, t)")
  with observe_change_violations [of scope c v e t] Cons.IH [of v' e' t'] show ?case
    by fastforce
qed simp

lemma observe_changes_ok:
  "\<forall>c \<in> set cs. change_ok scope c \<Longrightarrow> fold (observe_change scope) cs (v, e, t) =
     (v, fold (\<lambda>(k, x). btree_insert k x) (map (\<lambda>c. (ob_path c, recorded_change c)) cs) e,
      fold (\<lambda>c t. saturating_add t (change_bytes (recorded_change c))) cs t)"
  by (induction cs arbitrary: v e t) (auto simp: observe_change_ok)

lemma unat_fold_saturating_add:
  fixes t :: "'a::len word"
  shows "unat (fold (\<lambda>c t. saturating_add t (f c)) cs t) =
    min (unat t + sum_list (map (unat \<circ> f) cs)) (2 ^ LENGTH('a) - 1)"
proof (induction cs arbitrary: t)
  case Nil
  have "unat t < 2 ^ LENGTH('a)" by (rule unsigned_less)
  then have "unat t \<le> 2 ^ LENGTH('a) - 1" by linarith
  then show ?case by simp
next
  case (Cons c cs)
  have "min (min a m + b) m = min (a + b) m" for a b m :: nat by simp
  then show ?case by (simp add: Cons.IH unat_saturating_add add.assoc)
qed

definition observed_bytes :: "observed_change list \<Rightarrow> nat" where
  "observed_bytes cs = sum_list (map (\<lambda>c. unat (change_bytes (recorded_change c))) cs)"

definition recorded_entries :: "observed_change list \<Rightarrow> (string \<times> snapshot_change) list" where
  "recorded_entries cs = btree_collect (map (\<lambda>c. (ob_path c, recorded_change c)) cs)"

lemma build_manifest_Inr:
  "build_manifest base cs scope = Inr m \<longleftrightarrow>
     cs \<noteq> [] \<and> length cs \<le> sp_max_files scope \<and> (\<forall>c \<in> set cs. change_ok scope c) \<and>
     min (observed_bytes cs) (2 ^ 64 - 1) \<le> unat (sp_max_total_bytes scope) \<and>
     m = \<lparr>sm_schema_version = SNAPSHOT_SCHEMA_VERSION, sm_base_commit = base,
          sm_entries = map (\<lambda>(path, change). \<lparr>se_path = path, se_change = change\<rparr>)
                         (recorded_entries cs)\<rparr>"
proof (cases "\<forall>c \<in> set cs. change_ok scope c")
  case True
  have "unat (fold (\<lambda>c t. saturating_add t (change_bytes (recorded_change c))) cs (0 :: u64)) =
      min (observed_bytes cs) (2 ^ 64 - 1)"
    using unat_fold_saturating_add [where t = "0 :: u64" and f = "\<lambda>c. change_bytes (recorded_change c)"]
    by (simp add: observed_bytes_def comp_def)
  then show ?thesis
    using True
    by (auto simp: build_manifest_def Let_def observe_changes_ok recorded_entries_def
        btree_collect_def not_less word_less_nat_alt)
next
  case False
  obtain v e t where st: "fold (observe_change scope) cs
      ((if cs = [] then [EmptyChange] else []) @
       (if length cs > sp_max_files scope then [TooManyFiles] else []), [], 0) = (v, e, t)"
    by (metis prod_cases3)
  with observe_changes_violations [of scope cs "(if cs = [] then [EmptyChange] else []) @
       (if length cs > sp_max_files scope then [TooManyFiles] else [])" "[]" 0] False
  have "v \<noteq> []" by auto
  with st False show ?thesis by (simp add: build_manifest_def)
qed

lemma recorded_entries_btree [simp]: "btree (recorded_entries cs)"
  by (simp add: recorded_entries_def)

lemma manifest_eq_iff:
  "m = \<lparr>sm_schema_version = SNAPSHOT_SCHEMA_VERSION, sm_base_commit = base,
        sm_entries = map (\<lambda>(path, change). \<lparr>se_path = path, se_change = change\<rparr>) (recorded_entries cs)\<rparr> \<longleftrightarrow>
      sm_schema_version m = SNAPSHOT_SCHEMA_VERSION \<and> sm_base_commit m = base \<and>
      sorted_wrt (<) (snapshot_paths m) \<and>
      map_of (map (\<lambda>entry. (se_path entry, se_change entry)) (sm_entries m)) =
        map_of (rev (map (\<lambda>c. (ob_path c, recorded_change c)) cs))"
proof -
  let ?to = "\<lambda>(path, change). \<lparr>se_path = path, se_change = change\<rparr> :: snapshot_entry"
  let ?from = "\<lambda>entry :: snapshot_entry. (se_path entry, se_change entry)"
  have inv: "map ?from (map ?to ps) = ps" "map ?to (map ?from es) = es" for ps es
    by (simp_all add: comp_def case_prod_beta map_idI)
  have "sm_entries m = map ?to (recorded_entries cs) \<longleftrightarrow>
      map ?from (sm_entries m) = recorded_entries cs"
    using inv by metis
  also have "\<dots> \<longleftrightarrow> btree (map ?from (sm_entries m)) \<and>
      map_of (map ?from (sm_entries m)) = map_of (recorded_entries cs)"
    using btree_eqI [OF _ recorded_entries_btree, of "map ?from (sm_entries m)" cs] by auto
  also have "btree (map ?from (sm_entries m)) \<longleftrightarrow> sorted_wrt (<) (snapshot_paths m)"
    by (simp add: btree_def snapshot_paths_def comp_def)
  finally show ?thesis
    by (cases m) (simp add: recorded_entries_def)
qed

lemma recorded_entries_keys: "fst ` set (recorded_entries cs) = ob_path ` set cs"
proof -
  have "dom (map_of (recorded_entries cs)) = ob_path ` set cs"
    by (simp add: recorded_entries_def dom_map_of_conv_image_fst image_image)
  then show ?thesis by (simp add: dom_map_of_conv_image_fst)
qed

text \<open>A manifest records no more bytes than were observed.\<close>

lemma btree_insert_bytes:
  "sum_list (map (\<lambda>(_, x). f x) (btree_insert k v m)) \<le> f v + sum_list (map (\<lambda>(_, x). f x) m)"
  for f :: "'v \<Rightarrow> nat"
  by (induction k v m rule: btree_insert.induct) auto

lemma fold_insert_bytes:
  "sum_list (map (\<lambda>(_, x). f x) (fold (\<lambda>(k, x). btree_insert k x) ps m)) \<le>
   sum_list (map (\<lambda>(_, x). f x) ps) + sum_list (map (\<lambda>(_, x). f x) m)" for f :: "'v \<Rightarrow> nat"
proof (induction ps arbitrary: m)
  case (Cons p ps)
  obtain k v where p: "p = (k, v)" by (cases p)
  show ?case
    using Cons.IH [of "btree_insert k v m"] btree_insert_bytes [of f k v m] by (simp add: p)
qed simp

lemma recorded_entries_bytes:
  "sum_list (map (\<lambda>(_, x). unat (change_bytes x)) (recorded_entries cs)) \<le> observed_bytes cs"
  using fold_insert_bytes [of "\<lambda>x. unat (change_bytes x)" "map (\<lambda>c. (ob_path c, recorded_change c)) cs" "[]"]
  by (simp add: recorded_entries_def btree_collect_def observed_bytes_def comp_def)

lemma unat_sum_list:
  fixes ws :: "'a::len word list"
  assumes "sum_list (map unat ws) < 2 ^ LENGTH('a)"
  shows "unat (sum_list ws) = sum_list (map unat ws)"
  using assms by (induction ws) (auto simp: unat_word_ariths)

lemma manifest_map_built:
  "build_manifest base cs scope = Inr m \<Longrightarrow> manifest_map m = recorded_entries cs"
  by (auto simp: build_manifest_Inr manifest_map_def comp_def case_prod_beta btree_collect_id)

lemma mutated_paths_spec:
  "set (mutated_paths m n) = {p. map_of (manifest_map m) p \<noteq> map_of (manifest_map n) p}"
proof -
  have "p \<in> fst ` set xs \<or> p \<in> fst ` set ys" if "map_of xs p \<noteq> map_of ys p"
    for p and xs ys :: "(string \<times> snapshot_change) list"
    using that by (metis map_of_eq_None_iff)
  then show ?thesis by (auto simp: mutated_paths_def Let_def)
qed

section \<open>A sample manifest\<close>

definition sample_scope :: scope_policy where
  "sample_scope = \<lparr>sp_owned = [''src/**''], sp_forbidden = [''src/secret.txt''],
     sp_protected = [''tests/**''], sp_max_files = 4, sp_max_file_bytes = 100,
     sp_max_total_bytes = 150\<rparr>"

definition sample_changes :: "digest \<Rightarrow> observed_change list" where
  "sample_changes sha = [\<lparr>ob_path = ''src/a.rs'', ob_kind = Modified, ob_file_type = Regular,
     ob_mode_changed = False,
     ob_content = Some \<lparr>oc_sha256 = sha, oc_byte_count = 60, oc_is_text = True\<rparr>\<rparr>]"

lemma sample_changes_ok: "\<forall>c \<in> set (sample_changes sha). change_ok sample_scope c"
proof -
  have "is_relative_path ''src/a.rs''" and "place_violations sample_scope ''src/a.rs'' = []"
    by code_simp+
  then show ?thesis
    by (simp add: sample_changes_def change_ok_def) (simp add: sample_scope_def)
qed

lemma sample_manifest:
  obtains m where "build_manifest ''base'' (sample_changes sha) sample_scope = Inr m"
  using sample_changes_ok [of sha] unfolding build_manifest_Inr
  by (simp add: sample_changes_def sample_scope_def observed_bytes_def recorded_change_def)

section \<open>Properties\<close>

text \<open>The manifest is admitted exactly when every observed change is in scope, and then it says
  exactly what was observed: there is a change, no more than the allowed files, every change is an
  unmoved regular text file or a deletion at a relative path that is owned and neither protected nor
  forbidden, within the size limits; the entries are the changed paths, each once, in order, with the
  last change observed there. Otherwise the error lists at least one violation.\<close>

theorem manifest_exact:
  "(\<forall>m. build_manifest base cs scope = Inr m \<longleftrightarrow>
     cs \<noteq> [] \<and> length cs \<le> sp_max_files scope \<and> (\<forall>c \<in> set cs. change_ok scope c) \<and>
     min (observed_bytes cs) (2 ^ 64 - 1) \<le> unat (sp_max_total_bytes scope) \<and>
     sm_schema_version m = SNAPSHOT_SCHEMA_VERSION \<and> sm_base_commit m = base \<and>
     sorted_wrt (<) (snapshot_paths m) \<and>
     map_of (map (\<lambda>entry. (se_path entry, se_change entry)) (sm_entries m)) =
       map_of (rev (map (\<lambda>c. (ob_path c, recorded_change c)) cs))) \<and>
   build_manifest base cs scope \<noteq> Inl []"
proof
  have key: "m = \<lparr>sm_schema_version = SNAPSHOT_SCHEMA_VERSION, sm_base_commit = base,
        sm_entries = map (\<lambda>(path, change). \<lparr>se_path = path, se_change = change\<rparr>) (recorded_entries cs)\<rparr> \<longleftrightarrow>
      sm_schema_version m = SNAPSHOT_SCHEMA_VERSION \<and> sm_base_commit m = base \<and>
      sorted_wrt (<) (snapshot_paths m) \<and>
      map_of (map (\<lambda>entry. (se_path entry, se_change entry)) (sm_entries m)) =
        map_of (rev (map (\<lambda>c. (ob_path c, recorded_change c)) cs))" (is "_ \<longleftrightarrow> ?R m") for m
    by (rule manifest_eq_iff)
  show "\<forall>m. build_manifest base cs scope = Inr m \<longleftrightarrow>
     cs \<noteq> [] \<and> length cs \<le> sp_max_files scope \<and> (\<forall>c \<in> set cs. change_ok scope c) \<and>
     min (observed_bytes cs) (2 ^ 64 - 1) \<le> unat (sp_max_total_bytes scope) \<and> ?R m"
    unfolding build_manifest_Inr key by blast
  show "build_manifest base cs scope \<noteq> Inl []"
    by (auto simp: build_manifest_def Let_def split: prod.splits)
qed

theorem manifest_exact_witness:
  "\<exists>m. build_manifest ''base'' (sample_changes 7) sample_scope = Inr m \<and>
       map_of (map (\<lambda>entry. (se_path entry, se_change entry)) (sm_entries m)) ''src/a.rs'' =
         Some (Write 7 60)"
proof -
  obtain m where m: "build_manifest ''base'' (sample_changes 7) sample_scope = Inr m"
    by (rule sample_manifest)
  with manifest_exact [of "''base''" "sample_changes 7" sample_scope]
  show ?thesis by (auto simp: sample_changes_def recorded_change_def)
qed

text \<open>C36. Scope is not escaped by spelling, and sizes are real. Under protected and forbidden patterns that
  passed the constructor, every path of an admitted manifest is a relative path matched by an owned
  pattern, and no path that differs from it at most in the case of ASCII letters is matched by a
  protected or forbidden pattern; and when the total limit is below the largest 64-bit value, the sum
  of the sizes in the manifest does not wrap around and stays within the limit.\<close>

theorem manifest_in_scope:
  assumes "build_manifest base cs scope = Inr m"
    and "\<forall>p \<in> set (sp_protected scope) \<union> set (sp_forbidden scope). path_pattern_new p = Inr p"
    and "unat (sp_max_total_bytes scope) < 2 ^ 64 - 1"
  shows "(\<forall>path \<in> set (snapshot_paths m). is_relative_path path \<and>
            (\<exists>p \<in> set (sp_owned scope). pattern_matches p path) \<and>
            (\<forall>alias. to_ascii_lowercase alias = to_ascii_lowercase path \<longrightarrow>
               (\<forall>p \<in> set (sp_protected scope) \<union> set (sp_forbidden scope). \<not> pattern_matches p alias))) \<and>
         unat (total_bytes m) = sum_list (map (\<lambda>e. unat (change_bytes (se_change e))) (sm_entries m)) \<and>
         total_bytes m \<le> sp_max_total_bytes scope"
proof (intro conjI ballI)
  fix path
  assume "path \<in> set (snapshot_paths m)"
  then have "path \<in> fst ` set (recorded_entries cs)"
    using assms(1) by (force simp: build_manifest_Inr snapshot_paths_def)
  then obtain c where c: "c \<in> set cs" "path = ob_path c" by (auto simp: recorded_entries_keys)
  then have ok: "change_ok scope c" using assms(1) by (simp add: build_manifest_Inr)
  with c show "is_relative_path path" by (simp add: change_ok_def)
  from ok c have place: "place_violations scope path = []" by (simp add: change_ok_def)
  then show "\<exists>p \<in> set (sp_owned scope). pattern_matches p path"
    by (auto simp: place_violations_def list_ex_iff split: if_splits)
  show "\<forall>alias. to_ascii_lowercase alias = to_ascii_lowercase path \<longrightarrow>
      (\<forall>p \<in> set (sp_protected scope) \<union> set (sp_forbidden scope). \<not> pattern_matches p alias)"
    using place assms(2) matches_alias
    by (fastforce simp: place_violations_def list_ex_iff split: if_splits)
next
  let ?ws = "map (\<lambda>e. change_bytes (se_change e)) (sm_entries m)"
  have sum: "sum_list (map unat ?ws) =
      sum_list (map (\<lambda>(_, x). unat (change_bytes x)) (recorded_entries cs))"
    using assms(1) by (auto simp: build_manifest_Inr comp_def case_prod_unfold)
  have le: "observed_bytes cs \<le> unat (sp_max_total_bytes scope)"
    using assms(1,3) by (auto simp: build_manifest_Inr)
  with sum recorded_entries_bytes [of cs] assms(3)
  have small: "sum_list (map unat ?ws) \<le> unat (sp_max_total_bytes scope)"
    "sum_list (map unat ?ws) < 2 ^ LENGTH(64)" by simp_all
  from unat_sum_list [OF small(2)] show "unat (total_bytes m) =
      sum_list (map (\<lambda>e. unat (change_bytes (se_change e))) (sm_entries m))"
    by (simp add: total_bytes_def comp_def)
  with small(1) show "total_bytes m \<le> sp_max_total_bytes scope"
    by (simp add: word_le_nat_alt comp_def)
qed

theorem manifest_in_scope_witness:
  "\<exists>m. build_manifest ''base'' (sample_changes 7) sample_scope = Inr m \<and>
       total_bytes m \<le> 150"
proof -
  obtain m where m: "build_manifest ''base'' (sample_changes 7) sample_scope = Inr m"
    by (rule sample_manifest)
  have "\<forall>p \<in> set (sp_protected sample_scope) \<union> set (sp_forbidden sample_scope). path_pattern_new p = Inr p"
    by code_simp
  moreover have "unat (sp_max_total_bytes sample_scope) < 2 ^ 64 - 1"
    by (simp add: sample_scope_def)
  ultimately have "total_bytes m \<le> sp_max_total_bytes sample_scope"
    using manifest_in_scope [OF m] by blast
  with m show ?thesis by (auto simp: sample_scope_def)
qed

text \<open>Mutation of a candidate is noticed exactly: comparing two manifests lists, sorted and without
  repetition, precisely the paths recorded differently in the two; for two manifests built by
  \<open>build_manifest\<close> the list is empty if and only if their entries are the same.\<close>

theorem mutation_detected_exactly:
  assumes "build_manifest b1 cs1 scope1 = Inr m" "build_manifest b2 cs2 scope2 = Inr n"
  shows "set (mutated_paths m n) =
           {p. map_of (map (\<lambda>e. (se_path e, se_change e)) (sm_entries m)) p \<noteq>
               map_of (map (\<lambda>e. (se_path e, se_change e)) (sm_entries n)) p} \<and>
         sorted (mutated_paths m n) \<and> distinct (mutated_paths m n) \<and>
         (mutated_paths m n = [] \<longleftrightarrow> sm_entries m = sm_entries n)"
proof -
  have entries: "map (\<lambda>e. (se_path e, se_change e)) (sm_entries x) = manifest_map x"
    if "build_manifest b cs scope = Inr x" for x b cs scope
    using that manifest_map_built [OF that] by (auto simp: build_manifest_Inr comp_def case_prod_beta)
  have "mutated_paths m n = [] \<longleftrightarrow> map_of (manifest_map m) = map_of (manifest_map n)"
    using mutated_paths_spec [of m n] by (auto simp: fun_eq_iff simp flip: set_empty)
  also have "\<dots> \<longleftrightarrow> manifest_map m = manifest_map n"
    using assms manifest_map_built btree_eqI recorded_entries_btree by metis
  also have "\<dots> \<longleftrightarrow> sm_entries m = sm_entries n"
    using assms manifest_map_built
    by (metis (no_types, lifting) build_manifest_Inr snapshot_manifest.select_convs(3) entries)
  finally show ?thesis
    unfolding entries [OF assms(1)] entries [OF assms(2)]
    using mutated_paths_spec [of m n] by (simp add: mutated_paths_def Let_def)
qed

theorem mutation_detected_exactly_witness:
  "\<exists>m n. build_manifest ''base'' (sample_changes 7) sample_scope = Inr m \<and>
         build_manifest ''base'' (sample_changes 8) sample_scope = Inr n \<and>
         ''src/a.rs'' \<in> set (mutated_paths m n)"
proof -
  obtain m where m: "build_manifest ''base'' (sample_changes 7) sample_scope = Inr m"
    by (rule sample_manifest)
  obtain n where n: "build_manifest ''base'' (sample_changes 8) sample_scope = Inr n"
    by (rule sample_manifest)
  from m n mutation_detected_exactly [OF m n] show ?thesis
    by (auto simp: build_manifest_Inr recorded_entries_def btree_collect_def sample_changes_def
        recorded_change_def)
qed

end
