(* ===== verification/Gates.thy ===== *)
theory Gates
  imports Slots Snapshot
begin

text \<open>
  Acceptance levels, receipts and the workflow gate, \<open>crates/vibemux_workflow/src/gates.rs\<close>: the gate
  one candidate must pass and the cooperative acceptance of a whole workflow. The digest of a receipt
  is \<open>canonical_digest\<close> of its serialization (serde and SHA-256 are libraries): it is a parameter of
  the gate, given as the functions \<open>review_digest\<close> and \<open>verifier_digest\<close>.

  The lemmas give both gates as an equivalence with a conjunction of facts about the receipts, list
  the errors exactly, and carry the independence of review into acceptance.
\<close>

section \<open>Data\<close>

definition RECEIPT_SCHEMA_VERSION :: u32 where "RECEIPT_SCHEMA_VERSION = 1"

datatype acceptance_level = TurnCompleted | CandidateArtifactCollected | IndependentReviewPassed
  | LocalVerifierPassed | IntegrationCandidateVerified | WorkflowAccepted

datatype candidate_origin =
    LiveWorker
  | FixtureWorker
  | InjectedMutation digest string           \<comment> \<open>source\_candidate, mutation\_id\<close>

record candidate_record =
  cr_candidate_digest :: digest
  cr_contract_id :: digest
  cr_task_key :: spec_identifier
  cr_worker_run_id :: uuid
  cr_worker_session_id :: uuid
  cr_worker_route :: string
  cr_worker_harness :: agent_kind
  cr_lease_generation :: u64
  cr_origin :: candidate_origin

datatype review_verdict = VerdictPass | ChangesRequested | VerdictBlocked

datatype native_protocol = CodexExec | CodexAppServer | ClaudeStreamJson | Acp | DshSdkJsonRpc

record effective_route_identity =
  ei_harness :: agent_kind
  ei_protocol :: native_protocol
  ei_model_alias :: "string option"
  ei_endpoint :: "string option"
  ei_config_digest :: digest
  ei_profile :: string

record review_receipt =
  rr_schema_version :: u32
  rr_receipt_id :: uuid
  rr_workflow_id :: uuid
  rr_task_key :: spec_identifier
  rr_contract_id :: digest
  rr_candidate_digest :: digest
  rr_reviewer_run_id :: uuid
  rr_reviewer_session_id :: uuid
  rr_reviewer_route :: string
  rr_effective_route :: "effective_route_identity option"
  rr_reviewer_harness :: agent_kind
  rr_verdict :: review_verdict
  rr_findings_count :: u32
  rr_findings_digest :: digest
  rr_candidate_unchanged :: bool

datatype suite_status = SuitePassed | SuiteStatusFailed | SuiteStatusBlocked

record suite_result =
  su_suite_id :: spec_identifier
  su_status :: suite_status
  su_tests_total :: u32
  su_tests_passed :: u32
  su_tests_failed :: u32
  su_failed_tests :: "string list"
  su_command :: "string list"
  su_exit_code :: "32 word option"
  su_duration_ms :: u64
  su_output_sha256 :: digest
  su_blocked_reason :: "string option"

record derived_verifier_subject =
  dv_source_candidate_digest :: digest
  dv_mutation_id :: string
  dv_manifest :: snapshot_manifest

record verifier_receipt =
  vr_schema_version :: u32
  vr_receipt_id :: uuid
  vr_workflow_id :: uuid
  vr_task_key :: "spec_identifier option"
  vr_contract_ids :: "digest list"
  vr_subject_digest :: digest
  vr_derived_subject :: "derived_verifier_subject option"
  vr_suites :: "suite_result list"
  vr_verifier_files_digest :: digest
  vr_tool_versions :: "(string \<times> string) list"
  vr_subject_unchanged :: bool

definition verifier_suite :: "verifier_receipt \<Rightarrow> spec_identifier \<Rightarrow> suite_result option" where
  "verifier_suite self suite_id = find (\<lambda>suite. su_suite_id suite = suite_id) (vr_suites self)"

record integration_receipt =
  ig_schema_version :: u32
  ig_receipt_id :: uuid
  ig_workflow_id :: uuid
  ig_base_commit :: string
  ig_applied_candidates :: "digest list"
  ig_contract_ids :: "digest list"
  ig_integration_tree_digest :: digest
  ig_patch_sha256 :: digest
  ig_conflicts :: "string list"

record gate_requirements =
  gr_required_suites :: "spec_identifier list"
  gr_admitted_verifier_digest :: digest

datatype gate_failure =
    ReviewMissing
  | ReviewNotPassed
  | ReviewWrongCandidate
  | ReviewWrongContract
  | ReviewerNotIndependent
  | ReviewMutatedCandidate
  | VerificationMissing
  | VerificationWrongCandidate
  | VerificationWrongContract
  | SuiteMissing string
  | SuiteFailed string
  | SuiteBlocked string
  | VerifierModified
  | CandidateMutatedDuringVerification
  | MutationArtifactNotPromotable
  | WorkflowNotActive string
  | TaskMissing string
  | IntegrationMissing
  | IntegrationMismatch
  | IntegrationConflicts

fun gate_failure_code :: "gate_failure \<Rightarrow> string" where
  "gate_failure_code ReviewMissing = ''gate_review_missing''"
| "gate_failure_code ReviewNotPassed = ''gate_review_not_passed''"
| "gate_failure_code ReviewWrongCandidate = ''gate_review_wrong_candidate''"
| "gate_failure_code ReviewWrongContract = ''gate_review_wrong_contract''"
| "gate_failure_code ReviewerNotIndependent = ''gate_reviewer_not_independent''"
| "gate_failure_code ReviewMutatedCandidate = ''gate_review_mutated_candidate''"
| "gate_failure_code VerificationMissing = ''gate_verification_missing''"
| "gate_failure_code VerificationWrongCandidate = ''gate_verification_wrong_candidate''"
| "gate_failure_code VerificationWrongContract = ''gate_verification_wrong_contract''"
| "gate_failure_code (SuiteMissing _) = ''gate_suite_missing''"
| "gate_failure_code (SuiteFailed _) = ''gate_suite_failed''"
| "gate_failure_code (SuiteBlocked _) = ''gate_suite_blocked''"
| "gate_failure_code VerifierModified = ''gate_verifier_modified''"
| "gate_failure_code CandidateMutatedDuringVerification = ''gate_candidate_mutated''"
| "gate_failure_code MutationArtifactNotPromotable = ''gate_mutation_not_promotable''"
| "gate_failure_code (WorkflowNotActive _) = ''gate_workflow_not_active''"
| "gate_failure_code (TaskMissing _) = ''gate_task_missing''"
| "gate_failure_code IntegrationMissing = ''gate_integration_missing''"
| "gate_failure_code IntegrationMismatch = ''gate_integration_mismatch''"
| "gate_failure_code IntegrationConflicts = ''gate_integration_conflicts''"

text \<open>The derived order: declaration order, then the payload.\<close>

fun failure_rank :: "gate_failure \<Rightarrow> nat \<times> string" where
  "failure_rank ReviewMissing = (0, [])"
| "failure_rank ReviewNotPassed = (1, [])"
| "failure_rank ReviewWrongCandidate = (2, [])"
| "failure_rank ReviewWrongContract = (3, [])"
| "failure_rank ReviewerNotIndependent = (4, [])"
| "failure_rank ReviewMutatedCandidate = (5, [])"
| "failure_rank VerificationMissing = (6, [])"
| "failure_rank VerificationWrongCandidate = (7, [])"
| "failure_rank VerificationWrongContract = (8, [])"
| "failure_rank (SuiteMissing s) = (9, s)"
| "failure_rank (SuiteFailed s) = (10, s)"
| "failure_rank (SuiteBlocked s) = (11, s)"
| "failure_rank VerifierModified = (12, [])"
| "failure_rank CandidateMutatedDuringVerification = (13, [])"
| "failure_rank MutationArtifactNotPromotable = (14, [])"
| "failure_rank (WorkflowNotActive s) = (15, s)"
| "failure_rank (TaskMissing s) = (16, s)"
| "failure_rank IntegrationMissing = (17, [])"
| "failure_rank IntegrationMismatch = (18, [])"
| "failure_rank IntegrationConflicts = (19, [])"

lemma failure_rank_eq_iff [simp]: "failure_rank x = failure_rank y \<longleftrightarrow> x = y"
  by (cases x; cases y) auto

instantiation gate_failure :: linorder
begin

definition less_eq_gate_failure :: "gate_failure \<Rightarrow> gate_failure \<Rightarrow> bool" where
  "less_eq_gate_failure a b \<longleftrightarrow> failure_rank a \<le> failure_rank b"

definition less_gate_failure :: "gate_failure \<Rightarrow> gate_failure \<Rightarrow> bool" where
  "less_gate_failure a b \<longleftrightarrow> failure_rank a < failure_rank b"

instance
  by (standard; unfold less_eq_gate_failure_def less_gate_failure_def;
      (rule less_le_not_le order_refl linear | erule (1) order_trans
       | (drule (1) order_antisym, simp)))

end

record candidate_acceptance =
  ca_candidate_digest :: digest
  ca_contract_id :: digest
  ca_review_receipt :: digest
  ca_verifier_receipt :: digest
  ca_level :: acceptance_level

section \<open>The candidate gate\<close>

definition suite_failures :: "verifier_receipt \<Rightarrow> spec_identifier \<Rightarrow> gate_failure list" where
  "suite_failures receipt suite_id =
     (case verifier_suite receipt suite_id of
        None \<Rightarrow> [SuiteMissing suite_id]
      | Some suite \<Rightarrow>
          (case su_status suite of
             SuitePassed \<Rightarrow>
               if su_tests_failed suite = 0 \<and> su_tests_passed suite > 0 then []
               else [SuiteFailed suite_id]
           | SuiteStatusBlocked \<Rightarrow> [SuiteBlocked suite_id]
           | SuiteStatusFailed \<Rightarrow> [SuiteFailed suite_id]))"

definition verification_failures ::
  "verifier_receipt \<Rightarrow> digest \<Rightarrow> digest list \<Rightarrow> gate_requirements \<Rightarrow> gate_failure list" where
  "verification_failures receipt subject contract_ids requirements =
     (if vr_subject_digest receipt \<noteq> subject then [VerificationWrongCandidate] else []) @
     (if sort contract_ids \<noteq> sort (vr_contract_ids receipt) then [VerificationWrongContract] else []) @
     (if vr_verifier_files_digest receipt \<noteq> gr_admitted_verifier_digest requirements
      then [VerifierModified] else []) @
     (if \<not> vr_subject_unchanged receipt then [CandidateMutatedDuringVerification] else []) @
     concat (map (suite_failures receipt) (gr_required_suites requirements))"

definition is_injected_mutation :: "candidate_origin \<Rightarrow> bool" where
  "is_injected_mutation origin = (case origin of InjectedMutation _ _ \<Rightarrow> True | _ \<Rightarrow> False)"

definition review_failures :: "candidate_record \<Rightarrow> review_receipt \<Rightarrow> gate_failure list" where
  "review_failures candidate review =
     (if rr_verdict review \<noteq> VerdictPass then [ReviewNotPassed] else []) @
     (if rr_candidate_digest review \<noteq> cr_candidate_digest candidate
      then [ReviewWrongCandidate] else []) @
     (if rr_task_key review \<noteq> cr_task_key candidate then [ReviewWrongCandidate] else []) @
     (if rr_contract_id review \<noteq> cr_contract_id candidate then [ReviewWrongContract] else []) @
     (if rr_reviewer_run_id review = cr_worker_run_id candidate
         \<or> rr_reviewer_session_id review = cr_worker_session_id candidate
         \<or> rr_reviewer_route review = cr_worker_route candidate
      then [ReviewerNotIndependent] else []) @
     (if \<not> rr_candidate_unchanged review then [ReviewMutatedCandidate] else [])"

definition candidate_failures ::
  "candidate_record \<Rightarrow> review_receipt option \<Rightarrow> verifier_receipt option \<Rightarrow> gate_requirements \<Rightarrow>
   gate_failure list" where
  "candidate_failures candidate review verification requirements =
     (if is_injected_mutation (cr_origin candidate) then [MutationArtifactNotPromotable] else []) @
     (case review of None \<Rightarrow> [ReviewMissing] | Some review \<Rightarrow> review_failures candidate review) @
     (case verification of None \<Rightarrow> [VerificationMissing]
      | Some receipt \<Rightarrow> verification_failures receipt (cr_candidate_digest candidate)
                          [cr_contract_id candidate] requirements)"

definition candidate_gate ::
  "(review_receipt \<Rightarrow> digest option) \<Rightarrow> (verifier_receipt \<Rightarrow> digest option) \<Rightarrow>
   candidate_record \<Rightarrow> review_receipt option \<Rightarrow> verifier_receipt option \<Rightarrow> gate_requirements \<Rightarrow>
   gate_failure list + candidate_acceptance" where
  "candidate_gate review_digest verifier_digest candidate review verification requirements =
     (let failures = candidate_failures candidate review verification requirements in
      if failures \<noteq> [] then Inl (sort_dedup failures)
      else (case (review, verification) of
        (Some review, Some verification) \<Rightarrow>
          (case review_digest review of None \<Rightarrow> Inl [ReviewMissing] | Some rd \<Rightarrow>
          (case verifier_digest verification of None \<Rightarrow> Inl [VerificationMissing] | Some vd \<Rightarrow>
             Inr \<lparr>ca_candidate_digest = cr_candidate_digest candidate,
                  ca_contract_id = cr_contract_id candidate,
                  ca_review_receipt = rd, ca_verifier_receipt = vd,
                  ca_level = LocalVerifierPassed\<rparr>))
      | _ \<Rightarrow> Inl [ReviewMissing]))"

section \<open>Workflow phases and cooperative acceptance\<close>

datatype workflow_phase = PhasePrepared | PhaseRunning | PhasePaused | PhaseIntegrating
  | PhaseAccepted | PhaseFailed | PhaseCancelRequested | PhaseCancelled | PhaseBlocked

fun phase_as_str :: "workflow_phase \<Rightarrow> string" where
  "phase_as_str PhasePrepared = ''prepared''"
| "phase_as_str PhaseRunning = ''running''"
| "phase_as_str PhasePaused = ''paused''"
| "phase_as_str PhaseIntegrating = ''integrating''"
| "phase_as_str PhaseAccepted = ''accepted''"
| "phase_as_str PhaseFailed = ''failed''"
| "phase_as_str PhaseCancelRequested = ''cancel_requested''"
| "phase_as_str PhaseCancelled = ''cancelled''"
| "phase_as_str PhaseBlocked = ''blocked''"

definition phase_is_terminal :: "workflow_phase \<Rightarrow> bool" where
  "phase_is_terminal self \<longleftrightarrow> self = PhaseAccepted \<or> self = PhaseFailed \<or> self = PhaseCancelled"

definition admits_work :: "workflow_phase \<Rightarrow> bool" where
  "admits_work self \<longleftrightarrow> self = PhaseRunning \<or> self = PhaseIntegrating"

definition integration_failures ::
  "(spec_identifier \<times> candidate_acceptance) list \<Rightarrow> integration_receipt \<Rightarrow>
   verifier_receipt option \<Rightarrow> gate_requirements \<Rightarrow> gate_failure list" where
  "integration_failures accepted integration integration_verification requirements =
     (let contracts = map (\<lambda>(_, acceptance). ca_contract_id acceptance) accepted in
     (if sort (ig_applied_candidates integration)
         \<noteq> sort (map (\<lambda>(_, acceptance). ca_candidate_digest acceptance) accepted)
      then [IntegrationMismatch] else []) @
     (if ig_conflicts integration \<noteq> [] then [IntegrationConflicts] else []) @
     (if sort (ig_contract_ids integration) \<noteq> sort contracts then [IntegrationMismatch] else []) @
     (case integration_verification of None \<Rightarrow> [VerificationMissing]
      | Some receipt \<Rightarrow> verification_failures receipt (ig_integration_tree_digest integration)
                          contracts requirements))"

definition cooperative_acceptance ::
  "workflow_phase \<Rightarrow> spec_identifier list \<Rightarrow> (spec_identifier \<times> candidate_acceptance) list \<Rightarrow>
   integration_receipt option \<Rightarrow> verifier_receipt option \<Rightarrow> gate_requirements \<Rightarrow>
   gate_failure list + acceptance_level" where
  "cooperative_acceptance phase expected_tasks accepted integration integration_verification
     requirements =
     (let failures =
        (if phase \<noteq> PhaseIntegrating then [WorkflowNotActive (phase_as_str phase)] else []) @
        map TaskMissing (filter (\<lambda>task. \<not> list_ex (\<lambda>(key, _). key = task) accepted) expected_tasks) @
        (case integration of None \<Rightarrow> [IntegrationMissing]
         | Some integration \<Rightarrow>
             integration_failures accepted integration integration_verification requirements)
      in if failures = [] then Inr WorkflowAccepted else Inl (sort_dedup failures))"

section \<open>What the gates demand\<close>

definition suite_green :: "verifier_receipt \<Rightarrow> spec_identifier \<Rightarrow> bool" where
  "suite_green receipt suite_id \<longleftrightarrow> (\<exists>suite. verifier_suite receipt suite_id = Some suite \<and>
     su_status suite = SuitePassed \<and> su_tests_failed suite = 0 \<and> su_tests_passed suite > 0)"

definition verified_for ::
  "verifier_receipt \<Rightarrow> digest \<Rightarrow> digest list \<Rightarrow> gate_requirements \<Rightarrow> bool" where
  "verified_for receipt subject contracts req \<longleftrightarrow> vr_subject_digest receipt = subject \<and>
     mset (vr_contract_ids receipt) = mset contracts \<and>
     vr_verifier_files_digest receipt = gr_admitted_verifier_digest req \<and>
     vr_subject_unchanged receipt \<and> (\<forall>s \<in> set (gr_required_suites req). suite_green receipt s)"

definition reviewed_independently :: "candidate_record \<Rightarrow> review_receipt \<Rightarrow> bool" where
  "reviewed_independently c r \<longleftrightarrow> rr_verdict r = VerdictPass \<and>
     rr_candidate_digest r = cr_candidate_digest c \<and> rr_task_key r = cr_task_key c \<and>
     rr_contract_id r = cr_contract_id c \<and> rr_candidate_unchanged r \<and>
     rr_reviewer_run_id r \<noteq> cr_worker_run_id c \<and> rr_reviewer_session_id r \<noteq> cr_worker_session_id c \<and>
     rr_reviewer_route r \<noteq> cr_worker_route c"

lemma suite_failures_Nil_iff: "suite_failures receipt s = [] \<longleftrightarrow> suite_green receipt s"
  by (auto simp: suite_failures_def suite_green_def split: option.splits suite_status.splits)

lemma verification_failures_Nil_iff:
  "verification_failures receipt subject contracts req = [] \<longleftrightarrow>
   verified_for receipt subject contracts req"
  by (auto simp: verification_failures_def verified_for_def suite_failures_Nil_iff sort_eq_iff_mset)

lemma review_failures_Nil_iff: "review_failures c r = [] \<longleftrightarrow> reviewed_independently c r"
  by (auto simp: review_failures_def reviewed_independently_def)

lemma candidate_failures_Nil_iff:
  "candidate_failures c review verification req = [] \<longleftrightarrow>
     \<not> is_injected_mutation (cr_origin c) \<and>
     (\<exists>r v. review = Some r \<and> verification = Some v \<and> reviewed_independently c r \<and>
            verified_for v (cr_candidate_digest c) [cr_contract_id c] req)"
  by (auto simp: candidate_failures_def review_failures_Nil_iff verification_failures_Nil_iff
      split: option.splits)

text \<open>Which failures a candidate has, one by one.\<close>

lemma suite_failures_only:
  "f \<in> set (suite_failures v s) \<Longrightarrow> f \<in> {SuiteMissing s, SuiteFailed s, SuiteBlocked s}"
  by (auto simp: suite_failures_def split: option.splits suite_status.splits if_splits)

lemma verification_failures_members:
  "MutationArtifactNotPromotable \<notin> set (verification_failures v d cs req)"
  "ReviewMissing \<notin> set (verification_failures v d cs req)"
  "ReviewerNotIndependent \<notin> set (verification_failures v d cs req)"
  "VerificationMissing \<notin> set (verification_failures v d cs req)"
  "VerifierModified \<in> set (verification_failures v d cs req) \<longleftrightarrow>
     vr_verifier_files_digest v \<noteq> gr_admitted_verifier_digest req"
  by (auto simp: verification_failures_def dest: suite_failures_only)

lemma candidate_failures_members:
  "MutationArtifactNotPromotable \<in> set (candidate_failures c review verification req) \<longleftrightarrow>
     is_injected_mutation (cr_origin c)"
  "ReviewMissing \<in> set (candidate_failures c review verification req) \<longleftrightarrow> review = None"
  "ReviewerNotIndependent \<in> set (candidate_failures c review verification req) \<longleftrightarrow>
     (\<exists>r. review = Some r \<and> (rr_reviewer_run_id r = cr_worker_run_id c \<or>
        rr_reviewer_session_id r = cr_worker_session_id c \<or> rr_reviewer_route r = cr_worker_route c))"
  "VerificationMissing \<in> set (candidate_failures c review verification req) \<longleftrightarrow> verification = None"
  "VerifierModified \<in> set (candidate_failures c review verification req) \<longleftrightarrow>
     (\<exists>v. verification = Some v \<and> vr_verifier_files_digest v \<noteq> gr_admitted_verifier_digest req)"
  by (cases review; cases verification;
      simp add: candidate_failures_def review_failures_def verification_failures_members)+

lemma integration_failures_Nil_iff:
  "integration_failures accepted ig verification req = [] \<longleftrightarrow>
     mset (ig_applied_candidates ig) = mset (map (\<lambda>(_, a). ca_candidate_digest a) accepted) \<and>
     mset (ig_contract_ids ig) = mset (map (\<lambda>(_, a). ca_contract_id a) accepted) \<and>
     ig_conflicts ig = [] \<and>
     (\<exists>v. verification = Some v \<and> verified_for v (ig_integration_tree_digest ig)
            (map (\<lambda>(_, a). ca_contract_id a) accepted) req)"
  by (auto simp: integration_failures_def Let_def verification_failures_Nil_iff sort_eq_iff_mset
      split: option.splits)

lemma candidate_gate_Inr:
  "candidate_gate rd vd c review verification req = Inr a \<longleftrightarrow>
   (\<exists>r v d e. review = Some r \<and> verification = Some v \<and> \<not> is_injected_mutation (cr_origin c) \<and>
      reviewed_independently c r \<and> verified_for v (cr_candidate_digest c) [cr_contract_id c] req \<and>
      rd r = Some d \<and> vd v = Some e \<and>
      a = \<lparr>ca_candidate_digest = cr_candidate_digest c, ca_contract_id = cr_contract_id c,
           ca_review_receipt = d, ca_verifier_receipt = e, ca_level = LocalVerifierPassed\<rparr>)"
  by (auto simp: candidate_gate_def Let_def candidate_failures_Nil_iff result_simps
      split: option.splits)

lemma cooperative_acceptance_Inr:
  "cooperative_acceptance phase expected accepted integration verification req = Inr l \<longleftrightarrow>
     l = WorkflowAccepted \<and> phase = PhaseIntegrating \<and> set expected \<subseteq> fst ` set accepted \<and>
     (\<exists>ig. integration = Some ig \<and> integration_failures accepted ig verification req = [])"
proof -
  have tasks: "filter (\<lambda>task. \<not> list_ex (\<lambda>(key, _). key = task) accepted) expected = [] \<longleftrightarrow>
      set expected \<subseteq> fst ` set accepted"
    by (force simp: filter_empty_conv list_ex_iff)
  show ?thesis
    by (cases integration)
       (auto simp: cooperative_acceptance_def Let_def tasks simp del: filter_empty_conv split: if_splits)
qed

section \<open>Properties\<close>

text \<open>C8. A candidate passes its gate if and only if it is no injected mutation, its review passed, is
  bound to exactly this candidate, task and contract, left the bytes unchanged and comes from another
  run, another session and another route, and its verification is of exactly this candidate and
  contract, by the admitted verifier files, left the bytes unchanged and has every required suite
  green with at least one passed test (both receipts having a digest). A refusal always names a
  reason.\<close>

theorem candidate_gate_exact:
  "(candidate_gate review_digest verifier_digest c review verification req = Inr a \<longleftrightarrow>
   (\<exists>r v d e. review = Some r \<and> verification = Some v \<and> \<not> is_injected_mutation (cr_origin c) \<and>
      reviewed_independently c r \<and> verified_for v (cr_candidate_digest c) [cr_contract_id c] req \<and>
      review_digest r = Some d \<and> verifier_digest v = Some e \<and>
      a = \<lparr>ca_candidate_digest = cr_candidate_digest c, ca_contract_id = cr_contract_id c,
           ca_review_receipt = d, ca_verifier_receipt = e, ca_level = LocalVerifierPassed\<rparr>)) \<and>
   candidate_gate review_digest verifier_digest c review verification req \<noteq> Inl []"
  unfolding candidate_gate_Inr
  by (auto simp: candidate_gate_def Let_def split: option.splits)

text \<open>A refused candidate learns every reason: when a receipt is missing or a check fails, the error
  lists, sorted and once each, exactly the failures that apply, whichever other checks fail too.\<close>

theorem candidate_gate_reports_all:
  assumes "candidate_failures c review verification req \<noteq> []"
  shows "\<exists>fs. candidate_gate rd vd c review verification req = Inl fs \<and> sorted fs \<and> distinct fs \<and>
    (MutationArtifactNotPromotable \<in> set fs \<longleftrightarrow> is_injected_mutation (cr_origin c)) \<and>
    (ReviewMissing \<in> set fs \<longleftrightarrow> review = None) \<and>
    (ReviewerNotIndependent \<in> set fs \<longleftrightarrow> (\<exists>r. review = Some r \<and>
       (rr_reviewer_run_id r = cr_worker_run_id c \<or> rr_reviewer_session_id r = cr_worker_session_id c
        \<or> rr_reviewer_route r = cr_worker_route c))) \<and>
    (VerificationMissing \<in> set fs \<longleftrightarrow> verification = None) \<and>
    (VerifierModified \<in> set fs \<longleftrightarrow> (\<exists>v. verification = Some v \<and>
       vr_verifier_files_digest v \<noteq> gr_admitted_verifier_digest req))"
proof (intro exI conjI)
  show "candidate_gate rd vd c review verification req =
      Inl (sort_dedup (candidate_failures c review verification req))"
    using assms by (simp add: candidate_gate_def)
qed (auto simp: candidate_failures_members)

definition sample_candidate :: candidate_record where
  "sample_candidate = \<lparr>cr_candidate_digest = 1, cr_contract_id = 2, cr_task_key = ''a'',
     cr_worker_run_id = 3, cr_worker_session_id = 4, cr_worker_route = ''worker_a'',
     cr_worker_harness = Codex, cr_lease_generation = 1, cr_origin = InjectedMutation 9 ''m1''\<rparr>"

theorem candidate_gate_reports_all_witness:
  "\<exists>fs. candidate_gate (\<lambda>_. Some 5) (\<lambda>_. Some 6) sample_candidate None None
          \<lparr>gr_required_suites = [''unit''], gr_admitted_verifier_digest = 7\<rparr> = Inl fs \<and>
        MutationArtifactNotPromotable \<in> set fs \<and> ReviewMissing \<in> set fs"
proof -
  have "candidate_failures sample_candidate None None
      \<lparr>gr_required_suites = [''unit''], gr_admitted_verifier_digest = 7\<rparr> \<noteq> []"
    by (simp add: candidate_failures_def)
  from candidate_gate_reports_all [OF this, of "\<lambda>_. Some 5" "\<lambda>_. Some 6"] show ?thesis
    by (auto simp: sample_candidate_def is_injected_mutation_def)
qed

text \<open>C11. A workflow is accepted if and only if it is integrating (so never once cancelled or failed),
  every expected task has an accepted candidate, the integration applied exactly the accepted
  candidates, as often, under exactly their contracts and without conflicts, and the integrated tree
  itself was verified under those contracts by the admitted verifier with every required suite green.
  A refusal always names a reason.\<close>

theorem cooperative_acceptance_exact:
  "(cooperative_acceptance phase expected accepted integration verification req = Inr l \<longleftrightarrow>
     l = WorkflowAccepted \<and> phase = PhaseIntegrating \<and> set expected \<subseteq> fst ` set accepted \<and>
     (\<exists>ig v. integration = Some ig \<and> verification = Some v \<and>
        mset (ig_applied_candidates ig) = mset (map (\<lambda>(_, a). ca_candidate_digest a) accepted) \<and>
        mset (ig_contract_ids ig) = mset (map (\<lambda>(_, a). ca_contract_id a) accepted) \<and>
        ig_conflicts ig = [] \<and>
        verified_for v (ig_integration_tree_digest ig)
          (map (\<lambda>(_, a). ca_contract_id a) accepted) req)) \<and>
   cooperative_acceptance phase expected accepted integration verification req \<noteq> Inl []"
  unfolding cooperative_acceptance_Inr integration_failures_Nil_iff
  by (auto simp: cooperative_acceptance_def Let_def split: option.splits)

end
