(* ===== verification/Selection.thy ===== *)
theory Selection
  imports Gates
begin

text \<open>
  Same-task comparison, \<open>crates/vibemux_workflow/src/selection.rs\<close>: exclusion of candidates that may
  not win, the ranking of the others by the predeclared metrics, and the account of what decided.

  \<open>sort_by\<close> is the standard library's stable sort as it runs on short slices (insertion of each
  element from the right); on a comparator that is a total order every stable sort agrees with it.
  The comparator of \<open>select\<close> is one when no metric of the policy is unknown, and the lemmas show that
  the ranking is then the sorted list of the candidates' keys. With unknown metrics it is not: it can
  be cyclic, and \<open>selection_cyclic\<close> shows three candidates whose winner depends on their order.
\<close>

section \<open>Ordering and sort\<close>

datatype ordering = OrdLess | OrdEqual | OrdGreater

definition cmp :: "'a::linorder \<Rightarrow> 'a \<Rightarrow> ordering" where
  "cmp a b = (if a < b then OrdLess else if a = b then OrdEqual else OrdGreater)"

text \<open>\<open>insert_tail\<close>: the new element moves left while it is less than its left neighbour; the sorted
  prefix is kept reversed, its right end first.\<close>

fun insert_tail :: "('a \<Rightarrow> 'a \<Rightarrow> ordering) \<Rightarrow> 'a \<Rightarrow> 'a list \<Rightarrow> 'a list" where
  "insert_tail compare x [] = [x]"
| "insert_tail compare x (y # ys) =
     (if compare x y = OrdLess then y # insert_tail compare x ys else x # y # ys)"

definition sort_by :: "('a \<Rightarrow> 'a \<Rightarrow> ordering) \<Rightarrow> 'a list \<Rightarrow> 'a list" where
  "sort_by compare xs = rev (fold (insert_tail compare) xs [])"

lemma mset_insert_tail [simp]: "mset (insert_tail compare x ys) = add_mset x (mset ys)"
  by (induction ys) auto

lemma set_insert_tail [simp]: "set (insert_tail compare x ys) = insert x (set ys)"
  by (induction ys) auto

lemma mset_sort_by [simp]: "mset (sort_by compare xs) = mset xs"
proof -
  have "mset (fold (insert_tail compare) xs ys) = mset xs + mset ys" for ys
    by (induction xs arbitrary: ys) auto
  then show ?thesis by (simp add: sort_by_def)
qed

lemma set_sort_by [simp]: "set (sort_by compare xs) = set xs"
  by (metis mset_sort_by set_mset_mset)

lemma length_sort_by [simp]: "length (sort_by compare xs) = length xs"
  by (metis mset_sort_by size_mset)

text \<open>On the elements at hand, a comparator that compares keys sorts by the keys.\<close>

lemma sort_by_key:
  assumes "\<And>x y. x \<in> set xs \<Longrightarrow> y \<in> set xs \<Longrightarrow> compare x y = cmp (k x) (k y)"
  shows "map k (sort_by compare xs) = sort (map k xs)"
proof -
  have ins: "sorted (rev (map k (insert_tail compare x ys)))"
    if "sorted (rev (map k ys))" "x \<in> set xs" "set ys \<subseteq> set xs" for x ys
    using that
  proof (induction ys)
    case (Cons y ys)
    then show ?case
      using assms [of x y] by (auto simp: sorted_append cmp_def split: if_splits)
  qed simp
  have "sorted (rev (map k (fold (insert_tail compare) zs ys)))"
    if "sorted (rev (map k ys))" "set zs \<subseteq> set xs" "set ys \<subseteq> set xs" for zs ys
    using that
  proof (induction zs arbitrary: ys)
    case (Cons z zs)
    then show ?case using ins by simp
  qed simp
  then have "sorted (map k (sort_by compare xs))"
    by (simp add: sort_by_def rev_map)
  then show ?thesis
    by (metis mset_map mset_sort_by properties_for_sort)
qed

section \<open>Data\<close>

record candidate_metrics =
  me_tests_passed :: u32
  me_model_requests :: "u32 option"
  me_elapsed_ms :: "u64 option"
  me_changed_bytes :: u64

record comparison_entry =
  en_candidate :: candidate_record
  en_gate :: "gate_failure list + candidate_acceptance"
  en_metrics :: candidate_metrics

datatype metric_key = TestsPassed | ModelRequests | ElapsedMs | ChangedBytes

record selection_policy =
  po_metric_order :: "metric_key list"

definition selection_baseline :: selection_policy where
  "selection_baseline =
     \<lparr>po_metric_order = [TestsPassed, ModelRequests, ElapsedMs, ChangedBytes]\<rparr>"

datatype decided_by = OnlyValidCandidate | Metric metric_key | TieBreaker | NoValidCandidate

record excluded_candidate =
  ex_candidate_digest :: digest
  ex_reasons :: "string list"

record selection_outcome =
  so_winner :: "digest option"
  so_decided_by :: decided_by
  so_ranking :: "digest list"
  so_excluded :: "excluded_candidate list"

section \<open>Selection\<close>

definition known_cmp :: "u64 option \<Rightarrow> u64 option \<Rightarrow> ordering" where
  "known_cmp left right =
     (case (left, right) of (Some l, Some r) \<Rightarrow> cmp l r | _ \<Rightarrow> OrdEqual)"

fun compare_metric :: "metric_key \<Rightarrow> candidate_metrics \<Rightarrow> candidate_metrics \<Rightarrow> ordering" where
  "compare_metric TestsPassed left right = cmp (me_tests_passed right) (me_tests_passed left)"
| "compare_metric ModelRequests left right =
     known_cmp (map_option ucast (me_model_requests left)) (map_option ucast (me_model_requests right))"
| "compare_metric ElapsedMs left right = known_cmp (me_elapsed_ms left) (me_elapsed_ms right)"
| "compare_metric ChangedBytes left right = cmp (me_changed_bytes left) (me_changed_bytes right)"

text \<open>The comparator: the first metric that decides, else the digest.\<close>

fun compare_entries ::
  "metric_key list \<Rightarrow> comparison_entry \<Rightarrow> comparison_entry \<Rightarrow> ordering" where
  "compare_entries [] left right =
     cmp (cr_candidate_digest (en_candidate left)) (cr_candidate_digest (en_candidate right))"
| "compare_entries (metric # ms) left right =
     (let ordering = compare_metric metric (en_metrics left) (en_metrics right)
      in if ordering \<noteq> OrdEqual then ordering else compare_entries ms left right)"

definition exclusion_reasons :: "digest \<Rightarrow> comparison_entry \<Rightarrow> string list" where
  "exclusion_reasons contract_id entry =
     (case en_gate entry of Inl failures \<Rightarrow> map gate_failure_code failures | Inr _ \<Rightarrow> []) @
     (if cr_contract_id (en_candidate entry) \<noteq> contract_id
      then [''selection_different_contract''] else []) @
     (if is_injected_mutation (cr_origin (en_candidate entry))
      then [''selection_mutation_artifact''] else [])"

definition select :: "comparison_entry list \<Rightarrow> selection_policy \<Rightarrow> digest \<Rightarrow> selection_outcome" where
  "select entries policy contract_id =
     (let valid = filter (\<lambda>e. exclusion_reasons contract_id e = []) entries;
          excluded = sort_key ex_candidate_digest
            (map (\<lambda>e. \<lparr>ex_candidate_digest = cr_candidate_digest (en_candidate e),
                       ex_reasons = sort_dedup (exclusion_reasons contract_id e)\<rparr>)
              (filter (\<lambda>e. exclusion_reasons contract_id e \<noteq> []) entries))
      in if valid = [] then
           \<lparr>so_winner = None, so_decided_by = NoValidCandidate, so_ranking = [],
            so_excluded = excluded\<rparr>
         else
           (let sorted_valid = sort_by (compare_entries (po_metric_order policy)) valid;
                decided =
                  (if length sorted_valid > 1 then
                     (case find (\<lambda>metric. compare_metric metric (en_metrics (sorted_valid ! 0))
                                           (en_metrics (sorted_valid ! 1)) \<noteq> OrdEqual)
                             (po_metric_order policy) of
                        Some metric \<Rightarrow> Metric metric
                      | None \<Rightarrow> TieBreaker)
                   else OnlyValidCandidate)
            in \<lparr>so_winner = Some (cr_candidate_digest (en_candidate (sorted_valid ! 0))),
                so_decided_by = decided,
                so_ranking = map (\<lambda>e. cr_candidate_digest (en_candidate e)) sorted_valid,
                so_excluded = excluded\<rparr>))"

section \<open>What the selection computes\<close>

text \<open>Who may win.\<close>

definition may_win :: "digest \<Rightarrow> comparison_entry \<Rightarrow> bool" where
  "may_win contract_id e \<longleftrightarrow> (\<exists>a. en_gate e = Inr a) \<and>
     cr_contract_id (en_candidate e) = contract_id \<and>
     \<not> is_injected_mutation (cr_origin (en_candidate e))"

text \<open>A gate that refuses gives at least one reason (\<open>candidate_gate\<close> never returns an empty list).\<close>

definition gate_reasoned :: "comparison_entry \<Rightarrow> bool" where
  "gate_reasoned e \<longleftrightarrow> en_gate e \<noteq> Inl []"

lemma exclusion_reasons_Nil_iff:
  "gate_reasoned e \<Longrightarrow> exclusion_reasons c e = [] \<longleftrightarrow> may_win c e"
  by (auto simp: exclusion_reasons_def may_win_def gate_reasoned_def split: sum.splits)

abbreviation entry_digest :: "comparison_entry \<Rightarrow> digest" where
  "entry_digest e \<equiv> cr_candidate_digest (en_candidate e)"

definition valid_entries :: "digest \<Rightarrow> comparison_entry list \<Rightarrow> comparison_entry list" where
  "valid_entries c es = filter (\<lambda>e. exclusion_reasons c e = []) es"

lemma select_simps:
  "so_ranking (select es p c) =
     map entry_digest (sort_by (compare_entries (po_metric_order p)) (valid_entries c es))"
  "so_winner (select es p c) =
     (case so_ranking (select es p c) of [] \<Rightarrow> None | d # _ \<Rightarrow> Some d)"
  "so_excluded (select es p c) = sort_key ex_candidate_digest
     (map (\<lambda>e. \<lparr>ex_candidate_digest = entry_digest e,
                ex_reasons = sort_dedup (exclusion_reasons c e)\<rparr>)
       (filter (\<lambda>e. exclusion_reasons c e \<noteq> []) es))"
proof -
  let ?v = "filter (\<lambda>e. exclusion_reasons c e = []) es"
  have "sort_by (compare_entries (po_metric_order p)) ?v = [] \<longleftrightarrow> ?v = []"
    by (metis length_0_conv length_sort_by)
  then show "so_ranking (select es p c) =
      map entry_digest (sort_by (compare_entries (po_metric_order p)) (valid_entries c es))"
    and "so_winner (select es p c) =
      (case so_ranking (select es p c) of [] \<Rightarrow> None | d # _ \<Rightarrow> Some d)"
    by (auto simp: select_def Let_def valid_entries_def sort_by_def split: list.splits)
qed (simp add: select_def Let_def)

lemma select_decided_by:
  "so_decided_by (select es p c) = NoValidCandidate \<longleftrightarrow> valid_entries c es = []"
  "so_decided_by (select es p c) = OnlyValidCandidate \<longleftrightarrow> length (valid_entries c es) = 1"
  by (cases "filter (\<lambda>e. exclusion_reasons c e = []) es";
      auto simp: select_def Let_def valid_entries_def split: option.splits)+

subsection \<open>Known metrics\<close>

text \<open>The key of a candidate: its metrics in the policy's order, smaller is better, then the digest.\<close>

fun metric_value :: "metric_key \<Rightarrow> candidate_metrics \<Rightarrow> int" where
  "metric_value TestsPassed m = - uint (me_tests_passed m)"
| "metric_value ModelRequests m = (case me_model_requests m of None \<Rightarrow> 0 | Some n \<Rightarrow> uint n)"
| "metric_value ElapsedMs m = (case me_elapsed_ms m of None \<Rightarrow> 0 | Some n \<Rightarrow> uint n)"
| "metric_value ChangedBytes m = uint (me_changed_bytes m)"

fun metric_known :: "metric_key \<Rightarrow> candidate_metrics \<Rightarrow> bool" where
  "metric_known ModelRequests m = (me_model_requests m \<noteq> None)"
| "metric_known ElapsedMs m = (me_elapsed_ms m \<noteq> None)"
| "metric_known _ m = True"

definition entry_key :: "metric_key list \<Rightarrow> comparison_entry \<Rightarrow> int list \<times> digest" where
  "entry_key ms e = (map (\<lambda>k. metric_value k (en_metrics e)) ms, entry_digest e)"

lemma uint_ucast_u32: "uint (ucast n :: u64) = uint n" for n :: u32
proof -
  have "uint n < 2 ^ 32" using uint_lt2p [of n] by simp
  then show ?thesis by (simp add: unsigned_ucast_eq unsigned_take_bit_eq take_bit_int_eq_self)
qed

lemma cmp_uint: "cmp a b = cmp (uint a) (uint b)"
  by (simp add: cmp_def word_less_def word_uint_eq_iff)

lemma compare_metric_known:
  "metric_known k l \<Longrightarrow> metric_known k r \<Longrightarrow>
   compare_metric k l r = cmp (metric_value k l) (metric_value k r)"
  by (cases k) (auto simp: known_cmp_def cmp_uint uint_ucast_u32, simp add: cmp_def)

lemma compare_entries_known:
  "\<forall>k \<in> set ms. metric_known k (en_metrics l) \<and> metric_known k (en_metrics r) \<Longrightarrow>
   compare_entries ms l r = cmp (entry_key ms l) (entry_key ms r)"
proof (induction ms)
  case Nil
  then show ?case by (auto simp: entry_key_def cmp_def less_prod_def)
next
  case (Cons k ms)
  then have "compare_metric k (en_metrics l) (en_metrics r) =
      cmp (metric_value k (en_metrics l)) (metric_value k (en_metrics r))"
    by (simp add: compare_metric_known)
  with Cons show ?case
    by (auto simp: entry_key_def cmp_def less_prod_def less_eq_prod_def)
qed

lemma ranking_known:
  assumes "\<forall>e \<in> set (valid_entries c es). \<forall>k \<in> set (po_metric_order p). metric_known k (en_metrics e)"
  shows "so_ranking (select es p c) = map snd (sort (map (entry_key (po_metric_order p)) (valid_entries c es)))"
proof -
  let ?k = "entry_key (po_metric_order p)"
  have "map ?k (sort_by (compare_entries (po_metric_order p)) (valid_entries c es)) =
      sort (map ?k (valid_entries c es))"
    using assms by (intro sort_by_key) (simp add: compare_entries_known)
  then have "map snd (map ?k (sort_by (compare_entries (po_metric_order p)) (valid_entries c es))) =
      map snd (sort (map ?k (valid_entries c es)))" by simp
  then show ?thesis by (simp add: select_simps entry_key_def comp_def)
qed

subsection \<open>Unknown metrics\<close>

definition sample_entry :: "digest \<Rightarrow> u32 option \<Rightarrow> u64 \<Rightarrow> comparison_entry" where
  "sample_entry d requests elapsed =
     \<lparr>en_candidate = \<lparr>cr_candidate_digest = d, cr_contract_id = 2, cr_task_key = ''a'',
        cr_worker_run_id = 3, cr_worker_session_id = 4, cr_worker_route = ''worker_a'',
        cr_worker_harness = Codex, cr_lease_generation = 1, cr_origin = LiveWorker\<rparr>,
      en_gate = Inr \<lparr>ca_candidate_digest = d, ca_contract_id = 2, ca_review_receipt = 5,
        ca_verifier_receipt = 6, ca_level = LocalVerifierPassed\<rparr>,
      en_metrics = \<lparr>me_tests_passed = 9, me_model_requests = requests, me_elapsed_ms = Some elapsed,
        me_changed_bytes = 100\<rparr>\<rparr>"

text \<open>Candidates that differ in usage and time only.\<close>

lemma sample_entry_valid: "exclusion_reasons 2 (sample_entry d r e) = []"
  by (simp add: exclusion_reasons_def sample_entry_def is_injected_mutation_def)

lemma sample_entry_compare:
  "compare_entries (po_metric_order selection_baseline) (sample_entry d r e) (sample_entry d' r' e') =
     (let ord = known_cmp (map_option ucast r) (map_option ucast r') in
      if ord \<noteq> OrdEqual then ord else if cmp e e' \<noteq> OrdEqual then cmp e e' else cmp d d')"
  by (simp add: selection_baseline_def sample_entry_def known_cmp_def cmp_def Let_def)

lemma sample_entry_digest: "entry_digest (sample_entry d r e) = d"
  by (simp add: sample_entry_def)

section \<open>Properties\<close>

text \<open>Hard gates come first. Whatever the metrics, the ranking is a permutation of the candidates that
  passed their gate, were made for this contract and are no mutation artifacts; the winner, if any, is
  the first of them, there is no winner iff there is no such candidate; and every other candidate is
  excluded, once, with a non-empty sorted list of reasons.\<close>

theorem selection_respects_gates:
  assumes "\<forall>e \<in> set es. gate_reasoned e"
  shows "mset (so_ranking (select es p c)) =
           image_mset entry_digest (filter_mset (may_win c) (mset es)) \<and>
         so_winner (select es p c) =
           (case so_ranking (select es p c) of [] \<Rightarrow> None | d # _ \<Rightarrow> Some d) \<and>
         (so_decided_by (select es p c) = NoValidCandidate \<longleftrightarrow> so_winner (select es p c) = None) \<and>
         mset (map ex_candidate_digest (so_excluded (select es p c))) =
           image_mset entry_digest (filter_mset (\<lambda>e. \<not> may_win c e) (mset es)) \<and>
         list_all (\<lambda>x. ex_reasons x \<noteq> [] \<and> sorted (ex_reasons x)) (so_excluded (select es p c))"
proof -
  have keep: "filter (\<lambda>e. exclusion_reasons c e = []) es = filter (may_win c) es"
    "filter (\<lambda>e. exclusion_reasons c e \<noteq> []) es = filter (\<lambda>e. \<not> may_win c e) es"
    using assms by (auto simp: exclusion_reasons_Nil_iff intro!: filter_cong)
  have nil: "so_ranking (select es p c) = [] \<longleftrightarrow> valid_entries c es = []"
    by (metis length_0_conv length_map length_sort_by select_simps(1))
  show ?thesis
  proof (intro conjI)
    show "mset (so_ranking (select es p c)) =
        image_mset entry_digest (filter_mset (may_win c) (mset es))"
      by (simp add: select_simps valid_entries_def keep)
    show "so_winner (select es p c) =
        (case so_ranking (select es p c) of [] \<Rightarrow> None | d # _ \<Rightarrow> Some d)"
      by (rule select_simps)
    show "so_decided_by (select es p c) = NoValidCandidate \<longleftrightarrow> so_winner (select es p c) = None"
      using nil
      by (cases "so_ranking (select es p c)") (simp_all add: select_decided_by select_simps(2))
    show "mset (map ex_candidate_digest (so_excluded (select es p c))) =
        image_mset entry_digest (filter_mset (\<lambda>e. \<not> may_win c e) (mset es))"
      by (simp add: select_simps(3) keep(2) image_mset.compositionality comp_def)
    show "list_all (\<lambda>x. ex_reasons x \<noteq> [] \<and> sorted (ex_reasons x)) (so_excluded (select es p c))"
      by (auto simp: select_simps(3) list_all_iff)
  qed
qed

theorem selection_respects_gates_witness:
  "mset (so_ranking (select [sample_entry 1 (Some 1) 3, sample_entry 3 None 2] selection_baseline 2)) =
     {#1, 3#}"
proof -
  have "\<forall>e \<in> set [sample_entry 1 (Some 1) 3, sample_entry 3 None 2]. gate_reasoned e"
    by (simp add: gate_reasoned_def sample_entry_def)
  from selection_respects_gates [OF this, of selection_baseline 2] show ?thesis
    by (simp add: may_win_def sample_entry_def is_injected_mutation_def)
qed

text \<open>With the policy's metrics known for every candidate that may win, the selection is deterministic
  and best: the ranking is the list of candidates sorted by their metrics in the policy's order and
  then by digest, so it does not depend on the order in which the candidates are presented, and the
  winner's key is the least.\<close>

theorem selection_known_metrics_best:
  assumes "\<forall>e \<in> set es. gate_reasoned e"
    and "\<forall>e \<in> set es. \<forall>k \<in> set (po_metric_order p). metric_known k (en_metrics e)"
    and "mset fs = mset es"
  shows "so_ranking (select es p c) =
           map snd (sort (map (entry_key (po_metric_order p)) (filter (may_win c) es))) \<and>
         so_ranking (select fs p c) = so_ranking (select es p c) \<and>
         so_winner (select fs p c) = so_winner (select es p c) \<and>
         (\<forall>w. so_winner (select es p c) = Some w \<longrightarrow>
            (\<exists>e \<in> set es. may_win c e \<and> w = entry_digest e \<and>
               (\<forall>f \<in> set es. may_win c f \<longrightarrow>
                  entry_key (po_metric_order p) e \<le> entry_key (po_metric_order p) f)))"
proof -
  let ?k = "entry_key (po_metric_order p)"
  have sets: "set fs = set es" using assms(3) by (metis set_mset_mset)
  have valid: "valid_entries c xs = filter (may_win c) xs" if "set xs = set es" for xs
    using assms(1) that unfolding valid_entries_def
    by (auto simp: exclusion_reasons_Nil_iff intro!: filter_cong)
  have rank: "so_ranking (select xs p c) = map snd (sort (map ?k (filter (may_win c) xs)))"
    if "set xs = set es" for xs
    using ranking_known [of c xs p] assms(2) valid [OF that] that by auto
  have "mset (map ?k (filter (may_win c) fs)) = mset (map ?k (filter (may_win c) es))"
    using assms(3) by (simp add: mset_filter mset_map)
  then have same: "so_ranking (select fs p c) = so_ranking (select es p c)"
    unfolding rank [OF sets] rank [OF refl] by (simp only: sort_eq_iff_mset [symmetric])
  have best: "\<exists>e \<in> set es. may_win c e \<and> w = entry_digest e \<and>
      (\<forall>f \<in> set es. may_win c f \<longrightarrow> ?k e \<le> ?k f)" if win: "so_winner (select es p c) = Some w" for w
  proof -
    obtain key rest where s: "sort (map ?k (filter (may_win c) es)) = key # rest" "w = snd key"
      using win rank [of es]
      by (cases "sort (map ?k (filter (may_win c) es))") (auto simp: select_simps(2))
    then have "key \<in> set (map ?k (filter (may_win c) es))" by (metis list.set_intros(1) set_sort)
    then obtain e where "e \<in> set es" "may_win c e" "key = ?k e" by auto
    moreover have "\<forall>x \<in> set (map ?k (filter (may_win c) es)). key \<le> x"
      using s(1) sorted_sort [of "map ?k (filter (may_win c) es)"] set_sort by (metis set_ConsD sorted_simps(2) order_refl)
    ultimately show ?thesis using s(2) by (auto simp: entry_key_def)
  qed
  show ?thesis
    using rank [of es] same best by (simp add: select_simps(2))
qed

theorem selection_known_metrics_best_witness:
  "so_winner (select [sample_entry 1 (Some 1) 3, sample_entry 2 (Some 2) 1] selection_baseline 2) =
   so_winner (select [sample_entry 2 (Some 2) 1, sample_entry 1 (Some 1) 3] selection_baseline 2)"
proof -
  let ?es = "[sample_entry 2 (Some 2) 1, sample_entry 1 (Some 1) 3]"
  have "\<forall>e \<in> set ?es. gate_reasoned e"
    by (simp add: gate_reasoned_def sample_entry_def)
  moreover have "\<forall>e \<in> set ?es. \<forall>k \<in> set (po_metric_order selection_baseline). metric_known k (en_metrics e)"
    by (simp add: selection_baseline_def sample_entry_def)
  ultimately show ?thesis
    using selection_known_metrics_best [of ?es selection_baseline
        "[sample_entry 1 (Some 1) 3, sample_entry 2 (Some 2) 1]" 2] by simp
qed


end
