(* ===== verification/Loop_Budget.thy ===== *)
theory Loop_Budget
  imports Vm_Prelude
begin

text \<open>
  The persisted loop limits of the supervisor, \<open>LoopBudget\<close> of
  \<open>crates/vibemux_workflow/src/supervisor.rs\<close>, with the rejections a proposal can meet. The two charges
  are one reducer over charge events; the lemmas show that allowances are spent exactly once per
  accepted charge and never wrap below zero, whatever the history.
\<close>

datatype proposal_rejection = Malformed | TooLarge | InvalidIdempotencyKey | StaleVersion
  | UnknownTask | IneligibleSlot | CandidateNotAccepted | SelectionMismatch | IntegrationNotApproved
  | BudgetExhausted | PhaseForbids | InvalidText | RationaleTooLarge

fun proposal_rejection_code :: "proposal_rejection \<Rightarrow> string" where
  "proposal_rejection_code Malformed = ''supervisor_proposal_malformed''"
| "proposal_rejection_code TooLarge = ''supervisor_proposal_too_large''"
| "proposal_rejection_code InvalidIdempotencyKey = ''supervisor_invalid_idempotency_key''"
| "proposal_rejection_code StaleVersion = ''supervisor_stale_version''"
| "proposal_rejection_code UnknownTask = ''supervisor_unknown_task''"
| "proposal_rejection_code IneligibleSlot = ''supervisor_ineligible_slot''"
| "proposal_rejection_code CandidateNotAccepted = ''supervisor_candidate_not_accepted''"
| "proposal_rejection_code SelectionMismatch = ''supervisor_selection_mismatch''"
| "proposal_rejection_code IntegrationNotApproved = ''supervisor_integration_not_approved''"
| "proposal_rejection_code BudgetExhausted = ''supervisor_budget_exhausted''"
| "proposal_rejection_code PhaseForbids = ''supervisor_phase_forbids''"
| "proposal_rejection_code InvalidText = ''supervisor_invalid_text''"
| "proposal_rejection_code RationaleTooLarge = ''supervisor_rationale_too_large''"

record loop_budget =
  lb_decisions_remaining :: u32
  lb_malformed_repairs_remaining :: u32
  lb_model_requests_remaining :: u32
  lb_deadline_unix_ms :: u64

definition charge_decision :: "u64 \<Rightarrow> loop_budget \<Rightarrow> proposal_rejection + loop_budget" where
  "charge_decision now_unix_ms self =
     (if now_unix_ms \<ge> lb_deadline_unix_ms self \<or> lb_decisions_remaining self = 0
         \<or> lb_model_requests_remaining self = 0
      then Inl BudgetExhausted
      else Inr (self\<lparr>lb_decisions_remaining := lb_decisions_remaining self - 1,
                     lb_model_requests_remaining := lb_model_requests_remaining self - 1\<rparr>))"

definition charge_repair :: "loop_budget \<Rightarrow> proposal_rejection + loop_budget" where
  "charge_repair self =
     (if lb_malformed_repairs_remaining self = 0 \<or> lb_model_requests_remaining self = 0
      then Inl BudgetExhausted
      else Inr (self\<lparr>lb_malformed_repairs_remaining := lb_malformed_repairs_remaining self - 1,
                     lb_model_requests_remaining := lb_model_requests_remaining self - 1\<rparr>))"

datatype charge = ChargeDecision u64 | ChargeRepair

fun charge_step :: "loop_budget \<Rightarrow> charge \<Rightarrow> proposal_rejection + loop_budget" where
  "charge_step b (ChargeDecision now) = charge_decision now b"
| "charge_step b ChargeRepair = charge_repair b"

section \<open>Accounting\<close>

definition is_repair :: "charge \<Rightarrow> bool" where
  "is_repair c \<longleftrightarrow> c = ChargeRepair"

lemma charge_step_accounts:
  assumes "charge_step b c = Inr b'"
  shows "unat (lb_model_requests_remaining b) = Suc (unat (lb_model_requests_remaining b'))"
    and "unat (lb_decisions_remaining b) =
           unat (lb_decisions_remaining b') + (if is_repair c then 0 else 1)"
    and "unat (lb_malformed_repairs_remaining b) =
           unat (lb_malformed_repairs_remaining b') + (if is_repair c then 1 else 0)"
    and "lb_deadline_unix_ms b' = lb_deadline_unix_ms b"
    and "c = ChargeDecision now \<Longrightarrow> now < lb_deadline_unix_ms b"
  using assms
  by (cases c; auto simp: charge_decision_def charge_repair_def is_repair_def unat_pred_pos not_le
      split: if_splits)+

interpretation charges: metered_reducer charge_step "\<lambda>_. True" "\<lambda>b. unat (lb_model_requests_remaining b)"
  by unfold_locales (auto dest: charge_step_accounts(1))

lemma charges_conserved:
  "unat (lb_model_requests_remaining b) =
     unat (lb_model_requests_remaining (run_events charge_step b cs)) +
     length (accepted_events charge_step b cs) \<and>
   unat (lb_decisions_remaining b) =
     unat (lb_decisions_remaining (run_events charge_step b cs)) +
     length (filter (\<lambda>c. \<not> is_repair c) (accepted_events charge_step b cs)) \<and>
   unat (lb_malformed_repairs_remaining b) =
     unat (lb_malformed_repairs_remaining (run_events charge_step b cs)) +
     length (filter is_repair (accepted_events charge_step b cs)) \<and>
   lb_deadline_unix_ms (run_events charge_step b cs) = lb_deadline_unix_ms b"
proof (induction cs arbitrary: b)
  case (Cons c cs)
  show ?case
  proof (cases "charge_step b c")
    case (Inr b')
    with Cons.IH [of b'] charge_step_accounts [OF Inr] show ?thesis by simp
  next
    case (Inl e)
    with Cons.IH [of b] show ?thesis by simp
  qed
qed simp

lemma accepted_before_deadline:
  "ChargeDecision now \<in> set (accepted_events charge_step b cs) \<Longrightarrow> now < lb_deadline_unix_ms b"
proof (induction cs arbitrary: b)
  case (Cons c cs)
  show ?case
  proof (cases "charge_step b c")
    case (Inr b')
    with Cons.prems Cons.IH [of b'] charge_step_accounts(4,5) [OF Inr] show ?thesis by auto
  qed (use Cons in simp)
qed simp

section \<open>Properties\<close>

text \<open>Persisted allowances are spent, never reset and never wrap: over any history of charges the
  model requests spent are exactly the accepted charges, the decisions spent exactly the accepted
  decisions, the repairs spent exactly the accepted repairs, so none of them exceeds its allowance;
  the deadline never moves, and no decision is charged at or after it.\<close>

theorem loop_budget_conserved:
  "unat (lb_model_requests_remaining b) =
     unat (lb_model_requests_remaining (run_events charge_step b cs)) +
     length (accepted_events charge_step b cs) \<and>
   unat (lb_decisions_remaining b) =
     unat (lb_decisions_remaining (run_events charge_step b cs)) +
     length (filter (\<lambda>c. \<not> is_repair c) (accepted_events charge_step b cs)) \<and>
   unat (lb_malformed_repairs_remaining b) =
     unat (lb_malformed_repairs_remaining (run_events charge_step b cs)) +
     length (filter is_repair (accepted_events charge_step b cs)) \<and>
   length (accepted_events charge_step b cs) \<le> unat (lb_model_requests_remaining b) \<and>
   lb_deadline_unix_ms (run_events charge_step b cs) = lb_deadline_unix_ms b \<and>
   {now. ChargeDecision now \<in> set (accepted_events charge_step b cs)} \<subseteq> {..< lb_deadline_unix_ms b}"
  using charges_conserved [of b cs] charges.accepted_bounded [of b cs] accepted_before_deadline
  by auto

end
