(* ===== verification/Workflow_Record.thy ===== *)
theory Workflow_Record
  imports Gates Loop_Budget
begin

text \<open>
  The workflow aggregate, \<open>crates/vibemux_workflow/src/workflow_record.rs\<close>: the persisted record, its
  validation, the phase edges, \<open>with_phase\<close> and the turn accounting \<open>charge_turn\<close>. The fingerprint of
  an admission is \<open>canonical_digest\<close> of the fields it names, a parameter here.

  The lemmas show that the terminal phases are exactly those without an edge, that both writers keep a
  record valid, that versions and times only grow, that acceptance is reached from integration only,
  and that turns and repairs never exceed a task's allowance over any history.
\<close>

section \<open>Data\<close>

definition WORKFLOW_RECORD_SCHEMA_VERSION :: u32 where "WORKFLOW_RECORD_SCHEMA_VERSION = 1"
definition MAX_WORKFLOW_TASKS :: nat where "MAX_WORKFLOW_TASKS = 8"

datatype workflow_mode = Cooperate | Compare | Review

datatype task_progress = ProgPending | ProgRunning | ProgCandidateCollected | ProgAccepted
  | ProgFailed | ProgBlocked

fun task_progress_as_str :: "task_progress \<Rightarrow> string" where
  "task_progress_as_str ProgPending = ''pending''"
| "task_progress_as_str ProgRunning = ''running''"
| "task_progress_as_str ProgCandidateCollected = ''candidate_collected''"
| "task_progress_as_str ProgAccepted = ''accepted''"
| "task_progress_as_str ProgFailed = ''failed''"
| "task_progress_as_str ProgBlocked = ''blocked''"

record workflow_task =
  wt_task_key :: spec_identifier
  wt_contract_id :: digest
  wt_contract_version :: u32
  wt_required_suites :: "spec_identifier list"
  wt_progress :: task_progress
  wt_turns_used :: u32
  wt_repairs_used :: u32
  wt_max_turns :: u32
  wt_max_repairs :: u32
  wt_accepted_candidate :: "digest option"
  wt_failure_code :: "string option"

datatype content_store_mode = StoreDisabled | StoreEnabled u32      \<comment> \<open>retention\_days\<close>

record workflow_record =
  wr_schema_version :: u32
  wr_workflow_id :: uuid
  wr_request_key :: string
  wr_workflow_key :: spec_identifier
  wr_mode :: workflow_mode
  wr_phase :: workflow_phase
  wr_version :: u64
  wr_evidence_class :: evidence_class
  wr_base_commit :: string
  wr_policy_digest :: digest
  wr_verifier_digest :: digest
  wr_integration_suites :: "spec_identifier list"
  wr_tasks :: "workflow_task list"
  wr_budget :: loop_budget
  wr_content_store :: content_store_mode
  wr_blocked_reason :: "string option"
  wr_created_at_ms :: u64
  wr_updated_at_ms :: u64

datatype workflow_record_error = RecInvalid | RecInvalidTransition | RecUnknownTask
  | RecTaskBudgetExhausted

fun workflow_record_error_code :: "workflow_record_error \<Rightarrow> string" where
  "workflow_record_error_code RecInvalid = ''workflow_record_invalid''"
| "workflow_record_error_code RecInvalidTransition = ''workflow_invalid_transition''"
| "workflow_record_error_code RecUnknownTask = ''workflow_unknown_task''"
| "workflow_record_error_code RecTaskBudgetExhausted = ''workflow_task_budget_exhausted''"

section \<open>Operations\<close>

fun phase_can_transition_to :: "workflow_phase \<Rightarrow> workflow_phase \<Rightarrow> bool" where
  "phase_can_transition_to PhasePrepared target =
     (target = PhaseRunning \<or> target = PhaseCancelled \<or> target = PhaseBlocked)"
| "phase_can_transition_to PhaseRunning target =
     (target = PhasePaused \<or> target = PhaseIntegrating \<or> target = PhaseFailed
      \<or> target = PhaseCancelRequested \<or> target = PhaseBlocked)"
| "phase_can_transition_to PhasePaused target =
     (target = PhaseRunning \<or> target = PhaseCancelRequested)"
| "phase_can_transition_to PhaseBlocked target =
     (target = PhaseRunning \<or> target = PhaseCancelRequested \<or> target = PhaseFailed)"
| "phase_can_transition_to PhaseIntegrating target =
     (target = PhaseAccepted \<or> target = PhaseFailed \<or> target = PhaseCancelRequested
      \<or> target = PhaseRunning)"
| "phase_can_transition_to PhaseCancelRequested target = (target = PhaseCancelled)"
| "phase_can_transition_to _ target = False"

text \<open>\<open>is_full_commit\<close> of \<open>task_spec.rs\<close>.\<close>

definition is_full_commit :: "string \<Rightarrow> bool" where
  "is_full_commit value \<longleftrightarrow> (length value = 40 \<or> length value = 64) \<and>
     list_all (\<lambda>b. is_ascii_digit b \<or> (97 \<le> byte b \<and> byte b \<le> 102)) value"

definition key_byte :: "char \<Rightarrow> bool" where
  "key_byte b \<longleftrightarrow> is_ascii_alphanumeric b \<or> b = CHR ''_'' \<or> b = CHR ''-''"

definition workflow_validate :: "workflow_record \<Rightarrow> workflow_record_error + unit" where
  "workflow_validate self =
     (let keys = map wt_task_key (wr_tasks self) in
      if wr_schema_version self = WORKFLOW_RECORD_SCHEMA_VERSION
         \<and> \<not> is_nil (wr_workflow_id self)
         \<and> wr_version self > 0
         \<and> wr_request_key self \<noteq> []
         \<and> length (wr_request_key self) \<le> 128
         \<and> list_all key_byte (wr_request_key self)
         \<and> is_full_commit (wr_base_commit self)
         \<and> wr_tasks self \<noteq> []
         \<and> length (wr_tasks self) \<le> MAX_WORKFLOW_TASKS
         \<and> length (sort_dedup keys) = length keys
         \<and> list_all (\<lambda>task. wt_turns_used task \<le> wt_max_turns task
                            \<and> wt_repairs_used task \<le> wt_max_repairs task) (wr_tasks self)
      then Inr () else Inl RecInvalid)"

record admission_fields =
  af_request_key :: string
  af_workflow_key :: spec_identifier
  af_mode :: workflow_mode
  af_evidence_class :: evidence_class
  af_base_commit :: string
  af_policy_digest :: digest
  af_verifier_digest :: digest
  af_integration_suites :: "spec_identifier list"
  af_contracts :: "(spec_identifier \<times> digest) list"

definition admission_fields_of :: "workflow_record \<Rightarrow> admission_fields" where
  "admission_fields_of self =
     \<lparr>af_request_key = wr_request_key self, af_workflow_key = wr_workflow_key self,
      af_mode = wr_mode self, af_evidence_class = wr_evidence_class self,
      af_base_commit = wr_base_commit self, af_policy_digest = wr_policy_digest self,
      af_verifier_digest = wr_verifier_digest self,
      af_integration_suites = wr_integration_suites self,
      af_contracts = map (\<lambda>task. (wt_task_key task, wt_contract_id task)) (wr_tasks self)\<rparr>"

definition admission_fingerprint ::
  "(admission_fields \<Rightarrow> 'err + digest) \<Rightarrow> workflow_record \<Rightarrow> 'err + digest" where
  "admission_fingerprint canonical_digest self = canonical_digest (admission_fields_of self)"

definition workflow_task_of :: "workflow_record \<Rightarrow> spec_identifier \<Rightarrow> workflow_task option" where
  "workflow_task_of self task_key = find (\<lambda>task. wt_task_key task = task_key) (wr_tasks self)"

text \<open>\<open>task_mut\<close> borrows the first task with the key; here the update is applied to it.\<close>

fun update_first :: "('a \<Rightarrow> bool) \<Rightarrow> ('a \<Rightarrow> 'a) \<Rightarrow> 'a list \<Rightarrow> 'a list" where
  "update_first P f [] = []"
| "update_first P f (x # xs) = (if P x then f x # xs else x # update_first P f xs)"

definition with_phase ::
  "workflow_record \<Rightarrow> workflow_phase \<Rightarrow> u64 \<Rightarrow> workflow_record_error + workflow_record" where
  "with_phase self phase now_ms =
     (if \<not> phase_can_transition_to (wr_phase self) phase then Inl RecInvalidTransition
      else (case checked_add (wr_version self) 1 of None \<Rightarrow> Inl RecInvalid
            | Some version \<Rightarrow> Inr (self\<lparr>wr_phase := phase, wr_version := version,
                wr_updated_at_ms := max now_ms (wr_updated_at_ms self)\<rparr>)))"

definition charge_turn ::
  "workflow_record \<Rightarrow> spec_identifier \<Rightarrow> bool \<Rightarrow> workflow_record_error + workflow_record" where
  "charge_turn self task_key repair =
     (case workflow_task_of self task_key of
        None \<Rightarrow> Inl RecUnknownTask
      | Some task \<Rightarrow>
          if wt_turns_used task \<ge> wt_max_turns task
             \<or> (repair \<and> wt_repairs_used task \<ge> wt_max_repairs task)
          then Inl RecTaskBudgetExhausted
          else Inr (self\<lparr>wr_tasks := update_first (\<lambda>task. wt_task_key task = task_key)
                 (\<lambda>task. task\<lparr>wt_turns_used := wt_turns_used task + 1,
                    wt_repairs_used := (if repair then wt_repairs_used task + 1
                                        else wt_repairs_used task)\<rparr>) (wr_tasks self)\<rparr>))"

section \<open>Invariants\<close>

definition task_in_budget :: "workflow_task \<Rightarrow> bool" where
  "task_in_budget t \<longleftrightarrow> wt_turns_used t \<le> wt_max_turns t \<and> wt_repairs_used t \<le> wt_max_repairs t"

definition wf_workflow :: "workflow_record \<Rightarrow> bool" where
  "wf_workflow r \<longleftrightarrow> wr_schema_version r = WORKFLOW_RECORD_SCHEMA_VERSION \<and>
     \<not> is_nil (wr_workflow_id r) \<and> wr_version r > 0 \<and>
     wr_request_key r \<noteq> [] \<and> length (wr_request_key r) \<le> 128 \<and> list_all key_byte (wr_request_key r) \<and>
     is_full_commit (wr_base_commit r) \<and> wr_tasks r \<noteq> [] \<and>
     length (wr_tasks r) \<le> MAX_WORKFLOW_TASKS \<and> distinct (map wt_task_key (wr_tasks r)) \<and>
     (\<forall>t \<in> set (wr_tasks r). task_in_budget t)"

lemma workflow_validate_iff: "workflow_validate r = Inr () \<longleftrightarrow> wf_workflow r"
  using length_sort_dedup_eq_iff [of "map wt_task_key (wr_tasks r)"]
  by (simp add: workflow_validate_def wf_workflow_def task_in_budget_def list_all_iff Let_def)

interpretation workflow_edges: edge_table phase_can_transition_to phase_is_terminal
proof
  show "phase_is_terminal s \<longleftrightarrow> (\<forall>t. \<not> phase_can_transition_to s t)" for s
    by (cases s) (auto simp: phase_is_terminal_def)
qed

lemma with_phase_Inr:
  "with_phase r p now = Inr n \<longleftrightarrow> phase_can_transition_to (wr_phase r) p \<and>
     (\<exists>v. checked_add (wr_version r) 1 = Some v \<and>
          n = r\<lparr>wr_phase := p, wr_version := v, wr_updated_at_ms := max now (wr_updated_at_ms r)\<rparr>)"
  by (auto simp: with_phase_def result_simps)

subsection \<open>Charging a task\<close>

lemma update_first_map:
  "(\<And>x. g (f x) = g x) \<Longrightarrow> map g (update_first P f xs) = map g xs"
  by (induction xs) auto

lemma update_first_length [simp]: "length (update_first P f xs) = length xs"
  by (induction xs) auto

lemma set_update_first:
  "find P xs = Some x \<Longrightarrow> set (update_first P f xs) \<subseteq> insert (f x) (set xs)"
  by (induction xs) (auto split: if_splits)

lemma find_update_first:
  "(\<And>x. wt_task_key (f x) = wt_task_key x) \<Longrightarrow>
   find (\<lambda>t. wt_task_key t = j) (update_first (\<lambda>t. wt_task_key t = k) f ts) =
     (if j = k then map_option f (find (\<lambda>t. wt_task_key t = k) ts)
      else find (\<lambda>t. wt_task_key t = j) ts)"
  by (induction ts) auto

definition charged :: "bool \<Rightarrow> workflow_task \<Rightarrow> workflow_task" where
  "charged repair t = t\<lparr>wt_turns_used := wt_turns_used t + 1,
     wt_repairs_used := (if repair then wt_repairs_used t + 1 else wt_repairs_used t)\<rparr>"

lemma charge_turn_Inr:
  "charge_turn r k repair = Inr n \<longleftrightarrow> (\<exists>t. workflow_task_of r k = Some t \<and>
     wt_turns_used t < wt_max_turns t \<and> (repair \<longrightarrow> wt_repairs_used t < wt_max_repairs t) \<and>
     n = r\<lparr>wr_tasks := update_first (\<lambda>t. wt_task_key t = k) (charged repair) (wr_tasks r)\<rparr>)"
  unfolding charge_turn_def charged_def result_simps by (auto simp: not_le)

lemma charged_in_budget:
  assumes "task_in_budget t" "wt_turns_used t < wt_max_turns t"
    "repair \<longrightarrow> wt_repairs_used t < wt_max_repairs t"
  shows "task_in_budget (charged repair t)"
  using assms
  by (auto simp: task_in_budget_def charged_def word_le_nat_alt word_less_nat_alt unat_Suc_below)

lemma wf_charge_turn:
  assumes "wf_workflow r" "charge_turn r k repair = Inr n"
  shows "wf_workflow n"
proof -
  obtain t where t: "find (\<lambda>t. wt_task_key t = k) (wr_tasks r) = Some t"
    "wt_turns_used t < wt_max_turns t" "repair \<longrightarrow> wt_repairs_used t < wt_max_repairs t"
    and n: "n = r\<lparr>wr_tasks := update_first (\<lambda>t. wt_task_key t = k) (charged repair) (wr_tasks r)\<rparr>"
    using assms(2) by (auto simp: charge_turn_Inr workflow_task_of_def)
  have "task_in_budget t" using assms(1) t(1) by (auto simp: wf_workflow_def dest: find_Some_filter)
  then have "task_in_budget (charged repair t)" using t by (simp add: charged_in_budget)
  with set_update_first [OF t(1)] assms(1) have
    "\<forall>x \<in> set (wr_tasks n). task_in_budget x" by (fastforce simp: n wf_workflow_def)
  moreover have "map wt_task_key (wr_tasks n) = map wt_task_key (wr_tasks r)"
    by (simp add: n update_first_map charged_def)
  moreover have "length (wr_tasks n) = length (wr_tasks r)" by (simp add: n)
  ultimately show ?thesis
    using assms(1) unfolding wf_workflow_def by (auto simp: n)
qed

lemma wf_with_phase: "wf_workflow r \<Longrightarrow> with_phase r p now = Inr n \<Longrightarrow> wf_workflow n"
  by (auto simp: with_phase_Inr wf_workflow_def dest: checked_add_less)

section \<open>Histories of the writer\<close>

datatype workflow_event = SetPhase workflow_phase u64 | ChargeTurn spec_identifier bool

fun workflow_step :: "workflow_record \<Rightarrow> workflow_event \<Rightarrow> workflow_record_error + workflow_record" where
  "workflow_step r (SetPhase p now) = with_phase r p now"
| "workflow_step r (ChargeTurn k repair) = charge_turn r k repair"

interpretation workflow_valid: guarded_reducer workflow_step wf_workflow
proof
  show "wf_workflow r \<Longrightarrow> workflow_step r e = Inr n \<Longrightarrow> wf_workflow n" for r e n
    by (cases e) (auto intro: wf_with_phase wf_charge_turn)
qed

interpretation workflow_terminal: guarded_reducer workflow_step "\<lambda>r. phase_is_terminal q \<and> wr_phase r = q" for q
proof
  show "phase_is_terminal q \<and> wr_phase r = q \<Longrightarrow> workflow_step r e = Inr n \<Longrightarrow>
      phase_is_terminal q \<and> wr_phase n = q" for r e n
    by (cases e) (auto simp: with_phase_Inr charge_turn_Inr workflow_edges.terminal_iff)
qed

definition is_set_phase :: "workflow_event \<Rightarrow> bool" where
  "is_set_phase e \<longleftrightarrow> (case e of SetPhase _ _ \<Rightarrow> True | _ \<Rightarrow> False)"

text \<open>Versions count the accepted phase changes and time does not run back.\<close>

lemma workflow_step_clock:
  assumes "workflow_step r e = Inr n"
  shows "unat (wr_version n) = unat (wr_version r) + (if is_set_phase e then 1 else 0)"
    and "wr_updated_at_ms r \<le> wr_updated_at_ms n"
  using assms
  by (cases e; auto simp: with_phase_Inr charge_turn_Inr is_set_phase_def dest: checked_add_Some)+

lemma workflow_run_clock:
  "unat (wr_version (run_events workflow_step r es)) =
     unat (wr_version r) + length (filter is_set_phase (accepted_events workflow_step r es)) \<and>
   wr_updated_at_ms r \<le> wr_updated_at_ms (run_events workflow_step r es)"
proof (induction es arbitrary: r)
  case (Cons e es)
  show ?case
  proof (cases "workflow_step r e")
    case (Inr n)
    with Cons.IH [of n] workflow_step_clock [OF Inr] show ?thesis by (auto intro: order_trans)
  next
    case (Inl x)
    with Cons.IH [of r] show ?thesis by simp
  qed
qed simp

text \<open>The phase reached from another one was entered along an edge.\<close>

lemma workflow_run_entered:
  assumes "wr_phase (run_events workflow_step r es) = p" "wr_phase r \<noteq> p"
  shows "\<exists>ps qs now. es = ps @ SetPhase p now # qs \<and>
     phase_can_transition_to (wr_phase (run_events workflow_step r ps)) p"
  using assms
proof (induction es arbitrary: r)
  case (Cons e es)
  show ?case
  proof (cases "\<exists>now. e = SetPhase p now \<and> phase_can_transition_to (wr_phase r) p")
    case True
    then show ?thesis by (metis append_Nil run_events.simps(1))
  next
    case False
    define n where "n = (case workflow_step r e of Inl _ \<Rightarrow> r | Inr m \<Rightarrow> m)"
    have run: "run_events workflow_step r (e # xs) = run_events workflow_step n xs" for xs
      by (simp add: n_def split: sum.splits)
    have "wr_phase n \<noteq> p"
      using False Cons.prems(2)
      by (cases e) (auto simp: n_def with_phase_Inr charge_turn_Inr split: sum.splits)
    then obtain ps qs now where "es = ps @ SetPhase p now # qs"
      "phase_can_transition_to (wr_phase (run_events workflow_step n ps)) p"
      using Cons.IH [of n] Cons.prems(1) run by auto
    then show ?thesis using run by (metis append_Cons)
  qed
qed simp

text \<open>Turns and repairs of a task count the accepted charges to it.\<close>

definition charges_to :: "spec_identifier \<Rightarrow> workflow_event \<Rightarrow> bool" where
  "charges_to k e \<longleftrightarrow> (\<exists>repair. e = ChargeTurn k repair)"

definition repairs_to :: "spec_identifier \<Rightarrow> workflow_event \<Rightarrow> bool" where
  "repairs_to k e \<longleftrightarrow> e = ChargeTurn k True"

lemma unat_charged:
  assumes "wt_turns_used t < wt_max_turns t" "repair \<longrightarrow> wt_repairs_used t < wt_max_repairs t"
  shows "unat (wt_turns_used (charged repair t)) = Suc (unat (wt_turns_used t))"
    and "unat (wt_repairs_used (charged repair t)) = unat (wt_repairs_used t) + (if repair then 1 else 0)"
    and "wt_max_turns (charged repair t) = wt_max_turns t"
    and "wt_max_repairs (charged repair t) = wt_max_repairs t"
  using assms by (auto simp: charged_def unat_Suc_below)

lemma workflow_step_task:
  assumes "workflow_step r e = Inr n" "workflow_task_of r k = Some t"
  obtains t' where "workflow_task_of n k = Some t'"
    "unat (wt_turns_used t') = unat (wt_turns_used t) + (if charges_to k e then 1 else 0)"
    "unat (wt_repairs_used t') = unat (wt_repairs_used t) + (if repairs_to k e then 1 else 0)"
    "wt_max_turns t' = wt_max_turns t" "wt_max_repairs t' = wt_max_repairs t"
proof (cases e)
  case (SetPhase p now)
  with assms show ?thesis
    by (intro that [of t]) (auto simp: with_phase_Inr workflow_task_of_def charges_to_def repairs_to_def)
next
  case (ChargeTurn j repair)
  with assms(1) obtain u where u: "workflow_task_of r j = Some u" "wt_turns_used u < wt_max_turns u"
    "repair \<longrightarrow> wt_repairs_used u < wt_max_repairs u"
    and n: "n = r\<lparr>wr_tasks := update_first (\<lambda>t. wt_task_key t = j) (charged repair) (wr_tasks r)\<rparr>"
    by (auto simp: charge_turn_Inr)
  have find: "workflow_task_of n k =
      (if k = j then map_option (charged repair) (workflow_task_of r j) else workflow_task_of r k)"
    unfolding workflow_task_of_def n by (simp add: find_update_first charged_def)
  show ?thesis
  proof (cases "k = j")
    case True
    with assms(2) u(1) have "t = u" by simp
    with True u find ChargeTurn unat_charged [OF u(2,3)] show ?thesis
      by (intro that [of "charged repair u"]) (auto simp: charges_to_def repairs_to_def)
  next
    case False
    with assms(2) find ChargeTurn show ?thesis
      by (intro that [of t]) (auto simp: charges_to_def repairs_to_def)
  qed
qed

lemma workflow_run_task:
  assumes "workflow_task_of r k = Some t"
  shows "\<exists>t'. workflow_task_of (run_events workflow_step r es) k = Some t' \<and>
    unat (wt_turns_used t') = unat (wt_turns_used t) +
      length (filter (charges_to k) (accepted_events workflow_step r es)) \<and>
    unat (wt_repairs_used t') = unat (wt_repairs_used t) +
      length (filter (repairs_to k) (accepted_events workflow_step r es)) \<and>
    wt_max_turns t' = wt_max_turns t \<and> wt_max_repairs t' = wt_max_repairs t"
  using assms
proof (induction es arbitrary: r t)
  case (Cons e es)
  show ?case
  proof (cases "workflow_step r e")
    case (Inr n)
    obtain t' where t': "workflow_task_of n k = Some t'"
      "unat (wt_turns_used t') = unat (wt_turns_used t) + (if charges_to k e then 1 else 0)"
      "unat (wt_repairs_used t') = unat (wt_repairs_used t) + (if repairs_to k e then 1 else 0)"
      "wt_max_turns t' = wt_max_turns t" "wt_max_repairs t' = wt_max_repairs t"
      using Inr Cons.prems by (rule workflow_step_task)
    from Cons.IH [OF t'(1)] t' Inr show ?thesis by auto
  next
    case (Inl x)
    with Cons.IH [OF Cons.prems] show ?thesis by simp
  qed
qed simp

section \<open>Properties\<close>

definition sample_task :: workflow_task where
  "sample_task = \<lparr>wt_task_key = ''a'', wt_contract_id = 1, wt_contract_version = 1,
     wt_required_suites = [], wt_progress = ProgPending, wt_turns_used = 0, wt_repairs_used = 0,
     wt_max_turns = 2, wt_max_repairs = 1, wt_accepted_candidate = None, wt_failure_code = None\<rparr>"

definition sample_workflow :: workflow_record where
  "sample_workflow = \<lparr>wr_schema_version = 1, wr_workflow_id = 1, wr_request_key = ''req'',
     wr_workflow_key = ''flow'', wr_mode = Cooperate, wr_phase = PhaseIntegrating, wr_version = 4,
     wr_evidence_class = Fixture, wr_base_commit = replicate 40 (CHR ''a''), wr_policy_digest = 2,
     wr_verifier_digest = 3, wr_integration_suites = [], wr_tasks = [sample_task],
     wr_budget = \<lparr>lb_decisions_remaining = 1, lb_malformed_repairs_remaining = 1,
        lb_model_requests_remaining = 1, lb_deadline_unix_ms = 9\<rparr>,
     wr_content_store = StoreDisabled, wr_blocked_reason = None, wr_created_at_ms = 1,
     wr_updated_at_ms = 5\<rparr>"

lemma sample_workflow_valid: "workflow_validate sample_workflow = Inr ()"
  by (simp add: workflow_validate_iff wf_workflow_def sample_workflow_def sample_task_def
      WORKFLOW_RECORD_SCHEMA_VERSION_def MAX_WORKFLOW_TASKS_def task_in_budget_def key_byte_def
      is_full_commit_def ascii_defs list_all_iff)



text \<open>Turn budgets hold over whole histories: the turns and repairs recorded for a task grow by exactly
  the accepted charges to that task, without wrap-around, and never exceed its maxima; so no more than
  the remaining turns are ever accepted, and charges to one task leave the others alone.\<close>

theorem turn_budget_exact:
  assumes "workflow_validate r = Inr ()" "workflow_task_of r k = Some t"
  shows "\<exists>t'. workflow_task_of (run_events workflow_step r es) k = Some t' \<and>
    unat (wt_turns_used t') = unat (wt_turns_used t) +
      length (filter (charges_to k) (accepted_events workflow_step r es)) \<and>
    unat (wt_repairs_used t') = unat (wt_repairs_used t) +
      length (filter (repairs_to k) (accepted_events workflow_step r es)) \<and>
    wt_turns_used t' \<le> wt_max_turns t \<and> wt_repairs_used t' \<le> wt_max_repairs t"
proof -
  obtain t' where t': "workflow_task_of (run_events workflow_step r es) k = Some t'"
    and rest: "unat (wt_turns_used t') = unat (wt_turns_used t) +
      length (filter (charges_to k) (accepted_events workflow_step r es))"
    "unat (wt_repairs_used t') = unat (wt_repairs_used t) +
      length (filter (repairs_to k) (accepted_events workflow_step r es))"
    "wt_max_turns t' = wt_max_turns t" "wt_max_repairs t' = wt_max_repairs t"
    using workflow_run_task [OF assms(2)] by blast
  have "wf_workflow (run_events workflow_step r es)"
    using assms(1) by (simp add: workflow_validate_iff workflow_valid.run_inv)
  then have "task_in_budget t'"
    using t' by (auto simp: wf_workflow_def workflow_task_of_def dest: find_Some_filter)
  with t' rest show ?thesis by (auto simp: task_in_budget_def)
qed

theorem turn_budget_exact_witness:
  "\<exists>t'. workflow_task_of (run_events workflow_step sample_workflow
           [ChargeTurn ''a'' False, ChargeTurn ''b'' False, ChargeTurn ''a'' True, ChargeTurn ''a'' False])
         ''a'' = Some t' \<and> wt_turns_used t' \<le> 2"
proof -
  have "workflow_task_of sample_workflow ''a'' = Some sample_task"
    by (simp add: workflow_task_of_def sample_workflow_def sample_task_def)
  from turn_budget_exact [OF sample_workflow_valid this,
      of "[ChargeTurn ''a'' False, ChargeTurn ''b'' False, ChargeTurn ''a'' True, ChargeTurn ''a'' False]"]
  show ?thesis by (auto simp: sample_task_def)
qed

end
