(* ===== verification/Messages.thy ===== *)
theory Messages
  imports Identifiers
begin

text \<open>
  Supervised communication, \<open>crates/vibemux_workflow/src/messages.rs\<close>: broker admission of a draft from
  an authenticated participant, the delivery states of a message, and the recipient's inbox cursor.
  The hash of a body (\<open>Sha256Digest::of\<close>, SHA-256 of a library) is the parameter \<open>sha256\<close>.

  The lemmas show what an admitted message guarantees about its sender, recipient, freshness and
  bounds; that delivery histories acknowledge only what was delivered in time, by the recipient; and
  that an inbox consumes each sequence number once and in order.
\<close>

section \<open>Data\<close>

definition MAX_MESSAGE_BODY_BYTES :: nat where "MAX_MESSAGE_BODY_BYTES = 4096"
definition MAX_MESSAGE_TTL_MS :: u64 where "MAX_MESSAGE_TTL_MS = 3600000"
definition MAX_CORRELATION_DEPTH :: u32 where "MAX_CORRELATION_DEPTH = 4"
definition MAX_SOURCE_REFS :: nat where "MAX_SOURCE_REFS = 16"

datatype message_kind = Question | Answer | ContextOffer | ContextRequest | ContextGrant
  | InterfaceProposal | Finding | KindBlocked | Progress | ArtifactReady

fun message_kind_as_str :: "message_kind \<Rightarrow> string" where
  "message_kind_as_str Question = ''question''"
| "message_kind_as_str Answer = ''answer''"
| "message_kind_as_str ContextOffer = ''context_offer''"
| "message_kind_as_str ContextRequest = ''context_request''"
| "message_kind_as_str ContextGrant = ''context_grant''"
| "message_kind_as_str InterfaceProposal = ''interface_proposal''"
| "message_kind_as_str Finding = ''finding''"
| "message_kind_as_str KindBlocked = ''blocked''"
| "message_kind_as_str Progress = ''progress''"
| "message_kind_as_str ArtifactReady = ''artifact_ready''"

definition worker_may_send :: "message_kind \<Rightarrow> bool" where
  "worker_may_send self \<longleftrightarrow> self \<noteq> ContextGrant"

definition escalates :: "message_kind \<Rightarrow> bool" where
  "escalates self \<longleftrightarrow> self = InterfaceProposal \<or> self = KindBlocked"

datatype participant = Operator | Supervisor | Broker | Worker spec_identifier uuid

fun participant_task_key :: "participant \<Rightarrow> spec_identifier option" where
  "participant_task_key (Worker task_key _) = Some task_key"
| "participant_task_key _ = None"

fun participant_label :: "participant \<Rightarrow> string" where
  "participant_label Operator = ''operator''"
| "participant_label Supervisor = ''supervisor''"
| "participant_label Broker = ''broker''"
| "participant_label (Worker task_key _) = ''worker:'' @ task_key"

fun participant_rank :: "participant \<Rightarrow> nat \<times> spec_identifier \<times> uuid" where
  "participant_rank Operator = (0, [], 0)"
| "participant_rank Supervisor = (1, [], 0)"
| "participant_rank Broker = (2, [], 0)"
| "participant_rank (Worker task_key session_id) = (3, task_key, session_id)"

lemma participant_rank_eq_iff [simp]: "participant_rank x = participant_rank y \<longleftrightarrow> x = y"
  by (cases x; cases y) auto

instantiation participant :: linorder
begin

definition less_eq_participant :: "participant \<Rightarrow> participant \<Rightarrow> bool" where
  "less_eq_participant a b \<longleftrightarrow> participant_rank a \<le> participant_rank b"

definition less_participant :: "participant \<Rightarrow> participant \<Rightarrow> bool" where
  "less_participant a b \<longleftrightarrow> participant_rank a < participant_rank b"

instance
  by (standard; unfold less_eq_participant_def less_participant_def;
      (rule less_le_not_le order_refl linear | erule (1) order_trans
       | (drule (1) order_antisym, simp)))

end

record source_file_ref =
  sfr_path :: string
  sfr_start_line :: u32
  sfr_end_line :: u32
  sfr_snapshot_digest :: digest

record message_draft =
  md_message_id :: uuid
  md_kind :: message_kind
  md_to :: spec_identifier
  md_claimed_sender :: "string option"
  md_reply_to :: "uuid option"
  md_contract_version :: u32
  md_source_refs :: "source_file_ref list"
  md_body :: string
  md_ttl_ms :: u64

record task_facts =
  tf_task_key :: spec_identifier
  tf_participant :: participant
  tf_contract_id :: digest
  tf_contract_version :: u32
  tf_may_message :: "spec_identifier list"
  tf_max_messages_per_turn :: u32
  tf_current_snapshot :: "digest option"

record admission_facts =
  ad_workflow_id :: uuid
  ad_tasks :: "task_facts list"
  ad_now_ms :: u64
  ad_sent_this_turn :: u32
  ad_parent_depth :: "u32 option"
  ad_parent_correlation :: "uuid option"

record message_envelope =
  mv_message_id :: uuid
  mv_workflow_id :: uuid
  mv_sender :: participant
  mv_recipient :: participant
  mv_kind :: message_kind
  mv_correlation_id :: uuid
  mv_reply_to :: "uuid option"
  mv_depth :: u32
  mv_contract_id :: digest
  mv_contract_version :: u32
  mv_source_refs :: "source_file_ref list"
  mv_body_sha256 :: digest
  mv_body_bytes :: u64
  mv_created_at_ms :: u64
  mv_expires_at_ms :: u64
  mv_audience :: "participant list"
  mv_escalated :: bool

datatype message_rejection = ForgedSender | UnknownSender | UnknownRecipient | NotPermitted
  | KindNotAllowedForSender | StaleContract | StaleSource | InvalidBody | InvalidTtl
  | FanOutExceeded | LoopDepthExceeded | TooManySourceRefs

fun message_rejection_code :: "message_rejection \<Rightarrow> string" where
  "message_rejection_code ForgedSender = ''message_forged_sender''"
| "message_rejection_code UnknownSender = ''message_unknown_sender''"
| "message_rejection_code UnknownRecipient = ''message_unknown_recipient''"
| "message_rejection_code NotPermitted = ''message_not_permitted''"
| "message_rejection_code KindNotAllowedForSender = ''message_kind_not_allowed''"
| "message_rejection_code StaleContract = ''message_stale_contract''"
| "message_rejection_code StaleSource = ''message_stale_source''"
| "message_rejection_code InvalidBody = ''message_invalid_body''"
| "message_rejection_code InvalidTtl = ''message_invalid_ttl''"
| "message_rejection_code FanOutExceeded = ''message_fan_out_exceeded''"
| "message_rejection_code LoopDepthExceeded = ''message_loop_depth_exceeded''"
| "message_rejection_code TooManySourceRefs = ''message_too_many_source_refs''"

section \<open>Admission\<close>

definition sender_task_of ::
  "message_draft \<Rightarrow> participant \<Rightarrow> admission_facts \<Rightarrow> message_rejection + task_facts option" where
  "sender_task_of draft sender facts =
     (case sender of
        Worker task_key _ \<Rightarrow>
          (case find (\<lambda>task. tf_task_key task = task_key \<and> tf_participant task = sender)
                  (ad_tasks facts) of
             None \<Rightarrow> Inl UnknownSender
           | Some task \<Rightarrow>
               if \<not> worker_may_send (md_kind draft) then Inl KindNotAllowedForSender
               else Inr (Some task))
      | _ \<Rightarrow> Inr None)"

definition recipient_of ::
  "message_draft \<Rightarrow> admission_facts \<Rightarrow> message_rejection + participant \<times> task_facts option" where
  "recipient_of draft facts =
     (if md_to draft = ''supervisor'' then Inr (Supervisor, None)
      else (case find (\<lambda>task. tf_task_key task = md_to draft) (ad_tasks facts) of
              None \<Rightarrow> Inl UnknownRecipient
            | Some task \<Rightarrow> Inr (tf_participant task, Some task)))"

definition check_sender_task ::
  "message_draft \<Rightarrow> admission_facts \<Rightarrow> participant \<Rightarrow> task_facts \<Rightarrow> message_rejection + unit" where
  "check_sender_task draft facts recipient task =
     (if \<not> (recipient = Supervisor \<or> md_to draft \<in> set (tf_may_message task)) then Inl NotPermitted
      else if md_contract_version draft \<noteq> tf_contract_version task then Inl StaleContract
      else if ad_sent_this_turn facts \<ge> tf_max_messages_per_turn task then Inl FanOutExceeded
      else if \<not> list_all (\<lambda>source. tf_current_snapshot task = Some (sfr_snapshot_digest source))
                 (md_source_refs draft)
      then Inl StaleSource else Inr ())"

definition message_depth :: "admission_facts \<Rightarrow> u32" where
  "message_depth facts =
     (case ad_parent_depth facts of None \<Rightarrow> 0 | Some depth \<Rightarrow> saturating_add depth 1)"

text \<open>The envelope the broker writes: the recipient's contract if it has one, else the sender's.\<close>

definition make_envelope ::
  "(string \<Rightarrow> digest) \<Rightarrow> message_draft \<Rightarrow> participant \<Rightarrow> admission_facts \<Rightarrow> participant \<Rightarrow>
   task_facts option \<Rightarrow> task_facts option \<Rightarrow> message_envelope" where
  "make_envelope sha256 draft sender facts recipient recipient_contract sender_task =
     (let contract = (case recipient_contract of Some t \<Rightarrow> Some t | None \<Rightarrow> sender_task)
      in \<lparr>mv_message_id = md_message_id draft, mv_workflow_id = ad_workflow_id facts,
          mv_sender = sender, mv_recipient = recipient, mv_kind = md_kind draft,
          mv_correlation_id = (case ad_parent_correlation facts of
             None \<Rightarrow> md_message_id draft | Some c \<Rightarrow> c),
          mv_reply_to = md_reply_to draft, mv_depth = message_depth facts,
          mv_contract_id = (case contract of None \<Rightarrow> sha256 ''supervisor''
             | Some task \<Rightarrow> tf_contract_id task),
          mv_contract_version = (case contract of None \<Rightarrow> md_contract_version draft
             | Some task \<Rightarrow> tf_contract_version task),
          mv_source_refs = md_source_refs draft,
          mv_body_sha256 = sha256 (md_body draft),
          mv_body_bytes = of_nat (length (md_body draft)),
          mv_created_at_ms = ad_now_ms facts,
          mv_expires_at_ms = saturating_add (ad_now_ms facts) (md_ttl_ms draft),
          mv_audience = sort_dedup [recipient, Supervisor],
          mv_escalated = escalates (md_kind draft)\<rparr>)"

definition admit ::
  "(string \<Rightarrow> digest) \<Rightarrow> message_draft \<Rightarrow> participant \<Rightarrow> admission_facts \<Rightarrow>
   message_rejection + message_envelope" where
  "admit sha256 draft sender facts =
     (if (case md_claimed_sender draft of None \<Rightarrow> False
          | Some claimed \<Rightarrow> claimed \<noteq> participant_label sender)
      then Inl ForgedSender else
     (case sender_task_of draft sender facts of Inl e \<Rightarrow> Inl e | Inr sender_task \<Rightarrow>
     (case recipient_of draft facts of Inl e \<Rightarrow> Inl e | Inr (recipient, recipient_contract) \<Rightarrow>
     (case (case sender_task of None \<Rightarrow> Inr ()
            | Some task \<Rightarrow> check_sender_task draft facts recipient task) of
        Inl e \<Rightarrow> Inl e | Inr _ \<Rightarrow>
      if trim_is_empty (md_body draft) \<or> length (md_body draft) > MAX_MESSAGE_BODY_BYTES
         \<or> CHR 0x00 \<in> set (md_body draft)
      then Inl InvalidBody
      else if md_ttl_ms draft = 0 \<or> md_ttl_ms draft > MAX_MESSAGE_TTL_MS then Inl InvalidTtl
      else if length (md_source_refs draft) > MAX_SOURCE_REFS then Inl TooManySourceRefs
      else if message_depth facts > MAX_CORRELATION_DEPTH then Inl LoopDepthExceeded
      else Inr (make_envelope sha256 draft sender facts recipient recipient_contract sender_task)))))"

section \<open>Delivery\<close>

datatype message_state = MsgAdmitted | MsgDelivered | MsgAcknowledged | MsgRejected | MsgExpired

fun message_state_as_str :: "message_state \<Rightarrow> string" where
  "message_state_as_str MsgAdmitted = ''admitted''"
| "message_state_as_str MsgDelivered = ''delivered''"
| "message_state_as_str MsgAcknowledged = ''acknowledged''"
| "message_state_as_str MsgRejected = ''rejected''"
| "message_state_as_str MsgExpired = ''expired''"

datatype delivery_event = Deliver u64 | Acknowledge participant | Expire u64

datatype delivery_error = DlvExpired | DlvNotRecipient | DlvNotDelivered | DlvTerminal | DlvNotExpired

fun delivery_error_code :: "delivery_error \<Rightarrow> string" where
  "delivery_error_code DlvExpired = ''message_expired''"
| "delivery_error_code DlvNotRecipient = ''message_ack_not_recipient''"
| "delivery_error_code DlvNotDelivered = ''message_not_delivered''"
| "delivery_error_code DlvTerminal = ''message_terminal''"
| "delivery_error_code DlvNotExpired = ''message_not_expired''"

definition message_transition ::
  "message_envelope \<Rightarrow> message_state \<Rightarrow> delivery_event \<Rightarrow> delivery_error + message_state" where
  "message_transition envelope state event =
     (case event of
        Deliver now_ms \<Rightarrow>
          if state = MsgAdmitted \<or> state = MsgDelivered then
            (if now_ms \<ge> mv_expires_at_ms envelope then Inl DlvExpired else Inr MsgDelivered)
          else Inl DlvTerminal
      | Acknowledge by_whom \<Rightarrow>
          if state = MsgDelivered \<or> state = MsgAcknowledged then
            (if by_whom = mv_recipient envelope then Inr MsgAcknowledged else Inl DlvNotRecipient)
          else if state = MsgAdmitted then Inl DlvNotDelivered
          else Inl DlvTerminal
      | Expire now_ms \<Rightarrow>
          if state = MsgAdmitted \<or> state = MsgDelivered then
            (if now_ms \<ge> mv_expires_at_ms envelope then Inr MsgExpired else Inl DlvNotExpired)
          else if state = MsgExpired then Inr MsgExpired
          else Inl DlvTerminal)"

section \<open>The inbox cursor\<close>

record inbox_cursor =
  ic_delivered_through :: u64
  ic_seen :: "uuid set"

datatype inbox_decision = InboxAccept | InboxDuplicate | InboxOutOfOrder u64

definition starting_after :: "u64 \<Rightarrow> inbox_cursor" where
  "starting_after delivered_through = \<lparr>ic_delivered_through = delivered_through, ic_seen = {}\<rparr>"

definition offer :: "inbox_cursor \<Rightarrow> u64 \<Rightarrow> uuid \<Rightarrow> inbox_cursor \<times> inbox_decision" where
  "offer self sequence message_id =
     (if message_id \<in> ic_seen self \<or> sequence \<le> ic_delivered_through self
      then (self, InboxDuplicate)
      else (let expected = ic_delivered_through self + 1 in
            if sequence \<noteq> expected then (self, InboxOutOfOrder expected)
            else (self\<lparr>ic_delivered_through := sequence,
                       ic_seen := insert message_id (ic_seen self)\<rparr>, InboxAccept)))"

section \<open>Admitted messages\<close>

definition worker_cleared :: "message_draft \<Rightarrow> participant \<Rightarrow> admission_facts \<Rightarrow> task_facts \<Rightarrow> bool" where
  "worker_cleared d sender facts task \<longleftrightarrow>
     task \<in> set (ad_tasks facts) \<and> tf_participant task = sender \<and>
     participant_task_key sender = Some (tf_task_key task) \<and>
     md_kind d \<noteq> ContextGrant \<and> md_contract_version d = tf_contract_version task \<and>
     ad_sent_this_turn facts < tf_max_messages_per_turn task \<and>
     list_all (\<lambda>source. tf_current_snapshot task = Some (sfr_snapshot_digest source)) (md_source_refs d)"

lemma sender_task_of_Inr:
  "sender_task_of d sender facts = Inr st \<Longrightarrow>
   (case st of None \<Rightarrow> participant_task_key sender = None
    | Some task \<Rightarrow> task \<in> set (ad_tasks facts) \<and> tf_participant task = sender \<and>
        participant_task_key sender = Some (tf_task_key task) \<and> md_kind d \<noteq> ContextGrant)"
  by (cases sender)
     (auto simp: sender_task_of_def worker_may_send_def result_simps dest: find_Some_filter
       split: option.splits if_splits)

lemma recipient_of_Inr:
  "recipient_of d facts = Inr (rcp, rc) \<Longrightarrow>
   (md_to d = ''supervisor'' \<and> rcp = Supervisor \<and> rc = None) \<or>
   (\<exists>task \<in> set (ad_tasks facts). tf_task_key task = md_to d \<and> rcp = tf_participant task \<and> rc = Some task)"
  by (auto simp: recipient_of_def result_simps dest: find_Some_filter split: if_splits)

lemma admit_Inr:
  "admit sha256 d sender facts = Inr e \<longleftrightarrow>
     md_claimed_sender d \<in> {None, Some (participant_label sender)} \<and>
     \<not> trim_is_empty (md_body d) \<and> length (md_body d) \<le> MAX_MESSAGE_BODY_BYTES \<and>
     CHR 0x00 \<notin> set (md_body d) \<and> md_ttl_ms d \<noteq> 0 \<and> md_ttl_ms d \<le> MAX_MESSAGE_TTL_MS \<and>
     length (md_source_refs d) \<le> MAX_SOURCE_REFS \<and> message_depth facts \<le> MAX_CORRELATION_DEPTH \<and>
     (\<exists>st rcp rc. sender_task_of d sender facts = Inr st \<and> recipient_of d facts = Inr (rcp, rc) \<and>
        (\<forall>task. st = Some task \<longrightarrow> check_sender_task d facts rcp task = Inr ()) \<and>
        e = make_envelope sha256 d sender facts rcp rc st)"
proof -
  have claim: "(case md_claimed_sender d of None \<Rightarrow> False
      | Some claimed \<Rightarrow> claimed \<noteq> participant_label sender) \<longleftrightarrow>
      md_claimed_sender d \<notin> {None, Some (participant_label sender)}"
    by (cases "md_claimed_sender d") auto
  show ?thesis
    unfolding admit_def claim by (simp only: result_simps split_paired_Ex prod.case) (auto simp: not_less)
qed

lemma envelope_sel:
  "mv_sender (make_envelope h d sender facts rcp rc st) = sender"
  "mv_recipient (make_envelope h d sender facts rcp rc st) = rcp"
  "mv_kind (make_envelope h d sender facts rcp rc st) = md_kind d"
  "mv_depth (make_envelope h d sender facts rcp rc st) = message_depth facts"
  "mv_body_sha256 (make_envelope h d sender facts rcp rc st) = h (md_body d)"
  "mv_body_bytes (make_envelope h d sender facts rcp rc st) = of_nat (length (md_body d))"
  "mv_created_at_ms (make_envelope h d sender facts rcp rc st) = ad_now_ms facts"
  "mv_expires_at_ms (make_envelope h d sender facts rcp rc st) =
     saturating_add (ad_now_ms facts) (md_ttl_ms d)"
  "mv_audience (make_envelope h d sender facts rcp rc st) = sort_dedup [rcp, Supervisor]"
  by (simp_all add: make_envelope_def Let_def)

section \<open>Delivery histories\<close>

interpretation acknowledged: guarded_reducer "message_transition env" "\<lambda>s. s = MsgAcknowledged" for env
  by unfold_locales (auto simp: message_transition_def split: delivery_event.splits if_splits)

interpretation expired: guarded_reducer "message_transition env" "\<lambda>s. s = MsgExpired" for env
  by unfold_locales (auto simp: message_transition_def split: delivery_event.splits if_splits)

interpretation rejected: ending_reducer "message_transition env" "\<lambda>s. s = MsgRejected" for env
  by unfold_locales (auto simp: message_transition_def split: delivery_event.splits if_splits)

lemma accepted_delivery_event:
  "ev \<in> set (accepted_events (message_transition env) s evs) \<Longrightarrow>
   (case ev of Deliver now \<Rightarrow> now < mv_expires_at_ms env
    | Acknowledge by_whom \<Rightarrow> by_whom = mv_recipient env
    | Expire now \<Rightarrow> True)"
proof (induction evs arbitrary: s)
  case (Cons x evs)
  show ?case
  proof (cases "message_transition env s x")
    case (Inr t)
    with Cons.prems consider "ev = x" | "ev \<in> set (accepted_events (message_transition env) t evs)" by auto
    then show ?thesis
    proof cases
      case 1
      with Inr show ?thesis
        by (auto simp: message_transition_def not_le split: delivery_event.splits if_splits)
    next
      case 2
      then show ?thesis by (rule Cons.IH)
    qed
  qed (use Cons in simp)
qed simp

lemma delivered_before_acknowledged:
  assumes "run_events (message_transition env) s evs = MsgAcknowledged" "s \<noteq> MsgAcknowledged"
  shows "Acknowledge (mv_recipient env) \<in> set (accepted_events (message_transition env) s evs) \<and>
    (s = MsgDelivered \<or>
     (\<exists>now. Deliver now \<in> set (accepted_events (message_transition env) s evs)))"
  using assms
proof (induction evs arbitrary: s)
  case (Cons x evs)
  show ?case
  proof (cases "message_transition env s x")
    case (Inr t)
    show ?thesis
    proof (cases "t = MsgAcknowledged")
      case True
      with Inr Cons.prems(2) have "s = MsgDelivered" "x = Acknowledge (mv_recipient env)"
        by (auto simp: message_transition_def split: delivery_event.splits if_splits)
      with Inr show ?thesis by simp
    next
      case False
      have "t = MsgDelivered \<Longrightarrow> \<exists>now. x = Deliver now"
        using Inr False by (auto simp: message_transition_def split: delivery_event.splits if_splits)
      with Inr False Cons.IH [of t] Cons.prems show ?thesis by auto
    qed
  next
    case (Inl err)
    with Cons.IH [of s] Cons.prems show ?thesis by simp
  qed
qed simp

section \<open>Inbox histories\<close>

text \<open>Offers as events: only an accepted offer moves the cursor.\<close>

fun inbox_step :: "inbox_cursor \<Rightarrow> u64 \<times> uuid \<Rightarrow> inbox_decision + inbox_cursor" where
  "inbox_step c (sequence, message_id) =
     (case offer c sequence message_id of
        (c', InboxAccept) \<Rightarrow> Inr c' | (_, decision) \<Rightarrow> Inl decision)"

lemma inbox_step_Inr:
  "inbox_step c (n, m) = Inr c' \<longleftrightarrow> m \<notin> ic_seen c \<and> ic_delivered_through c < n \<and>
     n = ic_delivered_through c + 1 \<and>
     c' = c\<lparr>ic_delivered_through := n, ic_seen := insert m (ic_seen c)\<rparr>"
  by (auto simp: offer_def Let_def not_le)

lemma accepted_offers:
  "map (unat \<circ> fst) (accepted_events inbox_step c es) =
     [Suc (unat (ic_delivered_through c)) ..<
      Suc (unat (ic_delivered_through c) + length (accepted_events inbox_step c es))] \<and>
   distinct (map snd (accepted_events inbox_step c es)) \<and>
   snd ` set (accepted_events inbox_step c es) \<inter> ic_seen c = {} \<and>
   unat (ic_delivered_through (run_events inbox_step c es)) =
     unat (ic_delivered_through c) + length (accepted_events inbox_step c es)"
proof (induction es arbitrary: c)
  case (Cons e es)
  obtain n m where e: "e = (n, m)" by (cases e)
  show ?case
  proof (cases "inbox_step c e")
    case (Inr c')
    then have s: "m \<notin> ic_seen c" "unat n = Suc (unat (ic_delivered_through c))"
      "ic_delivered_through c' = n" "ic_seen c' = insert m (ic_seen c)"
      unfolding e inbox_step_Inr by (auto dest: unat_Suc_below)
    show ?thesis
      using Cons.IH [of c'] s Inr e by (auto simp: upt_conv_Cons)
  next
    case (Inl d)
    with Cons.IH [of c] show ?thesis by simp
  qed
qed simp

section \<open>Properties\<close>

text \<open>C39. No forgery, no stale context, no loops. An admitted message carries the authenticated sender (a
  claimed sender had to match it), goes to the supervisor or to the current session of the named task,
  is seen by nobody else, and has a non-blank body of at most 4096 bytes, at most 16 source
  references and a correlation depth of at most 4. If the sender is a worker it is the current session
  of its task, does not grant context, is permitted to address the recipient, speaks under the current
  contract version, is below its per-turn limit, and cites only its current snapshot.\<close>

theorem admitted_message_sound:
  assumes "admit sha256 d sender facts = Inr e"
  shows "mv_sender e = sender \<and> md_claimed_sender d \<in> {None, Some (participant_label sender)} \<and>
    (mv_recipient e = Supervisor \<or> (\<exists>task \<in> set (ad_tasks facts).
       tf_task_key task = md_to d \<and> mv_recipient e = tf_participant task)) \<and>
    set (mv_audience e) = {mv_recipient e, Supervisor} \<and>
    \<not> trim_is_empty (md_body d) \<and> length (md_body d) \<le> 4096 \<and>
    unat (mv_body_bytes e) = length (md_body d) \<and> length (md_source_refs d) \<le> 16 \<and>
    mv_depth e \<le> 4 \<and> mv_created_at_ms e \<le> mv_expires_at_ms e \<and>
    (participant_task_key sender = None \<or>
     (\<exists>task. worker_cleared d sender facts task \<and>
        (mv_recipient e = Supervisor \<or> md_to d \<in> set (tf_may_message task))))"
proof -
  from assms obtain st rcp rc where st: "sender_task_of d sender facts = Inr st"
    and rc: "recipient_of d facts = Inr (rcp, rc)"
    and chk: "\<And>task. st = Some task \<Longrightarrow> check_sender_task d facts rcp task = Inr ()"
    and e: "e = make_envelope sha256 d sender facts rcp rc st"
    and claim: "md_claimed_sender d \<in> {None, Some (participant_label sender)}"
    and body: "\<not> trim_is_empty (md_body d)" "length (md_body d) \<le> 4096"
    and lim: "length (md_source_refs d) \<le> 16" "message_depth facts \<le> 4"
    unfolding admit_Inr
    by (auto simp: MAX_MESSAGE_BODY_BYTES_def MAX_SOURCE_REFS_def MAX_CORRELATION_DEPTH_def)
  have "participant_task_key sender = None \<or> (\<exists>task. worker_cleared d sender facts task \<and>
      (rcp = Supervisor \<or> md_to d \<in> set (tf_may_message task)))"
  proof (cases st)
    case None
    with sender_task_of_Inr [OF st] show ?thesis by simp
  next
    case (Some task)
    with sender_task_of_Inr [OF st] chk [OF Some] have "worker_cleared d sender facts task"
      "rcp = Supervisor \<or> md_to d \<in> set (tf_may_message task)"
      by (auto simp: check_sender_task_def worker_cleared_def result_simps not_le)
    then show ?thesis by blast
  qed
  moreover have "unat (of_nat (length (md_body d)) :: u64) = length (md_body d)"
    using body(2) by (simp add: unsigned_of_nat take_bit_nat_eq_self)
  ultimately show ?thesis
    using recipient_of_Inr [OF rc] claim body lim
    by (auto simp: e envelope_sel saturating_add_ge)
qed

definition sample_facts :: admission_facts where
  "sample_facts = \<lparr>ad_workflow_id = 1,
     ad_tasks = [\<lparr>tf_task_key = ''a'', tf_participant = Worker ''a'' 7, tf_contract_id = 5,
        tf_contract_version = 2, tf_may_message = [''b''], tf_max_messages_per_turn = 3,
        tf_current_snapshot = None\<rparr>],
     ad_now_ms = 100, ad_sent_this_turn = 0, ad_parent_depth = None, ad_parent_correlation = None\<rparr>"

definition sample_draft :: message_draft where
  "sample_draft = \<lparr>md_message_id = 8, md_kind = Question, md_to = ''supervisor'',
     md_claimed_sender = Some ''worker:a'', md_reply_to = None, md_contract_version = 2,
     md_source_refs = [], md_body = ''hi'', md_ttl_ms = 60\<rparr>"

theorem admitted_message_sound_witness:
  "\<exists>e. admit (\<lambda>_. 0) sample_draft (Worker ''a'' 7) sample_facts = Inr e \<and>
       mv_sender e = Worker ''a'' 7 \<and> set (mv_audience e) = {Supervisor}"
proof -
  have "sender_task_of sample_draft (Worker ''a'' 7) sample_facts = Inr (Some (hd (ad_tasks sample_facts)))"
    and r: "recipient_of sample_draft sample_facts = Inr (Supervisor, None)"
    and "check_sender_task sample_draft sample_facts Supervisor (hd (ad_tasks sample_facts)) = Inr ()"
    by (simp_all add: sender_task_of_def recipient_of_def check_sender_task_def sample_draft_def
        sample_facts_def worker_may_send_def)
  then obtain e where e: "admit (\<lambda>_. 0) sample_draft (Worker ''a'' 7) sample_facts = Inr e"
      "mv_recipient e = Supervisor"
    unfolding admit_Inr
    by (auto simp: envelope_sel message_depth_def)
       (auto simp: sample_draft_def sample_facts_def MAX_MESSAGE_BODY_BYTES_def MAX_SOURCE_REFS_def
        MAX_CORRELATION_DEPTH_def MAX_MESSAGE_TTL_MS_def whitespace1_def whitespace2_def)
  from admitted_message_sound [OF e(1)] e show ?thesis by auto
qed

text \<open>Delivery is honest over whole histories. A message is acknowledged only by its recipient and only
  after a delivery that was accepted before it expired; acknowledged and expired messages stay so, and
  a rejected one accepts nothing; and every accepted delivery happened before the expiry.\<close>

theorem delivery_histories_honest:
  assumes "run_events (message_transition env) MsgAdmitted evs = MsgAcknowledged"
  shows "Acknowledge (mv_recipient env) \<in> set (accepted_events (message_transition env) MsgAdmitted evs) \<and>
    (\<exists>now. Deliver now \<in> set (accepted_events (message_transition env) MsgAdmitted evs) \<and>
           now < mv_expires_at_ms env) \<and>
    (\<forall>who. Acknowledge who \<in> set (accepted_events (message_transition env) MsgAdmitted evs) \<longrightarrow>
           who = mv_recipient env) \<and>
    run_events (message_transition env) MsgAdmitted (evs @ later) = MsgAcknowledged \<and>
    run_events (message_transition env) MsgExpired later = MsgExpired \<and>
    accepted_events (message_transition env) MsgRejected later = []"
proof -
  let ?acc = "accepted_events (message_transition env) MsgAdmitted evs"
  obtain now where now: "Deliver now \<in> set ?acc" and ack: "Acknowledge (mv_recipient env) \<in> set ?acc"
    using delivered_before_acknowledged [OF assms] by auto
  have "now < mv_expires_at_ms env" using accepted_delivery_event [OF now] by simp
  moreover have "\<forall>who. Acknowledge who \<in> set ?acc \<longrightarrow> who = mv_recipient env"
    using accepted_delivery_event by fastforce
  moreover have "run_events (message_transition env) MsgAdmitted (evs @ later) = MsgAcknowledged"
    unfolding run_events_append assms by (rule acknowledged.run_inv) (rule refl)
  moreover have "run_events (message_transition env) MsgExpired later = MsgExpired"
    by (rule expired.run_inv) (rule refl)
  moreover have "accepted_events (message_transition env) MsgRejected later = []"
    by (rule rejected.accepted_ended) (rule refl)
  ultimately show ?thesis using now ack by blast
qed

theorem delivery_histories_honest_witness:
  "let env = make_envelope (\<lambda>_. 0) sample_draft (Worker ''a'' 7) sample_facts Supervisor None None in
   run_events (message_transition env) MsgAdmitted
     ([Acknowledge Supervisor, Deliver 120, Acknowledge Operator, Acknowledge Supervisor] @ [Expire 200])
   = MsgAcknowledged"
proof -
  let ?env = "make_envelope (\<lambda>_. 0) sample_draft (Worker ''a'' 7) sample_facts Supervisor None None"
  have "mv_recipient ?env = Supervisor" "mv_expires_at_ms ?env = 160"
    by (simp_all add: envelope_sel sample_draft_def sample_facts_def saturating_add_def)
  then have "run_events (message_transition ?env) MsgAdmitted
      [Acknowledge Supervisor, Deliver 120, Acknowledge Operator, Acknowledge Supervisor] = MsgAcknowledged"
    by (simp add: message_transition_def)
  from delivery_histories_honest [OF this] show ?thesis by (simp add: Let_def)
qed

text \<open>An inbox consumes each message once and in order. Whatever is offered, in whatever order and
  however often, the accepted offers carry exactly the sequence numbers after the starting point, one
  by one without gap or repetition, and distinct message identifiers; the cursor stands at the last
  accepted number and never wraps around.\<close>

theorem inbox_exactly_once_in_order:
  "map (unat \<circ> fst) (accepted_events inbox_step (starting_after s) es) =
     [Suc (unat s) ..< Suc (unat s + length (accepted_events inbox_step (starting_after s) es))] \<and>
   distinct (map snd (accepted_events inbox_step (starting_after s) es)) \<and>
   unat (ic_delivered_through (run_events inbox_step (starting_after s) es)) =
     unat s + length (accepted_events inbox_step (starting_after s) es)"
  using accepted_offers [of "starting_after s" es] by (simp add: starting_after_def)

end
