(* ===== verification/Supervisor.thy ===== *)
theory Supervisor
  imports Selection Workflow_Record Messages
begin

text \<open>
  The supervisor's typed tool surface, \<open>crates/vibemux_workflow/src/supervisor.rs\<close>: tools, proposals,
  \<open>validate_proposal\<close> against committed facts, the execution and observation records, and
  \<open>validate_runtime_proposal\<close>. A model proposes; these functions decide what may be executed. Strict
  JSON parsing (serde) is not modelled: a proposal is given as its value.

  The lemmas give each validator as an equivalence with a per-decision predicate, so that an accepted
  proposal is known to name only current versions, known tasks, eligible slots, gated candidates and
  the deterministic selection.
\<close>

section \<open>Tools and proposals\<close>

definition MAX_DECISIONS_PER_PROPOSAL :: nat where "MAX_DECISIONS_PER_PROPOSAL = 4"
definition MAX_RATIONALE_BYTES :: nat where "MAX_RATIONALE_BYTES = 1024"
definition MAX_IDEMPOTENCY_KEY_BYTES :: nat where "MAX_IDEMPOTENCY_KEY_BYTES = 128"

datatype supervisor_tool =
    InspectWorkflow
  | ListSlots
  | ReadArtifact digest
  | QueryContext spec_identifier
  | ProposePlan "spec_identifier list"
  | AssignTask spec_identifier spec_identifier              \<comment> \<open>task\_key, slot\_id\<close>
  | SendMessage spec_identifier string
  | ShareContext spec_identifier spec_identifier uuid       \<comment> \<open>from\_task, to\_task, request\<close>
  | RequestReview spec_identifier digest
  | RequestVerification spec_identifier digest
  | ProposeCandidateSelection "digest option"
  | ProposeIntegration "digest list"
  | PauseRun spec_identifier
  | RequestCancel "spec_identifier option"
  | RequestHandoff spec_identifier
  | ReportBlocked spec_identifier

fun tool_name :: "supervisor_tool \<Rightarrow> string" where
  "tool_name InspectWorkflow = ''inspect_workflow''"
| "tool_name ListSlots = ''list_slots''"
| "tool_name (ReadArtifact _) = ''read_artifact''"
| "tool_name (QueryContext _) = ''query_context''"
| "tool_name (ProposePlan _) = ''propose_plan''"
| "tool_name (AssignTask _ _) = ''assign_task''"
| "tool_name (SendMessage _ _) = ''send_message''"
| "tool_name (ShareContext _ _ _) = ''share_context''"
| "tool_name (RequestReview _ _) = ''request_review''"
| "tool_name (RequestVerification _ _) = ''request_verification''"
| "tool_name (ProposeCandidateSelection _) = ''propose_candidate_selection''"
| "tool_name (ProposeIntegration _) = ''propose_integration''"
| "tool_name (PauseRun _) = ''pause_run''"
| "tool_name (RequestCancel _) = ''request_cancel''"
| "tool_name (RequestHandoff _) = ''request_handoff''"
| "tool_name (ReportBlocked _) = ''report_blocked''"

fun is_read_only :: "supervisor_tool \<Rightarrow> bool" where
  "is_read_only InspectWorkflow = True"
| "is_read_only ListSlots = True"
| "is_read_only (ReadArtifact _) = True"
| "is_read_only (QueryContext _) = True"
| "is_read_only _ = False"

record supervisor_decision =
  sd_idempotency_key :: string
  sd_expected_workflow_version :: u64
  sd_action :: supervisor_tool

record supervisor_proposal =
  pr_decisions :: "supervisor_decision list"
  pr_rationale :: string
  pr_evidence_refs :: "string list"

text \<open>The derived order of the rejections is their declaration order.\<close>

fun rejection_rank :: "proposal_rejection \<Rightarrow> nat" where
  "rejection_rank Malformed = 0"
| "rejection_rank TooLarge = 1"
| "rejection_rank InvalidIdempotencyKey = 2"
| "rejection_rank StaleVersion = 3"
| "rejection_rank UnknownTask = 4"
| "rejection_rank IneligibleSlot = 5"
| "rejection_rank CandidateNotAccepted = 6"
| "rejection_rank SelectionMismatch = 7"
| "rejection_rank IntegrationNotApproved = 8"
| "rejection_rank BudgetExhausted = 9"
| "rejection_rank PhaseForbids = 10"
| "rejection_rank InvalidText = 11"
| "rejection_rank RationaleTooLarge = 12"

lemma rejection_rank_eq_iff [simp]: "rejection_rank x = rejection_rank y \<longleftrightarrow> x = y"
  by (cases x; cases y) auto

instantiation proposal_rejection :: linorder
begin

definition less_eq_proposal_rejection :: "proposal_rejection \<Rightarrow> proposal_rejection \<Rightarrow> bool" where
  "less_eq_proposal_rejection a b \<longleftrightarrow> rejection_rank a \<le> rejection_rank b"

definition less_proposal_rejection :: "proposal_rejection \<Rightarrow> proposal_rejection \<Rightarrow> bool" where
  "less_proposal_rejection a b \<longleftrightarrow> rejection_rank a < rejection_rank b"

instance
  by (standard; unfold less_eq_proposal_rejection_def less_proposal_rejection_def;
      (rule less_le_not_le order_refl linear | erule (1) order_trans
       | (drule (1) order_antisym, simp)))

end

record supervisor_facts =
  fa_workflow_version :: u64
  fa_admits_work :: bool
  fa_tasks :: "spec_identifier list"
  fa_eligible_slots :: "spec_identifier list"
  fa_accepted_candidates :: "(spec_identifier \<times> digest) list"
  fa_collected_candidates :: "(spec_identifier \<times> digest) list"
  fa_selection :: "selection_outcome option"

section \<open>Validation of a proposal\<close>

definition key_well_formed :: "string \<Rightarrow> bool" where
  "key_well_formed key \<longleftrightarrow>
     key \<noteq> [] \<and> length key \<le> MAX_IDEMPOTENCY_KEY_BYTES \<and> list_all key_byte key"

definition allowed_when_stopped :: "supervisor_tool \<Rightarrow> bool" where
  "allowed_when_stopped tool =
     (case tool of ReportBlocked _ \<Rightarrow> True | RequestCancel _ \<Rightarrow> True | _ \<Rightarrow> False)"

abbreviation known_task :: "supervisor_facts \<Rightarrow> spec_identifier \<Rightarrow> bool" where
  "known_task facts task \<equiv> task \<in> set (fa_tasks facts)"

definition candidate_known :: "supervisor_facts \<Rightarrow> spec_identifier \<Rightarrow> digest \<Rightarrow> bool" where
  "candidate_known facts task_key candidate_digest \<longleftrightarrow>
     list_ex (\<lambda>(task, dig). task = task_key \<and> dig = candidate_digest)
       (fa_collected_candidates facts @ fa_accepted_candidates facts)"

fun tool_rejections :: "supervisor_facts \<Rightarrow> supervisor_tool \<Rightarrow> proposal_rejection list" where
  "tool_rejections facts (AssignTask task_key slot_id) =
     (if \<not> known_task facts task_key then [UnknownTask] else []) @
     (if slot_id \<notin> set (fa_eligible_slots facts) then [IneligibleSlot] else [])"
| "tool_rejections facts (QueryContext task_key) =
     (if \<not> known_task facts task_key then [UnknownTask] else [])"
| "tool_rejections facts (PauseRun task_key) =
     (if \<not> known_task facts task_key then [UnknownTask] else [])"
| "tool_rejections facts (RequestHandoff task_key) =
     (if \<not> known_task facts task_key then [UnknownTask] else [])"
| "tool_rejections facts (ProposePlan tasks) =
     (if list_ex (\<lambda>task. \<not> known_task facts task) tasks then [UnknownTask] else [])"
| "tool_rejections facts (ShareContext from_task to_task _) =
     (if \<not> known_task facts from_task \<or> \<not> known_task facts to_task \<or> from_task = to_task
      then [UnknownTask] else [])"
| "tool_rejections facts (SendMessage recipient txt) =
     (if \<not> known_task facts recipient then [UnknownTask] else []) @
     (if trim_is_empty txt \<or> length txt > MAX_MESSAGE_BODY_BYTES \<or> CHR 0x00 \<in> set txt
      then [InvalidText] else [])"
| "tool_rejections facts (RequestReview task_key candidate_digest) =
     (if \<not> candidate_known facts task_key candidate_digest then [CandidateNotAccepted] else [])"
| "tool_rejections facts (RequestVerification task_key candidate_digest) =
     (if \<not> candidate_known facts task_key candidate_digest then [CandidateNotAccepted] else [])"
| "tool_rejections facts (ProposeCandidateSelection candidate_digest) =
     (if map_option so_winner (fa_selection facts) \<noteq> Some candidate_digest
      then [SelectionMismatch] else [])"
| "tool_rejections facts (ProposeIntegration candidate_digests) =
     (if \<not> (candidate_digests \<noteq> [] \<and>
             list_all (\<lambda>d. list_ex (\<lambda>(_, accepted). accepted = d) (fa_accepted_candidates facts))
               candidate_digests)
      then [IntegrationNotApproved] else [])"
| "tool_rejections facts (RequestCancel (Some task_key)) =
     (if \<not> known_task facts task_key then [UnknownTask] else [])"
| "tool_rejections facts _ = []"

text \<open>One iteration of the loop: the set of keys seen so far, and the rejections. The key is inserted
  only when the tests before it in the disjunction pass.\<close>

definition check_decision ::
  "supervisor_facts \<Rightarrow> supervisor_decision \<Rightarrow> string list \<times> proposal_rejection list \<Rightarrow>
   string list \<times> proposal_rejection list" where
  "check_decision facts decision st =
     (case st of (keys, rejections) \<Rightarrow>
      let key = sd_idempotency_key decision;
          fresh = (key_well_formed key \<and> key \<notin> set keys);
          action = sd_action decision
      in (if key_well_formed key then key # keys else keys,
          rejections @
          (if \<not> fresh then [InvalidIdempotencyKey] else []) @
          (if sd_expected_workflow_version decision \<noteq> fa_workflow_version facts
           then [StaleVersion] else []) @
          (if \<not> is_read_only action \<and> \<not> fa_admits_work facts \<and> \<not> allowed_when_stopped action
           then [PhaseForbids] else []) @
          tool_rejections facts action))"

definition validate_proposal ::
  "supervisor_proposal \<Rightarrow> supervisor_facts \<Rightarrow> proposal_rejection list + unit" where
  "validate_proposal proposal facts =
     (let rejections = snd (fold (check_decision facts) (pr_decisions proposal) ([], []))
      in if rejections = [] then Inr () else Inl (sort_dedup rejections))"

section \<open>The running supervisor\<close>

datatype supervisor_mode = Deterministic | ModelDriven

datatype supervisor_execution_state = ExecRunning | ExecStopped | RecoveryRequired

datatype supervisor_task_gate = GateActive | GatePaused | GateCancelled

record supervisor_task_binding =
  tb_contract_id :: digest
  tb_contract_version :: u32
  tb_allowed_slots :: "spec_identifier list"
  tb_dependencies :: "spec_identifier list"

record supervisor_execution =
  xe_workflow_id :: uuid
  xe_generation :: u64
  xe_start_request_id :: uuid
  xe_mode :: supervisor_mode
  xe_state :: supervisor_execution_state
  xe_plan_digest :: digest
  xe_config_digest :: digest
  xe_tasks :: "(spec_identifier \<times> supervisor_task_binding) list"
  xe_slot_harnesses :: "(spec_identifier \<times> agent_kind) list"
  xe_reviewer_slot :: spec_identifier
  xe_task_order :: "spec_identifier list"
  xe_task_gates :: "(spec_identifier \<times> supervisor_task_gate) list"
  xe_next_round :: u64
  xe_max_model_calls :: u32
  xe_deadline_unix_ms :: u64
  xe_active_round :: "uuid option"

record supervisor_candidate =
  sc_candidate :: candidate_record
  sc_request_id :: uuid
  sc_reviewed :: bool
  sc_verified :: bool
  sc_gate_passed :: bool
  sc_tests_passed :: u32
  sc_changed_bytes :: u64

datatype supervisor_round_state = RoundReserved | RoundAccepted | RoundRejected | RoundUnknown

record supervisor_round =
  ro_round_id :: uuid
  ro_workflow_id :: uuid
  ro_generation :: u64
  ro_call_id :: uuid
  ro_observed_version :: u64
  ro_reservation_version :: u64
  ro_observation_digest :: digest
  ro_target_digest :: digest
  ro_context_digest :: digest
  ro_state :: supervisor_round_state
  ro_proposal_digest :: "digest option"
  ro_rationale_digest :: "digest option"
  ro_rejection_codes :: "string list"

datatype supervisor_action_state = ActPending | ActClaimed | ActApplied | ActBlocked | ActUnknown

record supervisor_message_binding =
  mb_body_sha256 :: digest
  mb_body_bytes :: u64

definition binding_for_text :: "(string \<Rightarrow> digest) \<Rightarrow> string \<Rightarrow> supervisor_message_binding" where
  "binding_for_text sha256 txt =
     \<lparr>mb_body_sha256 = sha256 txt, mb_body_bytes = of_nat (length txt)\<rparr>"

record supervisor_action =
  ac_action_id :: uuid
  ac_workflow_id :: uuid
  ac_generation :: u64
  ac_round_id :: uuid
  ac_idempotency_key :: string
  ac_fingerprint :: digest
  ac_action :: supervisor_tool
  ac_message_body :: "supervisor_message_binding option"
  ac_state :: supervisor_action_state
  ac_dispatch_request_id :: "uuid option"
  ac_result_refs :: "uuid list"
  ac_result_code :: "spec_identifier option"

record supervisor_observation =
  sv_execution :: supervisor_execution
  sv_workflow :: workflow_record
  sv_event_cursor :: u64
  sv_eligible_slots :: "(spec_identifier \<times> spec_identifier list) list"
  sv_candidates :: "supervisor_candidate list"
  sv_selection :: "selection_outcome option"
  sv_last_round :: "supervisor_round option"
  sv_last_actions :: "supervisor_action list"

text \<open>What \<open>target_digest\<close> hashes: the observation with the round's own bookkeeping removed.\<close>

record supervisor_targets =
  tg_execution :: supervisor_execution
  tg_workflow :: workflow_record
  tg_eligible_slots :: "(spec_identifier \<times> spec_identifier list) list"
  tg_candidates :: "supervisor_candidate list"
  tg_selection :: "selection_outcome option"
  tg_last_actions :: "supervisor_action list"

definition supervisor_targets_of :: "supervisor_observation \<Rightarrow> supervisor_targets" where
  "supervisor_targets_of self =
     \<lparr>tg_execution = (sv_execution self)\<lparr>xe_active_round := None, xe_next_round := 0\<rparr>,
      tg_workflow = (sv_workflow self)\<lparr>wr_updated_at_ms := 0\<rparr>,
      tg_eligible_slots = sv_eligible_slots self, tg_candidates = sv_candidates self,
      tg_selection = sv_selection self, tg_last_actions = sv_last_actions self\<rparr>"

definition target_digest ::
  "(supervisor_targets \<Rightarrow> 'err + digest) \<Rightarrow> supervisor_observation \<Rightarrow> 'err + digest" where
  "target_digest canonical_digest self = canonical_digest (supervisor_targets_of self)"

definition runtime_tool_supported :: "supervisor_tool \<Rightarrow> bool" where
  "runtime_tool_supported tool = (case tool of RequestHandoff _ \<Rightarrow> False | _ \<Rightarrow> True)"

section \<open>Validation at run time\<close>

definition facts_of_observation :: "supervisor_observation \<Rightarrow> supervisor_facts" where
  "facts_of_observation observation =
     \<lparr>fa_workflow_version = wr_version (sv_workflow observation),
      fa_admits_work = admits_work (wr_phase (sv_workflow observation)),
      fa_tasks = map fst (xe_tasks (sv_execution observation)),
      fa_eligible_slots = concat (map snd (sv_eligible_slots observation)),
      fa_accepted_candidates = map (\<lambda>c. (cr_task_key (sc_candidate c), cr_candidate_digest (sc_candidate c)))
        (filter sc_gate_passed (sv_candidates observation)),
      fa_collected_candidates = map (\<lambda>c. (cr_task_key (sc_candidate c), cr_candidate_digest (sc_candidate c)))
        (sv_candidates observation),
      fa_selection = sv_selection observation\<rparr>"

text \<open>The task a decision is about, if it is about one.\<close>

fun tool_target :: "supervisor_tool \<Rightarrow> spec_identifier option" where
  "tool_target (AssignTask task_key _) = Some task_key"
| "tool_target (RequestReview task_key _) = Some task_key"
| "tool_target (RequestVerification task_key _) = Some task_key"
| "tool_target (QueryContext task_key) = Some task_key"
| "tool_target (PauseRun task_key) = Some task_key"
| "tool_target (RequestCancel (Some task_key)) = Some task_key"
| "tool_target (SendMessage recipient _) = Some recipient"
| "tool_target (ShareContext _ to_task _) = Some to_task"
| "tool_target _ = None"

definition assign_codes ::
  "supervisor_observation \<Rightarrow> spec_identifier \<Rightarrow> spec_identifier \<Rightarrow> string list" where
  "assign_codes observation task_key slot_id =
     (if \<not> (case map_of (sv_eligible_slots observation) task_key of None \<Rightarrow> False
             | Some slots \<Rightarrow> slot_id \<in> set slots)
      then [''supervisor_ineligible_slot''] else []) @
     (if (case workflow_task_of (sv_workflow observation) task_key of None \<Rightarrow> True
          | Some task \<Rightarrow> wt_progress task = ProgAccepted \<or> wt_progress task = ProgFailed
                        \<or> wt_turns_used task \<ge> wt_max_turns task)
      then [''supervisor_task_not_active''] else []) @
     (if (case map_of (xe_tasks (sv_execution observation)) task_key of None \<Rightarrow> False
          | Some binding \<Rightarrow>
              list_ex (\<lambda>dependency.
                 case workflow_task_of (sv_workflow observation) dependency of None \<Rightarrow> True
                 | Some task \<Rightarrow> wt_accepted_candidate task = None) (tb_dependencies binding))
      then [''supervisor_dependencies_unready''] else [])"

definition is_request_cancel :: "supervisor_tool \<Rightarrow> bool" where
  "is_request_cancel tool = (case tool of RequestCancel _ \<Rightarrow> True | _ \<Rightarrow> False)"

definition target_codes ::
  "supervisor_observation \<Rightarrow> supervisor_tool \<Rightarrow> spec_identifier list \<Rightarrow> string list" where
  "target_codes observation action targeted =
     (case tool_target action of None \<Rightarrow> []
      | Some task \<Rightarrow>
          (if task \<in> set targeted then [''supervisor_conflicting_actions''] else []) @
          (if map_of (xe_task_gates (sv_execution observation)) task \<noteq> Some GateActive
              \<and> \<not> is_request_cancel action
           then [''supervisor_task_not_active''] else []))"

definition plan_positions :: "spec_identifier list \<Rightarrow> (spec_identifier \<times> nat) list" where
  "plan_positions order = btree_collect (zip order [0..<length order])"

definition plan_codes :: "supervisor_observation \<Rightarrow> spec_identifier list \<Rightarrow> string list" where
  "plan_codes observation order =
     (let tasks = map fst (xe_tasks (sv_execution observation));
          positions = plan_positions order
      in if length order \<noteq> length tasks \<or> length positions \<noteq> length tasks
            \<or> list_ex (\<lambda>task. map_of positions task = None) tasks
            \<or> list_ex (\<lambda>(task, binding). list_ex (\<lambda>dependency.
                 case (map_of positions dependency, map_of positions task) of
                   (Some before, Some after) \<Rightarrow> before \<ge> after | _ \<Rightarrow> True) (tb_dependencies binding))
                (xe_tasks (sv_execution observation))
         then [''supervisor_plan_invalid''] else [])"

definition expected_integration :: "supervisor_observation \<Rightarrow> digest list" where
  "expected_integration observation =
     (if wr_mode (sv_workflow observation) = Compare
      then (case sv_selection observation of None \<Rightarrow> []
            | Some sel \<Rightarrow> (case so_winner sel of None \<Rightarrow> [] | Some d \<Rightarrow> [d]))
      else List.map_filter wt_accepted_candidate (wr_tasks (sv_workflow observation)))"

definition integration_codes :: "supervisor_observation \<Rightarrow> digest list \<Rightarrow> string list" where
  "integration_codes observation candidate_digests =
     (let unique = sort_dedup candidate_digests;
          expected = sort_dedup (expected_integration observation);
          all_tasks_ready = list_all (\<lambda>task. wt_accepted_candidate task \<noteq> None \<and>
             map_of (xe_task_gates (sv_execution observation)) (wt_task_key task) = Some GateActive)
             (wr_tasks (sv_workflow observation))
      in if length unique \<noteq> length candidate_digests \<or> unique = [] \<or> unique \<noteq> expected
            \<or> \<not> all_tasks_ready
         then [''supervisor_integration_not_approved''] else [])"

fun stands_alone :: "supervisor_tool \<Rightarrow> bool" where
  "stands_alone (ProposePlan _) = True"
| "stands_alone (ProposeIntegration _) = True"
| "stands_alone (ProposeCandidateSelection _) = True"
| "stands_alone (RequestCancel None) = True"
| "stands_alone (ReportBlocked _) = True"
| "stands_alone _ = False"

definition check_runtime_decision ::
  "supervisor_observation \<Rightarrow> nat \<Rightarrow> supervisor_decision \<Rightarrow> spec_identifier list \<times> string list \<Rightarrow>
   spec_identifier list \<times> string list" where
  "check_runtime_decision observation decisions decision st =
     (case st of (targeted, codes) \<Rightarrow>
      let action = sd_action decision in
      (case tool_target action of None \<Rightarrow> targeted | Some task \<Rightarrow> task # targeted,
       codes @
       (if \<not> runtime_tool_supported action then [''supervisor_tool_unavailable''] else []) @
       (case action of AssignTask task_key slot_id \<Rightarrow> assign_codes observation task_key slot_id
        | _ \<Rightarrow> []) @
       target_codes observation action targeted @
       (case action of ProposePlan order \<Rightarrow> plan_codes observation order
        | ProposeIntegration candidate_digests \<Rightarrow> integration_codes observation candidate_digests
        | _ \<Rightarrow> []) @
       (if decisions > 1 \<and> stands_alone action then [''supervisor_conflicting_actions''] else [])))"

definition validate_runtime_proposal ::
  "supervisor_proposal \<Rightarrow> supervisor_observation \<Rightarrow> string list + unit" where
  "validate_runtime_proposal proposal observation =
     (let decisions = pr_decisions proposal;
          rejected = (case validate_proposal proposal (facts_of_observation observation) of
             Inl rejections \<Rightarrow> map proposal_rejection_code rejections | Inr _ \<Rightarrow> []);
          size_codes = (if decisions = [] \<or> length decisions > MAX_DECISIONS_PER_PROPOSAL
               \<or> length (pr_rationale proposal) > MAX_RATIONALE_BYTES
               \<or> length (pr_evidence_refs proposal) > 16
             then [''supervisor_proposal_too_large''] else []);
          codes = snd (fold (check_runtime_decision observation (length decisions)) decisions
                         ([], rejected @ size_codes))
      in if codes = [] then Inr () else Inl (sort_dedup codes))"

section \<open>What an accepted proposal guarantees\<close>

definition decision_ok :: "supervisor_facts \<Rightarrow> supervisor_decision \<Rightarrow> bool" where
  "decision_ok facts d \<longleftrightarrow> key_well_formed (sd_idempotency_key d) \<and>
     sd_expected_workflow_version d = fa_workflow_version facts \<and>
     (is_read_only (sd_action d) \<or> fa_admits_work facts \<or> allowed_when_stopped (sd_action d)) \<and>
     tool_rejections facts (sd_action d) = []"

lemma check_decisions_Nil_iff:
  "snd (fold (check_decision facts) ds (keys, rej)) = [] \<longleftrightarrow>
     rej = [] \<and> (\<forall>d \<in> set ds. decision_ok facts d) \<and>
     distinct (map sd_idempotency_key ds) \<and> set (map sd_idempotency_key ds) \<inter> set keys = {}"
proof (induction ds arbitrary: keys rej)
  case (Cons d ds)
  let ?k = "if key_well_formed (sd_idempotency_key d) then sd_idempotency_key d # keys else keys"
  obtain rej' where st: "check_decision facts d (keys, rej) = (?k, rej')"
    and rej': "rej' = [] \<longleftrightarrow> rej = [] \<and> decision_ok facts d \<and> sd_idempotency_key d \<notin> set keys"
    by (auto simp: check_decision_def Let_def decision_ok_def)
  show ?case
  proof (cases "decision_ok facts d")
    case True
    then have "key_well_formed (sd_idempotency_key d)" by (simp add: decision_ok_def)
    with True st rej' Cons.IH [of ?k rej'] show ?thesis by auto
  qed (use st rej' Cons.IH [of ?k rej'] in auto)
qed simp

lemma validate_proposal_iff:
  "validate_proposal p facts = Inr () \<longleftrightarrow>
     (\<forall>d \<in> set (pr_decisions p). decision_ok facts d) \<and>
     distinct (map sd_idempotency_key (pr_decisions p))"
  by (simp add: validate_proposal_def Let_def check_decisions_Nil_iff)

definition runtime_ok :: "supervisor_observation \<Rightarrow> nat \<Rightarrow> supervisor_decision \<Rightarrow> bool" where
  "runtime_ok ob n d \<longleftrightarrow> runtime_tool_supported (sd_action d) \<and>
     (case sd_action d of AssignTask t s \<Rightarrow> assign_codes ob t s = [] | _ \<Rightarrow> True) \<and>
     (case sd_action d of ProposePlan order \<Rightarrow> plan_codes ob order = []
      | ProposeIntegration ds \<Rightarrow> integration_codes ob ds = [] | _ \<Rightarrow> True) \<and>
     (\<forall>t. tool_target (sd_action d) = Some t \<and> \<not> is_request_cancel (sd_action d) \<longrightarrow>
        map_of (xe_task_gates (sv_execution ob)) t = Some GateActive) \<and>
     (stands_alone (sd_action d) \<longrightarrow> n \<le> 1)"

lemma check_runtime_decision_step:
  "check_runtime_decision ob n d (targeted, codes) =
     (case tool_target (sd_action d) of None \<Rightarrow> targeted | Some t \<Rightarrow> t # targeted,
      snd (check_runtime_decision ob n d (targeted, codes))) \<and>
   (snd (check_runtime_decision ob n d (targeted, codes)) = [] \<longleftrightarrow>
      codes = [] \<and> runtime_ok ob n d \<and>
      (\<forall>t. tool_target (sd_action d) = Some t \<longrightarrow> t \<notin> set targeted))"
  by (cases "tool_target (sd_action d)"; cases "sd_action d")
     (auto simp: check_runtime_decision_def Let_def runtime_ok_def target_codes_def)

lemma check_runtime_decisions_Nil_iff:
  "snd (fold (check_runtime_decision ob n) ds (targeted, codes)) = [] \<longleftrightarrow>
     codes = [] \<and> (\<forall>d \<in> set ds. runtime_ok ob n d) \<and>
     distinct (List.map_filter (tool_target \<circ> sd_action) ds) \<and>
     set (List.map_filter (tool_target \<circ> sd_action) ds) \<inter> set targeted = {}"
proof (induction ds arbitrary: targeted codes)
  case (Cons d ds)
  obtain ts cs where st: "check_runtime_decision ob n d (targeted, codes) = (ts, cs)"
    by (cases "check_runtime_decision ob n d (targeted, codes)")
  with check_runtime_decision_step [of ob n d targeted codes]
  have ts: "ts = (case tool_target (sd_action d) of None \<Rightarrow> targeted | Some t \<Rightarrow> t # targeted)"
    and cs: "cs = [] \<longleftrightarrow> codes = [] \<and> runtime_ok ob n d \<and>
      (\<forall>t. tool_target (sd_action d) = Some t \<longrightarrow> t \<notin> set targeted)" by simp_all
  show ?case
    using st ts cs Cons.IH [of ts cs]
    by (cases "tool_target (sd_action d)") (auto simp: map_filter_simps)
qed (simp add: map_filter_simps)

subsection \<open>Authorized tools\<close>

fun tool_authorized :: "supervisor_facts \<Rightarrow> supervisor_tool \<Rightarrow> bool" where
  "tool_authorized f (AssignTask t s) \<longleftrightarrow> t \<in> set (fa_tasks f) \<and> s \<in> set (fa_eligible_slots f)"
| "tool_authorized f (QueryContext t) \<longleftrightarrow> t \<in> set (fa_tasks f)"
| "tool_authorized f (PauseRun t) \<longleftrightarrow> t \<in> set (fa_tasks f)"
| "tool_authorized f (RequestHandoff t) \<longleftrightarrow> t \<in> set (fa_tasks f)"
| "tool_authorized f (RequestCancel t) \<longleftrightarrow> set_option t \<subseteq> set (fa_tasks f)"
| "tool_authorized f (ProposePlan ts) \<longleftrightarrow> set ts \<subseteq> set (fa_tasks f)"
| "tool_authorized f (ShareContext s t _) \<longleftrightarrow> s \<noteq> t \<and> {s, t} \<subseteq> set (fa_tasks f)"
| "tool_authorized f (SendMessage t txt) \<longleftrightarrow> t \<in> set (fa_tasks f) \<and> \<not> trim_is_empty txt \<and>
     length txt \<le> 4096 \<and> CHR 0x00 \<notin> set txt"
| "tool_authorized f (RequestReview t d) \<longleftrightarrow>
     (t, d) \<in> set (fa_collected_candidates f) \<union> set (fa_accepted_candidates f)"
| "tool_authorized f (RequestVerification t d) \<longleftrightarrow>
     (t, d) \<in> set (fa_collected_candidates f) \<union> set (fa_accepted_candidates f)"
| "tool_authorized f (ProposeCandidateSelection d) \<longleftrightarrow>
     (\<exists>sel. fa_selection f = Some sel \<and> so_winner sel = d)"
| "tool_authorized f (ProposeIntegration ds) \<longleftrightarrow>
     ds \<noteq> [] \<and> set ds \<subseteq> snd ` set (fa_accepted_candidates f)"
| "tool_authorized f _ \<longleftrightarrow> True"

lemma tool_rejections_Nil_iff: "tool_rejections f tool = [] \<longleftrightarrow> tool_authorized f tool"
proof (cases tool)
  case (RequestCancel t)
  then show ?thesis by (cases t) auto
next
  case (ProposeIntegration ds)
  then show ?thesis by (force simp: list_all_iff list_ex_iff)
qed (auto simp: list_ex_iff candidate_known_def MAX_MESSAGE_BODY_BYTES_def)

subsection \<open>Plans\<close>

lemma set_plan_positions: "fst ` set (plan_positions order) = set order"
proof -
  have "dom (map_of (plan_positions order)) = set order"
    by (simp add: plan_positions_def dom_map_of_conv_image_fst set_zip image_Collect)
       (force simp: in_set_conv_nth)
  then show ?thesis by (simp add: dom_map_of_conv_image_fst)
qed

lemma length_plan_positions: "length (plan_positions order) = card (set order)"
proof -
  have "distinct (map fst (plan_positions order))"
    by (rule btree_distinct) (simp add: plan_positions_def)
  then have "length (plan_positions order) = card (set (map fst (plan_positions order)))"
    by (metis distinct_card length_map)
  then show ?thesis by (simp add: set_plan_positions)
qed

lemma map_of_plan_positions:
  assumes "map_of (plan_positions order) t = Some i"
  shows "i < length order \<and> order ! i = t"
proof -
  have "(t, i) \<in> set (rev (zip order [0..<length order]))"
    using assms unfolding plan_positions_def by (auto dest: map_of_SomeD)
  then show ?thesis by (auto simp: set_zip)
qed

definition plan_respects :: "supervisor_observation \<Rightarrow> spec_identifier list \<Rightarrow> bool" where
  "plan_respects ob order \<longleftrightarrow> distinct order \<and> set order = fst ` set (xe_tasks (sv_execution ob)) \<and>
     (\<forall>(t, b) \<in> set (xe_tasks (sv_execution ob)). \<forall>dep \<in> set (tb_dependencies b).
        \<exists>i j. i < j \<and> j < length order \<and> order ! i = dep \<and> order ! j = t)"

lemma plan_codes_sound:
  assumes "plan_codes ob order = []" "distinct (map fst (xe_tasks (sv_execution ob)))"
  shows "plan_respects ob order"
proof -
  let ?tasks = "map fst (xe_tasks (sv_execution ob))" and ?p = "plan_positions order"
  have len: "length order = length ?tasks" "card (set order) = length ?tasks"
    and all: "\<forall>t \<in> set ?tasks. map_of ?p t \<noteq> None"
    and deps: "\<forall>(t, b) \<in> set (xe_tasks (sv_execution ob)). \<forall>dep \<in> set (tb_dependencies b).
        \<exists>i j. map_of ?p dep = Some i \<and> map_of ?p t = Some j \<and> i < j"
    using assms(1)
    by (auto simp: plan_codes_def Let_def length_plan_positions list_ex_iff not_le
        split: if_splits option.splits)
  have dis: "distinct order" using len by (simp add: card_distinct)
  have sub: "set ?tasks \<subseteq> set order"
    using all set_plan_positions [of order] by (auto simp: map_of_eq_None_iff)
  have "card (set ?tasks) = card (set order)"
    using len(2) distinct_card [OF assms(2)] by simp
  then have "set ?tasks = set order"
    by (rule card_subset_eq [OF finite_set sub])
  moreover have "\<exists>i j. i < j \<and> j < length order \<and> order ! i = dep \<and> order ! j = t"
    if tb: "(t, b) \<in> set (xe_tasks (sv_execution ob))" "dep \<in> set (tb_dependencies b)" for t b dep
  proof -
    obtain i j where "map_of ?p dep = Some i" "map_of ?p t = Some j" "i < j"
      using bspec [OF deps tb(1)] tb(2) by auto
    with map_of_plan_positions [of order dep i] map_of_plan_positions [of order t j]
    show ?thesis by blast
  qed
  ultimately show ?thesis using dis by (auto simp: plan_respects_def)
qed

subsection \<open>Integration\<close>

definition integration_due :: "supervisor_observation \<Rightarrow> digest list \<Rightarrow> bool" where
  "integration_due ob ds \<longleftrightarrow> ds \<noteq> [] \<and> distinct ds \<and> set ds = set (expected_integration ob) \<and>
     (\<forall>t \<in> set (wr_tasks (sv_workflow ob)). wt_accepted_candidate t \<noteq> None \<and>
        map_of (xe_task_gates (sv_execution ob)) (wt_task_key t) = Some GateActive)"

lemma integration_codes_Nil_iff: "integration_codes ob ds = [] \<longleftrightarrow> integration_due ob ds"
  unfolding integration_codes_def Let_def integration_due_def length_sort_dedup_eq_iff
    sort_dedup_eq_iff sort_dedup_Nil_iff list_all_iff
  by simp

subsection \<open>Assignment\<close>

definition assignable :: "supervisor_observation \<Rightarrow> spec_identifier \<Rightarrow> spec_identifier \<Rightarrow> bool" where
  "assignable ob t s \<longleftrightarrow>
     (\<exists>slots. map_of (sv_eligible_slots ob) t = Some slots \<and> s \<in> set slots) \<and>
     (\<exists>w. workflow_task_of (sv_workflow ob) t = Some w \<and> wt_progress w \<notin> {ProgAccepted, ProgFailed} \<and>
          wt_turns_used w < wt_max_turns w) \<and>
     (\<forall>b. map_of (xe_tasks (sv_execution ob)) t = Some b \<longrightarrow>
        (\<forall>dep \<in> set (tb_dependencies b). \<exists>w. workflow_task_of (sv_workflow ob) dep = Some w \<and>
           wt_accepted_candidate w \<noteq> None))"

lemma assign_codes_Nil_iff: "assign_codes ob t s = [] \<longleftrightarrow> assignable ob t s"
proof -
  have slots: "(case map_of (sv_eligible_slots ob) t of None \<Rightarrow> False | Some slots \<Rightarrow> s \<in> set slots) \<longleftrightarrow>
      (\<exists>slots. map_of (sv_eligible_slots ob) t = Some slots \<and> s \<in> set slots)"
    by (simp split: option.splits)
  have task: "(case workflow_task_of (sv_workflow ob) t of None \<Rightarrow> True
      | Some task \<Rightarrow> wt_progress task = ProgAccepted \<or> wt_progress task = ProgFailed
                    \<or> wt_turns_used task \<ge> wt_max_turns task) \<longleftrightarrow>
      \<not> (\<exists>w. workflow_task_of (sv_workflow ob) t = Some w \<and>
           wt_progress w \<notin> {ProgAccepted, ProgFailed} \<and> wt_turns_used w < wt_max_turns w)"
    by (auto simp: not_le split: option.splits)
  have dep: "(case workflow_task_of (sv_workflow ob) dep of None \<Rightarrow> True
      | Some task \<Rightarrow> wt_accepted_candidate task = None) \<longleftrightarrow>
      \<not> (\<exists>w. workflow_task_of (sv_workflow ob) dep = Some w \<and> wt_accepted_candidate w \<noteq> None)" for dep
    by (simp split: option.splits)
  show ?thesis
    unfolding assign_codes_def slots task dep assignable_def
    by (cases "map_of (xe_tasks (sv_execution ob)) t") (simp_all add: list_ex_iff)
qed

lemma validate_runtime_proposal_iff:
  "validate_runtime_proposal p ob = Inr () \<longleftrightarrow>
     validate_proposal p (facts_of_observation ob) = Inr () \<and>
     pr_decisions p \<noteq> [] \<and> length (pr_decisions p) \<le> MAX_DECISIONS_PER_PROPOSAL \<and>
     length (pr_rationale p) \<le> MAX_RATIONALE_BYTES \<and> length (pr_evidence_refs p) \<le> 16 \<and>
     (\<forall>d \<in> set (pr_decisions p). runtime_ok ob (length (pr_decisions p)) d) \<and>
     distinct (List.map_filter (tool_target \<circ> sd_action) (pr_decisions p))"
proof -
  have rej: "(case validate_proposal p f of Inl r \<Rightarrow> map proposal_rejection_code r | Inr _ \<Rightarrow> []) = [] \<longleftrightarrow>
      validate_proposal p f = Inr ()" for f
    by (auto simp: validate_proposal_def Let_def)
  show ?thesis
    by (auto simp: validate_runtime_proposal_def Let_def check_runtime_decisions_Nil_iff rej not_less
        split: if_splits)
qed

section \<open>Properties\<close>

text \<open>The model proposes, the runtime authorizes. A proposal is accepted if and only if every decision
  has a well-formed idempotency key that no other decision has, names the current workflow version, is
  allowed in the workflow's phase, and uses a tool that is authorized by the committed facts: only
  known tasks, eligible slots, collected candidates for review, exactly the deterministic selection,
  and only gated candidates for integration. A refusal is a non-empty sorted list of reasons.\<close>

theorem proposal_authorized_exactly:
  "(validate_proposal p facts = Inr () \<longleftrightarrow>
     (\<forall>d \<in> set (pr_decisions p). key_well_formed (sd_idempotency_key d) \<and>
        sd_expected_workflow_version d = fa_workflow_version facts \<and>
        (is_read_only (sd_action d) \<or> fa_admits_work facts \<or> allowed_when_stopped (sd_action d)) \<and>
        tool_authorized facts (sd_action d)) \<and>
     distinct (map sd_idempotency_key (pr_decisions p))) \<and>
   (\<forall>rs. validate_proposal p facts = Inl rs \<longrightarrow> rs \<noteq> [] \<and> sorted rs \<and> distinct rs)"
  unfolding validate_proposal_iff decision_ok_def tool_rejections_Nil_iff
  by (auto simp: validate_proposal_def Let_def split: if_splits)

definition sample_supervisor_facts :: supervisor_facts where
  "sample_supervisor_facts = \<lparr>fa_workflow_version = 3, fa_admits_work = True, fa_tasks = [''a''],
     fa_eligible_slots = [''s1''], fa_accepted_candidates = [], fa_collected_candidates = [],
     fa_selection = None\<rparr>"

definition sample_proposal :: "u64 \<Rightarrow> supervisor_tool \<Rightarrow> supervisor_proposal" where
  "sample_proposal version tool = \<lparr>pr_decisions = [\<lparr>sd_idempotency_key = ''k1'',
     sd_expected_workflow_version = version, sd_action = tool\<rparr>], pr_rationale = [],
     pr_evidence_refs = []\<rparr>"

lemma sample_key_well_formed: "key_well_formed ''k1''"
  by (simp add: key_well_formed_def MAX_IDEMPOTENCY_KEY_BYTES_def key_byte_def ascii_defs)

theorem proposal_authorized_exactly_witness:
  "validate_proposal (sample_proposal 3 (AssignTask ''a'' ''s1'')) sample_supervisor_facts = Inr () \<and>
   validate_proposal (sample_proposal 3 (ProposeIntegration [7])) sample_supervisor_facts \<noteq> Inr ()"
proof
  show "validate_proposal (sample_proposal 3 (AssignTask ''a'' ''s1'')) sample_supervisor_facts = Inr ()"
    using proposal_authorized_exactly
      [of "sample_proposal 3 (AssignTask ''a'' ''s1'')" sample_supervisor_facts]
    by (simp add: sample_proposal_def sample_supervisor_facts_def sample_key_well_formed)
  show "validate_proposal (sample_proposal 3 (ProposeIntegration [7])) sample_supervisor_facts \<noteq> Inr ()"
    using proposal_authorized_exactly
      [of "sample_proposal 3 (ProposeIntegration [7])" sample_supervisor_facts]
    by (simp add: sample_proposal_def sample_supervisor_facts_def)
qed


definition sample_observation :: supervisor_observation where
  "sample_observation = \<lparr>
     sv_execution = \<lparr>xe_workflow_id = 1, xe_generation = 1, xe_start_request_id = 2,
       xe_mode = ModelDriven, xe_state = ExecRunning, xe_plan_digest = 3, xe_config_digest = 4,
       xe_tasks = [(''a'', \<lparr>tb_contract_id = 1, tb_contract_version = 1, tb_allowed_slots = [''s1''],
          tb_dependencies = []\<rparr>)],
       xe_slot_harnesses = [], xe_reviewer_slot = ''r'', xe_task_order = [''a''],
       xe_task_gates = [(''a'', GateActive)], xe_next_round = 1, xe_max_model_calls = 5,
       xe_deadline_unix_ms = 99, xe_active_round = None\<rparr>,
     sv_workflow = sample_workflow, sv_event_cursor = 0,
     sv_eligible_slots = [(''a'', [''s1''])], sv_candidates = [], sv_selection = None,
     sv_last_round = None, sv_last_actions = []\<rparr>"


end
