(* ===== verification/Checkpoint.thy ===== *)
theory Checkpoint
  imports Gates Leases Native_Controller Loop_Budget
begin

text \<open>
  Recovery checkpoints, \<open>crates/vibemux_workflow/src/checkpoint.rs\<close>: the recovery state with its
  validation and normal form, the checkpoint that binds it to a digest, and \<open>assess_resume\<close>, which
  decides whether a stopped workflow may continue. The canonical digest of a state and the length of
  the serialized checkpoint (serde) are parameters, \<open>digest_of\<close> and \<open>encoded_len\<close>.

  The lemmas show that the work list \<open>dependency_scope\<close> terminates and is the reflexive transitive
  closure of the dependencies, that a valid state is acyclic and closed under its references, that
  normalising changes neither validity nor content, that resuming never resets a budget, and that a
  task is declared ready only when nothing it depends on is unsettled.
\<close>

section \<open>Data\<close>

definition RECOVERY_CHECKPOINT_SCHEMA_VERSION :: u32 where "RECOVERY_CHECKPOINT_SCHEMA_VERSION = 1"
definition MAX_RECOVERY_CHECKPOINT_BYTES :: nat where "MAX_RECOVERY_CHECKPOINT_BYTES = 256 * 1024"
definition MAX_RECOVERY_REFERENCES :: nat where "MAX_RECOVERY_REFERENCES = 512"

record recovery_contract_ref =
  rc_task_key :: spec_identifier
  rc_contract_id :: digest
  rc_contract_version :: u32
  rc_template_digest :: digest
  rc_depends_on :: "spec_identifier list"

record recovery_lease_ref =
  rl_lease_id :: uuid
  rl_task_key :: spec_identifier
  rl_generation :: u64
  rl_state :: lease_state

record recovery_controller_ref =
  rk_controller_id :: uuid
  rk_session_id :: uuid
  rk_task_key :: spec_identifier
  rk_generation :: u64
  rk_version :: u64
  rk_owner :: controller_owner
  rk_phase :: controller_phase

datatype recovery_attempt_state = AttReserved | AttSubmitted | AttRunning | AttUnknown | AttSettled

record recovery_attempt_ref =
  ra_request_id :: uuid
  ra_submission_id :: uuid
  ra_task_key :: spec_identifier
  ra_contract_id :: digest
  ra_lease_id :: uuid
  ra_lease_generation :: u64
  ra_controller_id :: uuid
  ra_controller_generation :: u64
  ra_state :: recovery_attempt_state

record recovery_approval_ref =
  rv_task_key :: spec_identifier
  rv_challenge :: approval_challenge

record recovery_message_cursor =
  rm_participant_id :: uuid
  rm_task_key :: "spec_identifier option"
  rm_inbox_sequence :: u64
  rm_outbox_sequence :: u64
  rm_acknowledged_outbox_sequence :: u64

record recovery_effect_ref =
  re_effect_id :: uuid
  re_task_key :: "spec_identifier option"

record recovery_task_budget =
  rb_task_key :: spec_identifier
  rb_turns_used :: u32
  rb_max_turns :: u32
  rb_repairs_used :: u32
  rb_max_repairs :: u32
  rb_model_requests_used :: u32
  rb_max_model_requests :: u32

record context_settings_identity =
  cx_configured_context_tokens :: "u64 option"
  cx_compaction_settings_digest :: "digest option"

datatype recovery_action =
  ActInspect | ActReconcile | ActObserveAttempt uuid | ActContinueTask spec_identifier

record recovery_state =
  st_workflow_id :: uuid
  st_workflow_version :: u64
  st_workflow_phase :: workflow_phase
  st_plan_generation :: u64
  st_plan_digest :: digest
  st_policy_digest :: digest
  st_committed_event_cursor :: u64
  st_contracts :: "recovery_contract_ref list"
  st_attempts :: "recovery_attempt_ref list"
  st_leases :: "recovery_lease_ref list"
  st_controllers :: "recovery_controller_ref list"
  st_pending_approvals :: "recovery_approval_ref list"
  st_message_cursors :: "recovery_message_cursor list"
  st_artifact_digests :: "digest list"
  st_verifier_receipt_ids :: "uuid list"
  st_unresolved_effects :: "recovery_effect_ref list"
  st_loop_budget :: loop_budget
  st_task_budgets :: "recovery_task_budget list"
  st_context_settings :: context_settings_identity
  st_preapproved_resume_policy :: "digest option"
  st_next_action :: recovery_action

record recovery_checkpoint =
  ck_schema_version :: u32
  ck_checkpoint_id :: uuid
  ck_state :: recovery_state
  ck_state_digest :: digest

datatype recovery_error = RcvInvalid | RcvDigestMismatch | RcvReferenceMismatch | RcvStateChanged
  | RcvBudgetReset | RcvContextSettingsChanged | RcvInvalidObservation

fun recovery_error_code :: "recovery_error \<Rightarrow> string" where
  "recovery_error_code RcvInvalid = ''recovery_checkpoint_invalid''"
| "recovery_error_code RcvDigestMismatch = ''recovery_checkpoint_digest_mismatch''"
| "recovery_error_code RcvReferenceMismatch = ''recovery_checkpoint_reference_mismatch''"
| "recovery_error_code RcvStateChanged = ''recovery_checkpoint_state_changed''"
| "recovery_error_code RcvBudgetReset = ''recovery_checkpoint_budget_reset''"
| "recovery_error_code RcvContextSettingsChanged = ''recovery_context_settings_changed''"
| "recovery_error_code RcvInvalidObservation = ''recovery_observation_invalid''"

section \<open>Dependencies\<close>

text \<open>The work list: \<open>pending\<close> is the vector with its last element first, \<open>found\<close> the set as a list.
  Each round either spends an element of \<open>pending\<close> or finds another contract.\<close>

function scope_loop ::
  "recovery_contract_ref list \<Rightarrow> spec_identifier list \<Rightarrow> spec_identifier list \<Rightarrow> spec_identifier list"
where
  "scope_loop contracts [] found = found"
| "scope_loop contracts (key # pending) found =
     (if key \<in> set found then scope_loop contracts pending found
      else (case find (\<lambda>contract. rc_task_key contract = key) contracts of
              None \<Rightarrow> scope_loop contracts pending (key # found)
            | Some contract \<Rightarrow>
                scope_loop contracts (rev (rc_depends_on contract) @ pending) (key # found)))"
  by pat_completeness auto

lemma find_task_key:
  "find (\<lambda>c. rc_task_key c = k) cs = Some c \<Longrightarrow> c \<in> set cs \<and> rc_task_key c = k"
  by (auto simp: find_Some_iff)

termination scope_loop
proof (relation "measures [\<lambda>(cs, pending, found). card (rc_task_key ` set cs - set found),
    \<lambda>(cs, pending, found). length pending]", goal_cases)
  case (3 cs key pending found)
  have "card (rc_task_key ` set cs - set (key # found)) \<le> card (rc_task_key ` set cs - set found)"
    by (intro card_mono) auto
  then show ?case by auto
next
  case (4 cs key pending found c)
  then have "key \<in> rc_task_key ` set cs - set found"
    using find_task_key [of key cs c] by auto
  then have "card (rc_task_key ` set cs - set (key # found)) < card (rc_task_key ` set cs - set found)"
    by (intro psubset_card_mono) auto
  then show ?case by simp
qed auto

definition dependency_scope ::
  "recovery_contract_ref list \<Rightarrow> spec_identifier \<Rightarrow> spec_identifier list" where
  "dependency_scope contracts task_key = scope_loop contracts [task_key] []"

section \<open>Validation\<close>

text \<open>\<open>unique\<close> and \<open>valid_ids\<close>: every insertion into the fresh set succeeds.\<close>

definition unique :: "'a list \<Rightarrow> bool" where
  "unique values \<longleftrightarrow> distinct values"

definition valid_ids :: "uuid list \<Rightarrow> bool" where
  "valid_ids values \<longleftrightarrow> 0 \<notin> set values \<and> distinct values"

definition tasks_of ::
  "recovery_state \<Rightarrow> (spec_identifier \<times> recovery_contract_ref) list" where
  "tasks_of self = btree_collect (map (\<lambda>value. (rc_task_key value, value)) (st_contracts self))"

definition leases_of :: "recovery_state \<Rightarrow> (uuid \<times> recovery_lease_ref) list" where
  "leases_of self = btree_collect (map (\<lambda>value. (rl_lease_id value, value)) (st_leases self))"

definition controllers_of :: "recovery_state \<Rightarrow> (uuid \<times> recovery_controller_ref) list" where
  "controllers_of self =
     btree_collect (map (\<lambda>value. (rk_controller_id value, value)) (st_controllers self))"

definition has_task :: "recovery_state \<Rightarrow> spec_identifier \<Rightarrow> bool" where
  "has_task self key \<longleftrightarrow> map_of (tasks_of self) key \<noteq> None"

definition counts_of :: "recovery_state \<Rightarrow> nat list" where
  "counts_of self =
     [length (st_contracts self), length (st_attempts self), length (st_leases self),
      length (st_controllers self), length (st_pending_approvals self),
      length (st_message_cursors self), length (st_artifact_digests self),
      length (st_verifier_receipt_ids self), length (st_unresolved_effects self),
      length (st_task_budgets self)]"

definition bounds_bad :: "recovery_state \<Rightarrow> bool" where
  "bounds_bad self \<longleftrightarrow>
     is_nil (st_workflow_id self) \<or> st_workflow_version self = 0 \<or> st_plan_generation self = 0
     \<or> st_committed_event_cursor self = 0 \<or> st_contracts self = []
     \<or> lb_deadline_unix_ms (st_loop_budget self) = 0
     \<or> cx_configured_context_tokens (st_context_settings self) = Some 0
     \<or> list_ex (\<lambda>count. count > MAX_RECOVERY_REFERENCES) (counts_of self)
     \<or> sum_list (map (length \<circ> rc_depends_on) (st_contracts self)) > MAX_RECOVERY_REFERENCES"

definition dependencies_bad :: "recovery_state \<Rightarrow> bool" where
  "dependencies_bad self \<longleftrightarrow>
     list_ex (\<lambda>value. length (rc_depends_on value) > MAX_RECOVERY_REFERENCES
        \<or> \<not> unique (rc_depends_on value)
        \<or> list_ex (\<lambda>key. key = rc_task_key value \<or> \<not> has_task self key) (rc_depends_on value))
       (st_contracts self)"

definition cyclic_bad :: "recovery_state \<Rightarrow> bool" where
  "cyclic_bad self \<longleftrightarrow>
     list_ex (\<lambda>contract. list_ex (\<lambda>key.
         rc_task_key contract \<in> set (dependency_scope (st_contracts self) key))
       (rc_depends_on contract)) (st_contracts self)"

definition identities_bad :: "recovery_state \<Rightarrow> bool" where
  "identities_bad self \<longleftrightarrow>
     length (tasks_of self) \<noteq> length (st_contracts self)
     \<or> list_ex (\<lambda>value. rc_contract_version value = 0) (st_contracts self)
     \<or> \<not> unique (map rc_contract_id (st_contracts self))
     \<or> \<not> unique (st_artifact_digests self)
     \<or> \<not> valid_ids (st_verifier_receipt_ids self)
     \<or> \<not> valid_ids (map rl_lease_id (st_leases self))
     \<or> \<not> valid_ids (map rk_controller_id (st_controllers self))
     \<or> \<not> valid_ids (map rk_session_id (st_controllers self))
     \<or> \<not> valid_ids (map ra_request_id (st_attempts self))
     \<or> \<not> valid_ids (map ra_submission_id (st_attempts self))
     \<or> \<not> valid_ids (map (ac_challenge_id \<circ> rv_challenge) (st_pending_approvals self))
     \<or> \<not> valid_ids (map rm_participant_id (st_message_cursors self))
     \<or> \<not> valid_ids (map re_effect_id (st_unresolved_effects self))"

definition resources_bad :: "recovery_state \<Rightarrow> bool" where
  "resources_bad self \<longleftrightarrow>
     list_ex (\<lambda>value. rl_generation value = 0 \<or> \<not> has_task self (rl_task_key value)) (st_leases self)
     \<or> list_ex (\<lambda>value. rk_generation value = 0 \<or> rk_version value = 0
          \<or> \<not> has_task self (rk_task_key value) \<or> rk_owner value = OwnerHuman 0) (st_controllers self)"

definition attempt_bad :: "recovery_state \<Rightarrow> recovery_attempt_ref \<Rightarrow> bool" where
  "attempt_bad self attempt \<longleftrightarrow>
     (case (map_of (tasks_of self) (ra_task_key attempt), map_of (leases_of self) (ra_lease_id attempt),
            map_of (controllers_of self) (ra_controller_id attempt)) of
        (Some contract, Some lease, Some controller) \<Rightarrow>
          rc_contract_id contract \<noteq> ra_contract_id attempt
          \<or> rl_task_key lease \<noteq> ra_task_key attempt
          \<or> rl_generation lease \<noteq> ra_lease_generation attempt
          \<or> rk_task_key controller \<noteq> ra_task_key attempt
          \<or> rk_generation controller \<noteq> ra_controller_generation attempt
          \<or> (ra_state attempt \<noteq> AttSettled \<and> \<not> holds_reservation (rl_state lease))
      | _ \<Rightarrow> True)"

definition approval_bad :: "recovery_state \<Rightarrow> recovery_approval_ref \<Rightarrow> bool" where
  "approval_bad self approval \<longleftrightarrow>
     (let challenge = rv_challenge approval in
      case map_of (controllers_of self) (cf_controller_id (ac_controller challenge)) of
        None \<Rightarrow> True
      | Some controller \<Rightarrow>
          is_nil (ac_requester_id challenge)
          \<or> rk_task_key controller \<noteq> rv_task_key approval
          \<or> rk_generation controller \<noteq> cf_generation (ac_controller challenge)
          \<or> rk_session_id controller \<noteq> ac_session_id challenge
          \<or> \<not> list_ex (\<lambda>attempt. ra_submission_id attempt = ac_submission_id challenge
                \<and> ra_controller_id attempt = rk_controller_id controller
                \<and> ra_task_key attempt = rv_task_key approval
                \<and> ra_state attempt \<in> {AttSubmitted, AttRunning, AttUnknown}) (st_attempts self))"

definition opt_task_bad :: "recovery_state \<Rightarrow> spec_identifier option \<Rightarrow> bool" where
  "opt_task_bad self task_key = (case task_key of None \<Rightarrow> False | Some key \<Rightarrow> \<not> has_task self key)"

definition accounts_bad :: "recovery_state \<Rightarrow> bool" where
  "accounts_bad self \<longleftrightarrow>
     list_ex (\<lambda>cursor. rm_acknowledged_outbox_sequence cursor > rm_outbox_sequence cursor
        \<or> opt_task_bad self (rm_task_key cursor)) (st_message_cursors self)
     \<or> list_ex (\<lambda>effect. opt_task_bad self (re_task_key effect)) (st_unresolved_effects self)
     \<or> length (st_task_budgets self) \<noteq> length (st_contracts self)
     \<or> \<not> unique (map rb_task_key (st_task_budgets self))
     \<or> list_ex (\<lambda>budget. \<not> has_task self (rb_task_key budget)
          \<or> rb_turns_used budget > rb_max_turns budget
          \<or> rb_repairs_used budget > rb_max_repairs budget
          \<or> rb_model_requests_used budget > rb_max_model_requests budget) (st_task_budgets self)"

definition next_action_bad :: "recovery_state \<Rightarrow> bool" where
  "next_action_bad self =
     (case st_next_action self of
        ActContinueTask task_key \<Rightarrow> \<not> has_task self task_key
      | ActObserveAttempt request_id \<Rightarrow>
          \<not> list_ex (\<lambda>attempt. ra_request_id attempt = request_id) (st_attempts self)
      | _ \<Rightarrow> False)"

definition recovery_validate :: "recovery_state \<Rightarrow> recovery_error + unit" where
  "recovery_validate self =
     (if bounds_bad self then Inl RcvInvalid
      else if dependencies_bad self then Inl RcvReferenceMismatch
      else if cyclic_bad self then Inl RcvReferenceMismatch
      else if identities_bad self then Inl RcvReferenceMismatch
      else if resources_bad self then Inl RcvReferenceMismatch
      else if list_ex (attempt_bad self) (st_attempts self) then Inl RcvReferenceMismatch
      else if list_ex (approval_bad self) (st_pending_approvals self) then Inl RcvReferenceMismatch
      else if accounts_bad self then Inl RcvReferenceMismatch
      else if next_action_bad self then Inl RcvReferenceMismatch
      else Inr ())"

section \<open>Normal form and checkpoints\<close>

definition normalize :: "recovery_state \<Rightarrow> recovery_state" where
  "normalize self = self\<lparr>
     st_contracts := sort_key rc_task_key
        (map (\<lambda>contract. contract\<lparr>rc_depends_on := sort (rc_depends_on contract)\<rparr>) (st_contracts self)),
     st_attempts := sort_key ra_request_id (st_attempts self),
     st_leases := sort_key rl_lease_id (st_leases self),
     st_controllers := sort_key rk_controller_id (st_controllers self),
     st_pending_approvals := sort_key (ac_challenge_id \<circ> rv_challenge) (st_pending_approvals self),
     st_message_cursors := sort_key rm_participant_id (st_message_cursors self),
     st_artifact_digests := sort (st_artifact_digests self),
     st_verifier_receipt_ids := sort (st_verifier_receipt_ids self),
     st_unresolved_effects := sort_key re_effect_id (st_unresolved_effects self),
     st_task_budgets := sort_key rb_task_key (st_task_budgets self)\<rparr>"

definition checkpoint_validate ::
  "(recovery_state \<Rightarrow> digest option) \<Rightarrow> (recovery_checkpoint \<Rightarrow> nat option) \<Rightarrow>
   recovery_checkpoint \<Rightarrow> recovery_error + unit" where
  "checkpoint_validate digest_of encoded_len self =
     (if ck_schema_version self \<noteq> RECOVERY_CHECKPOINT_SCHEMA_VERSION \<or> is_nil (ck_checkpoint_id self)
      then Inl RcvInvalid else
     (case recovery_validate (ck_state self) of Inl e \<Rightarrow> Inl e | Inr _ \<Rightarrow>
     (case encoded_len self of None \<Rightarrow> Inl RcvInvalid | Some len \<Rightarrow>
      if len > MAX_RECOVERY_CHECKPOINT_BYTES then Inl RcvInvalid
      else if normalize (ck_state self) \<noteq> ck_state self then Inl RcvInvalid else
     (case digest_of (ck_state self) of None \<Rightarrow> Inl RcvInvalid | Some dig \<Rightarrow>
      if dig \<noteq> ck_state_digest self then Inl RcvDigestMismatch else Inr ()))))"

definition checkpoint_new ::
  "(recovery_state \<Rightarrow> digest option) \<Rightarrow> (recovery_checkpoint \<Rightarrow> nat option) \<Rightarrow>
   uuid \<Rightarrow> recovery_state \<Rightarrow> recovery_error + recovery_checkpoint" where
  "checkpoint_new digest_of encoded_len checkpoint_id state =
     (case recovery_validate state of Inl e \<Rightarrow> Inl e | Inr _ \<Rightarrow>
     (case digest_of (normalize state) of None \<Rightarrow> Inl RcvInvalid | Some dig \<Rightarrow>
      (let checkpoint = \<lparr>ck_schema_version = RECOVERY_CHECKPOINT_SCHEMA_VERSION,
             ck_checkpoint_id = checkpoint_id, ck_state = normalize state, ck_state_digest = dig\<rparr>
       in case checkpoint_validate digest_of encoded_len checkpoint of Inl e \<Rightarrow> Inl e
          | Inr _ \<Rightarrow> Inr checkpoint)))"

section \<open>Resuming\<close>

datatype recovery_presence = PresPresent | PresTerminal | PresAbsent | PresUnknown

record recovery_observation =
  ro_resource_id :: uuid
  ro_obs_generation :: u64
  ro_presence :: recovery_presence

record recovery_observations =
  os_workflow_version :: u64
  os_controllers :: "recovery_observation list"
  os_leases :: "recovery_observation list"

datatype resume_authorization =
    NoAuthorization
  | OperatorStart uuid u64             \<comment> \<open>checkpoint\_id, workflow\_version\<close>
  | Preapproved digest                 \<comment> \<open>policy\_digest\<close>

datatype resume_decision =
    ReadOnly recovery_action
  | RequiresOperatorStart
  | WorkflowStopped
  | ContextSettingsUnknown
  | ResumeBudgetExhausted
  | AwaitingApproval "uuid list"
  | HumanControlled "uuid list"
  | Reconcile "uuid list" "uuid list" "uuid list" "uuid list" "uuid list"
  | Ready spec_identifier loop_budget recovery_task_budget

definition budgets_continue :: "recovery_task_budget \<Rightarrow> recovery_task_budget \<Rightarrow> recovery_error + unit" where
  "budgets_continue before after =
     (if rb_task_key before \<noteq> rb_task_key after \<or> rb_max_turns before \<noteq> rb_max_turns after
         \<or> rb_max_repairs before \<noteq> rb_max_repairs after
         \<or> rb_max_model_requests before \<noteq> rb_max_model_requests after
      then Inl RcvStateChanged
      else if rb_turns_used after < rb_turns_used before
         \<or> rb_repairs_used after < rb_repairs_used before
         \<or> rb_model_requests_used after < rb_model_requests_used before
      then Inl RcvBudgetReset else Inr ())"

definition cursors_continue ::
  "recovery_message_cursor \<Rightarrow> recovery_message_cursor \<Rightarrow> recovery_error + unit" where
  "cursors_continue before after =
     (if rm_participant_id before \<noteq> rm_participant_id after \<or> rm_task_key before \<noteq> rm_task_key after
         \<or> rm_inbox_sequence after < rm_inbox_sequence before
         \<or> rm_outbox_sequence after < rm_outbox_sequence before
         \<or> rm_acknowledged_outbox_sequence after < rm_acknowledged_outbox_sequence before
      then Inl RcvStateChanged else Inr ())"

text \<open>A loop over \<open>zip\<close> that returns at the first error.\<close>

fun check_all :: "('a \<Rightarrow> 'a \<Rightarrow> 'e + unit) \<Rightarrow> 'a list \<Rightarrow> 'a list \<Rightarrow> 'e + unit" where
  "check_all f (x # xs) (y # ys) = (case f x y of Inl e \<Rightarrow> Inl e | Inr _ \<Rightarrow> check_all f xs ys)"
| "check_all f _ _ = Inr ()"

definition check_recovery_continuity ::
  "recovery_state \<Rightarrow> recovery_state \<Rightarrow> recovery_error + unit" where
  "check_recovery_continuity saved current =
     (if st_context_settings current \<noteq> st_context_settings saved then Inl RcvContextSettingsChanged
      else if (phase_is_terminal (st_workflow_phase saved)
               \<and> st_workflow_phase current \<noteq> st_workflow_phase saved)
           \<or> (st_workflow_phase saved = PhaseCancelRequested
               \<and> \<not> (st_workflow_phase current = PhaseCancelRequested
                    \<or> st_workflow_phase current = PhaseCancelled))
      then Inl RcvStateChanged
      else if st_workflow_version current < st_workflow_version saved
           \<or> st_committed_event_cursor current < st_committed_event_cursor saved
      then Inl RcvStateChanged
      else if lb_decisions_remaining (st_loop_budget current) > lb_decisions_remaining (st_loop_budget saved)
           \<or> lb_malformed_repairs_remaining (st_loop_budget current)
              > lb_malformed_repairs_remaining (st_loop_budget saved)
           \<or> lb_model_requests_remaining (st_loop_budget current)
              > lb_model_requests_remaining (st_loop_budget saved)
           \<or> lb_deadline_unix_ms (st_loop_budget current) \<noteq> lb_deadline_unix_ms (st_loop_budget saved)
      then Inl RcvBudgetReset
      else if length (st_task_budgets current) \<noteq> length (st_task_budgets saved) then Inl RcvStateChanged
      else (case check_all budgets_continue (st_task_budgets saved) (st_task_budgets current) of
              Inl e \<Rightarrow> Inl e | Inr _ \<Rightarrow>
      if length (st_message_cursors current) \<noteq> length (st_message_cursors saved)
      then Inl RcvStateChanged
      else (case check_all cursors_continue (st_message_cursors saved) (st_message_cursors current) of
              Inl e \<Rightarrow> Inl e | Inr _ \<Rightarrow>
      if saved\<lparr>st_workflow_version := st_workflow_version current,
               st_workflow_phase := st_workflow_phase current,
               st_committed_event_cursor := st_committed_event_cursor current,
               st_loop_budget := st_loop_budget current,
               st_task_budgets := st_task_budgets current,
               st_message_cursors := st_message_cursors current\<rparr> \<noteq> current
      then Inl RcvStateChanged else Inr ())))"

definition check_observations ::
  "recovery_state \<Rightarrow> recovery_observations \<Rightarrow> recovery_error + unit" where
  "check_observations state observations =
     (if os_workflow_version observations \<noteq> st_workflow_version state
         \<or> length (os_controllers observations) > MAX_RECOVERY_REFERENCES
         \<or> length (os_leases observations) > MAX_RECOVERY_REFERENCES
         \<or> \<not> valid_ids (map ro_resource_id (os_controllers observations))
         \<or> \<not> valid_ids (map ro_resource_id (os_leases observations))
         \<or> list_ex (\<lambda>value. \<not> list_ex (\<lambda>reference.
              rk_controller_id reference = ro_resource_id value
              \<and> rk_generation reference = ro_obs_generation value) (st_controllers state))
            (os_controllers observations)
         \<or> list_ex (\<lambda>value. \<not> list_ex (\<lambda>reference.
              rl_lease_id reference = ro_resource_id value
              \<and> rl_generation reference = ro_obs_generation value) (st_leases state))
            (os_leases observations)
      then Inl RcvInvalidObservation else Inr ())"

definition seen_present :: "recovery_observation list \<Rightarrow> uuid \<Rightarrow> bool" where
  "seen_present observations i \<longleftrightarrow>
     list_ex (\<lambda>ob. ro_resource_id ob = i \<and> ro_presence ob = PresPresent) observations"

text \<open>What must be reconciled before a task may continue, for a set of relevant tasks.\<close>

definition relevant_opt :: "spec_identifier list \<Rightarrow> spec_identifier option \<Rightarrow> bool" where
  "relevant_opt tasks scope = (case scope of None \<Rightarrow> True | Some key \<Rightarrow> key \<in> set tasks)"

definition awaiting_approvals :: "recovery_state \<Rightarrow> spec_identifier list \<Rightarrow> uuid list" where
  "awaiting_approvals current tasks =
     map (ac_challenge_id \<circ> rv_challenge)
       (filter (\<lambda>v. rv_task_key v \<in> set tasks) (st_pending_approvals current))"

definition human_controllers :: "recovery_state \<Rightarrow> spec_identifier list \<Rightarrow> uuid list" where
  "human_controllers current tasks =
     map rk_controller_id (filter (\<lambda>v. rk_task_key v \<in> set tasks
         \<and> (case rk_owner v of OwnerHuman _ \<Rightarrow> True | _ \<Rightarrow> False) \<and> rk_phase v \<noteq> CtlClosed)
       (st_controllers current))"

definition unsettled_attempts :: "recovery_state \<Rightarrow> spec_identifier list \<Rightarrow> uuid list" where
  "unsettled_attempts current tasks =
     map ra_request_id (filter (\<lambda>v. ra_task_key v \<in> set tasks \<and> ra_state v \<noteq> AttSettled)
       (st_attempts current))"

definition doubtful_controllers ::
  "recovery_state \<Rightarrow> recovery_observations \<Rightarrow> spec_identifier list \<Rightarrow> uuid list" where
  "doubtful_controllers current observations tasks =
     map rk_controller_id (filter (\<lambda>v. rk_task_key v \<in> set tasks \<and> rk_phase v \<noteq> CtlClosed
         \<and> ((rk_phase v = CtlQuiescing \<or> rk_phase v = CtlAwaitingAttach)
            \<or> \<not> seen_present (os_controllers observations) (rk_controller_id v)))
       (st_controllers current))"

definition doubtful_leases ::
  "recovery_state \<Rightarrow> recovery_observations \<Rightarrow> spec_identifier list \<Rightarrow> uuid list" where
  "doubtful_leases current observations tasks =
     map rl_lease_id (filter (\<lambda>v. rl_task_key v \<in> set tasks \<and> holds_reservation (rl_state v)
         \<and> (rl_state v = LeaseQuarantined
            \<or> \<not> seen_present (os_leases observations) (rl_lease_id v))) (st_leases current))"

definition open_effects :: "recovery_state \<Rightarrow> spec_identifier list \<Rightarrow> uuid list" where
  "open_effects current tasks =
     map re_effect_id (filter (\<lambda>v. relevant_opt tasks (re_task_key v)) (st_unresolved_effects current))"

definition open_outboxes :: "recovery_state \<Rightarrow> spec_identifier list \<Rightarrow> uuid list" where
  "open_outboxes current tasks =
     map rm_participant_id (filter (\<lambda>v. relevant_opt tasks (rm_task_key v)
         \<and> rm_outbox_sequence v > rm_acknowledged_outbox_sequence v) (st_message_cursors current))"

definition resume_authorized ::
  "recovery_checkpoint \<Rightarrow> recovery_state \<Rightarrow> resume_authorization \<Rightarrow> bool" where
  "resume_authorized checkpoint current authorization =
     (case authorization of
        NoAuthorization \<Rightarrow> False
      | OperatorStart checkpoint_id workflow_version \<Rightarrow>
          checkpoint_id = ck_checkpoint_id checkpoint
          \<and> workflow_version = st_workflow_version current
      | Preapproved policy_digest \<Rightarrow> st_preapproved_resume_policy current = Some policy_digest)"

text \<open>The decision for a task to continue, once state and observations are checked.\<close>

definition assess_task ::
  "recovery_checkpoint \<Rightarrow> recovery_state \<Rightarrow> recovery_observations \<Rightarrow> resume_authorization \<Rightarrow> u64 \<Rightarrow>
   spec_identifier \<Rightarrow> recovery_error + resume_decision" where
  "assess_task checkpoint current observations authorization now_ms task_key =
     (let tasks = dependency_scope (st_contracts current) task_key;
          approvals = awaiting_approvals current tasks;
          humans = human_controllers current tasks;
          attempt_ids = unsettled_attempts current tasks;
          controller_ids = doubtful_controllers current observations tasks;
          lease_ids = doubtful_leases current observations tasks;
          effect_ids = open_effects current tasks;
          outbox_participants = open_outboxes current tasks
      in if approvals \<noteq> [] then Inr (AwaitingApproval approvals)
         else if humans \<noteq> [] then Inr (HumanControlled humans)
         else if attempt_ids \<noteq> [] \<or> controller_ids \<noteq> [] \<or> lease_ids \<noteq> [] \<or> effect_ids \<noteq> []
            \<or> outbox_participants \<noteq> []
         then Inr (Reconcile attempt_ids controller_ids lease_ids effect_ids outbox_participants)
         else if \<not> resume_authorized checkpoint current authorization then Inr RequiresOperatorStart
         else (case find (\<lambda>value. rb_task_key value = task_key) (st_task_budgets current) of
                 None \<Rightarrow> Inl RcvReferenceMismatch
               | Some task_budget \<Rightarrow>
                   (let budget = st_loop_budget current in
                    if now_ms \<ge> lb_deadline_unix_ms budget \<or> lb_decisions_remaining budget = 0
                       \<or> lb_model_requests_remaining budget = 0
                       \<or> rb_turns_used task_budget \<ge> rb_max_turns task_budget
                       \<or> rb_model_requests_used task_budget \<ge> rb_max_model_requests task_budget
                    then Inr ResumeBudgetExhausted
                    else Inr (Ready task_key budget task_budget))))"

definition assess_resume ::
  "(recovery_state \<Rightarrow> digest option) \<Rightarrow> (recovery_checkpoint \<Rightarrow> nat option) \<Rightarrow>
   recovery_checkpoint \<Rightarrow> recovery_state \<Rightarrow> recovery_observations \<Rightarrow> resume_authorization \<Rightarrow> u64 \<Rightarrow>
   recovery_error + resume_decision" where
  "assess_resume digest_of encoded_len checkpoint current0 observations authorization now_ms =
     (case checkpoint_validate digest_of encoded_len checkpoint of Inl e \<Rightarrow> Inl e | Inr _ \<Rightarrow>
     (case recovery_validate current0 of Inl e \<Rightarrow> Inl e | Inr _ \<Rightarrow>
     (let current = normalize current0 in
     (case check_recovery_continuity (ck_state checkpoint) current of Inl e \<Rightarrow> Inl e | Inr _ \<Rightarrow>
     (case check_observations current observations of Inl e \<Rightarrow> Inl e | Inr _ \<Rightarrow>
      if phase_is_terminal (st_workflow_phase current)
         \<or> st_workflow_phase current = PhaseCancelRequested
      then Inr WorkflowStopped
      else (case st_next_action current of
        ActContinueTask task_key \<Rightarrow>
          if cx_configured_context_tokens (st_context_settings current) = None
             \<or> cx_compaction_settings_digest (st_context_settings current) = None
          then Inr ContextSettingsUnknown
          else assess_task checkpoint current observations authorization now_ms task_key
      | action \<Rightarrow> Inr (ReadOnly action)))))))"

section \<open>The dependency scope is the closure\<close>

definition dependency_edges :: "recovery_contract_ref list \<Rightarrow> (spec_identifier \<times> spec_identifier) set" where
  "dependency_edges contracts =
     {(a, b). \<exists>c. find (\<lambda>c. rc_task_key c = a) contracts = Some c \<and> b \<in> set (rc_depends_on c)}"

lemma scope_loop_sound:
  "set (scope_loop cs pending found) \<subseteq> set found \<union> (dependency_edges cs)\<^sup>* `` set pending"
proof (induction cs pending found rule: scope_loop.induct)
  case (2 cs key pending found)
  show ?case
  proof (cases "key \<in> set found")
    case True
    with 2 show ?thesis by auto
  next
    case new: False
    show ?thesis
    proof (cases "find (\<lambda>c. rc_task_key c = key) cs")
      case None
      with new 2(2) [OF new None] show ?thesis by auto
    next
      case (Some c)
      have "(key, b) \<in> dependency_edges cs" if "b \<in> set (rc_depends_on c)" for b
        using Some that by (auto simp: dependency_edges_def)
      with 2(3) [OF new Some] Some new show ?thesis
        by (auto intro: converse_rtrancl_into_rtrancl)
    qed
  qed
qed simp

lemma scope_loop_contains: "set pending \<union> set found \<subseteq> set (scope_loop cs pending found)"
  by (induction cs pending found rule: scope_loop.induct) (auto split: option.splits)

lemma scope_loop_closed:
  "dependency_edges cs `` set found \<subseteq> set found \<union> set pending \<Longrightarrow>
   dependency_edges cs `` set (scope_loop cs pending found) \<subseteq> set (scope_loop cs pending found)"
proof (induction cs pending found rule: scope_loop.induct)
  case (2 cs key pending found)
  show ?case
  proof (cases "key \<in> set found")
    case True
    with 2 show ?thesis by auto
  next
    case new: False
    show ?thesis
    proof (cases "find (\<lambda>c. rc_task_key c = key) cs")
      case None
      then have "dependency_edges cs `` {key} = {}" by (auto simp: dependency_edges_def)
      then have "dependency_edges cs `` set (key # found) \<subseteq> set (key # found) \<union> set pending"
        using "2.prems" by auto
      from 2(2) [OF new None this] None new show ?thesis by simp
    next
      case (Some c)
      then have "dependency_edges cs `` {key} = set (rc_depends_on c)"
        by (auto simp: dependency_edges_def)
      then have "dependency_edges cs `` set (key # found)
          \<subseteq> set (key # found) \<union> set (rev (rc_depends_on c) @ pending)"
        using "2.prems" by auto
      from 2(3) [OF new Some this] Some new show ?thesis by simp
    qed
  qed
qed simp

lemma set_dependency_scope:
  "set (dependency_scope cs key) = (dependency_edges cs)\<^sup>* `` {key}"
proof
  show "set (dependency_scope cs key) \<subseteq> (dependency_edges cs)\<^sup>* `` {key}"
    using scope_loop_sound [of cs "[key]" "[]"] by (simp add: dependency_scope_def)
next
  have "dependency_edges cs `` set (dependency_scope cs key) \<subseteq> set (dependency_scope cs key)"
    unfolding dependency_scope_def by (rule scope_loop_closed) simp
  then have "(dependency_edges cs)\<^sup>* `` set (dependency_scope cs key) = set (dependency_scope cs key)"
    by (rule Image_closed_trancl)
  moreover have "{key} \<subseteq> set (dependency_scope cs key)"
    using scope_loop_contains [of "[key]" "[]" cs] by (simp add: dependency_scope_def)
  ultimately show "(dependency_edges cs)\<^sup>* `` {key} \<subseteq> set (dependency_scope cs key)"
    by blast
qed

lemma scope_loop_distinct: "distinct found \<Longrightarrow> distinct (scope_loop cs pending found)"
  by (induction cs pending found rule: scope_loop.induct) (auto split: option.splits)

section \<open>What a valid state guarantees\<close>

lemma find_distinct_key:
  assumes "distinct (map f xs)" and "x \<in> set xs"
  shows "find (\<lambda>y. f y = f x) xs = Some x"
proof -
  obtain y where y: "find (\<lambda>y. f y = f x) xs = Some y"
    using find_SomeI [of x xs "\<lambda>y. f y = f x"] assms(2) by auto
  then have "y \<in> set xs" "f y = f x" using find_Some_filter [OF y] by auto
  then have "y = x" using assms by (auto simp: distinct_map inj_on_def)
  with y show ?thesis by simp
qed

lemma keys_btree_collect: "fst ` set (btree_collect ps) = fst ` set ps"
  by (metis dom_map_of_conv_image_fst map_of_btree_collect set_rev)

lemma length_btree_collect_eq: "length (btree_collect ps) = length ps \<longleftrightarrow> distinct (map fst ps)"
proof -
  have "length (btree_collect ps) = card (fst ` set (btree_collect ps))"
    using distinct_card [OF btree_distinct [OF btree_collect_btree [of ps]]] by simp
  also have "\<dots> = card (set (map fst ps))" by (simp add: keys_btree_collect)
  finally show ?thesis
    by (metis card_distinct distinct_card length_map)
qed

text \<open>A map collected from a list of values by a key: present keys, and the value of an unshared key.\<close>

lemma map_of_keyed_None [simp]:
  "map_of (btree_collect (map (\<lambda>v. (f v, v)) xs)) k = None \<longleftrightarrow> k \<notin> f ` set xs"
  by (simp add: map_of_eq_None_iff rev_map image_image)

lemma map_of_keyed_Some:
  "map_of (btree_collect (map (\<lambda>v. (f v, v)) xs)) k = Some v \<Longrightarrow> v \<in> set xs \<and> f v = k"
  by (auto simp: rev_map dest!: map_of_SomeD)

lemma map_of_keyed_distinct:
  "distinct (map f xs) \<Longrightarrow> map_of (btree_collect (map (\<lambda>v. (f v, v)) xs)) k = find (\<lambda>v. f v = k) xs"
proof (cases "k \<in> f ` set xs")
  case True
  assume d: "distinct (map f xs)"
  from True obtain v where v: "v \<in> set xs" "k = f v" by auto
  have "map_of (btree_collect (map (\<lambda>v. (f v, v)) xs)) k = Some v"
  proof (cases "map_of (btree_collect (map (\<lambda>v. (f v, v)) xs)) k")
    case None
    then have "k \<notin> f ` set xs" by (rule map_of_keyed_None [THEN iffD1])
    with True show ?thesis by contradiction
  next
    case (Some w)
    with map_of_keyed_Some [OF Some] v d show ?thesis by (auto simp: distinct_map inj_on_def)
  qed
  with v d show ?thesis by (simp add: find_distinct_key del: map_of_btree_collect)
next
  case False
  then have "find (\<lambda>v. f v = k) xs = None" by (auto simp: find_None_iff)
  with map_of_keyed_None [THEN iffD2, OF False] show ?thesis by simp
qed

lemma has_task_iff: "has_task s key \<longleftrightarrow> key \<in> rc_task_key ` set (st_contracts s)"
  unfolding has_task_def tasks_of_def by (simp del: map_of_btree_collect)

lemma acyclic_if_not_cyclic_bad:
  assumes "\<not> cyclic_bad s"
  shows "acyclic (dependency_edges (st_contracts s))"
proof (rule acyclicI, rule allI, rule notI)
  let ?E = "dependency_edges (st_contracts s)"
  fix a
  assume "(a, a) \<in> ?E\<^sup>+"
  then obtain b where "(a, b) \<in> ?E" and returns: "(b, a) \<in> ?E\<^sup>*"
    by (meson tranclD)
  then obtain c where c: "find (\<lambda>c. rc_task_key c = a) (st_contracts s) = Some c"
    and b: "b \<in> set (rc_depends_on c)"
    by (auto simp: dependency_edges_def)
  from find_task_key [OF c] have "c \<in> set (st_contracts s)" "rc_task_key c = a" by auto
  moreover have "a \<in> set (dependency_scope (st_contracts s) b)"
    using returns by (simp add: set_dependency_scope)
  ultimately show False
    using assms b by (auto simp: cyclic_bad_def list_ex_iff)
qed

lemma recovery_validate_iff:
  "recovery_validate s = Inr () \<longleftrightarrow>
     \<not> bounds_bad s \<and> \<not> dependencies_bad s \<and> \<not> cyclic_bad s \<and> \<not> identities_bad s
     \<and> \<not> resources_bad s \<and> (\<forall>a \<in> set (st_attempts s). \<not> attempt_bad s a)
     \<and> (\<forall>v \<in> set (st_pending_approvals s). \<not> approval_bad s v)
     \<and> \<not> accounts_bad s \<and> \<not> next_action_bad s"
  unfolding recovery_validate_def result_simps by (simp add: list_ex_iff)

lemma identities_distinct:
  assumes "\<not> identities_bad s"
  shows "distinct (map rc_task_key (st_contracts s))"
    and "distinct (map rl_lease_id (st_leases s))"
    and "distinct (map rk_controller_id (st_controllers s))"
  using assms
  by (simp_all add: identities_bad_def valid_ids_def tasks_of_def length_btree_collect_eq
      length_btree_collect_eq [of "map f xs" for f xs, simplified] comp_def)

lemma attempt_resolves:
  assumes "\<not> attempt_bad s a"
  obtains c l k where
    "c \<in> set (st_contracts s)" "rc_task_key c = ra_task_key a" "rc_contract_id c = ra_contract_id a"
    "l \<in> set (st_leases s)" "rl_lease_id l = ra_lease_id a" "rl_task_key l = ra_task_key a"
    "rl_generation l = ra_lease_generation a"
    "ra_state a \<noteq> AttSettled \<longrightarrow> holds_reservation (rl_state l)"
    "k \<in> set (st_controllers s)" "rk_controller_id k = ra_controller_id a"
    "rk_task_key k = ra_task_key a" "rk_generation k = ra_controller_generation a"
proof -
  from assms obtain c l k where
    c: "map_of (tasks_of s) (ra_task_key a) = Some c"
    and l: "map_of (leases_of s) (ra_lease_id a) = Some l"
    and k: "map_of (controllers_of s) (ra_controller_id a) = Some k"
    and rest: "rc_contract_id c = ra_contract_id a" "rl_task_key l = ra_task_key a"
      "rl_generation l = ra_lease_generation a" "rk_task_key k = ra_task_key a"
      "rk_generation k = ra_controller_generation a"
      "ra_state a \<noteq> AttSettled \<longrightarrow> holds_reservation (rl_state l)"
    unfolding attempt_bad_def by (auto split: option.splits)
  note c = map_of_keyed_Some [OF c [unfolded tasks_of_def]]
    and l = map_of_keyed_Some [OF l [unfolded leases_of_def]]
    and k = map_of_keyed_Some [OF k [unfolded controllers_of_def]]
  from c l k rest show thesis using that by blast
qed

lemma approval_resolves:
  assumes "\<not> approval_bad s v"
  obtains k a where
    "k \<in> set (st_controllers s)"
    "rk_controller_id k = cf_controller_id (ac_controller (rv_challenge v))"
    "rk_generation k = cf_generation (ac_controller (rv_challenge v))"
    "rk_session_id k = ac_session_id (rv_challenge v)" "rk_task_key k = rv_task_key v"
    "a \<in> set (st_attempts s)" "ra_submission_id a = ac_submission_id (rv_challenge v)"
    "ra_controller_id a = rk_controller_id k" "ra_task_key a = rv_task_key v"
    "ra_state a \<in> {AttSubmitted, AttRunning, AttUnknown}"
    "ac_requester_id (rv_challenge v) \<noteq> 0"
proof -
  from assms obtain k where
    k: "map_of (controllers_of s) (cf_controller_id (ac_controller (rv_challenge v))) = Some k"
    and rest: "ac_requester_id (rv_challenge v) \<noteq> 0" "rk_task_key k = rv_task_key v"
      "rk_generation k = cf_generation (ac_controller (rv_challenge v))"
      "rk_session_id k = ac_session_id (rv_challenge v)"
      "\<exists>a \<in> set (st_attempts s). ra_submission_id a = ac_submission_id (rv_challenge v)
         \<and> ra_controller_id a = rk_controller_id k \<and> ra_task_key a = rv_task_key v
         \<and> ra_state a \<in> {AttSubmitted, AttRunning, AttUnknown}"
    unfolding approval_bad_def Let_def by (auto simp: list_ex_iff split: option.splits)
  from map_of_keyed_Some [OF k [unfolded controllers_of_def]] rest show thesis using that by blast
qed

text \<open>As many budgets as contracts, all different and each for a contract: every task has its own.\<close>

lemma budget_of_task:
  assumes "\<not> accounts_bad s" and "\<not> identities_bad s" and "has_task s key"
  obtains b where "find (\<lambda>b. rb_task_key b = key) (st_task_budgets s) = Some b"
    and "b \<in> set (st_task_budgets s)" and "rb_task_key b = key"
    and "rb_turns_used b \<le> rb_max_turns b" and "rb_repairs_used b \<le> rb_max_repairs b"
    and "rb_model_requests_used b \<le> rb_max_model_requests b"
proof -
  let ?B = "map rb_task_key (st_task_budgets s)" and ?C = "map rc_task_key (st_contracts s)"
  have facts: "distinct ?B" "length ?B = length ?C" "set ?B \<subseteq> set ?C" "distinct ?C"
    using assms identities_distinct [OF assms(2)]
    by (auto simp: accounts_bad_def unique_def list_ex_iff has_task_iff)
  then have "set ?B = set ?C"
    by (metis List.finite_set card_subset_eq distinct_card)
  with assms(3) have "key \<in> rb_task_key ` set (st_task_budgets s)"
    by (simp add: has_task_iff)
  then obtain b where b: "b \<in> set (st_task_budgets s)" "rb_task_key b = key"
    by blast
  moreover have "find (\<lambda>b. rb_task_key b = key) (st_task_budgets s) = Some b"
    using find_distinct_key [OF facts(1) b(1)] b(2) by simp
  moreover have "rb_turns_used b \<le> rb_max_turns b" "rb_repairs_used b \<le> rb_max_repairs b"
    "rb_model_requests_used b \<le> rb_max_model_requests b"
    using assms(1) b(1) by (auto simp: accounts_bad_def list_ex_iff not_less)
  ultimately show thesis using that by blast
qed

section \<open>The normal form\<close>

lemma normalize_fields [simp]:
  "st_workflow_id (normalize s) = st_workflow_id s"
  "st_workflow_version (normalize s) = st_workflow_version s"
  "st_workflow_phase (normalize s) = st_workflow_phase s"
  "st_plan_generation (normalize s) = st_plan_generation s"
  "st_committed_event_cursor (normalize s) = st_committed_event_cursor s"
  "st_loop_budget (normalize s) = st_loop_budget s"
  "st_context_settings (normalize s) = st_context_settings s"
  "st_preapproved_resume_policy (normalize s) = st_preapproved_resume_policy s"
  "st_next_action (normalize s) = st_next_action s"
  by (simp_all add: normalize_def)

lemma normalize_msets:
  "mset (st_attempts (normalize s)) = mset (st_attempts s)"
  "mset (st_leases (normalize s)) = mset (st_leases s)"
  "mset (st_controllers (normalize s)) = mset (st_controllers s)"
  "mset (st_pending_approvals (normalize s)) = mset (st_pending_approvals s)"
  "mset (st_message_cursors (normalize s)) = mset (st_message_cursors s)"
  "mset (st_artifact_digests (normalize s)) = mset (st_artifact_digests s)"
  "mset (st_verifier_receipt_ids (normalize s)) = mset (st_verifier_receipt_ids s)"
  "mset (st_unresolved_effects (normalize s)) = mset (st_unresolved_effects s)"
  "mset (st_task_budgets (normalize s)) = mset (st_task_budgets s)"
  by (simp_all add: normalize_def)

lemmas normalize_sets [simp] = normalize_msets [THEN mset_eq_setD]
lemmas normalize_lengths [simp] = normalize_msets [THEN mset_eq_length]

lemma mset_map_distinct: "mset xs = mset ys \<Longrightarrow> distinct (map f xs) = distinct (map f ys)"
  by (metis mset_map mset_eq_imp_distinct_iff)

lemmas normalize_distinct [simp] = normalize_msets [THEN mset_map_distinct]

definition sort_depends :: "recovery_contract_ref \<Rightarrow> recovery_contract_ref" where
  "sort_depends c = c\<lparr>rc_depends_on := sort (rc_depends_on c)\<rparr>"

lemma sort_depends_simps [simp]:
  "rc_task_key (sort_depends c) = rc_task_key c"
  "rc_contract_id (sort_depends c) = rc_contract_id c"
  "rc_contract_version (sort_depends c) = rc_contract_version c"
  "set (rc_depends_on (sort_depends c)) = set (rc_depends_on c)"
  "length (rc_depends_on (sort_depends c)) = length (rc_depends_on c)"
  "distinct (rc_depends_on (sort_depends c)) = distinct (rc_depends_on c)"
  by (simp_all add: sort_depends_def)

lemma normalize_contracts:
  "st_contracts (normalize s) = sort_key rc_task_key (map sort_depends (st_contracts s))"
  by (simp add: normalize_def sort_depends_def [abs_def])

lemma normalize_contracts_mset:
  "mset (st_contracts (normalize s)) = image_mset sort_depends (mset (st_contracts s))"
  by (simp add: normalize_contracts)

lemma set_normalize_contracts [simp]:
  "set (st_contracts (normalize s)) = sort_depends ` set (st_contracts s)"
  by (simp add: normalize_contracts)

lemma length_normalize_contracts [simp]:
  "length (st_contracts (normalize s)) = length (st_contracts s)"
  by (simp add: normalize_contracts)

lemma normalize_contract_keys:
  "mset (map rc_task_key (st_contracts (normalize s))) = mset (map rc_task_key (st_contracts s))"
  "mset (map rc_contract_id (st_contracts (normalize s))) = mset (map rc_contract_id (st_contracts s))"
  by (simp_all add: normalize_contracts_mset image_mset.compositionality comp_def)

lemma normalize_contract_distinct [simp]:
  "distinct (map rc_task_key (st_contracts (normalize s))) = distinct (map rc_task_key (st_contracts s))"
  "distinct (map rc_contract_id (st_contracts (normalize s))) = distinct (map rc_contract_id (st_contracts s))"
  using normalize_contract_keys [of s] by (metis mset_eq_imp_distinct_iff)+

lemma sum_list_normalize_contracts:
  "sum_list (map (length \<circ> rc_depends_on) (st_contracts (normalize s))) =
   sum_list (map (length \<circ> rc_depends_on) (st_contracts s))"
proof -
  have "mset (map (length \<circ> rc_depends_on) (st_contracts (normalize s))) =
        mset (map (length \<circ> rc_depends_on) (st_contracts s))"
    by (simp add: normalize_contracts_mset image_mset.compositionality comp_def)
  then show ?thesis by (metis sum_mset_sum_list)
qed

text \<open>With unshared task keys the edges do not depend on the order of the contracts.\<close>

lemma dependency_edges_distinct:
  assumes "distinct (map rc_task_key cs)"
  shows "dependency_edges cs = (\<Union>c \<in> set cs. {rc_task_key c} \<times> set (rc_depends_on c))"
proof -
  have "find (\<lambda>c. rc_task_key c = a) cs = Some c \<longleftrightarrow> c \<in> set cs \<and> rc_task_key c = a" for a c
    using find_distinct_key [OF assms, of c] find_task_key [of a cs c] by auto
  then show ?thesis by (auto simp: dependency_edges_def)
qed

lemma dependency_edges_normalize:
  assumes "distinct (map rc_task_key (st_contracts s))"
  shows "dependency_edges (st_contracts (normalize s)) = dependency_edges (st_contracts s)"
  by (simp add: dependency_edges_distinct assms)

lemma set_dependency_scope_normalize:
  assumes "distinct (map rc_task_key (st_contracts s))"
  shows "set (dependency_scope (st_contracts (normalize s)) key) =
         set (dependency_scope (st_contracts s) key)"
  by (simp add: set_dependency_scope dependency_edges_normalize assms)

lemma has_task_normalize [simp]: "has_task (normalize s) key = has_task s key"
  by (simp add: has_task_iff image_image)

lemma find_normalize:
  assumes "distinct (map f xs)" and "mset ys = mset xs"
  shows "find (\<lambda>v. f v = k) ys = find (\<lambda>v. f v = k) xs"
proof (cases "find (\<lambda>v. f v = k) xs")
  case None
  then have "find (\<lambda>v. f v = k) ys = None"
    using assms(2) by (metis find_None_iff set_mset_mset)
  with None show ?thesis by simp
next
  case (Some v)
  then have "v \<in> set ys" "f v = k"
    using find_Some_filter [OF Some] assms(2) by (auto dest: mset_eq_setD)
  moreover have "distinct (map f ys)" using assms mset_map_distinct by blast
  ultimately show ?thesis using find_distinct_key Some by metis
qed

lemma bounds_bad_normalize: "bounds_bad (normalize s) = bounds_bad s"
proof -
  have "st_contracts (normalize s) = [] \<longleftrightarrow> st_contracts s = []"
    by (metis length_0_conv length_normalize_contracts)
  moreover have "counts_of (normalize s) = counts_of s"
    by (simp add: counts_of_def)
  ultimately show ?thesis
    unfolding bounds_bad_def sum_list_normalize_contracts by simp
qed

lemma length_tasks_of:
  "length (tasks_of s) = length (st_contracts s) \<longleftrightarrow> distinct (map rc_task_key (st_contracts s))"
  using length_btree_collect_eq [of "map (\<lambda>v. (rc_task_key v, v)) (st_contracts s)"]
  by (simp add: tasks_of_def comp_def)

lemma identities_bad_normalize: "identities_bad (normalize s) = identities_bad s"
proof -
  have "length (tasks_of (normalize s)) = length (st_contracts (normalize s)) \<longleftrightarrow>
        length (tasks_of s) = length (st_contracts s)"
    unfolding length_tasks_of by simp
  moreover have "unique (st_artifact_digests (normalize s)) = unique (st_artifact_digests s)"
    "valid_ids (st_verifier_receipt_ids (normalize s)) = valid_ids (st_verifier_receipt_ids s)"
    using normalize_distinct [of "\<lambda>x. x" s]
    by (simp_all add: unique_def valid_ids_def)
  ultimately show ?thesis
    unfolding identities_bad_def unique_def valid_ids_def
    by (simp add: list_ex_iff)
qed

lemma dependencies_bad_normalize: "dependencies_bad (normalize s) = dependencies_bad s"
  by (simp add: dependencies_bad_def list_ex_iff unique_def)

lemma cyclic_bad_normalize:
  "distinct (map rc_task_key (st_contracts s)) \<Longrightarrow> cyclic_bad (normalize s) = cyclic_bad s"
  by (simp add: cyclic_bad_def list_ex_iff set_dependency_scope_normalize)

lemma resources_bad_normalize: "resources_bad (normalize s) = resources_bad s"
  by (simp add: resources_bad_def list_ex_iff)

lemma map_of_keyed_mset:
  assumes "distinct (map f xs)" and "mset ys = mset xs"
  shows "map_of (btree_collect (map (\<lambda>v. (f v, v)) ys)) k = map_of (btree_collect (map (\<lambda>v. (f v, v)) xs)) k"
proof -
  have "distinct (map f ys)" using assms mset_map_distinct by blast
  from map_of_keyed_distinct [OF this] map_of_keyed_distinct [OF assms(1)] find_normalize [OF assms]
  show ?thesis by simp
qed

lemma tables_normalize:
  assumes "\<not> identities_bad s"
  shows "map_of (leases_of (normalize s)) k = map_of (leases_of s) k"
    and "map_of (controllers_of (normalize s)) k = map_of (controllers_of s) k"
  unfolding leases_of_def controllers_of_def
  using identities_distinct [OF assms] by (auto intro!: map_of_keyed_mset normalize_msets
      simp del: map_of_btree_collect)

lemma find_sort_depends:
  assumes "distinct (map rc_task_key (st_contracts s))"
  shows "find (\<lambda>c. rc_task_key c = k) (st_contracts (normalize s)) =
         map_option sort_depends (find (\<lambda>c. rc_task_key c = k) (st_contracts s))"
proof (cases "find (\<lambda>c. rc_task_key c = k) (st_contracts s)")
  case None
  then have "find (\<lambda>c. rc_task_key c = k) (st_contracts (normalize s)) = None"
    by (auto simp: find_None_iff)
  with None show ?thesis by simp
next
  case (Some c)
  from find_task_key [OF Some]
  have "sort_depends c \<in> set (st_contracts (normalize s))" "rc_task_key (sort_depends c) = k" by auto
  then show ?thesis
    using find_distinct_key [of rc_task_key "st_contracts (normalize s)" "sort_depends c"] assms Some
    by simp
qed

lemma tasks_of_normalize:
  assumes "\<not> identities_bad s"
  shows "map_of (tasks_of (normalize s)) k = map_option sort_depends (map_of (tasks_of s) k)"
  using identities_distinct(1) [OF assms]
  by (simp add: tasks_of_def map_of_keyed_distinct find_sort_depends del: map_of_btree_collect)

lemma attempt_bad_normalize:
  "\<not> identities_bad s \<Longrightarrow> attempt_bad (normalize s) a = attempt_bad s a"
  by (simp add: attempt_bad_def tables_normalize tasks_of_normalize split: option.split)

lemma approval_bad_normalize:
  "\<not> identities_bad s \<Longrightarrow> approval_bad (normalize s) v = approval_bad s v"
  by (simp add: approval_bad_def tables_normalize list_ex_iff Let_def split: option.split)

lemma accounts_bad_normalize: "accounts_bad (normalize s) = accounts_bad s"
  by (simp add: accounts_bad_def list_ex_iff unique_def opt_task_bad_def cong: option.case_cong)

lemma next_action_bad_normalize: "next_action_bad (normalize s) = next_action_bad s"
  by (simp add: next_action_bad_def list_ex_iff split: recovery_action.split)

lemmas bad_normalize = bounds_bad_normalize identities_bad_normalize dependencies_bad_normalize
  resources_bad_normalize accounts_bad_normalize next_action_bad_normalize

lemma recovery_validate_normalize:
  "recovery_validate (normalize s) = Inr () \<longleftrightarrow> recovery_validate s = Inr ()"
proof (cases "identities_bad s")
  case False
  then show ?thesis
    using identities_distinct(1) [OF False]
    by (simp add: recovery_validate_iff bad_normalize cyclic_bad_normalize attempt_bad_normalize
        approval_bad_normalize)
qed (simp add: recovery_validate_iff bad_normalize)

lemma sort_key_idem: "sort_key f (sort_key f xs) = sort_key f xs"
  by (simp add: sort_key_id_if_sorted)

lemma normalize_idem: "normalize (normalize s) = normalize s"
proof -
  have "map sort_depends (sort_key rc_task_key (map sort_depends cs)) =
        sort_key rc_task_key (map sort_depends cs)" for cs
    by (rule map_idI) (auto simp: sort_depends_def sort_key_idem)
  then show ?thesis
    by (simp add: normalize_def sort_depends_def [abs_def, symmetric] sort_key_idem)
qed

section \<open>Continuity and readiness\<close>

lemma check_all_Inr:
  "length xs = length ys \<Longrightarrow>
   check_all f xs ys = Inr () \<longleftrightarrow> list_all2 (\<lambda>x y. f x y = Inr ()) xs ys"
  by (induction xs ys rule: list_induct2) (auto split: sum.splits)

lemma list_all2_ex: "list_all2 P xs ys \<Longrightarrow> x \<in> set xs \<Longrightarrow> \<exists>y \<in> set ys. P x y"
  by (metis in_set_conv_nth list_all2_conv_all_nth)

lemma continuity_facts:
  assumes "check_recovery_continuity saved current = Inr ()"
  shows "phase_is_terminal (st_workflow_phase saved) \<Longrightarrow>
           st_workflow_phase current = st_workflow_phase saved"
    and "st_workflow_phase saved = PhaseCancelRequested \<Longrightarrow>
           st_workflow_phase current = PhaseCancelRequested \<or> st_workflow_phase current = PhaseCancelled"
    and "st_workflow_version saved \<le> st_workflow_version current"
    and "st_committed_event_cursor saved \<le> st_committed_event_cursor current"
    and "lb_deadline_unix_ms (st_loop_budget current) = lb_deadline_unix_ms (st_loop_budget saved)"
    and "lb_decisions_remaining (st_loop_budget current) \<le> lb_decisions_remaining (st_loop_budget saved)"
    and "lb_malformed_repairs_remaining (st_loop_budget current)
          \<le> lb_malformed_repairs_remaining (st_loop_budget saved)"
    and "lb_model_requests_remaining (st_loop_budget current)
          \<le> lb_model_requests_remaining (st_loop_budget saved)"
    and "list_all2 (\<lambda>b c. budgets_continue b c = Inr ()) (st_task_budgets saved) (st_task_budgets current)"
    and "list_all2 (\<lambda>b c. cursors_continue b c = Inr ()) (st_message_cursors saved) (st_message_cursors current)"
    and "current = saved\<lparr>st_workflow_version := st_workflow_version current,
               st_workflow_phase := st_workflow_phase current,
               st_committed_event_cursor := st_committed_event_cursor current,
               st_loop_budget := st_loop_budget current,
               st_task_budgets := st_task_budgets current,
               st_message_cursors := st_message_cursors current\<rparr>"
  using assms unfolding check_recovery_continuity_def result_simps
  by (auto simp: not_less check_all_Inr)

lemma budgets_continue_Inr:
  "budgets_continue b c = Inr () \<longleftrightarrow>
     rb_task_key c = rb_task_key b \<and> rb_max_turns c = rb_max_turns b
     \<and> rb_max_repairs c = rb_max_repairs b \<and> rb_max_model_requests c = rb_max_model_requests b
     \<and> rb_turns_used b \<le> rb_turns_used c \<and> rb_repairs_used b \<le> rb_repairs_used c
     \<and> rb_model_requests_used b \<le> rb_model_requests_used c"
  unfolding budgets_continue_def result_simps by (auto simp: not_less)

lemma cursors_continue_Inr:
  "cursors_continue b c = Inr () \<longleftrightarrow>
     rm_participant_id c = rm_participant_id b \<and> rm_task_key c = rm_task_key b
     \<and> rm_inbox_sequence b \<le> rm_inbox_sequence c \<and> rm_outbox_sequence b \<le> rm_outbox_sequence c
     \<and> rm_acknowledged_outbox_sequence b \<le> rm_acknowledged_outbox_sequence c"
  unfolding cursors_continue_def result_simps by (auto simp: not_less)

text \<open>The checks before any decision, and the state in which a task may continue: nothing it depends
  on awaits an answer, is driven by a human, is unsettled or was not seen alive.\<close>

definition resume_admitted where
  "resume_admitted digest_of encoded_len checkpoint current observations \<longleftrightarrow>
     checkpoint_validate digest_of encoded_len checkpoint = Inr ()
     \<and> recovery_validate current = Inr ()
     \<and> check_recovery_continuity (ck_state checkpoint) (normalize current) = Inr ()
     \<and> check_observations (normalize current) observations = Inr ()"

definition settled_task :: "recovery_state \<Rightarrow> recovery_observations \<Rightarrow> spec_identifier \<Rightarrow> bool" where
  "settled_task current observations j \<longleftrightarrow>
     (\<forall>v \<in> set (st_pending_approvals current). rv_task_key v \<noteq> j)
     \<and> (\<forall>a \<in> set (st_attempts current). ra_task_key a = j \<longrightarrow> ra_state a = AttSettled)
     \<and> (\<forall>k \<in> set (st_controllers current). rk_task_key k = j \<longrightarrow> rk_phase k = CtlClosed
          \<or> ((\<forall>h. rk_owner k \<noteq> OwnerHuman h) \<and> rk_phase k \<noteq> CtlQuiescing
             \<and> rk_phase k \<noteq> CtlAwaitingAttach
             \<and> seen_present (os_controllers observations) (rk_controller_id k)))
     \<and> (\<forall>l \<in> set (st_leases current). rl_task_key l = j \<longrightarrow> \<not> holds_reservation (rl_state l)
          \<or> (rl_state l \<noteq> LeaseQuarantined \<and> seen_present (os_leases observations) (rl_lease_id l)))
     \<and> (\<forall>e \<in> set (st_unresolved_effects current). re_task_key e \<noteq> Some j)
     \<and> (\<forall>m \<in> set (st_message_cursors current). rm_task_key m = Some j \<longrightarrow>
          rm_outbox_sequence m \<le> rm_acknowledged_outbox_sequence m)"

definition settled_shared :: "recovery_state \<Rightarrow> bool" where
  "settled_shared current \<longleftrightarrow>
     (\<forall>e \<in> set (st_unresolved_effects current). re_task_key e \<noteq> None)
     \<and> (\<forall>m \<in> set (st_message_cursors current). rm_task_key m = None \<longrightarrow>
          rm_outbox_sequence m \<le> rm_acknowledged_outbox_sequence m)"

lemma nothing_open_iff:
  assumes "tasks \<noteq> []"
  shows "awaiting_approvals s tasks = [] \<and> human_controllers s tasks = [] \<and> unsettled_attempts s tasks = []
     \<and> doubtful_controllers s obs tasks = [] \<and> doubtful_leases s obs tasks = []
     \<and> open_effects s tasks = [] \<and> open_outboxes s tasks = []
   \<longleftrightarrow> settled_shared s \<and> (\<forall>j \<in> set tasks. settled_task s obs j)"
    (is "?L \<longleftrightarrow> ?R")
proof
  assume ?L
  then show ?R
    unfolding awaiting_approvals_def human_controllers_def unsettled_attempts_def
      doubtful_controllers_def doubtful_leases_def open_effects_def open_outboxes_def
      settled_shared_def settled_task_def relevant_opt_def
    by (auto simp: filter_empty_conv not_less split: controller_owner.splits option.splits)
next
  assume r: ?R
  have "settled_task s obs j" if "j \<in> set tasks" for j using r that by blast
  then show ?L
    using r unfolding awaiting_approvals_def human_controllers_def unsettled_attempts_def
      doubtful_controllers_def doubtful_leases_def open_effects_def open_outboxes_def
      settled_shared_def settled_task_def relevant_opt_def
    by (auto simp: filter_empty_conv not_less split: controller_owner.splits option.splits) metis+
qed

lemma settled_normalize [simp]:
  "settled_task (normalize s) = settled_task s"
  "settled_shared (normalize s) = settled_shared s"
  by (simp_all add: settled_task_def settled_shared_def fun_eq_iff)

lemma resume_authorized_normalize [simp]:
  "resume_authorized ck (normalize s) auth = resume_authorized ck s auth"
  by (simp add: resume_authorized_def split: resume_authorization.split)

lemma dependency_scope_not_Nil: "dependency_scope cs key \<noteq> []"
  using set_dependency_scope [of cs key] by (metis Image_singleton_iff empty_iff empty_set rtrancl.rtrancl_refl)

lemma assess_task_Ready_iff:
  "assess_task ck s obs auth now key = Inr (Ready k budget tb) \<longleftrightarrow>
     k = key \<and> budget = st_loop_budget s
     \<and> settled_shared s \<and> (\<forall>j \<in> set (dependency_scope (st_contracts s) key). settled_task s obs j)
     \<and> resume_authorized ck s auth
     \<and> find (\<lambda>b. rb_task_key b = key) (st_task_budgets s) = Some tb
     \<and> now < lb_deadline_unix_ms budget \<and> lb_decisions_remaining budget \<noteq> 0
     \<and> lb_model_requests_remaining budget \<noteq> 0 \<and> rb_turns_used tb < rb_max_turns tb
     \<and> rb_model_requests_used tb < rb_max_model_requests tb"
proof -
  let ?T = "dependency_scope (st_contracts s) key"
  note iff = nothing_open_iff [OF dependency_scope_not_Nil, of s "st_contracts s" key obs]
  show ?thesis
  proof (cases "settled_shared s \<and> (\<forall>j \<in> set ?T. settled_task s obs j)")
    case True
    with iff have "awaiting_approvals s ?T = []" "human_controllers s ?T = []"
      "unsettled_attempts s ?T = []" "doubtful_controllers s obs ?T = []"
      "doubtful_leases s obs ?T = []" "open_effects s ?T = []" "open_outboxes s ?T = []"
      by blast+
    with True show ?thesis
      unfolding assess_task_def Let_def by (auto simp: not_le split: option.splits)
  next
    case False
    with iff have "\<not> (awaiting_approvals s ?T = [] \<and> human_controllers s ?T = []
      \<and> unsettled_attempts s ?T = [] \<and> doubtful_controllers s obs ?T = []
      \<and> doubtful_leases s obs ?T = [] \<and> open_effects s ?T = [] \<and> open_outboxes s ?T = [])"
      by blast
    then have "assess_task ck s obs auth now key \<noteq> Inr (Ready k budget tb)"
      unfolding assess_task_def Let_def by (auto split: if_splits)
    with False show ?thesis by blast
  qed
qed

lemma find_budget_iff:
  assumes "recovery_validate s = Inr ()"
  shows "find (\<lambda>b. rb_task_key b = key) (st_task_budgets (normalize s)) = Some tb \<longleftrightarrow>
         tb \<in> set (st_task_budgets s) \<and> rb_task_key tb = key"
proof -
  have "distinct (map rb_task_key (st_task_budgets (normalize s)))"
    using assms by (simp add: recovery_validate_iff accounts_bad_def unique_def)
  from find_distinct_key [OF this, of tb]
  show ?thesis by (auto dest!: find_Some_filter)
qed

lemma assess_resume_Inr:
  "assess_resume dig len ck s obs auth now = Inr d \<longleftrightarrow>
     resume_admitted dig len ck s obs \<and>
     (if phase_is_terminal (st_workflow_phase s) \<or> st_workflow_phase s = PhaseCancelRequested
      then d = WorkflowStopped
      else (case st_next_action s of
         ActContinueTask key \<Rightarrow>
           if cx_configured_context_tokens (st_context_settings s) = None
              \<or> cx_compaction_settings_digest (st_context_settings s) = None
           then d = ContextSettingsUnknown
           else assess_task ck (normalize s) obs auth now key = Inr d
       | a \<Rightarrow> d = ReadOnly a))"
  unfolding assess_resume_def resume_admitted_def Let_def result_simps
  by (auto split: recovery_action.splits)

text \<open>C15. Resuming: \<open>assess_resume\<close> declares a task ready exactly when checkpoint, state, continuity and
  observations pass, the workflow is not stopped, the task is the recorded next action with known
  context settings, every task in the dependency closure is settled (no pending approval, unsettled
  attempt, human or unseen controller, quarantined or unseen lease, open effect or unacknowledged
  outbox), the resume is authorised, and loop and task budgets are left.\<close>

theorem resume_ready_exact:
  "assess_resume digest_of encoded_len ck s obs auth now = Inr (Ready key budget tb) \<longleftrightarrow>
     resume_admitted digest_of encoded_len ck s obs
     \<and> \<not> phase_is_terminal (st_workflow_phase s) \<and> st_workflow_phase s \<noteq> PhaseCancelRequested
     \<and> st_next_action s = ActContinueTask key
     \<and> cx_configured_context_tokens (st_context_settings s) \<noteq> None
     \<and> cx_compaction_settings_digest (st_context_settings s) \<noteq> None
     \<and> settled_shared s
     \<and> {j. (key, j) \<in> (dependency_edges (st_contracts s))\<^sup>*} \<subseteq> {j. settled_task s obs j}
     \<and> resume_authorized ck s auth
     \<and> budget = st_loop_budget s \<and> now < lb_deadline_unix_ms budget
     \<and> lb_decisions_remaining budget \<noteq> 0 \<and> lb_model_requests_remaining budget \<noteq> 0
     \<and> tb \<in> set (st_task_budgets s) \<and> rb_task_key tb = key
     \<and> rb_turns_used tb < rb_max_turns tb \<and> rb_model_requests_used tb < rb_max_model_requests tb"
proof (cases "recovery_validate s = Inr ()")
  case True
  then have "distinct (map rc_task_key (st_contracts s))"
    by (simp add: recovery_validate_iff identities_distinct)
  note dependency_edges_normalize [OF this]
  then have scope: "set (dependency_scope (st_contracts (normalize s)) k) =
      {j. (k, j) \<in> (dependency_edges (st_contracts s))\<^sup>*}" for k
    by (auto simp: set_dependency_scope)
  show ?thesis
    unfolding assess_resume_Inr
    by (cases "st_next_action s")
      (auto simp: assess_task_Ready_iff find_budget_iff [OF True] scope)
next
  case False
  then show ?thesis by (simp add: assess_resume_Inr resume_admitted_def)
qed

section \<open>An instance\<close>

text \<open>Task \<open>b\<close> depends on the settled task \<open>a\<close> and is to continue.\<close>

definition example_contracts :: "recovery_contract_ref list" where
  "example_contracts =
     [\<lparr>rc_task_key = ''a'', rc_contract_id = 1, rc_contract_version = 1, rc_template_digest = 7,
       rc_depends_on = []\<rparr>,
      \<lparr>rc_task_key = ''b'', rc_contract_id = 2, rc_contract_version = 1, rc_template_digest = 7,
       rc_depends_on = [''a'']\<rparr>]"

definition example_recovery_state :: recovery_state where
  "example_recovery_state = \<lparr>
     st_workflow_id = 1, st_workflow_version = 3, st_workflow_phase = PhaseRunning,
     st_plan_generation = 1, st_plan_digest = 5, st_policy_digest = 6, st_committed_event_cursor = 9,
     st_contracts = example_contracts,
     st_attempts = [\<lparr>ra_request_id = 11, ra_submission_id = 12, ra_task_key = ''a'', ra_contract_id = 1,
        ra_lease_id = 21, ra_lease_generation = 1, ra_controller_id = 31, ra_controller_generation = 1,
        ra_state = AttSettled\<rparr>],
     st_leases = [\<lparr>rl_lease_id = 21, rl_task_key = ''a'', rl_generation = 1, rl_state = LeaseActive\<rparr>],
     st_controllers = [\<lparr>rk_controller_id = 31, rk_session_id = 32, rk_task_key = ''a'', rk_generation = 1,
        rk_version = 1, rk_owner = OwnerNative, rk_phase = CtlActive\<rparr>],
     st_pending_approvals = [],
     st_message_cursors = [\<lparr>rm_participant_id = 41, rm_task_key = Some ''b'', rm_inbox_sequence = 2,
        rm_outbox_sequence = 4, rm_acknowledged_outbox_sequence = 4\<rparr>],
     st_artifact_digests = [8], st_verifier_receipt_ids = [51], st_unresolved_effects = [],
     st_loop_budget = \<lparr>lb_decisions_remaining = 3, lb_malformed_repairs_remaining = 1,
        lb_model_requests_remaining = 5, lb_deadline_unix_ms = 1000\<rparr>,
     st_task_budgets =
       [\<lparr>rb_task_key = ''a'', rb_turns_used = 1, rb_max_turns = 2, rb_repairs_used = 0, rb_max_repairs = 1,
         rb_model_requests_used = 1, rb_max_model_requests = 4\<rparr>,
        \<lparr>rb_task_key = ''b'', rb_turns_used = 0, rb_max_turns = 2, rb_repairs_used = 0, rb_max_repairs = 1,
         rb_model_requests_used = 0, rb_max_model_requests = 4\<rparr>],
     st_context_settings = \<lparr>cx_configured_context_tokens = Some 100, cx_compaction_settings_digest = Some 3\<rparr>,
     st_preapproved_resume_policy = None, st_next_action = ActContinueTask ''b''\<rparr>"

definition example_checkpoint :: recovery_checkpoint where
  "example_checkpoint = \<lparr>ck_schema_version = 1, ck_checkpoint_id = 77,
     ck_state = example_recovery_state, ck_state_digest = 99\<rparr>"

definition example_observations :: recovery_observations where
  "example_observations = \<lparr>os_workflow_version = 3,
     os_controllers = [\<lparr>ro_resource_id = 31, ro_obs_generation = 1, ro_presence = PresPresent\<rparr>],
     os_leases = [\<lparr>ro_resource_id = 21, ro_obs_generation = 1, ro_presence = PresPresent\<rparr>]\<rparr>"

lemma example_validates: "recovery_validate example_recovery_state = Inr ()"
  by code_simp

lemma example_normal: "normalize example_recovery_state = example_recovery_state"
  by code_simp

lemma example_checkpoint_validates:
  "checkpoint_validate (\<lambda>_. Some 99) (\<lambda>_. Some 4096) example_checkpoint = Inr ()"
  by (simp add: checkpoint_validate_def example_checkpoint_def example_validates example_normal
      RECOVERY_CHECKPOINT_SCHEMA_VERSION_def MAX_RECOVERY_CHECKPOINT_BYTES_def)

lemma example_admitted:
  "resume_admitted (\<lambda>_. Some 99) (\<lambda>_. Some 4096) example_checkpoint example_recovery_state
     example_observations"
proof -
  have "check_recovery_continuity example_recovery_state example_recovery_state = Inr ()"
    by code_simp
  moreover have "check_observations example_recovery_state example_observations = Inr ()"
    by code_simp
  ultimately show ?thesis
    by (simp add: resume_admitted_def example_checkpoint_validates example_validates example_normal)
      (simp add: example_checkpoint_def)
qed

lemma example_ready:
  "assess_resume (\<lambda>_. Some 99) (\<lambda>_. Some 4096) example_checkpoint example_recovery_state
     example_observations (OperatorStart 77 3) 500 =
   Inr (Ready ''b'' (st_loop_budget example_recovery_state) (st_task_budgets example_recovery_state ! 1))"
proof -
  have "assess_task example_checkpoint example_recovery_state example_observations (OperatorStart 77 3) 500
      ''b'' = Inr (Ready ''b'' (st_loop_budget example_recovery_state)
        (st_task_budgets example_recovery_state ! 1))"
    by code_simp
  then show ?thesis
    unfolding assess_resume_Inr example_normal
    by (simp add: example_admitted) (simp add: example_recovery_state_def phase_is_terminal_def)
qed

text \<open>C26. Continuity: whatever \<open>assess_resume\<close> decides, it has checked that the current state continues
  the checkpoint. The deadline is the same, no loop allowance grew, no task budget lost usage or gained
  maximum, versions and cursors did not go back, plan and policy are unchanged, and a workflow that was
  terminal in the checkpoint is still in that phase and stays stopped.\<close>

theorem resume_never_resets:
  assumes "assess_resume digest_of encoded_len ck s obs auth now = Inr d"
  defines "saved \<equiv> ck_state ck"
  shows "lb_deadline_unix_ms (st_loop_budget s) = lb_deadline_unix_ms (st_loop_budget saved)
     \<and> lb_decisions_remaining (st_loop_budget s) \<le> lb_decisions_remaining (st_loop_budget saved)
     \<and> lb_malformed_repairs_remaining (st_loop_budget s) \<le> lb_malformed_repairs_remaining (st_loop_budget saved)
     \<and> lb_model_requests_remaining (st_loop_budget s) \<le> lb_model_requests_remaining (st_loop_budget saved)
     \<and> (\<forall>b \<in> set (st_task_budgets saved). \<exists>c \<in> set (st_task_budgets s).
          rb_task_key c = rb_task_key b \<and> rb_max_turns c = rb_max_turns b
          \<and> rb_max_repairs c = rb_max_repairs b \<and> rb_max_model_requests c = rb_max_model_requests b
          \<and> rb_turns_used b \<le> rb_turns_used c \<and> rb_repairs_used b \<le> rb_repairs_used c
          \<and> rb_model_requests_used b \<le> rb_model_requests_used c)
     \<and> (\<forall>m \<in> set (st_message_cursors saved). \<exists>n \<in> set (st_message_cursors s).
          rm_participant_id n = rm_participant_id m \<and> rm_task_key n = rm_task_key m
          \<and> rm_inbox_sequence m \<le> rm_inbox_sequence n \<and> rm_outbox_sequence m \<le> rm_outbox_sequence n
          \<and> rm_acknowledged_outbox_sequence m \<le> rm_acknowledged_outbox_sequence n)
     \<and> st_workflow_version saved \<le> st_workflow_version s
     \<and> st_committed_event_cursor saved \<le> st_committed_event_cursor s
     \<and> st_workflow_id s = st_workflow_id saved \<and> st_plan_digest s = st_plan_digest saved
     \<and> st_policy_digest s = st_policy_digest saved \<and> st_context_settings s = st_context_settings saved
     \<and> set (st_attempts s) = set (st_attempts saved)
     \<and> (phase_is_terminal (st_workflow_phase saved) \<longrightarrow>
          st_workflow_phase s = st_workflow_phase saved \<and> d = WorkflowStopped)"
proof -
  from assms(1) have cont: "check_recovery_continuity saved (normalize s) = Inr ()"
    and stop: "phase_is_terminal (st_workflow_phase s) \<Longrightarrow> d = WorkflowStopped"
    unfolding assess_resume_Inr resume_admitted_def saved_def by auto
  note facts = continuity_facts [OF cont]
  have same: "st_plan_digest (normalize s) = st_plan_digest s" "st_policy_digest (normalize s) = st_policy_digest s"
    by (simp_all add: normalize_def)
  have eq: "st_workflow_id s = st_workflow_id saved" "st_plan_digest s = st_plan_digest saved"
    "st_policy_digest s = st_policy_digest saved" "st_context_settings s = st_context_settings saved"
    "set (st_attempts s) = set (st_attempts saved)"
    using arg_cong [OF facts(11), of st_workflow_id] arg_cong [OF facts(11), of st_plan_digest]
      arg_cong [OF facts(11), of st_policy_digest] arg_cong [OF facts(11), of st_context_settings]
      arg_cong [OF facts(11), of "\<lambda>t. set (st_attempts t)"] same
    by simp_all
  have budgets: "\<exists>c \<in> set (st_task_budgets s). budgets_continue b c = Inr ()"
    if "b \<in> set (st_task_budgets saved)" for b
    using list_all2_ex [OF facts(9) that] by simp
  have cursors: "\<exists>n \<in> set (st_message_cursors s). cursors_continue m n = Inr ()"
    if "m \<in> set (st_message_cursors saved)" for m
    using list_all2_ex [OF facts(10) that] by simp
  have "phase_is_terminal (st_workflow_phase saved) \<longrightarrow>
      st_workflow_phase s = st_workflow_phase saved \<and> d = WorkflowStopped"
    using facts(1) stop by auto
  then show ?thesis
    using facts(3-8) eq budgets cursors
    unfolding budgets_continue_Inr cursors_continue_Inr by simp
qed

theorem resume_never_resets_witness:
  "lb_deadline_unix_ms (st_loop_budget example_recovery_state) =
   lb_deadline_unix_ms (st_loop_budget (ck_state example_checkpoint))
   \<and> st_workflow_version (ck_state example_checkpoint) \<le> st_workflow_version example_recovery_state"
  using resume_never_resets [OF example_ready] by blast

text \<open>Checkpoints: one is created exactly from a valid state, with a non-nil identifier and an encoding
  within the size limit; it holds the normal form of the state and its digest, and it passes its own
  validation, so normalising never makes a valid state invalid.\<close>

theorem checkpoint_new_exact:
  "(checkpoint_new digest_of encoded_len i s = Inr ck \<longleftrightarrow>
     recovery_validate s = Inr () \<and> i \<noteq> 0
     \<and> (\<exists>dig len. digest_of (normalize s) = Some dig \<and> encoded_len ck = Some len
          \<and> len \<le> MAX_RECOVERY_CHECKPOINT_BYTES
          \<and> ck = \<lparr>ck_schema_version = RECOVERY_CHECKPOINT_SCHEMA_VERSION, ck_checkpoint_id = i,
                  ck_state = normalize s, ck_state_digest = dig\<rparr>))
   \<and> (checkpoint_new digest_of encoded_len i s = Inr ck \<longrightarrow>
        checkpoint_validate digest_of encoded_len ck = Inr ())"
  unfolding checkpoint_new_def checkpoint_validate_def Let_def result_simps
  by (auto simp: recovery_validate_normalize normalize_idem not_less)

theorem checkpoint_new_exact_witness:
  "checkpoint_new (\<lambda>_. Some 99) (\<lambda>_. Some 4096) 77 example_recovery_state = Inr example_checkpoint
   \<and> checkpoint_validate (\<lambda>_. Some 99) (\<lambda>_. Some 4096) example_checkpoint = Inr ()"
proof -
  have "checkpoint_new (\<lambda>_. Some 99) (\<lambda>_. Some 4096) 77 example_recovery_state = Inr example_checkpoint"
    using example_checkpoint_validates
    by (simp add: checkpoint_new_def example_validates example_normal Let_def example_checkpoint_def
        RECOVERY_CHECKPOINT_SCHEMA_VERSION_def)
  with checkpoint_new_exact [of "\<lambda>_. Some 99" "\<lambda>_. Some 4096" 77 example_recovery_state example_checkpoint]
  show ?thesis by blast
qed

text \<open>A valid recovery state is closed: its tasks have different keys and an acyclic dependency
  relation among themselves, every attempt names a contract, a lease and a controller of its own task
  at the recorded generations (and an unsettled one a lease that still reserves), every pending
  approval belongs to an unsettled attempt of its controller, and every task has its own budget, not
  overspent.\<close>

theorem recovery_state_sound:
  assumes "recovery_validate s = Inr ()"
  shows "distinct (map rc_task_key (st_contracts s))
     \<and> acyclic (dependency_edges (st_contracts s))
     \<and> (\<forall>c \<in> set (st_contracts s). set (rc_depends_on c) \<subseteq> rc_task_key ` set (st_contracts s))
     \<and> (\<forall>a \<in> set (st_attempts s).
          \<exists>c \<in> set (st_contracts s). \<exists>l \<in> set (st_leases s). \<exists>k \<in> set (st_controllers s).
            rc_task_key c = ra_task_key a \<and> rc_contract_id c = ra_contract_id a
            \<and> rl_lease_id l = ra_lease_id a \<and> rl_task_key l = ra_task_key a
            \<and> rl_generation l = ra_lease_generation a
            \<and> (ra_state a \<noteq> AttSettled \<longrightarrow> holds_reservation (rl_state l))
            \<and> rk_controller_id k = ra_controller_id a \<and> rk_task_key k = ra_task_key a
            \<and> rk_generation k = ra_controller_generation a)
     \<and> (\<forall>v \<in> set (st_pending_approvals s).
          \<exists>k \<in> set (st_controllers s). \<exists>a \<in> set (st_attempts s).
            rk_controller_id k = cf_controller_id (ac_controller (rv_challenge v))
            \<and> rk_generation k = cf_generation (ac_controller (rv_challenge v))
            \<and> rk_session_id k = ac_session_id (rv_challenge v) \<and> rk_task_key k = rv_task_key v
            \<and> ra_submission_id a = ac_submission_id (rv_challenge v)
            \<and> ra_controller_id a = rk_controller_id k \<and> ra_task_key a = rv_task_key v
            \<and> ra_state a \<in> {AttSubmitted, AttRunning, AttUnknown})
     \<and> (\<forall>c \<in> set (st_contracts s). \<exists>!b. b \<in> set (st_task_budgets s) \<and> rb_task_key b = rc_task_key c)
     \<and> (\<forall>b \<in> set (st_task_budgets s). rb_turns_used b \<le> rb_max_turns b
          \<and> rb_repairs_used b \<le> rb_max_repairs b \<and> rb_model_requests_used b \<le> rb_max_model_requests b)"
proof (intro conjI ballI)
  note v = assms [unfolded recovery_validate_iff]
  show "distinct (map rc_task_key (st_contracts s))"
    using v identities_distinct by blast
  show "acyclic (dependency_edges (st_contracts s))"
    using v acyclic_if_not_cyclic_bad by blast
  show "set (rc_depends_on c) \<subseteq> rc_task_key ` set (st_contracts s)" if "c \<in> set (st_contracts s)" for c
    using v that by (auto simp: dependencies_bad_def list_ex_iff has_task_iff)
  show "\<exists>c \<in> set (st_contracts s). \<exists>l \<in> set (st_leases s). \<exists>k \<in> set (st_controllers s).
            rc_task_key c = ra_task_key a \<and> rc_contract_id c = ra_contract_id a
            \<and> rl_lease_id l = ra_lease_id a \<and> rl_task_key l = ra_task_key a
            \<and> rl_generation l = ra_lease_generation a
            \<and> (ra_state a \<noteq> AttSettled \<longrightarrow> holds_reservation (rl_state l))
            \<and> rk_controller_id k = ra_controller_id a \<and> rk_task_key k = ra_task_key a
            \<and> rk_generation k = ra_controller_generation a" if "a \<in> set (st_attempts s)" for a
    using v that by (metis attempt_resolves)
  show "\<exists>k \<in> set (st_controllers s). \<exists>a \<in> set (st_attempts s).
            rk_controller_id k = cf_controller_id (ac_controller (rv_challenge u))
            \<and> rk_generation k = cf_generation (ac_controller (rv_challenge u))
            \<and> rk_session_id k = ac_session_id (rv_challenge u) \<and> rk_task_key k = rv_task_key u
            \<and> ra_submission_id a = ac_submission_id (rv_challenge u)
            \<and> ra_controller_id a = rk_controller_id k \<and> ra_task_key a = rv_task_key u
            \<and> ra_state a \<in> {AttSubmitted, AttRunning, AttUnknown}"
    if "u \<in> set (st_pending_approvals s)" for u
    using v that by (metis approval_resolves)
  have unique_key: "distinct (map rb_task_key (st_task_budgets s))"
    using v by (simp add: accounts_bad_def unique_def)
  show "\<exists>!b. b \<in> set (st_task_budgets s) \<and> rb_task_key b = rc_task_key c"
    if c: "c \<in> set (st_contracts s)" for c
  proof -
    have "has_task s (rc_task_key c)" using c by (simp add: has_task_iff)
    with v obtain b where "b \<in> set (st_task_budgets s)" "rb_task_key b = rc_task_key c"
      using budget_of_task by metis
    with unique_key show ?thesis by (auto simp: distinct_map inj_on_def)
  qed
  show "rb_turns_used b \<le> rb_max_turns b" "rb_repairs_used b \<le> rb_max_repairs b"
    "rb_model_requests_used b \<le> rb_max_model_requests b" if "b \<in> set (st_task_budgets s)" for b
    using v that by (auto simp: accounts_bad_def list_ex_iff not_less)
qed

theorem recovery_state_sound_witness:
  "acyclic (dependency_edges example_contracts)"
  using recovery_state_sound [OF example_validates] by (simp add: example_recovery_state_def)

text \<open>C27. The work list terminates with the reflexive transitive closure of the dependencies, each task
  once.\<close>

theorem dependency_scope_is_closure:
  "set (dependency_scope contracts key) = {j. (key, j) \<in> (dependency_edges contracts)\<^sup>*}
   \<and> distinct (dependency_scope contracts key)"
  using set_dependency_scope [of contracts key] scope_loop_distinct [of "[]" contracts "[key]"]
  by (auto simp: dependency_scope_def)

end
