(* ===== verification/Digests.thy ===== *)
theory Digests
  imports Vm_Prelude
begin

text \<open>
  Digests, \<open>crates/vibemux_harness/src/dispatch/digest.rs\<close>: the domain-separated hash of
  length-prefixed fields and the hexadecimal form of a digest. SHA-256 is the parameter \<open>sha256\<close>;
  \<open>hash_preimage\<close> is the sequence of bytes the hasher is fed.

  The lemmas show that the preimage determines domain and fields, so two different sequences of
  fields never meet before the hash itself collides, and that the hexadecimal form round-trips.
\<close>

section \<open>Big-endian bytes\<close>

text \<open>\<open>to_be_bytes\<close> of a number of \<open>k\<close> bytes, and the number the bytes spell.\<close>

fun be_bytes :: "nat \<Rightarrow> nat \<Rightarrow> string" where
  "be_bytes 0 n = []"
| "be_bytes (Suc k) n = be_bytes k (n div 256) @ [char_of (n mod 256)]"

definition from_be_bytes :: "string \<Rightarrow> nat" where
  "from_be_bytes bs = foldl (\<lambda>a b. a * 256 + byte b) 0 bs"

lemma length_be_bytes [simp]: "length (be_bytes k n) = k"
  by (induction k arbitrary: n) auto

lemma from_be_bytes_append [simp]: "from_be_bytes (bs @ [b]) = from_be_bytes bs * 256 + byte b"
  by (simp add: from_be_bytes_def)

lemma from_be_bytes_Nil [simp]: "from_be_bytes [] = 0"
  by (simp add: from_be_bytes_def)

lemma byte_less: "byte c < 256"
  by (metis of_char_mod_256 mod_less_divisor zero_less_numeral)

lemma from_be_be_bytes: "n < 256 ^ k \<Longrightarrow> from_be_bytes (be_bytes k n) = n"
proof (induction k arbitrary: n)
  case (Suc k)
  then have "n div 256 < 256 ^ k" by (simp add: less_mult_imp_div_less mult.commute)
  with Suc.IH show ?case by simp
qed simp

lemma be_from_be_bytes: "be_bytes (length bs) (from_be_bytes bs) = bs"
proof (induction bs rule: rev_induct)
  case (snoc b bs)
  have "(from_be_bytes bs * 256 + byte b) div 256 = from_be_bytes bs"
    using byte_less [of b] by simp
  moreover have "(from_be_bytes bs * 256 + byte b) mod 256 = byte b"
    using byte_less [of b] by simp
  ultimately show ?case using snoc by simp
qed simp

lemma from_be_bytes_less: "from_be_bytes bs < 256 ^ length bs"
proof (induction bs rule: rev_induct)
  case (snoc b bs)
  have "from_be_bytes bs * 256 + byte b < (from_be_bytes bs + 1) * 256"
    using byte_less [of b] by simp
  also have "\<dots> \<le> 256 ^ length bs * 256" using snoc by (intro mult_right_mono) auto
  finally show ?case by (simp add: mult.commute)
qed simp

section \<open>Length-prefixed fields\<close>

text \<open>\<open>hash_fields\<close>: the domain, a zero byte, and every field after its length in eight bytes
  (\<open>field.len() as u64\<close>).\<close>

definition field_bytes :: "string \<Rightarrow> string" where
  "field_bytes field = be_bytes 8 (length field) @ field"

definition hash_preimage :: "string \<Rightarrow> string list \<Rightarrow> string" where
  "hash_preimage domain fields = domain @ [CHR 0x00] @ concat (map field_bytes fields)"

definition hash_fields :: "(string \<Rightarrow> digest) \<Rightarrow> string \<Rightarrow> string list \<Rightarrow> digest" where
  "hash_fields sha256 domain fields = sha256 (hash_preimage domain fields)"

lemma field_bytes_inject:
  assumes "field_bytes f @ r = field_bytes g @ s"
    and "length f < 2 ^ 64" and "length g < 2 ^ 64"
  shows "f = g \<and> r = s"
proof -
  from assms(1) have pre: "be_bytes 8 (length f) = be_bytes 8 (length g)" and eq: "f @ r = g @ s"
    by (simp_all add: field_bytes_def)
  have bound: "(2 :: nat) ^ 64 = 256 ^ 8" by simp
  have "length f = from_be_bytes (be_bytes 8 (length f))"
    by (rule from_be_be_bytes [symmetric]) (use assms(2) bound in linarith)
  also have "\<dots> = length g"
    unfolding pre by (rule from_be_be_bytes) (use assms(3) bound in linarith)
  finally have "length f = length g" .
  with eq show ?thesis by simp
qed

lemma field_bytes_not_Nil [simp]: "field_bytes f \<noteq> []"
  by (metis append_is_Nil_conv field_bytes_def length_0_conv length_be_bytes zero_neq_numeral)

lemma concat_field_bytes_inject:
  assumes "concat (map field_bytes fs) = concat (map field_bytes gs)"
    and "\<forall>f \<in> set fs. length f < 2 ^ 64" and "\<forall>g \<in> set gs. length g < 2 ^ 64"
  shows "fs = gs"
  using assms
proof (induction fs arbitrary: gs)
  case Nil
  then show ?case by (cases gs) auto
next
  case (Cons f fs)
  then obtain g gs' where gs: "gs = g # gs'"
    by (cases gs) auto
  with Cons.prems have "field_bytes f @ concat (map field_bytes fs) = field_bytes g @ concat (map field_bytes gs')"
    by simp
  then have "f = g" "concat (map field_bytes fs) = concat (map field_bytes gs')"
    using field_bytes_inject Cons.prems gs by (meson list.set_intros(1))+
  with Cons gs show ?case by simp
qed

lemma append_sep_inject:
  assumes "xs @ z # ys = us @ z # vs" and "z \<notin> set xs" and "z \<notin> set us"
  shows "xs = us \<and> ys = vs"
  using assms
proof (induction xs arbitrary: us)
  case Nil
  then show ?case by (cases us) auto
next
  case (Cons x xs)
  then show ?case by (cases us) auto
qed

lemma hash_preimage_inject:
  assumes "hash_preimage d fs = hash_preimage e gs"
    and "CHR 0x00 \<notin> set d" and "CHR 0x00 \<notin> set e"
    and "\<forall>f \<in> set fs. length f < 2 ^ 64" and "\<forall>g \<in> set gs. length g < 2 ^ 64"
  shows "d = e \<and> fs = gs"
proof -
  from assms(1) have "d @ CHR 0x00 # concat (map field_bytes fs) = e @ CHR 0x00 # concat (map field_bytes gs)"
    by (simp add: hash_preimage_def)
  from append_sep_inject [OF this assms(2,3)] concat_field_bytes_inject assms(4,5)
  show ?thesis by blast
qed

section \<open>Hexadecimal text\<close>

definition HEX :: string where "HEX = ''0123456789abcdef''"

definition nibble :: "char \<Rightarrow> nat option" where
  "nibble b =
     (if 48 \<le> byte b \<and> byte b \<le> 57 then Some (byte b - 48)
      else if 97 \<le> byte b \<and> byte b \<le> 102 then Some (byte b - 97 + 10)
      else None)"

definition digest_as_bytes :: "digest \<Rightarrow> string" where
  "digest_as_bytes d = be_bytes 32 (unat d)"

definition digest_of_bytes :: "string \<Rightarrow> digest" where
  "digest_of_bytes bs = word_of_nat (from_be_bytes bs)"

definition to_hex :: "digest \<Rightarrow> string" where
  "to_hex d = concat (map (\<lambda>b. [HEX ! (byte b div 16), HEX ! (byte b mod 16)]) (digest_as_bytes d))"

text \<open>The loop over \<open>chunks_exact(2)\<close>, which returns at the first character that is no digit.\<close>

fun hex_pairs :: "string \<Rightarrow> string option" where
  "hex_pairs (a # b # rest) =
     (case (nibble a, nibble b) of
        (Some h, Some l) \<Rightarrow> map_option (\<lambda>bs. char_of (h * 16 + l) # bs) (hex_pairs rest)
      | _ \<Rightarrow> None)"
| "hex_pairs _ = Some []"

definition from_hex :: "string \<Rightarrow> digest option" where
  "from_hex text = (if length text \<noteq> 64 then None else map_option digest_of_bytes (hex_pairs text))"

lemma nibble_HEX: "n < 16 \<Longrightarrow> nibble (HEX ! n) = Some n"
proof -
  have "list_all (\<lambda>n. nibble (HEX ! n) = Some n) [0..<16]" by code_simp
  then show "n < 16 \<Longrightarrow> nibble (HEX ! n) = Some n" by (simp add: list_all_iff)
qed

lemma HEX_nibble:
  assumes "nibble c = Some n"
  shows "n < 16 \<and> HEX ! n = c"
proof -
  have "list_all (\<lambda>n. HEX ! n = char_of (if n < 10 then 48 + n else 87 + n)) [0..<16]" by code_simp
  then have hex: "HEX ! m = char_of (if m < 10 then 48 + m else 87 + m)" if "m < 16" for m
    using that by (simp add: list_all_iff)
  have "n < 16 \<and> byte c = (if n < 10 then 48 + n else 87 + n)"
    using assms by (auto simp: nibble_def split: if_splits)
  then have "n < 16" and "c = char_of (if n < 10 then 48 + n else 87 + n)"
    by (metis char_of_char)+
  with hex [of n] show ?thesis by simp
qed

lemma hex_pairs_encode:
  "hex_pairs (concat (map (\<lambda>b. [HEX ! (byte b div 16), HEX ! (byte b mod 16)]) bs)) = Some bs"
proof (induction bs)
  case (Cons b bs)
  have "byte b div 16 < 16"
    by (rule less_mult_imp_div_less) (use byte_less [of b] in simp)
  with Cons show ?case by (simp add: nibble_HEX)
qed simp

lemma hex_pairs_decode:
  "hex_pairs s = Some bs \<Longrightarrow> even (length s) \<Longrightarrow>
   concat (map (\<lambda>b. [HEX ! (byte b div 16), HEX ! (byte b mod 16)]) bs) = s \<and> length bs * 2 = length s"
proof (induction s arbitrary: bs rule: hex_pairs.induct)
  case (1 a b rest)
  from "1.prems"(1) obtain h l cs where hl: "nibble a = Some h" "nibble b = Some l"
    and cs: "hex_pairs rest = Some cs" "bs = char_of (h * 16 + l) # cs"
    by (auto split: option.splits)
  from HEX_nibble hl have "h < 16" "HEX ! h = a" "l < 16" "HEX ! l = b" by auto
  with 1 hl cs show ?case by simp
qed auto

lemma length_to_hex [simp]: "length (to_hex d) = 64"
proof -
  have "length (concat (map (\<lambda>b. [f b, g b]) bs)) = 2 * length bs" for f g :: "char \<Rightarrow> char" and bs
    by (induction bs) auto
  then show ?thesis by (simp add: to_hex_def digest_as_bytes_def)
qed

lemma digest_bytes_inverse: "digest_of_bytes (digest_as_bytes d) = d"
proof -
  have "unat d < 2 ^ 256" using unsigned_less [of d] by simp
  moreover have "(2 :: nat) ^ 256 = 256 ^ 32" by simp
  ultimately have "unat d < 256 ^ 32" by linarith
  then show ?thesis
    by (simp add: digest_as_bytes_def digest_of_bytes_def from_be_be_bytes)
qed

lemma digest_bytes_of_bytes:
  assumes "length bs = 32"
  shows "digest_as_bytes (digest_of_bytes bs) = bs"
proof -
  have "(2 :: nat) ^ 256 = 256 ^ 32" by simp
  moreover have "from_be_bytes bs < 256 ^ 32" using from_be_bytes_less [of bs] assms by simp
  ultimately have "from_be_bytes bs < 2 ^ LENGTH(256)" by simp
  then have "unat (word_of_nat (from_be_bytes bs) :: digest) = from_be_bytes bs"
    by (simp add: unat_of_nat take_bit_nat_eq_self)
  then show ?thesis
    using be_from_be_bytes [of bs] assms by (simp add: digest_as_bytes_def digest_of_bytes_def)
qed

lemma from_hex_to_hex: "from_hex (to_hex d) = Some d"
  using hex_pairs_encode [of "digest_as_bytes d"]
  by (simp add: from_hex_def digest_bytes_inverse to_hex_def [symmetric])

lemma to_hex_from_hex:
  assumes "from_hex s = Some d"
  shows "to_hex d = s"
proof -
  from assms obtain bs where s: "length s = 64" and bs: "hex_pairs s = Some bs" "d = digest_of_bytes bs"
    by (auto simp: from_hex_def split: if_splits)
  from hex_pairs_decode [OF bs(1)] s
  have "concat (map (\<lambda>b. [HEX ! (byte b div 16), HEX ! (byte b mod 16)]) bs) = s" "length bs = 32" by auto
  with bs(2) show ?thesis by (simp add: to_hex_def digest_bytes_of_bytes)
qed

text \<open>Digests as identities. The bytes that \<open>hash_fields\<close> feeds to the hash determine the domain and
  every field, in order, so two identities can only meet where SHA-256 itself collides; and the
  hexadecimal text parses back to exactly the digest it was printed from, and to nothing else.\<close>

theorem digest_identities:
  "(CHR 0x00 \<notin> set d \<union> set e \<longrightarrow> (\<forall>f \<in> set fs \<union> set gs. length f < 2 ^ 64) \<longrightarrow>
      hash_preimage d fs = hash_preimage e gs \<longrightarrow> d = e \<and> fs = gs)
   \<and> (from_hex s = Some x \<longleftrightarrow> s = to_hex x)"
  using hash_preimage_inject [of d fs e gs] from_hex_to_hex to_hex_from_hex by blast

theorem digest_identities_witness:
  "hash_preimage ''v1'' [''ab'', ''c''] \<noteq> hash_preimage ''v1'' [''a'', ''bc'']"
  using digest_identities [of "''v1''" "''v1''" "[''ab'', ''c'']" "[''a'', ''bc'']" "''''" 0] by auto

end
