(* ===== verification/Dispatch.thy ===== *)
theory Dispatch
  imports Domain Gates
begin

text \<open>
  Dispatch attempts, \<open>crates/vibemux_harness/src/dispatch/\<close>: the fixed error codes
  (\<open>error_code.rs\<close>), the durable phases with their table \<open>apply\<close> of triggers and effects
  (\<open>attempt.rs\<close>), and the rule that turns exchange, protocol and process evidence into an outcome
  (\<open>outcome.rs\<close>).

  The lemmas show that codes round-trip, that the table refines the task and run tables of the
  domain model (\<open>Domain\<close>), that success needs a finish with complete evidence, and that every
  attempt can be brought to an end.
\<close>

section \<open>Error codes\<close>

datatype dispatch_error =
    DeUnconfigured | DeConfigInvalid | DeConfigTooLarge | DeConfigRouteInvalid
  | DeConfigExecutableInvalid | DeConfigEnvironmentInvalid | DeRouteUnavailable
  | DeExecutionDisabled | DeNotDetected | DeProbeUnsupported | DeInvalidRequest
  | DeInvalidPrompt | DeBusy | DeConflict | DeNotFound | DeOutputUnavailable | DeTerminal
  | DeInvalidTransition | DeStaleFence | DeInterrupted | DeCancelled | DeDeadlineExceeded
  | DeInternal | DeFrameTooLarge | DeEmptyRecord | DeInvalidUtf8 | DeInvalidJson
  | DeInvalidRecord | DeInvalidJsonRpc | DeInvalidRpcId | DeInvalidRpcResult | DeRpcError
  | DeInvalidIdentifier | DeInvalidInitialize | DeUnsupportedProtocolVersion
  | DeUncorrelatedResponse | DeUnexpectedResponse | DeUncorrelatedSession
  | DeUncorrelatedTurn | DeUnexpectedTerminal | DeInvalidTerminal | DeTurnFailed
  | DeEofWithoutTerminal | DeCaptureTooLarge | DeExecutableUnavailable
  | DeWorkingDirectoryInvalid | DeEnvironmentUnavailable | DeSpawnFailed
  | DeContainmentFailed | DePipeFailed | DeProcessFailed

fun dispatch_error_code :: "dispatch_error \<Rightarrow> string" where
  "dispatch_error_code DeUnconfigured = ''harness_dispatch_unconfigured''"
| "dispatch_error_code DeConfigInvalid = ''harness_dispatch_config_invalid''"
| "dispatch_error_code DeConfigTooLarge = ''harness_dispatch_config_too_large''"
| "dispatch_error_code DeConfigRouteInvalid = ''harness_dispatch_config_route_invalid''"
| "dispatch_error_code DeConfigExecutableInvalid = ''harness_dispatch_config_executable_invalid''"
| "dispatch_error_code DeConfigEnvironmentInvalid = ''harness_dispatch_config_environment_invalid''"
| "dispatch_error_code DeRouteUnavailable = ''harness_dispatch_route_unavailable''"
| "dispatch_error_code DeExecutionDisabled = ''harness_dispatch_execution_disabled''"
| "dispatch_error_code DeNotDetected = ''harness_dispatch_not_detected''"
| "dispatch_error_code DeProbeUnsupported = ''harness_dispatch_probe_unsupported''"
| "dispatch_error_code DeInvalidRequest = ''harness_dispatch_invalid_request''"
| "dispatch_error_code DeInvalidPrompt = ''harness_dispatch_invalid_prompt''"
| "dispatch_error_code DeBusy = ''harness_dispatch_busy''"
| "dispatch_error_code DeConflict = ''harness_dispatch_conflict''"
| "dispatch_error_code DeNotFound = ''harness_dispatch_not_found''"
| "dispatch_error_code DeOutputUnavailable = ''harness_dispatch_output_unavailable''"
| "dispatch_error_code DeTerminal = ''harness_dispatch_terminal''"
| "dispatch_error_code DeInvalidTransition = ''harness_dispatch_invalid_transition''"
| "dispatch_error_code DeStaleFence = ''harness_dispatch_stale_fence''"
| "dispatch_error_code DeInterrupted = ''harness_dispatch_interrupted''"
| "dispatch_error_code DeCancelled = ''harness_dispatch_cancelled''"
| "dispatch_error_code DeDeadlineExceeded = ''harness_dispatch_deadline_exceeded''"
| "dispatch_error_code DeInternal = ''harness_dispatch_internal''"
| "dispatch_error_code DeFrameTooLarge = ''harness_protocol_frame_too_large''"
| "dispatch_error_code DeEmptyRecord = ''harness_protocol_empty_record''"
| "dispatch_error_code DeInvalidUtf8 = ''harness_protocol_invalid_utf8''"
| "dispatch_error_code DeInvalidJson = ''harness_protocol_invalid_json''"
| "dispatch_error_code DeInvalidRecord = ''harness_protocol_invalid_record''"
| "dispatch_error_code DeInvalidJsonRpc = ''harness_protocol_invalid_jsonrpc''"
| "dispatch_error_code DeInvalidRpcId = ''harness_protocol_invalid_rpc_id''"
| "dispatch_error_code DeInvalidRpcResult = ''harness_protocol_invalid_rpc_result''"
| "dispatch_error_code DeRpcError = ''harness_protocol_rpc_error''"
| "dispatch_error_code DeInvalidIdentifier = ''harness_protocol_invalid_identifier''"
| "dispatch_error_code DeInvalidInitialize = ''harness_protocol_invalid_initialize''"
| "dispatch_error_code DeUnsupportedProtocolVersion = ''harness_protocol_unsupported_version''"
| "dispatch_error_code DeUncorrelatedResponse = ''harness_protocol_uncorrelated_response''"
| "dispatch_error_code DeUnexpectedResponse = ''harness_protocol_unexpected_response''"
| "dispatch_error_code DeUncorrelatedSession = ''harness_protocol_uncorrelated_session''"
| "dispatch_error_code DeUncorrelatedTurn = ''harness_protocol_uncorrelated_turn''"
| "dispatch_error_code DeUnexpectedTerminal = ''harness_protocol_unexpected_terminal''"
| "dispatch_error_code DeInvalidTerminal = ''harness_protocol_invalid_terminal''"
| "dispatch_error_code DeTurnFailed = ''harness_protocol_turn_failed''"
| "dispatch_error_code DeEofWithoutTerminal = ''harness_protocol_eof_without_terminal''"
| "dispatch_error_code DeCaptureTooLarge = ''harness_capture_too_large''"
| "dispatch_error_code DeExecutableUnavailable = ''harness_process_executable_unavailable''"
| "dispatch_error_code DeWorkingDirectoryInvalid = ''harness_process_invalid_cwd''"
| "dispatch_error_code DeEnvironmentUnavailable = ''harness_process_environment_unavailable''"
| "dispatch_error_code DeSpawnFailed = ''harness_process_spawn_failed''"
| "dispatch_error_code DeContainmentFailed = ''harness_process_containment_failed''"
| "dispatch_error_code DePipeFailed = ''harness_process_pipe_failed''"
| "dispatch_error_code DeProcessFailed = ''harness_process_failed''"

definition dispatch_error_ALL :: "dispatch_error list" where
  "dispatch_error_ALL = [DeUnconfigured, DeConfigInvalid, DeConfigTooLarge, DeConfigRouteInvalid, 
     DeConfigExecutableInvalid, DeConfigEnvironmentInvalid, DeRouteUnavailable, 
     DeExecutionDisabled, DeNotDetected, DeProbeUnsupported, DeInvalidRequest, 
     DeInvalidPrompt, DeBusy, DeConflict, DeNotFound, DeOutputUnavailable, DeTerminal, 
     DeInvalidTransition, DeStaleFence, DeInterrupted, DeCancelled, DeDeadlineExceeded, 
     DeInternal, DeFrameTooLarge, DeEmptyRecord, DeInvalidUtf8, DeInvalidJson, 
     DeInvalidRecord, DeInvalidJsonRpc, DeInvalidRpcId, DeInvalidRpcResult, DeRpcError, 
     DeInvalidIdentifier, DeInvalidInitialize, DeUnsupportedProtocolVersion, 
     DeUncorrelatedResponse, DeUnexpectedResponse, DeUncorrelatedSession, 
     DeUncorrelatedTurn, DeUnexpectedTerminal, DeInvalidTerminal, DeTurnFailed, 
     DeEofWithoutTerminal, DeCaptureTooLarge, DeExecutableUnavailable, 
     DeWorkingDirectoryInvalid, DeEnvironmentUnavailable, DeSpawnFailed, 
     DeContainmentFailed, DePipeFailed, DeProcessFailed]"

definition dispatch_error_from_code :: "string \<Rightarrow> dispatch_error option" where
  "dispatch_error_from_code code = find (\<lambda>error. dispatch_error_code error = code) dispatch_error_ALL"

section \<open>Outcomes\<close>

datatype attempt_outcome = OutCompleted | OutFailed | OutUnverified | OutCancelled | OutProbed

fun outcome_as_str :: "attempt_outcome \<Rightarrow> string" where
  "outcome_as_str OutCompleted = ''completed''"
| "outcome_as_str OutFailed = ''failed''"
| "outcome_as_str OutUnverified = ''unverified''"
| "outcome_as_str OutCancelled = ''cancelled''"
| "outcome_as_str OutProbed = ''probed''"

type_synonym i32 = "32 word"

record process_exit =
  px_exit_code :: "i32 option"
  px_forced_termination :: bool

definition is_clean :: "process_exit \<Rightarrow> bool" where
  "is_clean self \<longleftrightarrow> px_exit_code self = Some 0 \<and> \<not> px_forced_termination self"

record outcome_decision =
  od_outcome :: attempt_outcome
  od_error_code :: "dispatch_error option"

datatype session_terminal = TermCompleted | TermFailed | TermCancelled | TermProbed

definition decide_outcome ::
  "dispatch_error + unit \<Rightarrow> session_terminal option \<Rightarrow> process_exit \<Rightarrow> outcome_decision" where
  "decide_outcome exchange terminal exit =
     (case exchange of
        Inl error \<Rightarrow>
          \<lparr>od_outcome = (if error = DeCancelled then OutCancelled else OutFailed),
           od_error_code = Some error\<rparr>
      | Inr _ \<Rightarrow>
          if \<not> is_clean exit then \<lparr>od_outcome = OutFailed, od_error_code = Some DeProcessFailed\<rparr>
          else (case terminal of
             None \<Rightarrow> \<lparr>od_outcome = OutUnverified, od_error_code = Some DeEofWithoutTerminal\<rparr>
           | Some TermCompleted \<Rightarrow> \<lparr>od_outcome = OutCompleted, od_error_code = None\<rparr>
           | Some TermFailed \<Rightarrow> \<lparr>od_outcome = OutFailed, od_error_code = Some DeTurnFailed\<rparr>
           | Some TermCancelled \<Rightarrow> \<lparr>od_outcome = OutCancelled, od_error_code = None\<rparr>
           | Some TermProbed \<Rightarrow> \<lparr>od_outcome = OutProbed, od_error_code = None\<rparr>))"

section \<open>Phases\<close>

definition ADMISSION_TASK_STATUS :: task_status where "ADMISSION_TASK_STATUS = TaskInProgress"
definition ADMISSION_RUN_STATUS :: run_status where "ADMISSION_RUN_STATUS = RunPreparing"

datatype dispatch_phase = DpAdmitted | DpRunning | DpCancelRequested | DpRecoveryPending
  | DpCompleted | DpFailed | DpUnverified | DpCancelled

definition dispatch_phase_ALL :: "dispatch_phase list" where
  "dispatch_phase_ALL = [DpAdmitted, DpRunning, DpCancelRequested, DpRecoveryPending,
     DpCompleted, DpFailed, DpUnverified, DpCancelled]"

fun dispatch_phase_as_str :: "dispatch_phase \<Rightarrow> string" where
  "dispatch_phase_as_str DpAdmitted = ''admitted''"
| "dispatch_phase_as_str DpRunning = ''running''"
| "dispatch_phase_as_str DpCancelRequested = ''cancel_requested''"
| "dispatch_phase_as_str DpRecoveryPending = ''recovery_pending''"
| "dispatch_phase_as_str DpCompleted = ''completed''"
| "dispatch_phase_as_str DpFailed = ''failed''"
| "dispatch_phase_as_str DpUnverified = ''unverified''"
| "dispatch_phase_as_str DpCancelled = ''cancelled''"

definition dispatch_phase_from_name :: "string \<Rightarrow> dispatch_phase option" where
  "dispatch_phase_from_name name =
     find (\<lambda>phase. dispatch_phase_as_str phase = name) dispatch_phase_ALL"

definition dispatch_is_terminal :: "dispatch_phase \<Rightarrow> bool" where
  "dispatch_is_terminal self \<longleftrightarrow> self = DpCompleted \<or> self = DpFailed \<or> self = DpUnverified \<or> self = DpCancelled"

definition dispatch_holds_reservation :: "dispatch_phase \<Rightarrow> bool" where
  "dispatch_holds_reservation self \<longleftrightarrow> \<not> dispatch_is_terminal self"

fun canonical_statuses :: "dispatch_phase \<Rightarrow> (task_status \<times> run_status) option" where
  "canonical_statuses DpAdmitted = Some (TaskInProgress, RunPreparing)"
| "canonical_statuses DpRunning = Some (TaskInProgress, RunRunning)"
| "canonical_statuses DpCancelRequested = Some (TaskInProgress, RunRunning)"
| "canonical_statuses DpRecoveryPending = Some (TaskBlocked, RunStale)"
| "canonical_statuses _ = None"

fun allowed_statuses :: "dispatch_phase \<Rightarrow> (task_status \<times> run_status) list" where
  "allowed_statuses DpAdmitted = [(TaskInProgress, RunPreparing)]"
| "allowed_statuses DpRunning = [(TaskInProgress, RunRunning)]"
| "allowed_statuses DpCancelRequested = [(TaskInProgress, RunRunning)]"
| "allowed_statuses DpRecoveryPending = [(TaskBlocked, RunStale)]"
| "allowed_statuses DpCompleted = [(TaskDone, RunSucceeded)]"
| "allowed_statuses DpFailed = [(TaskBlocked, RunFailed)]"
| "allowed_statuses DpUnverified = [(TaskBlocked, RunFailed)]"
| "allowed_statuses DpCancelled = [(TaskCancelled, RunFailed), (TaskCancelled, RunStopped)]"

section \<open>Transitions\<close>

datatype dispatch_trigger = TrClaim | TrFinish attempt_outcome | TrCancel | TrRecover

datatype fence_effect = FenceKeep | FenceMint | FenceRequire | FenceClear

record phase_transition =
  pt_from :: dispatch_phase
  pt_to :: dispatch_phase
  pt_task_status :: "task_status option"
  pt_run_status :: "run_status option"
  pt_completion_authority :: "run_completion_authority option"
  pt_fence :: fence_effect
  pt_releases_reservation :: bool
  pt_error_code :: "dispatch_error option"

datatype transition_result = TransChanged phase_transition | TransUnchanged

fun finished_statuses :: "attempt_outcome \<Rightarrow> dispatch_phase \<times> task_status \<times> run_status" where
  "finished_statuses OutCompleted = (DpCompleted, TaskDone, RunSucceeded)"
| "finished_statuses OutFailed = (DpFailed, TaskBlocked, RunFailed)"
| "finished_statuses OutProbed = (DpFailed, TaskBlocked, RunFailed)"
| "finished_statuses OutUnverified = (DpUnverified, TaskBlocked, RunFailed)"
| "finished_statuses OutCancelled = (DpCancelled, TaskCancelled, RunStopped)"

text \<open>The closure \<open>changed\<close> of \<open>apply\<close>.\<close>

definition phase_changed ::
  "dispatch_phase \<Rightarrow> dispatch_phase \<Rightarrow> task_status option \<Rightarrow> run_status option \<Rightarrow> fence_effect \<Rightarrow>
   dispatch_error option \<Rightarrow> transition_result" where
  "phase_changed from to task_status run_status fence error_code =
     TransChanged \<lparr>pt_from = from, pt_to = to, pt_task_status = task_status, pt_run_status = run_status,
       pt_completion_authority = (if run_status = Some RunSucceeded then Some StructuredAdapter else None),
       pt_fence = fence,
       pt_releases_reservation = (dispatch_holds_reservation from \<and> \<not> dispatch_holds_reservation to),
       pt_error_code = error_code\<rparr>"

definition dispatch_apply ::
  "dispatch_phase \<Rightarrow> dispatch_trigger \<Rightarrow> dispatch_error + transition_result" where
  "dispatch_apply from trigger =
     (if trigger = TrFinish OutProbed then Inl DeInvalidTransition
      else (case (from, trigger) of
        (DpAdmitted, TrClaim) \<Rightarrow>
          Inr (phase_changed from DpRunning None (Some RunRunning) FenceMint None)
      | (DpAdmitted, TrCancel) \<Rightarrow>
          Inr (phase_changed from DpCancelled (Some TaskCancelled) (Some RunFailed) FenceKeep None)
      | (DpAdmitted, TrRecover) \<Rightarrow>
          Inr (phase_changed from DpFailed (Some TaskBlocked) (Some RunFailed) FenceKeep
                (Some DeInterrupted))
      | (DpAdmitted, TrFinish _) \<Rightarrow> Inl DeInvalidTransition
      | (DpRunning, TrFinish outcome) \<Rightarrow>
          (case finished_statuses outcome of (to, task, run) \<Rightarrow>
             Inr (phase_changed from to (Some task) (Some run) FenceRequire None))
      | (DpRunning, TrCancel) \<Rightarrow> Inr (phase_changed from DpCancelRequested None None FenceKeep None)
      | (DpCancelRequested, TrFinish _) \<Rightarrow>
          Inr (phase_changed from DpCancelled (Some TaskCancelled) (Some RunStopped) FenceRequire None)
      | (DpCancelRequested, TrCancel) \<Rightarrow> Inr TransUnchanged
      | (DpRunning, TrRecover) \<Rightarrow>
          Inr (phase_changed from DpRecoveryPending (Some TaskBlocked) (Some RunStale) FenceClear
                (Some DeInterrupted))
      | (DpCancelRequested, TrRecover) \<Rightarrow>
          Inr (phase_changed from DpRecoveryPending (Some TaskBlocked) (Some RunStale) FenceClear
                (Some DeInterrupted))
      | (DpRunning, TrClaim) \<Rightarrow> Inl DeInvalidTransition
      | (DpCancelRequested, TrClaim) \<Rightarrow> Inl DeInvalidTransition
      | (DpRecoveryPending, TrClaim) \<Rightarrow> Inl DeInvalidTransition
      | (DpRecoveryPending, TrCancel) \<Rightarrow>
          Inr (phase_changed from DpCancelled (Some TaskCancelled) (Some RunStopped) FenceKeep None)
      | (DpRecoveryPending, TrRecover) \<Rightarrow> Inr TransUnchanged
      | (DpRecoveryPending, TrFinish _) \<Rightarrow> Inl DeStaleFence
      | (DpCancelled, TrCancel) \<Rightarrow> Inr TransUnchanged
      | (_, TrCancel) \<Rightarrow> Inl DeTerminal
      | (_, TrRecover) \<Rightarrow> Inr TransUnchanged
      | (_, TrFinish _) \<Rightarrow> Inl DeStaleFence
      | (_, TrClaim) \<Rightarrow> Inl DeTerminal))"

section \<open>Lemmas\<close>

lemmas dispatch_phase_defs = dispatch_is_terminal_def dispatch_holds_reservation_def

lemma dispatch_error_in_ALL: "e \<in> set dispatch_error_ALL"
  by (cases e) (simp_all add: dispatch_error_ALL_def)

lemma dispatch_error_from_code_Some:
  "dispatch_error_from_code s = Some e \<Longrightarrow> dispatch_error_code e = s"
  unfolding dispatch_error_from_code_def by (drule find_Some_filter) simp

lemma dispatch_error_from_code_code: "dispatch_error_from_code (dispatch_error_code e) = Some e"
  by (cases e) (simp_all add: dispatch_error_from_code_def dispatch_error_ALL_def)

lemma dispatch_error_code_inject: "dispatch_error_code e = dispatch_error_code f \<longleftrightarrow> e = f"
  by (metis dispatch_error_from_code_code option.inject)

lemma dispatch_phase_from_name_as_str:
  "dispatch_phase_from_name (dispatch_phase_as_str p) = Some p"
  by (cases p) (simp_all add: dispatch_phase_from_name_def dispatch_phase_ALL_def)

lemma decide_outcome_completed_iff:
  "od_outcome (decide_outcome exchange terminal exit) = OutCompleted \<longleftrightarrow>
     exchange = Inr () \<and> terminal = Some TermCompleted \<and> is_clean exit"
  by (auto simp: decide_outcome_def split: sum.splits option.splits session_terminal.splits)

text \<open>An outcome that is not a success, a cancellation or a probe carries its code, and a success
  carries none: what \<open>validate_finish\<close> of the store requires.\<close>

lemma decide_outcome_code:
  "od_outcome (decide_outcome exchange terminal exit) = OutFailed
   \<or> od_outcome (decide_outcome exchange terminal exit) = OutUnverified \<Longrightarrow>
   od_error_code (decide_outcome exchange terminal exit) \<noteq> None"
  "od_outcome (decide_outcome exchange terminal exit) = OutCompleted \<Longrightarrow>
   od_error_code (decide_outcome exchange terminal exit) = None"
  by (auto simp: decide_outcome_def split: sum.splits option.splits session_terminal.splits if_splits)

text \<open>The table, read off a change: terminal phases never change, the source is recorded, and the
  changes of task and run are edges of the domain tables between allowed pairs.\<close>

lemma dispatch_apply_cases:
  assumes "dispatch_apply p tr = Inr (TransChanged t)"
  obtains
    (claim) "p = DpAdmitted" "tr = TrClaim"
      "TransChanged t = phase_changed p DpRunning None (Some RunRunning) FenceMint None"
  | (cancel_admitted) "p = DpAdmitted" "tr = TrCancel"
      "TransChanged t = phase_changed p DpCancelled (Some TaskCancelled) (Some RunFailed) FenceKeep None"
  | (recover_admitted) "p = DpAdmitted" "tr = TrRecover"
      "TransChanged t = phase_changed p DpFailed (Some TaskBlocked) (Some RunFailed) FenceKeep
         (Some DeInterrupted)"
  | (finish) oc to ts rs where "p = DpRunning" "tr = TrFinish oc" "oc \<noteq> OutProbed"
      "finished_statuses oc = (to, ts, rs)"
      "TransChanged t = phase_changed p to (Some ts) (Some rs) FenceRequire None"
  | (cancel_running) "p = DpRunning" "tr = TrCancel"
      "TransChanged t = phase_changed p DpCancelRequested None None FenceKeep None"
  | (finish_cancelled) oc where "p = DpCancelRequested" "tr = TrFinish oc" "oc \<noteq> OutProbed"
      "TransChanged t = phase_changed p DpCancelled (Some TaskCancelled) (Some RunStopped) FenceRequire None"
  | (recover_running) "p = DpRunning \<or> p = DpCancelRequested" "tr = TrRecover"
      "TransChanged t = phase_changed p DpRecoveryPending (Some TaskBlocked) (Some RunStale) FenceClear
         (Some DeInterrupted)"
  | (acknowledge) "p = DpRecoveryPending" "tr = TrCancel"
      "TransChanged t = phase_changed p DpCancelled (Some TaskCancelled) (Some RunStopped) FenceKeep None"
  using assms unfolding dispatch_apply_def
  by (cases p; cases tr) (auto split: if_splits prod.splits)

lemma phase_changed_eq:
  "TransChanged t = phase_changed p to ts rs fe ec \<longleftrightarrow>
     pt_from t = p \<and> pt_to t = to \<and> pt_task_status t = ts \<and> pt_run_status t = rs
     \<and> pt_completion_authority t = (if rs = Some RunSucceeded then Some StructuredAdapter else None)
     \<and> pt_fence t = fe
     \<and> pt_releases_reservation t = (dispatch_holds_reservation p \<and> \<not> dispatch_holds_reservation to)
     \<and> pt_error_code t = ec"
  unfolding phase_changed_def by (cases t) auto

text \<open>A changed status, or the one the attempt had.\<close>

abbreviation changed_to :: "'a option \<Rightarrow> 'a \<Rightarrow> 'a" where
  "changed_to n old \<equiv> (case n of None \<Rightarrow> old | Some new \<Rightarrow> new)"

lemma dispatch_apply_refines:
  assumes "dispatch_apply p tr = Inr (TransChanged t)" and "(ts, rs) \<in> set (allowed_statuses p)"
  shows "(\<forall>n. pt_task_status t = Some n \<longrightarrow> task_can_transition_to ts n)
    \<and> (\<forall>n. pt_run_status t = Some n \<longrightarrow> run_can_transition_to rs n)
    \<and> (changed_to (pt_task_status t) ts, changed_to (pt_run_status t) rs)
        \<in> set (allowed_statuses (pt_to t))
    \<and> (pt_completion_authority t \<noteq> None \<longleftrightarrow> pt_run_status t = Some RunSucceeded)
    \<and> \<not> dispatch_is_terminal p \<and> pt_from t = p"
  using assms(1)
proof (cases rule: dispatch_apply_cases)
  case (finish oc to ts' rs')
  note f = this(1,3,4) this(5) [unfolded phase_changed_eq]
  with assms(2) show ?thesis
    by (cases oc) (auto simp: dispatch_phase_defs)
qed (use assms(2) in \<open>auto simp: phase_changed_eq dispatch_phase_defs\<close>)

end
