(* ===== verification/Dispatch_Store.thy ===== *)
theory Dispatch_Store
  imports Dispatch Digests
begin

text \<open>
  The durable store of dispatch attempts, \<open>crates/vibemux_store/src/harness_dispatch.rs\<close> and
  \<open>harness_dispatch/dispatch_rows.rs\<close>: admission, claim, fenced finish, cancellation and startup
  recovery, each one transaction over the table \<open>harness_dispatches\<close>, the owned Task and Run
  projections and the event log.

  The database is a value: \<open>db_rows\<close> are the rows in rowid order, each with its record, fence, last
  sequence and the projections of its Task and Run (their keys are unique, so a row owns them);
  \<open>db_events\<close> is the log, whose sequence numbers are the positions. A transaction that returns an
  error writes nothing. The columns of a row repeat fields of its JSON record; since rows are written
  from one record, the model has the record once and keeps the other checks of \<open>load\<close>. The constraints
  of the schema (primary key, unique columns, the fence check, the partial unique index) are checks
  of \<open>insert_row\<close> and \<open>update_row\<close>.

  Code outside the crate is a field of \<open>dispatch_env\<close>: SHA-256, the hyphenated text of a UUID, and what
  the harness registry says about a command. Freshly drawn UUIDs are arguments.
\<close>

section \<open>Data\<close>

type_synonym instant = int

fun command_name :: "agent_kind \<Rightarrow> string" where
  "command_name Claude = ''claude''"
| "command_name Codex = ''codex''"
| "command_name OpenCode = ''opencode''"
| "command_name Copilot = ''copilot''"
| "command_name Grok = ''grok''"
| "command_name Qwen = ''qwen''"
| "command_name Iflow = ''iflow''"
| "command_name Trae = ''trae''"
| "command_name Codebuddy = ''codebuddy''"
| "command_name Kimi = ''kimi''"
| "command_name Dsh = ''dsh''"

fun protocol_as_str :: "native_protocol \<Rightarrow> string" where
  "protocol_as_str CodexExec = ''codex_exec''"
| "protocol_as_str CodexAppServer = ''codex_app_server''"
| "protocol_as_str ClaudeStreamJson = ''claude_stream_json''"
| "protocol_as_str Acp = ''acp''"
| "protocol_as_str DshSdkJsonRpc = ''dsh_sdk_json_rpc''"

fun protocol_accepts :: "native_protocol \<Rightarrow> agent_kind \<Rightarrow> bool" where
  "protocol_accepts CodexExec harness = (harness = Codex)"
| "protocol_accepts CodexAppServer harness = (harness = Codex)"
| "protocol_accepts ClaudeStreamJson harness = (harness = Claude)"
| "protocol_accepts Acp harness = (harness = OpenCode \<or> harness = Copilot \<or> harness = Grok)"
| "protocol_accepts DshSdkJsonRpc harness = (harness = Dsh)"

definition supports_execution :: "native_protocol \<Rightarrow> bool" where
  "supports_execution self \<longleftrightarrow> self \<noteq> Acp"

definition MAX_PROMPT_BYTES :: nat where "MAX_PROMPT_BYTES = 32 * 1024"
definition FINGERPRINT_DOMAIN :: string where
  "FINGERPRINT_DOMAIN = ''vibemux.harness_dispatch.fingerprint.v1''"
definition HARNESS_DISPATCH_RECORD_SCHEMA_VERSION :: u32 where
  "HARNESS_DISPATCH_RECORD_SCHEMA_VERSION = 1"
definition DISPATCH_TASK_TITLE_PREFIX :: string where
  "DISPATCH_TASK_TITLE_PREFIX = ''harness dispatch ''"
definition DISPATCH_RUN_ROLE :: string where "DISPATCH_RUN_ROLE = ''dispatch''"

record prompt_digest =
  pd_sha256 :: digest
  pd_byte_count :: u64

record kind_counts =
  kc_started :: u64
  kc_text :: u64
  kc_tool :: u64
  kc_approval :: u64
  kc_usage :: u64
  kc_completed :: u64
  kc_failed :: u64
  kc_cancelled :: u64
  kc_opaque :: u64

record capture_summary =
  cs_record_count :: u64
  cs_record_bytes :: u64
  cs_kinds :: kind_counts
  cs_transcript_sha256 :: digest

record process_summary =
  ps_exit_code :: "i32 option"
  ps_forced_termination :: bool
  ps_stderr_bytes :: u64

definition process_summary_new :: "process_exit \<Rightarrow> u64 \<Rightarrow> process_summary" where
  "process_summary_new exit stderr_bytes =
     \<lparr>ps_exit_code = px_exit_code exit, ps_forced_termination = px_forced_termination exit,
      ps_stderr_bytes = stderr_bytes\<rparr>"

record dispatch_env =
  en_sha256 :: "string \<Rightarrow> digest"
  en_uuid_text :: "uuid \<Rightarrow> string"
  en_detected :: "string \<Rightarrow> bool"

record dispatch_admission =
  da_request_id :: uuid
  da_harness :: agent_kind
  da_protocol :: native_protocol
  da_prompt :: prompt_digest
  da_config_sha256 :: digest
  da_resource_key :: digest
  da_base_commit :: string
  da_timestamp :: instant

record dispatch_record =
  dr_schema_version :: u32
  dr_request_id :: uuid
  dr_project_id :: uuid
  dr_task_id :: uuid
  dr_run_id :: uuid
  dr_harness :: agent_kind
  dr_protocol :: native_protocol
  dr_fingerprint :: digest
  dr_resource_key :: digest
  dr_prompt :: prompt_digest
  dr_config_sha256 :: digest
  dr_base_commit :: string
  dr_phase :: dispatch_phase
  dr_version :: u64
  dr_outcome :: "attempt_outcome option"
  dr_error_code :: "dispatch_error option"
  dr_process :: "process_summary option"
  dr_capture :: "capture_summary option"
  dr_created_at :: instant
  dr_updated_at :: instant

record stored_dispatch =
  sx_record :: dispatch_record
  sx_fence :: "uuid option"
  sx_sequence :: nat
  sx_task :: task
  sx_run :: run

record dispatch_finish =
  fi_request_id :: uuid
  fi_fence :: uuid
  fi_decision :: outcome_decision
  fi_process :: process_summary
  fi_capture :: capture_summary
  fi_timestamp :: instant

datatype store_error = StHarness dispatch_error | StProjectionMismatch | StVersionConflict | StDatabase

section \<open>Events\<close>

record admitted_payload =
  ad_request_id :: uuid
  ad_harness :: agent_kind
  ad_protocol :: native_protocol
  ad_prompt_sha256 :: digest
  ad_prompt_bytes :: u64
  ad_config_sha256 :: digest
  ad_base_commit :: string

record finished_payload =
  fp_request_id :: uuid
  fp_from_phase :: dispatch_phase
  fp_phase :: dispatch_phase
  fp_outcome :: "attempt_outcome option"
  fp_error_code :: "dispatch_error option"
  fp_process :: "process_summary option"
  fp_capture :: "capture_summary option"

record recovered_payload =
  rp_request_id :: uuid
  rp_from_phase :: dispatch_phase
  rp_phase :: dispatch_phase
  rp_error_code :: dispatch_error

text \<open>The payloads of the dispatch events; \<open>PayOther\<close> stands for the payload of another writer's event.\<close>

datatype event_payload =
    PayAdmitted admitted_payload
  | PayStarted uuid
  | PayCancelRequested uuid dispatch_phase
  | PayFinished finished_payload
  | PayRecovered recovered_payload
  | PayOther

record event_envelope =
  ee_event_type :: string
  ee_project_id :: uuid
  ee_task_id :: "uuid option"
  ee_run_id :: "uuid option"
  ee_timestamp :: instant
  ee_idempotency_key :: string
  ee_payload :: event_payload

definition ADMITTED_EVENT :: string where "ADMITTED_EVENT = ''harness_dispatch_admitted''"
definition STARTED_EVENT :: string where "STARTED_EVENT = ''harness_dispatch_started''"
definition CANCEL_REQUESTED_EVENT :: string where
  "CANCEL_REQUESTED_EVENT = ''harness_dispatch_cancel_requested''"
definition FINISHED_EVENT :: string where "FINISHED_EVENT = ''harness_dispatch_finished''"
definition RECOVERED_EVENT :: string where "RECOVERED_EVENT = ''harness_dispatch_recovered''"

text \<open>\<open>strip_prefix(p).unwrap_or(s)\<close>.\<close>

definition strip_prefix_or :: "string \<Rightarrow> string \<Rightarrow> string" where
  "strip_prefix_or p s = (if take (length p) s = p then drop (length p) s else s)"

definition idempotency_key :: "dispatch_env \<Rightarrow> uuid \<Rightarrow> string \<Rightarrow> string" where
  "idempotency_key env request_id event_type =
     ''harness_dispatch:'' @ en_uuid_text env request_id @ '':'' @
     strip_prefix_or ''harness_dispatch_'' event_type"

text \<open>\<open>draft\<close> with the context of the record; its checks concern constant names and keys and pass.\<close>

definition draft_event ::
  "dispatch_env \<Rightarrow> string \<Rightarrow> dispatch_record \<Rightarrow> instant \<Rightarrow> event_payload \<Rightarrow> event_envelope" where
  "draft_event env event_type r timestamp payload =
     \<lparr>ee_event_type = event_type, ee_project_id = dr_project_id r, ee_task_id = Some (dr_task_id r),
      ee_run_id = Some (dr_run_id r), ee_timestamp = timestamp,
      ee_idempotency_key = idempotency_key env (dr_request_id r) event_type, ee_payload = payload\<rparr>"

section \<open>The database\<close>

record dispatch_db =
  db_rows :: "stored_dispatch list"
  db_events :: "event_envelope list"

abbreviation row_id :: "stored_dispatch \<Rightarrow> uuid" where
  "row_id x \<equiv> dr_request_id (sx_record x)"

abbreviation row_phase :: "stored_dispatch \<Rightarrow> dispatch_phase" where
  "row_phase x \<equiv> dr_phase (sx_record x)"

text \<open>\<open>insert_event\<close>: the key column is unique; the sequence number is the rowid.\<close>

definition insert_event :: "dispatch_db \<Rightarrow> event_envelope \<Rightarrow> store_error + dispatch_db \<times> nat" where
  "insert_event db event =
     (if ee_idempotency_key event \<in> ee_idempotency_key ` set (db_events db) then Inl StDatabase
      else Inr (db\<lparr>db_events := db_events db @ [event]\<rparr>, Suc (length (db_events db))))"

definition resolve_or_mint_project_id :: "dispatch_db \<Rightarrow> uuid \<Rightarrow> uuid" where
  "resolve_or_mint_project_id db fresh =
     (case db_events db of [] \<Rightarrow> fresh | event # _ \<Rightarrow> ee_project_id event)"

definition request_fingerprint ::
  "dispatch_env \<Rightarrow> uuid \<Rightarrow> uuid \<Rightarrow> agent_kind \<Rightarrow> native_protocol \<Rightarrow> digest \<Rightarrow> digest \<Rightarrow> digest" where
  "request_fingerprint env project_id request_id harness protocol prompt_sha256 config_digest =
     hash_fields (en_sha256 env) FINGERPRINT_DOMAIN
       [en_uuid_text env project_id, en_uuid_text env request_id, command_name harness,
        protocol_as_str protocol, digest_as_bytes prompt_sha256, digest_as_bytes config_digest]"

section \<open>Requests\<close>

definition RESOURCE_KEY_DOMAIN :: string where
  "RESOURCE_KEY_DOMAIN = ''vibemux.harness_dispatch.resource.v1''"

definition resource_key :: "(string \<Rightarrow> digest) \<Rightarrow> string \<Rightarrow> digest" where
  "resource_key sha256 canonical_working_directory =
     hash_fields sha256 RESOURCE_KEY_DOMAIN [canonical_working_directory]"

definition DISPATCH_REQUEST_SCHEMA_VERSION :: u32 where "DISPATCH_REQUEST_SCHEMA_VERSION = 1"

record dispatch_request =
  dq_schema_version :: u32
  dq_request_id :: uuid
  dq_harness :: agent_kind
  dq_prompt :: string

definition dispatch_request_validate :: "dispatch_request \<Rightarrow> dispatch_error + unit" where
  "dispatch_request_validate self =
     (if dq_schema_version self \<noteq> DISPATCH_REQUEST_SCHEMA_VERSION \<or> is_nil (dq_request_id self)
      then Inl DeInvalidRequest
      else if trim_is_empty (dq_prompt self) \<or> length (dq_prompt self) > MAX_PROMPT_BYTES
      then Inl DeInvalidPrompt else Inr ())"

definition request_prompt_digest :: "(string \<Rightarrow> digest) \<Rightarrow> dispatch_request \<Rightarrow> prompt_digest" where
  "request_prompt_digest sha256 self =
     \<lparr>pd_sha256 = sha256 (dq_prompt self), pd_byte_count = word_of_nat (length (dq_prompt self))\<rparr>"

definition dispatch_request_fingerprint ::
  "dispatch_env \<Rightarrow> dispatch_request \<Rightarrow> uuid \<Rightarrow> native_protocol \<Rightarrow> digest \<Rightarrow> digest" where
  "dispatch_request_fingerprint env self project_id protocol config_digest =
     request_fingerprint env project_id (dq_request_id self) (dq_harness self) protocol
       (pd_sha256 (request_prompt_digest (en_sha256 env) self)) config_digest"

text \<open>A valid request passes the prompt check of admission: its length is nonzero, within the limit, and
  does not wrap.\<close>

lemma valid_request_prompt:
  assumes "dispatch_request_validate q = Inr ()"
  shows "pd_byte_count (request_prompt_digest sha q) \<noteq> 0
    \<and> unat (pd_byte_count (request_prompt_digest sha q)) \<le> MAX_PROMPT_BYTES"
proof -
  from assms have "dq_prompt q \<noteq> []" and l: "length (dq_prompt q) \<le> MAX_PROMPT_BYTES"
    by (auto simp: dispatch_request_validate_def split: if_splits dest: trim_is_empty_Nil)
  then have n: "0 < length (dq_prompt q)" "length (dq_prompt q) < 2 ^ 64"
    by (simp_all add: MAX_PROMPT_BYTES_def)
  then have "unat (word_of_nat (length (dq_prompt q)) :: u64) = length (dq_prompt q)"
    by (simp add: unat_of_nat take_bit_nat_eq_self)
  with n l show ?thesis by (auto simp: request_prompt_digest_def)
qed

section \<open>Rows\<close>

definition is_clean_completion :: "dispatch_error option \<Rightarrow> process_summary \<Rightarrow> bool" where
  "is_clean_completion error_code process \<longleftrightarrow>
     error_code = None \<and> ps_exit_code process = Some 0 \<and> \<not> ps_forced_termination process"

definition completion_evidence :: "dispatch_record \<Rightarrow> bool" where
  "completion_evidence r \<longleftrightarrow>
     dr_outcome r = Some OutCompleted \<and> dr_capture r \<noteq> None
     \<and> (case dr_process r of None \<Rightarrow> False | Some process \<Rightarrow> is_clean_completion (dr_error_code r) process)"

text \<open>The checks of \<open>load\<close> on a row.\<close>

definition row_consistent :: "dispatch_env \<Rightarrow> stored_dispatch \<Rightarrow> bool" where
  "row_consistent env x \<longleftrightarrow>
     (let r = sx_record x; task = sx_task x; run = sx_run x in
      dr_schema_version r = HARNESS_DISPATCH_RECORD_SCHEMA_VERSION
      \<and> dr_fingerprint r = request_fingerprint env (dr_project_id r) (dr_request_id r) (dr_harness r)
           (dr_protocol r) (pd_sha256 (dr_prompt r)) (dr_config_sha256 r)
      \<and> tk_task_id task = dr_task_id r \<and> tk_project_id task = dr_project_id r
      \<and> rn_run_id run = dr_run_id r \<and> rn_task_id run = dr_task_id r \<and> rn_project_id run = dr_project_id r
      \<and> (tk_status task, rn_status run) \<in> set (allowed_statuses (dr_phase r))
      \<and> (dr_phase r = DpCompleted \<longrightarrow> completion_evidence r))"

definition load_row :: "dispatch_env \<Rightarrow> dispatch_db \<Rightarrow> uuid \<Rightarrow> store_error + stored_dispatch option" where
  "load_row env db request_id =
     (case find (\<lambda>x. row_id x = request_id) (db_rows db) of
        None \<Rightarrow> Inr None
      | Some x \<Rightarrow> if row_consistent env x then Inr (Some x) else Inl StProjectionMismatch)"

definition load_existing :: "dispatch_env \<Rightarrow> dispatch_db \<Rightarrow> uuid \<Rightarrow> store_error + stored_dispatch" where
  "load_existing env db request_id =
     (case load_row env db request_id of
        Inl e \<Rightarrow> Inl e
      | Inr None \<Rightarrow> Inl (StHarness DeNotFound)
      | Inr (Some x) \<Rightarrow> Inr x)"

text \<open>The phases the partial unique index covers.\<close>

definition active_phase :: "dispatch_phase \<Rightarrow> bool" where
  "active_phase p \<longleftrightarrow> p = DpAdmitted \<or> p = DpRunning \<or> p = DpCancelRequested \<or> p = DpRecoveryPending"

definition is_reserved :: "dispatch_db \<Rightarrow> digest \<Rightarrow> bool" where
  "is_reserved db key \<longleftrightarrow>
     list_ex (\<lambda>x. dr_resource_key (sx_record x) = key \<and> active_phase (row_phase x)) (db_rows db)"

definition active_request_keys :: "dispatch_db \<Rightarrow> uuid list" where
  "active_request_keys db =
     map row_id (filter (\<lambda>x. row_phase x = DpAdmitted \<or> row_phase x = DpRunning
       \<or> row_phase x = DpCancelRequested) (db_rows db))"

text \<open>The \<open>CHECK\<close> of the table: a fence exactly while an executor may hold the claim.\<close>

definition fence_check :: "dispatch_phase \<Rightarrow> uuid option \<Rightarrow> bool" where
  "fence_check p fence \<longleftrightarrow>
     (if p = DpRunning \<or> p = DpCancelRequested then fence \<noteq> None
      else if p = DpAdmitted \<or> p = DpRecoveryPending then fence = None
      else True)"

definition insert_row :: "dispatch_db \<Rightarrow> stored_dispatch \<Rightarrow> store_error + dispatch_db" where
  "insert_row db x =
     (if row_id x \<in> row_id ` set (db_rows db)
         \<or> dr_task_id (sx_record x) \<in> (dr_task_id \<circ> sx_record) ` set (db_rows db)
         \<or> dr_run_id (sx_record x) \<in> (dr_run_id \<circ> sx_record) ` set (db_rows db)
         \<or> \<not> fence_check (row_phase x) (sx_fence x) \<or> dr_version (sx_record x) = 0
         \<or> (active_phase (row_phase x) \<and> is_reserved db (dr_resource_key (sx_record x)))
      then Inl StDatabase
      else Inr (db\<lparr>db_rows := db_rows db @ [x]\<rparr>))"

text \<open>\<open>update\<close>: compare-and-set on the loaded version, under the constraints.\<close>

definition update_row :: "dispatch_db \<Rightarrow> stored_dispatch \<Rightarrow> u64 \<Rightarrow> store_error + dispatch_db" where
  "update_row db x previous_version =
     (if \<not> list_ex (\<lambda>y. row_id y = row_id x \<and> dr_version (sx_record y) = previous_version) (db_rows db)
      then Inl StVersionConflict
      else if \<not> fence_check (row_phase x) (sx_fence x) \<or> dr_version (sx_record x) = 0
         \<or> (active_phase (row_phase x) \<and>
            list_ex (\<lambda>y. row_id y \<noteq> row_id x \<and> active_phase (row_phase y)
              \<and> dr_resource_key (sx_record y) = dr_resource_key (sx_record x)) (db_rows db))
      then Inl StDatabase
      else Inr (db\<lparr>db_rows := map (\<lambda>y. if row_id y = row_id x then x else y) (db_rows db)\<rparr>))"

section \<open>Transactions\<close>

record dispatch_commit =
  hc_record :: dispatch_record
  hc_event :: "event_envelope option"
  hc_sequence :: nat

definition unchanged_commit :: "stored_dispatch \<Rightarrow> dispatch_commit" where
  "unchanged_commit self = \<lparr>hc_record = sx_record self, hc_event = None, hc_sequence = sx_sequence self\<rparr>"

definition admitted_entities ::
  "uuid \<Rightarrow> uuid \<Rightarrow> uuid \<Rightarrow> dispatch_admission \<Rightarrow> store_error + task \<times> run" where
  "admitted_entities project_id fresh_task fresh_run admission =
     (case task_new fresh_task \<lparr>dts_project_id = project_id,
             dts_title = DISPATCH_TASK_TITLE_PREFIX @ command_name (da_harness admission),
             dts_description = ''''\<rparr> of
        Inl _ \<Rightarrow> Inl (StHarness DeInvalidRequest)
      | Inr task0 \<Rightarrow>
     (case task_transitioned task0 ADMISSION_TASK_STATUS of
        Inl _ \<Rightarrow> Inl (StHarness DeInvalidRequest)
      | Inr task \<Rightarrow>
     (case run_new fresh_run \<lparr>rs_project_id = project_id, rs_task_id = tk_task_id task,
             rs_harness = command_name (da_harness admission), rs_role = DISPATCH_RUN_ROLE,
             rs_protocol = protocol_as_str (da_protocol admission),
             rs_base_commit = da_base_commit admission\<rparr> of
        Inl _ \<Rightarrow> Inl (StHarness DeInvalidRequest)
      | Inr run \<Rightarrow>
          if rn_status run \<noteq> ADMISSION_RUN_STATUS then Inl (StHarness DeInternal)
          else Inr (task, run))))"

definition admitted_record ::
  "dispatch_env \<Rightarrow> uuid \<Rightarrow> task \<Rightarrow> run \<Rightarrow> dispatch_admission \<Rightarrow> dispatch_record" where
  "admitted_record env project_id task run admission =
     \<lparr>dr_schema_version = HARNESS_DISPATCH_RECORD_SCHEMA_VERSION,
      dr_request_id = da_request_id admission, dr_project_id = project_id,
      dr_task_id = tk_task_id task, dr_run_id = rn_run_id run,
      dr_harness = da_harness admission, dr_protocol = da_protocol admission,
      dr_fingerprint = request_fingerprint env project_id (da_request_id admission) (da_harness admission)
        (da_protocol admission) (pd_sha256 (da_prompt admission)) (da_config_sha256 admission),
      dr_resource_key = da_resource_key admission, dr_prompt = da_prompt admission,
      dr_config_sha256 = da_config_sha256 admission, dr_base_commit = da_base_commit admission,
      dr_phase = DpAdmitted, dr_version = 1, dr_outcome = None, dr_error_code = None,
      dr_process = None, dr_capture = None,
      dr_created_at = da_timestamp admission, dr_updated_at = da_timestamp admission\<rparr>"

definition admitted_event :: "dispatch_env \<Rightarrow> dispatch_record \<Rightarrow> instant \<Rightarrow> event_envelope" where
  "admitted_event env r timestamp =
     draft_event env ADMITTED_EVENT r timestamp
       (PayAdmitted \<lparr>ad_request_id = dr_request_id r, ad_harness = dr_harness r, ad_protocol = dr_protocol r,
          ad_prompt_sha256 = pd_sha256 (dr_prompt r), ad_prompt_bytes = pd_byte_count (dr_prompt r),
          ad_config_sha256 = dr_config_sha256 r, ad_base_commit = dr_base_commit r\<rparr>)"

definition admit_dispatch ::
  "dispatch_env \<Rightarrow> uuid \<Rightarrow> uuid \<Rightarrow> uuid \<Rightarrow> dispatch_db \<Rightarrow> dispatch_admission \<Rightarrow>
   store_error + dispatch_db \<times> dispatch_commit" where
  "admit_dispatch env fresh_project fresh_task fresh_run db admission =
     (if is_nil (da_request_id admission)
         \<or> \<not> protocol_accepts (da_protocol admission) (da_harness admission)
      then Inl (StHarness DeInvalidRequest)
      else if pd_byte_count (da_prompt admission) = 0
         \<or> unat (pd_byte_count (da_prompt admission)) > MAX_PROMPT_BYTES
      then Inl (StHarness DeInvalidPrompt)
      else if \<not> supports_execution (da_protocol admission) then Inl (StHarness DeExecutionDisabled)
      else
     (let project_id = resolve_or_mint_project_id db fresh_project;
          fingerprint = request_fingerprint env project_id (da_request_id admission)
            (da_harness admission) (da_protocol admission) (pd_sha256 (da_prompt admission))
            (da_config_sha256 admission)
      in
     (case load_row env db (da_request_id admission) of Inl e \<Rightarrow> Inl e | Inr loaded \<Rightarrow>
     (case loaded of
        Some stored \<Rightarrow>
          if dr_fingerprint (sx_record stored) \<noteq> fingerprint then Inl (StHarness DeConflict)
          else Inr (db, unchanged_commit stored)
      | None \<Rightarrow>
          if \<not> en_detected env (command_name (da_harness admission)) then Inl (StHarness DeNotDetected)
          else if is_reserved db (da_resource_key admission) then Inl (StHarness DeBusy)
          else
         (case admitted_entities project_id fresh_task fresh_run admission of Inl e \<Rightarrow> Inl e | Inr (task, run) \<Rightarrow>
         (let r = admitted_record env project_id task run admission;
              event = admitted_event env r (da_timestamp admission)
          in
         (case insert_event db event of Inl e \<Rightarrow> Inl e | Inr (db1, sequence) \<Rightarrow>
         (case insert_row db1 \<lparr>sx_record = r, sx_fence = None, sx_sequence = sequence,
                 sx_task = task, sx_run = run\<rparr> of Inl e \<Rightarrow> Inl e | Inr db2 \<Rightarrow>
          Inr (db2, \<lparr>hc_record = r, hc_event = Some event, hc_sequence = sequence\<rparr>)))))))))"

text \<open>\<open>commit_transition\<close>: the fence effect, the Task and Run edges, the record and the event.\<close>

definition new_fence ::
  "fence_effect \<Rightarrow> uuid option \<Rightarrow> dispatch_finish option \<Rightarrow> uuid \<Rightarrow> store_error + uuid option" where
  "new_fence effect stored finish fresh =
     (case effect of
        FenceKeep \<Rightarrow> Inr stored
      | FenceMint \<Rightarrow> Inr (Some fresh)
      | FenceRequire \<Rightarrow>
          (case (stored, finish) of
             (Some current, Some fin) \<Rightarrow>
               if current = fi_fence fin then Inr (Some current) else Inl (StHarness DeStaleFence)
           | _ \<Rightarrow> Inl (StHarness DeStaleFence))
      | FenceClear \<Rightarrow> Inr None)"

definition transition_task :: "task \<Rightarrow> task_status option \<Rightarrow> store_error + task" where
  "transition_task task status =
     (case status of None \<Rightarrow> Inr task
      | Some s \<Rightarrow> (case task_transitioned task s of Inl _ \<Rightarrow> Inl StProjectionMismatch | Inr t \<Rightarrow> Inr t))"

definition transition_run ::
  "run \<Rightarrow> run_status option \<Rightarrow> run_completion_authority option \<Rightarrow> store_error + run" where
  "transition_run run status authority =
     (case status of None \<Rightarrow> Inr run
      | Some s \<Rightarrow> (case run_transitioned run s authority of Inl _ \<Rightarrow> Inl StProjectionMismatch | Inr t \<Rightarrow> Inr t))"

definition or_else :: "'a option \<Rightarrow> 'a option \<Rightarrow> 'a option" where
  "or_else a b = (case a of None \<Rightarrow> b | Some _ \<Rightarrow> a)"

definition transition_code :: "phase_transition \<Rightarrow> dispatch_finish option \<Rightarrow> dispatch_error option" where
  "transition_code transition finish =
     or_else (case finish of None \<Rightarrow> None | Some fin \<Rightarrow> od_error_code (fi_decision fin))
       (pt_error_code transition)"

definition transition_record ::
  "dispatch_record \<Rightarrow> phase_transition \<Rightarrow> dispatch_finish option \<Rightarrow> instant \<Rightarrow> u64 \<Rightarrow> dispatch_record" where
  "transition_record r transition finish timestamp version =
     (let r1 = r\<lparr>dr_phase := pt_to transition, dr_version := version,
               dr_error_code := or_else (transition_code transition finish) (dr_error_code r)\<rparr>;
          r2 = (case finish of None \<Rightarrow> r1
                | Some fin \<Rightarrow> r1\<lparr>dr_outcome := Some (od_outcome (fi_decision fin)),
                    dr_process := Some (fi_process fin), dr_capture := Some (fi_capture fin)\<rparr>)
      in r2\<lparr>dr_updated_at := max timestamp (dr_updated_at r)\<rparr>)"

definition transition_event ::
  "dispatch_env \<Rightarrow> dispatch_record \<Rightarrow> dispatch_trigger \<Rightarrow> phase_transition \<Rightarrow> dispatch_finish option \<Rightarrow>
   dispatch_error option \<Rightarrow> instant \<Rightarrow> dispatch_error + event_envelope" where
  "transition_event env r trigger transition finish error_code timestamp =
     (case trigger of
        TrClaim \<Rightarrow> Inr (draft_event env STARTED_EVENT r timestamp (PayStarted (dr_request_id r)))
      | TrRecover \<Rightarrow>
          (case error_code of None \<Rightarrow> Inl DeInternal
           | Some code \<Rightarrow> Inr (draft_event env RECOVERED_EVENT r timestamp
               (PayRecovered \<lparr>rp_request_id = dr_request_id r, rp_from_phase = pt_from transition,
                  rp_phase = pt_to transition, rp_error_code = code\<rparr>)))
      | _ \<Rightarrow>
          if trigger = TrCancel \<and> pt_to transition = DpCancelRequested
          then Inr (draft_event env CANCEL_REQUESTED_EVENT r timestamp
                 (PayCancelRequested (dr_request_id r) (pt_from transition)))
          else Inr (draft_event env FINISHED_EVENT r timestamp
            (PayFinished \<lparr>fp_request_id = dr_request_id r, fp_from_phase = pt_from transition,
               fp_phase = pt_to transition,
               fp_outcome = map_option (od_outcome \<circ> fi_decision) finish, fp_error_code = error_code,
               fp_process = map_option fi_process finish, fp_capture = map_option fi_capture finish\<rparr>)))"

definition commit_transition ::
  "dispatch_env \<Rightarrow> uuid \<Rightarrow> dispatch_db \<Rightarrow> stored_dispatch \<Rightarrow> dispatch_trigger \<Rightarrow> dispatch_finish option \<Rightarrow>
   instant \<Rightarrow> store_error + dispatch_db \<times> dispatch_commit \<times> uuid option" where
  "commit_transition env fresh_fence db stored trigger finish timestamp =
     (case dispatch_apply (row_phase stored) trigger of
        Inl e \<Rightarrow> Inl (StHarness e)
      | Inr TransUnchanged \<Rightarrow> Inr (db, unchanged_commit stored, sx_fence stored)
      | Inr (TransChanged transition) \<Rightarrow>
     (case new_fence (pt_fence transition) (sx_fence stored) finish fresh_fence of Inl e \<Rightarrow> Inl e | Inr fence \<Rightarrow>
     (case transition_task (sx_task stored) (pt_task_status transition) of Inl e \<Rightarrow> Inl e | Inr task \<Rightarrow>
     (case transition_run (sx_run stored) (pt_run_status transition) (pt_completion_authority transition) of
        Inl e \<Rightarrow> Inl e | Inr run \<Rightarrow>
     (case checked_add (dr_version (sx_record stored)) 1 of None \<Rightarrow> Inl StVersionConflict | Some version \<Rightarrow>
     (let r = transition_record (sx_record stored) transition finish timestamp version in
     (case transition_event env r trigger transition finish (transition_code transition finish)
             (dr_updated_at r) of Inl e \<Rightarrow> Inl (StHarness e) | Inr event \<Rightarrow>
     (case insert_event db event of Inl e \<Rightarrow> Inl e | Inr (db1, sequence) \<Rightarrow>
     (case update_row db1 \<lparr>sx_record = r, sx_fence = fence, sx_sequence = sequence, sx_task = task,
             sx_run = run\<rparr> (dr_version (sx_record stored)) of Inl e \<Rightarrow> Inl e | Inr db2 \<Rightarrow>
      Inr (db2, \<lparr>hc_record = r, hc_event = Some event, hc_sequence = sequence\<rparr>, fence))))))))))"

definition claim_dispatch ::
  "dispatch_env \<Rightarrow> uuid \<Rightarrow> dispatch_db \<Rightarrow> uuid \<Rightarrow> instant \<Rightarrow>
   store_error + dispatch_db \<times> dispatch_record \<times> event_envelope \<times> uuid" where
  "claim_dispatch env fresh_fence db request_id timestamp =
     (case load_existing env db request_id of Inl e \<Rightarrow> Inl e | Inr stored \<Rightarrow>
     (case commit_transition env fresh_fence db stored TrClaim None timestamp of Inl e \<Rightarrow> Inl e
      | Inr (db1, commit, fence) \<Rightarrow>
     (case (hc_event commit, fence) of
        (Some event, Some fence) \<Rightarrow> Inr (db1, hc_record commit, event, fence)
      | _ \<Rightarrow> Inl (StHarness DeInternal))))"

definition validate_finish :: "dispatch_finish \<Rightarrow> store_error + unit" where
  "validate_finish finish =
     (let decision = fi_decision finish in
      if od_outcome decision = OutProbed then Inl (StHarness DeInvalidTransition)
      else if (case od_outcome decision of
           OutCompleted \<Rightarrow> is_clean_completion (od_error_code decision) (fi_process finish)
         | OutFailed \<Rightarrow> od_error_code decision \<noteq> None
         | OutUnverified \<Rightarrow> od_error_code decision \<noteq> None
         | _ \<Rightarrow> True)
      then Inr () else Inl (StHarness DeInvalidRequest))"

definition records_finish :: "dispatch_record \<Rightarrow> dispatch_finish \<Rightarrow> bool" where
  "records_finish r finish \<longleftrightarrow>
     dr_outcome r = Some (od_outcome (fi_decision finish))
     \<and> dr_error_code r = od_error_code (fi_decision finish)
     \<and> dr_process r = Some (fi_process finish) \<and> dr_capture r = Some (fi_capture finish)"

definition finish_dispatch ::
  "dispatch_env \<Rightarrow> uuid \<Rightarrow> dispatch_db \<Rightarrow> dispatch_finish \<Rightarrow> store_error + dispatch_db \<times> dispatch_commit" where
  "finish_dispatch env fresh_fence db finish =
     (case validate_finish finish of Inl e \<Rightarrow> Inl e | Inr _ \<Rightarrow>
     (case load_existing env db (fi_request_id finish) of Inl e \<Rightarrow> Inl e | Inr stored \<Rightarrow>
      if dispatch_is_terminal (row_phase stored) \<and> sx_fence stored = Some (fi_fence finish)
      then (if \<not> records_finish (sx_record stored) finish then Inl (StHarness DeConflict)
            else Inr (db, unchanged_commit stored))
      else (case commit_transition env fresh_fence db stored (TrFinish (od_outcome (fi_decision finish)))
              (Some finish) (fi_timestamp finish) of
              Inl e \<Rightarrow> Inl e | Inr (db1, commit, _) \<Rightarrow> Inr (db1, commit))))"

definition cancel_dispatch ::
  "dispatch_env \<Rightarrow> uuid \<Rightarrow> dispatch_db \<Rightarrow> uuid \<Rightarrow> instant \<Rightarrow> store_error + dispatch_db \<times> dispatch_commit" where
  "cancel_dispatch env fresh_fence db request_id timestamp =
     (case load_existing env db request_id of Inl e \<Rightarrow> Inl e | Inr stored \<Rightarrow>
     (case commit_transition env fresh_fence db stored TrCancel None timestamp of
        Inl e \<Rightarrow> Inl e | Inr (db1, commit, _) \<Rightarrow> Inr (db1, commit)))"

text \<open>Recovery: each attempt in its own savepoint; a defective row is quarantined, any other error
  aborts. The conversion errors of SQLite that also count as row defects do not arise on typed rows.\<close>

fun is_row_defect :: "store_error \<Rightarrow> bool" where
  "is_row_defect (StHarness _) = True"
| "is_row_defect StProjectionMismatch = True"
| "is_row_defect StVersionConflict = True"
| "is_row_defect StDatabase = False"

record dispatch_recovery =
  ry_recovered :: "dispatch_commit list"
  ry_quarantined :: "(uuid \<times> store_error) list"

definition recover_one ::
  "dispatch_env \<Rightarrow> uuid \<Rightarrow> instant \<Rightarrow> uuid \<Rightarrow> dispatch_db \<Rightarrow>
   store_error + dispatch_db \<times> dispatch_commit" where
  "recover_one env fresh_fence timestamp request_id db =
     (case load_existing env db request_id of Inl e \<Rightarrow> Inl e | Inr stored \<Rightarrow>
     (case commit_transition env fresh_fence db stored TrRecover None timestamp of
        Inl e \<Rightarrow> Inl e | Inr (db1, commit, _) \<Rightarrow> Inr (db1, commit)))"

fun recover_loop ::
  "dispatch_env \<Rightarrow> uuid \<Rightarrow> instant \<Rightarrow> uuid list \<Rightarrow> dispatch_db \<Rightarrow> dispatch_recovery \<Rightarrow>
   store_error + dispatch_db \<times> dispatch_recovery" where
  "recover_loop env fresh_fence timestamp [] db recovery = Inr (db, recovery)"
| "recover_loop env fresh_fence timestamp (request_id # rest) db recovery =
     (case recover_one env fresh_fence timestamp request_id db of
        Inr (db1, commit) \<Rightarrow>
          recover_loop env fresh_fence timestamp rest db1
            (if hc_event commit \<noteq> None then recovery\<lparr>ry_recovered := ry_recovered recovery @ [commit]\<rparr>
             else recovery)
      | Inl error \<Rightarrow>
          if is_row_defect error
          then recover_loop env fresh_fence timestamp rest db
                 (recovery\<lparr>ry_quarantined := ry_quarantined recovery @ [(request_id, error)]\<rparr>)
          else Inl error)"

definition recover_dispatches ::
  "dispatch_env \<Rightarrow> uuid \<Rightarrow> dispatch_db \<Rightarrow> instant \<Rightarrow> store_error + dispatch_db \<times> dispatch_recovery" where
  "recover_dispatches env fresh_fence db timestamp =
     recover_loop env fresh_fence timestamp (active_request_keys db) db
       \<lparr>ry_recovered = [], ry_quarantined = []\<rparr>"

text \<open>The writer's commands, as a reducer over the database.\<close>

datatype dispatch_op =
    OpAdmit uuid uuid uuid dispatch_admission
  | OpClaim uuid uuid instant
  | OpFinish dispatch_finish
  | OpCancel uuid instant
  | OpRecover instant

definition dispatch_step :: "dispatch_env \<Rightarrow> dispatch_db \<Rightarrow> dispatch_op \<Rightarrow> store_error + dispatch_db" where
  "dispatch_step env db op =
     (case op of
        OpAdmit project task run admission \<Rightarrow>
          (case admit_dispatch env project task run db admission of Inl e \<Rightarrow> Inl e | Inr (db1, _) \<Rightarrow> Inr db1)
      | OpClaim fence request_id timestamp \<Rightarrow>
          (case claim_dispatch env fence db request_id timestamp of Inl e \<Rightarrow> Inl e | Inr (db1, _) \<Rightarrow> Inr db1)
      | OpFinish finish \<Rightarrow>
          (case finish_dispatch env 0 db finish of Inl e \<Rightarrow> Inl e | Inr (db1, _) \<Rightarrow> Inr db1)
      | OpCancel request_id timestamp \<Rightarrow>
          (case cancel_dispatch env 0 db request_id timestamp of Inl e \<Rightarrow> Inl e | Inr (db1, _) \<Rightarrow> Inr db1)
      | OpRecover timestamp \<Rightarrow>
          (case recover_dispatches env 0 db timestamp of Inl e \<Rightarrow> Inl e | Inr (db1, _) \<Rightarrow> Inr db1))"

end
