(* ===== verification/Dispatch_Histories.thy ===== *)
theory Dispatch_Histories
  imports Dispatch_Store
begin

text \<open>
  The histories of the dispatch store: what a committed transition does, the invariant of the
  database and that every command keeps it, progress (a change the table lists is committed unless the
  fence is wrong), the abstract machine of phases with the simulation, and the properties of the
  component: soundness, refinement, fencing and the liveness of recovery.
\<close>

section \<open>What a transition does\<close>

text \<open>The trigger and the report that comes with it.\<close>

definition trigger_ok :: "dispatch_trigger \<Rightarrow> dispatch_finish option \<Rightarrow> bool" where
  "trigger_ok trigger finish =
     (case trigger of
        TrFinish oc \<Rightarrow> (\<exists>fin. finish = Some fin \<and> od_outcome (fi_decision fin) = oc
                          \<and> validate_finish fin = Inr ())
      | _ \<Rightarrow> finish = None)"

text \<open>The row a change writes, and the event it appends.\<close>

definition row_change ::
  "dispatch_env \<Rightarrow> uuid \<Rightarrow> stored_dispatch \<Rightarrow> dispatch_trigger \<Rightarrow> dispatch_finish option \<Rightarrow> instant \<Rightarrow>
   phase_transition \<Rightarrow> event_envelope \<Rightarrow> stored_dispatch \<Rightarrow> bool" where
  "row_change env fresh x trigger finish timestamp t event y \<longleftrightarrow>
     dispatch_apply (row_phase x) trigger = Inr (TransChanged t)
     \<and> new_fence (pt_fence t) (sx_fence x) finish fresh = Inr (sx_fence y)
     \<and> transition_task (sx_task x) (pt_task_status t) = Inr (sx_task y)
     \<and> transition_run (sx_run x) (pt_run_status t) (pt_completion_authority t) = Inr (sx_run y)
     \<and> checked_add (dr_version (sx_record x)) 1 = Some (dr_version (sx_record y))
     \<and> sx_record y = transition_record (sx_record x) t finish timestamp (dr_version (sx_record y))
     \<and> transition_event env (sx_record y) trigger t finish (transition_code t finish)
         (dr_updated_at (sx_record y)) = Inr event"

lemma transition_record_fields [simp]:
  "dr_schema_version (transition_record r t fin ts v) = dr_schema_version r"
  "dr_request_id (transition_record r t fin ts v) = dr_request_id r"
  "dr_project_id (transition_record r t fin ts v) = dr_project_id r"
  "dr_task_id (transition_record r t fin ts v) = dr_task_id r"
  "dr_run_id (transition_record r t fin ts v) = dr_run_id r"
  "dr_harness (transition_record r t fin ts v) = dr_harness r"
  "dr_protocol (transition_record r t fin ts v) = dr_protocol r"
  "dr_fingerprint (transition_record r t fin ts v) = dr_fingerprint r"
  "dr_resource_key (transition_record r t fin ts v) = dr_resource_key r"
  "dr_prompt (transition_record r t fin ts v) = dr_prompt r"
  "dr_config_sha256 (transition_record r t fin ts v) = dr_config_sha256 r"
  "dr_phase (transition_record r t fin ts v) = pt_to t"
  "dr_version (transition_record r t fin ts v) = v"
  "dr_error_code (transition_record r t fin ts v) = or_else (transition_code t fin) (dr_error_code r)"
  by (simp_all add: transition_record_def Let_def split: option.split)

lemma commit_transition_cases:
  assumes "commit_transition env fresh db x trigger finish timestamp = Inr (db', commit, fence)"
  obtains
    (unchanged) "dispatch_apply (row_phase x) trigger = Inr TransUnchanged" "db' = db"
      "commit = unchanged_commit x" "fence = sx_fence x"
  | (changed) t event y where "row_change env fresh x trigger finish timestamp t event y"
      "ee_idempotency_key event \<notin> ee_idempotency_key ` set (db_events db)"
      "fence_check (row_phase y) (sx_fence y)"
      "\<not> (active_phase (row_phase y) \<and>
         list_ex (\<lambda>z. row_id z \<noteq> row_id y \<and> active_phase (row_phase z)
           \<and> dr_resource_key (sx_record z) = dr_resource_key (sx_record y)) (db_rows db))"
      "db' = \<lparr>db_rows = map (\<lambda>z. if row_id z = row_id y then y else z) (db_rows db),
              db_events = db_events db @ [event]\<rparr>"
      "hc_event commit = Some event" "fence = sx_fence y"
proof (cases "dispatch_apply (row_phase x) trigger")
  case (Inl e)
  with assms show thesis by (simp add: commit_transition_def)
next
  case (Inr res)
  show thesis
  proof (cases res)
    case TransUnchanged
    with Inr assms show thesis by (intro unchanged) (simp_all add: commit_transition_def)
  next
    case (TransChanged t)
    with Inr assms obtain f task run version event db1 sequence db2 where
      h: "new_fence (pt_fence t) (sx_fence x) finish fresh = Inr f"
      "transition_task (sx_task x) (pt_task_status t) = Inr task"
      "transition_run (sx_run x) (pt_run_status t) (pt_completion_authority t) = Inr run"
      "checked_add (dr_version (sx_record x)) 1 = Some version"
      and ev: "transition_event env (transition_record (sx_record x) t finish timestamp version) trigger t
          finish (transition_code t finish)
          (dr_updated_at (transition_record (sx_record x) t finish timestamp version)) = Inr event"
      and ins: "insert_event db event = Inr (db1, sequence)"
      and upd: "update_row db1 \<lparr>sx_record = transition_record (sx_record x) t finish timestamp version,
          sx_fence = f, sx_sequence = sequence, sx_task = task, sx_run = run\<rparr> (dr_version (sx_record x)) = Inr db2"
      and res: "db' = db2" "hc_event commit = Some event" "fence = f"
      unfolding commit_transition_def Let_def by (auto split: sum.splits option.splits)
    let ?y = "\<lparr>sx_record = transition_record (sx_record x) t finish timestamp version,
          sx_fence = f, sx_sequence = sequence, sx_task = task, sx_run = run\<rparr>"
    have "row_change env fresh x trigger finish timestamp t event ?y"
      unfolding row_change_def using Inr TransChanged h ev by simp
    moreover have "db1 = db\<lparr>db_events := db_events db @ [event]\<rparr>"
      "ee_idempotency_key event \<notin> ee_idempotency_key ` set (db_events db)"
      using ins by (auto simp: insert_event_def split: if_splits)
    ultimately show thesis
      using upd res unfolding update_row_def
      by (intro changed [of t event ?y]) (auto split: if_splits)
  qed
qed

section \<open>The invariant\<close>

text \<open>A row passes the checks of \<open>load\<close> and of the table, and has no failure code before it ended or
  was interrupted.\<close>

definition row_inv :: "dispatch_env \<Rightarrow> stored_dispatch \<Rightarrow> bool" where
  "row_inv env x \<longleftrightarrow>
     row_consistent env x \<and> fence_check (row_phase x) (sx_fence x)
     \<and> (row_phase x = DpAdmitted \<or> row_phase x = DpRunning \<or> row_phase x = DpCancelRequested \<longrightarrow>
          dr_error_code (sx_record x) = None)"

lemma transition_task_fields:
  "transition_task k s = Inr k' \<Longrightarrow>
     tk_task_id k' = tk_task_id k \<and> tk_project_id k' = tk_project_id k \<and> tk_status k' = changed_to s (tk_status k)"
  by (auto simp: transition_task_def task_transitioned_def split: option.splits if_splits sum.splits)

lemma transition_run_fields:
  "transition_run k s a = Inr k' \<Longrightarrow>
     rn_run_id k' = rn_run_id k \<and> rn_task_id k' = rn_task_id k \<and> rn_project_id k' = rn_project_id k
     \<and> rn_status k' = changed_to s (rn_status k)"
  by (auto simp: transition_run_def run_transitioned_def split: option.splits if_splits sum.splits)

lemma validate_finish_clean:
  "validate_finish fin = Inr () \<Longrightarrow> od_outcome (fi_decision fin) = OutCompleted \<Longrightarrow>
   is_clean_completion (od_error_code (fi_decision fin)) (fi_process fin)"
  by (auto simp: validate_finish_def Let_def split: if_splits)

text \<open>Only a finish with the outcome \<open>Completed\<close> of a running attempt completes it.\<close>

lemma apply_completed:
  "dispatch_apply p tr = Inr (TransChanged t) \<Longrightarrow> pt_to t = DpCompleted \<Longrightarrow>
   p = DpRunning \<and> tr = TrFinish OutCompleted \<and> pt_fence t = FenceRequire \<and> pt_error_code t = None"
proof (erule dispatch_apply_cases, goal_cases)
  case (4 oc to ts rs)
  then show ?case by (cases oc) (auto simp: phase_changed_eq)
qed (auto simp: phase_changed_eq)

lemma apply_no_code:
  "dispatch_apply p tr = Inr (TransChanged t) \<Longrightarrow> pt_to t = DpRunning \<or> pt_to t = DpCancelRequested \<Longrightarrow>
   (p = DpAdmitted \<or> p = DpRunning) \<and> pt_error_code t = None \<and> (tr = TrClaim \<or> tr = TrCancel)"
proof (erule dispatch_apply_cases, goal_cases)
  case (4 oc to ts rs)
  then show ?case by (cases oc) (auto simp: phase_changed_eq)
qed (auto simp: phase_changed_eq)

lemma apply_not_admitted: "dispatch_apply p tr = Inr (TransChanged t) \<Longrightarrow> pt_to t \<noteq> DpAdmitted"
proof (erule dispatch_apply_cases, goal_cases)
  case (4 oc to ts rs)
  then show ?case by (cases oc) (auto simp: phase_changed_eq)
qed (auto simp: phase_changed_eq)

lemma row_change_completed:
  assumes "row_inv env x" and c: "row_change env fresh x tr fin ts t ev y" and "trigger_ok tr fin"
    and "row_phase y = DpCompleted"
  shows "completion_evidence (sx_record y)"
proof -
  from c obtain v where r: "sx_record y = transition_record (sx_record x) t fin ts v"
    and a: "dispatch_apply (row_phase x) tr = Inr (TransChanged t)"
    unfolding row_change_def by blast
  then have "pt_to t = DpCompleted" using assms(4) by simp
  from apply_completed [OF a this] assms(1)
  have p: "row_phase x = DpRunning" "tr = TrFinish OutCompleted" "pt_error_code t = None"
    "dr_error_code (sx_record x) = None"
    by (auto simp: row_inv_def)
  with assms(3) obtain f where f: "fin = Some f" "od_outcome (fi_decision f) = OutCompleted"
    "validate_finish f = Inr ()"
    by (auto simp: trigger_ok_def)
  note clean = validate_finish_clean [OF f(3,2)]
  show ?thesis
    unfolding completion_evidence_def r
    using f p clean
    by (simp add: transition_record_def Let_def transition_code_def or_else_def is_clean_completion_def)
qed

lemma row_change_inv:
  assumes x: "row_inv env x" and c: "row_change env fresh x tr fin ts t ev y" and ok: "trigger_ok tr fin"
    and fence: "fence_check (row_phase y) (sx_fence y)"
  shows "row_inv env y \<and> row_id y = row_id x
    \<and> dr_resource_key (sx_record y) = dr_resource_key (sx_record x) \<and> row_phase y = pt_to t"
proof -
  note h = c [unfolded row_change_def]
  then obtain v where r: "sx_record y = transition_record (sx_record x) t fin ts v"
    and a: "dispatch_apply (row_phase x) tr = Inr (TransChanged t)" by blast
  have ph: "row_phase y = pt_to t" using r by simp
  have id: "row_id y = row_id x" "dr_resource_key (sx_record y) = dr_resource_key (sx_record x)"
    using r by simp_all
  note tk = transition_task_fields [of "sx_task x" "pt_task_status t" "sx_task y"]
    and rn = transition_run_fields [of "sx_run x" "pt_run_status t" "pt_completion_authority t" "sx_run y"]
  have st: "(tk_status (sx_task x), rn_status (sx_run x)) \<in> set (allowed_statuses (row_phase x))"
    using x by (simp add: row_inv_def row_consistent_def Let_def)
  have "(tk_status (sx_task y), rn_status (sx_run y)) \<in> set (allowed_statuses (row_phase y))"
    using dispatch_apply_refines [OF a st] h tk rn ph by simp
  moreover have "row_phase y = DpCompleted \<longrightarrow> completion_evidence (sx_record y)"
    using row_change_completed [OF x c ok] by blast
  moreover have "dr_error_code (sx_record y) = None"
    if "row_phase y = DpAdmitted \<or> row_phase y = DpRunning \<or> row_phase y = DpCancelRequested"
  proof -
    have "pt_to t = DpRunning \<or> pt_to t = DpCancelRequested"
      using that ph apply_not_admitted [OF a] by simp
    from apply_no_code [OF a this] x ok
    have "dr_error_code (sx_record x) = None" "pt_error_code t = None" "fin = None"
      by (auto simp: row_inv_def trigger_ok_def)
    then show ?thesis unfolding r by (simp add: transition_code_def or_else_def)
  qed
  moreover have "dr_schema_version (sx_record y) = dr_schema_version (sx_record x)"
    "dr_fingerprint (sx_record y) = dr_fingerprint (sx_record x)"
    "dr_project_id (sx_record y) = dr_project_id (sx_record x)"
    "dr_task_id (sx_record y) = dr_task_id (sx_record x)" "dr_run_id (sx_record y) = dr_run_id (sx_record x)"
    "dr_harness (sx_record y) = dr_harness (sx_record x)" "dr_protocol (sx_record y) = dr_protocol (sx_record x)"
    "dr_prompt (sx_record y) = dr_prompt (sx_record x)"
    "dr_config_sha256 (sx_record y) = dr_config_sha256 (sx_record x)"
    using r by simp_all
  ultimately have "row_inv env y"
    using x h tk rn id fence by (simp add: row_inv_def row_consistent_def Let_def)
  with id ph show ?thesis by simp
qed

text \<open>What the code relies on of the UUID crate: the hyphenated text has 36 characters and names one
  UUID.\<close>

definition env_ok :: "dispatch_env \<Rightarrow> bool" where
  "env_ok env \<longleftrightarrow> inj (en_uuid_text env) \<and> (\<forall>u. length (en_uuid_text env u) = 36)"

lemmas event_type_defs = ADMITTED_EVENT_def STARTED_EVENT_def CANCEL_REQUESTED_EVENT_def
  FINISHED_EVENT_def RECOVERED_EVENT_def

definition dispatch_event_types :: "string list" where
  "dispatch_event_types =
     [ADMITTED_EVENT, STARTED_EVENT, CANCEL_REQUESTED_EVENT, FINISHED_EVENT, RECOVERED_EVENT]"

text \<open>The types of the events an attempt in a phase can already have in the log.\<close>

fun emitted :: "dispatch_phase \<Rightarrow> string list" where
  "emitted DpAdmitted = [ADMITTED_EVENT]"
| "emitted DpRunning = [ADMITTED_EVENT, STARTED_EVENT]"
| "emitted DpCancelRequested = [ADMITTED_EVENT, STARTED_EVENT, CANCEL_REQUESTED_EVENT]"
| "emitted DpRecoveryPending = [ADMITTED_EVENT, STARTED_EVENT, CANCEL_REQUESTED_EVENT, RECOVERED_EVENT]"
| "emitted _ = dispatch_event_types"

lemma idempotency_key_inject:
  assumes "env_ok env" and "idempotency_key env r t = idempotency_key env s u"
    and "t \<in> set dispatch_event_types" and "u \<in> set dispatch_event_types"
  shows "r = s \<and> t = u"
proof -
  have len: "length (en_uuid_text env r) = length (en_uuid_text env s)"
    using assms(1) by (simp add: env_ok_def)
  from assms(2) have "en_uuid_text env r = en_uuid_text env s"
    and tail: "strip_prefix_or ''harness_dispatch_'' t = strip_prefix_or ''harness_dispatch_'' u"
    using len by (simp_all add: idempotency_key_def)
  moreover have "list_all (\<lambda>t. list_all (\<lambda>u. strip_prefix_or ''harness_dispatch_'' t =
      strip_prefix_or ''harness_dispatch_'' u \<longrightarrow> t = u) dispatch_event_types) dispatch_event_types"
    by code_simp
  ultimately show ?thesis
    using assms(1,3,4) by (auto simp: env_ok_def inj_def list_all_iff)
qed

definition keys_logged :: "dispatch_env \<Rightarrow> dispatch_db \<Rightarrow> bool" where
  "keys_logged env db \<longleftrightarrow>
     (\<forall>e \<in> set (db_events db). \<forall>r. \<forall>t \<in> set dispatch_event_types.
        ee_idempotency_key e = idempotency_key env r t \<longrightarrow>
        (\<exists>x \<in> set (db_rows db). row_id x = r \<and> t \<in> set (emitted (row_phase x))))"

definition unique_active :: "dispatch_db \<Rightarrow> bool" where
  "unique_active db \<longleftrightarrow>
     (\<forall>x \<in> set (db_rows db). \<forall>y \<in> set (db_rows db).
        active_phase (row_phase x) \<and> active_phase (row_phase y)
        \<and> dr_resource_key (sx_record x) = dr_resource_key (sx_record y) \<longrightarrow> row_id x = row_id y)"

definition store_inv :: "dispatch_env \<Rightarrow> dispatch_db \<Rightarrow> bool" where
  "store_inv env db \<longleftrightarrow>
     distinct (map row_id (db_rows db))
     \<and> (\<forall>x \<in> set (db_rows db). row_inv env x)
     \<and> unique_active db
     \<and> distinct (map ee_idempotency_key (db_events db))
     \<and> keys_logged env db"

lemma draft_key [simp]:
  "ee_idempotency_key (draft_event env t r ts p) = idempotency_key env (dr_request_id r) t"
  by (simp add: draft_event_def)

text \<open>The event of a change is of a type that the log cannot have for this attempt yet.\<close>

lemma row_change_event:
  assumes c: "row_change env fresh x tr fin ts t ev y"
  obtains u where "ee_idempotency_key ev = idempotency_key env (row_id x) u"
    and "u \<in> set dispatch_event_types" and "u \<notin> set (emitted (row_phase x))"
    and "u \<in> set (emitted (row_phase y))" and "set (emitted (row_phase x)) \<subseteq> set (emitted (row_phase y))"
proof -
  note h = c [unfolded row_change_def]
  then obtain v where r: "sx_record y = transition_record (sx_record x) t fin ts v"
    and a: "dispatch_apply (row_phase x) tr = Inr (TransChanged t)"
    and e: "transition_event env (sx_record y) tr t fin (transition_code t fin)
      (dr_updated_at (sx_record y)) = Inr ev" by blast
  have p: "row_phase y = pt_to t" "row_id y = row_id x" using r by simp_all
  define u where "u = (if tr = TrClaim then STARTED_EVENT else if tr = TrRecover then RECOVERED_EVENT
      else if tr = TrCancel \<and> pt_to t = DpCancelRequested then CANCEL_REQUESTED_EVENT else FINISHED_EVENT)"
  have "ee_idempotency_key ev = idempotency_key env (row_id x) u"
    using e p unfolding transition_event_def u_def
    by (auto split: dispatch_trigger.splits option.splits if_splits)
  moreover have "u \<in> set dispatch_event_types \<and> u \<notin> set (emitted (row_phase x))
      \<and> u \<in> set (emitted (pt_to t)) \<and> set (emitted (row_phase x)) \<subseteq> set (emitted (pt_to t))"
    using a
  proof (cases rule: dispatch_apply_cases)
    case (finish oc to ts' rs')
    then show ?thesis
      by (cases oc) (auto simp: phase_changed_eq u_def dispatch_event_types_def event_type_defs)
  qed (auto simp: phase_changed_eq u_def dispatch_event_types_def event_type_defs)
  ultimately show thesis using that p by metis
qed

lemma load_existing_Inr:
  "load_existing env db i = Inr x \<Longrightarrow> x \<in> set (db_rows db) \<and> row_id x = i \<and> row_consistent env x"
  by (auto simp: load_existing_def load_row_def split: option.splits if_splits dest!: find_Some_filter)

lemma load_row_Some:
  "load_row env db i = Inr (Some x) \<Longrightarrow> x \<in> set (db_rows db) \<and> row_id x = i \<and> row_consistent env x"
  by (auto simp: load_row_def split: option.splits if_splits dest!: find_Some_filter)

definition replace_row :: "stored_dispatch \<Rightarrow> stored_dispatch list \<Rightarrow> stored_dispatch list" where
  "replace_row y rows = map (\<lambda>z. if row_id z = row_id y then y else z) rows"

lemma set_replace_row:
  assumes "x \<in> set rows" and "row_id y = row_id x"
  shows "set (replace_row y rows) = insert y {z \<in> set rows. row_id z \<noteq> row_id x}"
  unfolding replace_row_def using assms by auto

lemma ids_replace_row: "map row_id (replace_row y rows) = map row_id rows"
  by (simp add: replace_row_def)

text \<open>A relation that admits one name only keeps doing so when the new element clashes with none.\<close>

lemma one_name_insert:
  assumes "v \<in> insert y S" and "w \<in> insert y S" and "R v w"
    and "\<And>a b. a \<in> S \<Longrightarrow> b \<in> S \<Longrightarrow> R a b \<Longrightarrow> f a = f b"
    and "\<And>a. a \<in> S \<Longrightarrow> R a y \<Longrightarrow> f a = f y" and "\<And>a b. R a b \<Longrightarrow> R b a"
  shows "f v = f w"
  using assms by (metis insertE)

abbreviation contend :: "stored_dispatch \<Rightarrow> stored_dispatch \<Rightarrow> bool" where
  "contend x y \<equiv> active_phase (row_phase x) \<and> active_phase (row_phase y)
     \<and> dr_resource_key (sx_record x) = dr_resource_key (sx_record y)"

text \<open>A committed transition keeps the invariant.\<close>

lemma commit_transition_inv:
  assumes env: "env_ok env" and inv: "store_inv env db" and x: "x \<in> set (db_rows db)"
    and ok: "trigger_ok tr fin"
    and step: "commit_transition env fresh db x tr fin ts = Inr (db', c, f)"
  shows "store_inv env db'"
  using step
proof (cases rule: commit_transition_cases)
  case unchanged
  with inv show ?thesis by simp
next
  case (changed t ev y)
  note inv' = inv [unfolded store_inv_def]
  have rx: "row_inv env x" using inv' x by blast
  from row_change_inv [OF rx changed(1) ok changed(3)]
  have y: "row_inv env y" "row_id y = row_id x"
    "dr_resource_key (sx_record y) = dr_resource_key (sx_record x)" by auto
  have rows: "db_rows db' = replace_row y (db_rows db)" and events: "db_events db' = db_events db @ [ev]"
    using changed(5) by (simp_all add: replace_row_def)
  note set_rows = set_replace_row [OF x y(2), folded rows]
  from row_change_event [OF changed(1)] obtain u where
    u: "ee_idempotency_key ev = idempotency_key env (row_id x) u" "u \<in> set dispatch_event_types"
      "u \<in> set (emitted (row_phase y))" "set (emitted (row_phase x)) \<subseteq> set (emitted (row_phase y))" .
  have only: "z = x" if "z \<in> set (db_rows db)" "row_id z = row_id x" for z
    using inv' x that by (auto simp: distinct_map inj_on_def)
  have "unique_active db'"
    unfolding unique_active_def set_rows
  proof (intro ballI impI)
    fix v w
    assume v: "v \<in> insert y {z \<in> set (db_rows db). row_id z \<noteq> row_id x}"
      and w: "w \<in> insert y {z \<in> set (db_rows db). row_id z \<noteq> row_id x}"
      and act: "contend v w"
    show "row_id v = row_id w"
    proof (rule one_name_insert [OF v w, where R = contend])
      show "row_id a = row_id y" if "a \<in> {z \<in> set (db_rows db). row_id z \<noteq> row_id x}" "contend a y" for a
        using changed(4) that y(2) by (auto simp: list_ex_iff)
      show "row_id a = row_id b" if "a \<in> {z \<in> set (db_rows db). row_id z \<noteq> row_id x}"
        "b \<in> {z \<in> set (db_rows db). row_id z \<noteq> row_id x}" "contend a b" for a b
        using inv' that unfolding unique_active_def by blast
    qed (use act in auto)
  qed
  moreover have "keys_logged env db'"
    unfolding keys_logged_def events
  proof (intro ballI allI impI)
    fix e r k
    assume e: "e \<in> set (db_events db @ [ev])" and k: "k \<in> set dispatch_event_types"
      and eq: "ee_idempotency_key e = idempotency_key env r k"
    show "\<exists>z \<in> set (db_rows db'). row_id z = r \<and> k \<in> set (emitted (row_phase z))"
    proof (cases "e = ev")
      case True
      with eq u idempotency_key_inject [OF env _ u(2) k, of "row_id x" r]
      have "r = row_id x" "k = u" by auto
      with u y set_rows show ?thesis by auto
    next
      case False
      with e k eq inv' obtain z where z: "z \<in> set (db_rows db)" "row_id z = r" "k \<in> set (emitted (row_phase z))"
        unfolding keys_logged_def by fastforce
      show ?thesis
      proof (cases "z = x")
        case True
        with z u y set_rows show ?thesis by auto
      next
        case False
        with only z have "row_id z \<noteq> row_id x" by blast
        with z set_rows show ?thesis by auto
      qed
    qed
  qed
  ultimately show ?thesis
    using inv' y changed(2) unfolding store_inv_def set_rows events
    by (auto simp: rows ids_replace_row)
qed

lemma admitted_entities_Inr:
  assumes "admitted_entities p ft fr adm = Inr (task, run)"
  shows "tk_project_id task = p \<and> tk_status task = TaskInProgress
    \<and> rn_task_id run = tk_task_id task \<and> rn_project_id run = p \<and> rn_status run = RunPreparing
    \<and> tk_task_id task = ft \<and> rn_run_id run = fr"
  using assms unfolding admitted_entities_def
  by (auto simp: task_new_def task_transitioned_def run_new_def ADMISSION_TASK_STATUS_def
      ADMISSION_RUN_STATUS_def split: sum.splits if_splits)

lemma admit_dispatch_cases:
  assumes "admit_dispatch env fp ft fr db adm = Inr (db', c)"
  obtains
    (repeated) stored where "db' = db" "load_row env db (da_request_id adm) = Inr (Some stored)"
  | (admitted) task run x where
      "admitted_entities (resolve_or_mint_project_id db fp) ft fr adm = Inr (task, run)"
      "sx_record x = admitted_record env (resolve_or_mint_project_id db fp) task run adm"
      "sx_fence x = None" "sx_task x = task" "sx_run x = run"
      "row_id x \<notin> row_id ` set (db_rows db)"
      "\<not> is_reserved db (dr_resource_key (sx_record x))"
      "ee_idempotency_key (admitted_event env (sx_record x) (da_timestamp adm))
         \<notin> ee_idempotency_key ` set (db_events db)"
      "db' = \<lparr>db_rows = db_rows db @ [x],
              db_events = db_events db @ [admitted_event env (sx_record x) (da_timestamp adm)]\<rparr>"
proof (cases "load_row env db (da_request_id adm)")
  case (Inl e)
  with assms show thesis by (simp add: admit_dispatch_def Let_def split: if_splits)
next
  case (Inr loaded)
  show thesis
  proof (cases loaded)
    case (Some stored)
    with Inr assms show thesis
      by (intro repeated) (auto simp: admit_dispatch_def Let_def split: if_splits)
  next
    case None
    let ?p = "resolve_or_mint_project_id db fp"
    from assms None Inr obtain task run db1 sequence where
      e: "admitted_entities ?p ft fr adm = Inr (task, run)"
      and i: "insert_event db (admitted_event env (admitted_record env ?p task run adm) (da_timestamp adm))
                = Inr (db1, sequence)"
      and r: "insert_row db1 \<lparr>sx_record = admitted_record env ?p task run adm, sx_fence = None,
                sx_sequence = sequence, sx_task = task, sx_run = run\<rparr> = Inr db'"
      and b: "\<not> is_reserved db (da_resource_key adm)"
      unfolding admit_dispatch_def Let_def by (auto split: if_splits sum.splits prod.splits)
    let ?x = "\<lparr>sx_record = admitted_record env ?p task run adm, sx_fence = None,
                sx_sequence = sequence, sx_task = task, sx_run = run\<rparr>"
    show thesis
      by (rule admitted [OF e, of ?x])
        (use i r b in \<open>auto simp: insert_event_def insert_row_def admitted_record_def split: if_splits\<close>)
  qed
qed

lemma admit_dispatch_inv:
  assumes env: "env_ok env" and inv: "store_inv env db"
    and step: "admit_dispatch env fp ft fr db adm = Inr (db', c)"
  shows "store_inv env db'"
  using step
proof (cases rule: admit_dispatch_cases)
  case (repeated stored)
  with inv show ?thesis by simp
next
  case (admitted task run x)
  note inv' = inv [unfolded store_inv_def]
  let ?ev = "admitted_event env (sx_record x) (da_timestamp adm)"
  have key: "ee_idempotency_key ?ev = idempotency_key env (row_id x) ADMITTED_EVENT"
    by (simp add: admitted_event_def)
  have phase: "row_phase x = DpAdmitted" using admitted(2) by (simp add: admitted_record_def)
  have x: "row_inv env x"
    using admitted_entities_Inr [OF admitted(1)] admitted(2-5)
    by (simp add: row_inv_def row_consistent_def Let_def admitted_record_def fence_check_def)
  have types: "ADMITTED_EVENT \<in> set dispatch_event_types" by (simp add: dispatch_event_types_def)
  have active: "unique_active db'"
    unfolding unique_active_def
  proof (intro ballI impI)
    fix v w
    assume "v \<in> set (db_rows db')" "w \<in> set (db_rows db')" and act: "contend v w"
    then have v: "v \<in> insert x (set (db_rows db))" and w: "w \<in> insert x (set (db_rows db))"
      by (simp_all add: admitted(9))
    show "row_id v = row_id w"
    proof (rule one_name_insert [OF v w, where R = contend])
      show "row_id a = row_id x" if "a \<in> set (db_rows db)" "contend a x" for a
        using admitted(7) that by (auto simp: is_reserved_def list_ex_iff)
      show "row_id a = row_id b" if "a \<in> set (db_rows db)" "b \<in> set (db_rows db)" "contend a b" for a b
        using inv' that unfolding unique_active_def by blast
    qed (use act in auto)
  qed
  have keys: "keys_logged env db'"
    unfolding keys_logged_def admitted(9)
  proof (intro ballI allI impI)
    fix e r k
    assume e: "e \<in> set (db_events \<lparr>db_rows = db_rows db @ [x], db_events = db_events db @ [?ev]\<rparr>)"
      and k: "k \<in> set dispatch_event_types" and eq: "ee_idempotency_key e = idempotency_key env r k"
    show "\<exists>z \<in> set (db_rows \<lparr>db_rows = db_rows db @ [x], db_events = db_events db @ [?ev]\<rparr>).
        row_id z = r \<and> k \<in> set (emitted (row_phase z))"
    proof (cases "e = ?ev")
      case True
      with eq key idempotency_key_inject [OF env _ types k, of "row_id x" r]
      have "r = row_id x" "k = ADMITTED_EVENT" by auto
      with phase show ?thesis by simp
    next
      case False
      with e k eq inv' show ?thesis unfolding keys_logged_def by fastforce
    qed
  qed
  show ?thesis
    unfolding store_inv_def
    using inv' x active keys admitted(6,8) unfolding admitted(9) by auto
qed

lemma recover_one_inv:
  assumes "env_ok env" and "store_inv env db" and "recover_one env f ts i db = Inr (db', c)"
  shows "store_inv env db'"
proof -
  from assms(3) obtain x g where "load_existing env db i = Inr x"
    and step: "commit_transition env f db x TrRecover None ts = Inr (db', c, g)"
    by (auto simp: recover_one_def split: sum.splits prod.splits)
  then have "x \<in> set (db_rows db)" using load_existing_Inr by blast
  from commit_transition_inv [OF assms(1,2) this _ step] show ?thesis by (simp add: trigger_ok_def)
qed

lemma recover_loop_inv:
  "env_ok env \<Longrightarrow> store_inv env db \<Longrightarrow> recover_loop env f ts keys db ry = Inr (db', ry') \<Longrightarrow> store_inv env db'"
proof (induction keys arbitrary: db ry)
  case (Cons i keys)
  show ?case
  proof (cases "recover_one env f ts i db")
    case (Inl e)
    with Cons.prems Cons.IH [OF Cons.prems(1,2)] show ?thesis by (auto split: if_splits)
  next
    case (Inr p)
    obtain db1 c where p: "p = (db1, c)" by force
    with Inr recover_one_inv Cons.prems have "store_inv env db1" by blast
    from Cons.IH [OF Cons.prems(1) this] Cons.prems(3) Inr p show ?thesis by (auto split: if_splits)
  qed
qed simp

text \<open>The commands apart from recovery, as one committed transition of a loaded row.\<close>

lemma claim_dispatch_Inr:
  assumes "claim_dispatch env f db i ts = Inr (db', r)"
  obtains x c g where "load_existing env db i = Inr x"
    and "commit_transition env f db x TrClaim None ts = Inr (db', c, g)" and "hc_event c \<noteq> None"
  using assms unfolding claim_dispatch_def
  by (auto split: sum.splits prod.splits option.splits)

lemma finish_dispatch_Inr:
  assumes "finish_dispatch env f db fin = Inr (db', c)"
  obtains
    (repeated) x where "db' = db" "load_existing env db (fi_request_id fin) = Inr x"
      "dispatch_is_terminal (row_phase x)" "records_finish (sx_record x) fin"
  | (finished) x g where "validate_finish fin = Inr ()" "load_existing env db (fi_request_id fin) = Inr x"
      "commit_transition env f db x (TrFinish (od_outcome (fi_decision fin))) (Some fin) (fi_timestamp fin)
         = Inr (db', c, g)"
  using assms unfolding finish_dispatch_def
  by (auto split: sum.splits prod.splits if_splits)

lemma cancel_dispatch_Inr:
  assumes "cancel_dispatch env f db i ts = Inr (db', c)"
  obtains x g where "load_existing env db i = Inr x"
    and "commit_transition env f db x TrCancel None ts = Inr (db', c, g)"
  using assms unfolding cancel_dispatch_def by (auto split: sum.splits prod.splits)

lemma dispatch_step_inv:
  assumes env: "env_ok env" and inv: "store_inv env db" and step: "dispatch_step env db op = Inr db'"
  shows "store_inv env db'"
proof (cases op)
  case (OpAdmit p t r adm)
  with step obtain c where "admit_dispatch env p t r db adm = Inr (db', c)"
    by (auto simp: dispatch_step_def split: sum.splits prod.splits)
  from admit_dispatch_inv [OF env inv this] show ?thesis .
next
  case (OpClaim f i ts)
  with step obtain r where "claim_dispatch env f db i ts = Inr (db', r)"
    by (auto simp: dispatch_step_def split: sum.splits prod.splits)
  then show ?thesis
    by (elim claim_dispatch_Inr, intro commit_transition_inv [OF env inv, where tr = TrClaim])
      (auto simp: trigger_ok_def dest: load_existing_Inr)
next
  case (OpFinish fin)
  with step obtain c where "finish_dispatch env 0 db fin = Inr (db', c)"
    by (auto simp: dispatch_step_def split: sum.splits prod.splits)
  then show ?thesis
  proof (cases rule: finish_dispatch_Inr)
    case (finished x g)
    then show ?thesis
      by (intro commit_transition_inv [OF env inv _ _ finished(3)])
        (auto simp: trigger_ok_def dest: load_existing_Inr)
  qed (use inv in simp)
next
  case (OpCancel i ts)
  with step obtain c where "cancel_dispatch env 0 db i ts = Inr (db', c)"
    by (auto simp: dispatch_step_def split: sum.splits prod.splits)
  then show ?thesis
    by (elim cancel_dispatch_Inr, intro commit_transition_inv [OF env inv, where tr = TrCancel])
      (auto simp: trigger_ok_def dest: load_existing_Inr)
next
  case (OpRecover ts)
  with step obtain ry where "recover_dispatches env 0 db ts = Inr (db', ry)"
    by (auto simp: dispatch_step_def split: sum.splits prod.splits)
  then show ?thesis unfolding recover_dispatches_def by (rule recover_loop_inv [OF env inv])
qed

interpretation dispatch_store: guarded_reducer "dispatch_step env" "\<lambda>db. env_ok env \<and> store_inv env db" for env
  by unfold_locales (auto intro: dispatch_step_inv)

section \<open>Progress\<close>

lemma active_iff: "active_phase p \<longleftrightarrow> dispatch_holds_reservation p"
  by (cases p) (simp_all add: active_phase_def dispatch_phase_defs)

lemma find_row:
  assumes "store_inv env db" and "x \<in> set (db_rows db)"
  shows "find (\<lambda>z. row_id z = row_id x) (db_rows db) = Some x"
proof -
  obtain y where y: "find (\<lambda>z. row_id z = row_id x) (db_rows db) = Some y"
    using find_SomeI [of x "db_rows db" "\<lambda>z. row_id z = row_id x"] assms(2) by auto
  from find_Some_filter [OF y] assms have "y = x"
    by (auto simp: store_inv_def distinct_map inj_on_def)
  with y show ?thesis by simp
qed

lemma load_existing_row:
  assumes "store_inv env db" and "x \<in> set (db_rows db)"
  shows "load_existing env db (row_id x) = Inr x"
  using assms find_row [OF assms]
  by (simp add: load_existing_def load_row_def store_inv_def row_inv_def)

lemma new_fence_check:
  assumes "dispatch_apply p tr = Inr (TransChanged t)" and "new_fence (pt_fence t) f fin fresh = Inr g"
    and "fence_check p f"
  shows "fence_check (pt_to t) g"
  using assms(1)
proof (cases rule: dispatch_apply_cases)
  case (finish oc to ts rs)
  then show ?thesis by (cases oc) (auto simp: phase_changed_eq fence_check_def)
qed (use assms(2,3) in \<open>auto simp: phase_changed_eq fence_check_def new_fence_def\<close>)

text \<open>On an invariant database the table decides: a change it lists is committed, unless the fence is
  required and not presented, or the version counter is exhausted.\<close>

lemma commit_transition_progress:
  assumes inv: "store_inv env db" and x: "x \<in> set (db_rows db)" and ok: "trigger_ok tr fin"
    and a: "dispatch_apply (row_phase x) tr = Inr (TransChanged t)"
    and fence: "pt_fence t = FenceRequire \<Longrightarrow> \<exists>f. fin = Some f \<and> sx_fence x = Some (fi_fence f)"
    and version: "dr_version (sx_record x) \<noteq> - 1"
  obtains db' c f where "commit_transition env fresh db x tr fin ts = Inr (db', c, f)"
proof -
  note inv' = inv [unfolded store_inv_def]
  have rx: "row_inv env x" using inv' x by blast
  then have st: "(tk_status (sx_task x), rn_status (sx_run x)) \<in> set (allowed_statuses (row_phase x))"
    and fc: "fence_check (row_phase x) (sx_fence x)"
    by (simp_all add: row_inv_def row_consistent_def Let_def)
  note ref = dispatch_apply_refines [OF a st]
  obtain g where g: "new_fence (pt_fence t) (sx_fence x) fin fresh = Inr g"
    using fence by (cases "pt_fence t") (auto simp: new_fence_def)
  obtain task where task: "transition_task (sx_task x) (pt_task_status t) = Inr task"
    using ref by (cases "pt_task_status t") (auto simp: transition_task_def task_transitioned_def)
  obtain run where run: "transition_run (sx_run x) (pt_run_status t) (pt_completion_authority t) = Inr run"
    using ref by (cases "pt_run_status t") (auto simp: transition_run_def run_transitioned_def)
  obtain v where v: "checked_add (dr_version (sx_record x)) 1 = Some v"
    using version checked_add_one_iff by blast
  define r where "r = transition_record (sx_record x) t fin ts v"
  have "\<exists>ev. transition_event env r tr t fin (transition_code t fin) (dr_updated_at r) = Inr ev"
  proof (cases tr)
    case TrRecover
    with a have "transition_code t fin \<noteq> None"
      by (auto elim!: dispatch_apply_cases simp: phase_changed_eq transition_code_def or_else_def
          split: option.splits)
    with TrRecover show ?thesis by (auto simp: transition_event_def)
  qed (auto simp: transition_event_def)
  then obtain ev where
    ev: "transition_event env r tr t fin (transition_code t fin) (dr_updated_at r) = Inr ev" ..
  define y where "y = \<lparr>sx_record = r, sx_fence = g, sx_sequence = Suc (length (db_events db)),
      sx_task = task, sx_run = run\<rparr>"
  have change: "row_change env fresh x tr fin ts t ev y"
    unfolding row_change_def y_def using a g task run v ev by (simp add: r_def)
  have yx: "row_id y = row_id x" "row_phase y = pt_to t" "dr_version (sx_record y) = v"
    "dr_resource_key (sx_record y) = dr_resource_key (sx_record x)" "sx_fence y = g"
    by (simp_all add: y_def r_def)
  from row_change_event [OF change] obtain u where
    u: "ee_idempotency_key ev = idempotency_key env (row_id x) u" "u \<in> set dispatch_event_types"
      "u \<notin> set (emitted (row_phase x))" by metis
  have key: "ee_idempotency_key ev \<notin> ee_idempotency_key ` set (db_events db)"
  proof
    assume "ee_idempotency_key ev \<in> ee_idempotency_key ` set (db_events db)"
    then obtain z where "z \<in> set (db_rows db)" "row_id z = row_id x" "u \<in> set (emitted (row_phase z))"
      using u inv' unfolding keys_logged_def by fastforce
    moreover from this have "z = x" using inv' x by (auto simp: distinct_map inj_on_def)
    ultimately show False using u by simp
  qed
  have "v \<noteq> 0" using checked_add_less [OF v] by auto
  moreover have "fence_check (row_phase y) (sx_fence y)"
    unfolding yx by (rule new_fence_check [OF a g fc])
  moreover have "\<not> (active_phase (row_phase y) \<and>
         list_ex (\<lambda>z. row_id z \<noteq> row_id y \<and> active_phase (row_phase z)
           \<and> dr_resource_key (sx_record z) = dr_resource_key (sx_record y)) (db_rows db))"
    using inv' x ref yx unfolding unique_active_def list_ex_iff active_iff dispatch_holds_reservation_def
    by metis
  moreover have "list_ex (\<lambda>z. row_id z = row_id y \<and> dr_version (sx_record z) = dr_version (sx_record x))
      (db_rows db)"
    using x yx by (auto simp: list_ex_iff)
  ultimately have "update_row (db\<lparr>db_events := db_events db @ [ev]\<rparr>) y (dr_version (sx_record x))
      = Inr (db\<lparr>db_events := db_events db @ [ev], db_rows := replace_row y (db_rows db)\<rparr>)"
    using yx by (simp add: update_row_def replace_row_def)
  then have "\<exists>db' c f. commit_transition env fresh db x tr fin ts = Inr (db', c, f)"
    unfolding commit_transition_def
    using a g task run v ev key by (simp add: Let_def insert_event_def y_def r_def)
  then show thesis using that by blast
qed

section \<open>The abstract machine\<close>

text \<open>What a client of the store sees of an attempt is its phase. The abstract machine keeps one phase per
  request and moves it by the table.\<close>

type_synonym phases = "uuid \<rightharpoonup> dispatch_phase"

definition abs_phases :: "dispatch_db \<Rightarrow> phases" where
  "abs_phases db = (\<lambda>r. map_option row_phase (find (\<lambda>x. row_id x = r) (db_rows db)))"

definition table_next :: "dispatch_phase \<Rightarrow> dispatch_trigger \<Rightarrow> dispatch_phase" where
  "table_next p tr = (case dispatch_apply p tr of Inr (TransChanged t) \<Rightarrow> pt_to t | _ \<Rightarrow> p)"

definition move_phase :: "phases \<Rightarrow> uuid \<Rightarrow> dispatch_trigger \<Rightarrow> phases" where
  "move_phase m r tr = m(r := map_option (\<lambda>p. table_next p tr) (m r))"

fun abs_step :: "dispatch_op \<Rightarrow> phases \<Rightarrow> phases" where
  "abs_step (OpAdmit _ _ _ adm) m =
     (if m (da_request_id adm) = None then m(da_request_id adm \<mapsto> DpAdmitted) else m)"
| "abs_step (OpClaim _ r _) m = move_phase m r TrClaim"
| "abs_step (OpFinish fin) m = move_phase m (fi_request_id fin) (TrFinish (od_outcome (fi_decision fin)))"
| "abs_step (OpCancel r _) m = move_phase m r TrCancel"
| "abs_step (OpRecover _) m = (\<lambda>r. map_option (\<lambda>p. table_next p TrRecover) (m r))"

lemma find_replace_row:
  "find (\<lambda>z. row_id z = r) (replace_row y rows) =
   (if r = row_id y \<and> r \<in> row_id ` set rows then Some y else find (\<lambda>z. row_id z = r) rows)"
  unfolding replace_row_def by (induction rows) auto

lemma find_append: "find P (xs @ ys) = (case find P xs of None \<Rightarrow> find P ys | Some x \<Rightarrow> Some x)"
  by (induction xs) auto

lemma abs_phases_row:
  assumes "store_inv env db" and "x \<in> set (db_rows db)"
  shows "abs_phases db (row_id x) = Some (row_phase x)"
  using find_row [OF assms] by (simp add: abs_phases_def)

lemma abs_phases_None: "abs_phases db r = None \<longleftrightarrow> r \<notin> row_id ` set (db_rows db)"
  by (auto simp: abs_phases_def find_None_iff)

lemma abs_phases_Some:
  "abs_phases db r = Some p \<Longrightarrow> \<exists>x \<in> set (db_rows db). row_id x = r \<and> row_phase x = p"
  by (auto simp: abs_phases_def dest!: find_Some_filter)

lemma row_change_id: "row_change env fresh x tr fin ts t ev y \<Longrightarrow> row_id y = row_id x \<and> row_phase y = pt_to t"
  unfolding row_change_def by (metis transition_record_fields(2,12))

lemma commit_transition_abs:
  assumes inv: "store_inv env db" and x: "x \<in> set (db_rows db)"
    and step: "commit_transition env fresh db x tr fin ts = Inr (db', c, f)"
  shows "abs_phases db' = move_phase (abs_phases db) (row_id x) tr"
  using step
proof (cases rule: commit_transition_cases)
  case unchanged
  then show ?thesis
    using abs_phases_row [OF inv x] by (auto simp: move_phase_def table_next_def fun_eq_iff)
next
  case (changed t ev y)
  then have a: "dispatch_apply (row_phase x) tr = Inr (TransChanged t)" by (simp add: row_change_def)
  have rows: "db_rows db' = replace_row y (db_rows db)" using changed(5) by (simp add: replace_row_def)
  show ?thesis
  proof
    fix r
    show "abs_phases db' r = move_phase (abs_phases db) (row_id x) tr r"
      using row_change_id [OF changed(1)] x abs_phases_row [OF inv x] a
      by (auto simp: abs_phases_def rows find_replace_row move_phase_def table_next_def)
  qed
qed

lemma recover_one_abs:
  assumes inv: "store_inv env db" and "recover_one env f ts i db = Inr (db', c)"
  shows "abs_phases db' = move_phase (abs_phases db) i TrRecover"
proof -
  from assms(2) obtain x g where "load_existing env db i = Inr x"
    and step: "commit_transition env f db x TrRecover None ts = Inr (db', c, g)"
    by (auto simp: recover_one_def split: sum.splits prod.splits)
  then have "x \<in> set (db_rows db)" "row_id x = i" using load_existing_Inr by blast+
  with commit_transition_abs [OF inv _ step] show ?thesis by simp
qed

text \<open>A version counter that is not exhausted; only recovery of the row itself could exhaust it.\<close>

definition versions_left :: "dispatch_db \<Rightarrow> bool" where
  "versions_left db \<longleftrightarrow> (\<forall>x \<in> set (db_rows db). dr_version (sx_record x) \<noteq> - 1)"

definition interrupted :: "dispatch_phase \<Rightarrow> bool" where
  "interrupted p \<longleftrightarrow> p = DpAdmitted \<or> p = DpRunning \<or> p = DpCancelRequested"

lemma recover_one_progress:
  assumes inv: "store_inv env db" and x: "x \<in> set (db_rows db)" and "interrupted (row_phase x)"
    and "dr_version (sx_record x) \<noteq> - 1"
  obtains db' c where "recover_one env f ts (row_id x) db = Inr (db', c)" and "hc_event c \<noteq> None"
    and "\<forall>z \<in> set (db_rows db). row_id z \<noteq> row_id x \<longrightarrow> z \<in> set (db_rows db')"
proof -
  obtain t where a: "dispatch_apply (row_phase x) TrRecover = Inr (TransChanged t)"
    and fe: "pt_fence t \<noteq> FenceRequire"
    using assms(3) by (auto simp: interrupted_def dispatch_apply_def phase_changed_def)
  obtain db' c g where step: "commit_transition env f db x TrRecover None ts = Inr (db', c, g)"
    by (rule commit_transition_progress [OF inv x _ a _ assms(4), of None f ts])
      (use fe in \<open>auto simp: trigger_ok_def\<close>)
  have "hc_event c \<noteq> None \<and> (\<forall>z \<in> set (db_rows db). row_id z \<noteq> row_id x \<longrightarrow> z \<in> set (db_rows db'))"
    using step
  proof (cases rule: commit_transition_cases)
    case unchanged
    with a show ?thesis by simp
  next
    case (changed t ev y)
    with row_change_id [OF changed(1)] show ?thesis by auto
  qed
  moreover have "recover_one env f ts (row_id x) db = Inr (db', c)"
    using load_existing_row [OF inv x] step by (simp add: recover_one_def)
  ultimately show thesis using that by blast
qed

lemma recover_loop_abs:
  assumes "env_ok env" and "store_inv env db" and "distinct keys"
    and "\<forall>k \<in> set keys. \<exists>x \<in> set (db_rows db). row_id x = k \<and> interrupted (row_phase x)
          \<and> dr_version (sx_record x) \<noteq> - 1"
  shows "\<exists>db' ry'. recover_loop env f ts keys db ry = Inr (db', ry')
     \<and> ry_quarantined ry' = ry_quarantined ry
     \<and> abs_phases db' = (\<lambda>r. if r \<in> set keys then map_option (\<lambda>p. table_next p TrRecover) (abs_phases db r)
                              else abs_phases db r)"
  using assms(2-4)
proof (induction keys arbitrary: db ry)
  case (Cons k keys)
  from Cons.prems(3) obtain x where x: "x \<in> set (db_rows db)" "row_id x = k" "interrupted (row_phase x)"
    "dr_version (sx_record x) \<noteq> - 1" by auto
  obtain db1 c where one: "recover_one env f ts k db = Inr (db1, c)" "hc_event c \<noteq> None"
    and keep: "\<forall>z \<in> set (db_rows db). row_id z \<noteq> k \<longrightarrow> z \<in> set (db_rows db1)"
    using recover_one_progress [OF Cons.prems(1) x(1,3,4), of f ts] x(2) by metis
  note inv1 = recover_one_inv [OF assms(1) Cons.prems(1) one(1)]
    and abs1 = recover_one_abs [OF Cons.prems(1) one(1)]
  have "\<forall>j \<in> set keys. \<exists>x \<in> set (db_rows db1). row_id x = j \<and> interrupted (row_phase x)
          \<and> dr_version (sx_record x) \<noteq> - 1"
    using Cons.prems(2,3) keep by (metis distinct.simps(2) list.set_intros(2))
  from Cons.IH [OF inv1 _ this, of "ry\<lparr>ry_recovered := ry_recovered ry @ [c]\<rparr>"] Cons.prems(2)
  obtain db' ry' where rest: "recover_loop env f ts keys db1 (ry\<lparr>ry_recovered := ry_recovered ry @ [c]\<rparr>)
      = Inr (db', ry')" "ry_quarantined ry' = ry_quarantined ry"
    "abs_phases db' = (\<lambda>r. if r \<in> set keys then map_option (\<lambda>p. table_next p TrRecover) (abs_phases db1 r)
                              else abs_phases db1 r)" by auto
  have "abs_phases db' = (\<lambda>r. if r \<in> set (k # keys)
      then map_option (\<lambda>p. table_next p TrRecover) (abs_phases db r) else abs_phases db r)"
    using rest(3) abs1 Cons.prems(2) by (auto simp: move_phase_def fun_eq_iff)
  with rest one show ?case by auto
qed simp

lemma active_request_keys_interrupted:
  "set (active_request_keys db) = row_id ` {x \<in> set (db_rows db). interrupted (row_phase x)}"
  by (auto simp: active_request_keys_def interrupted_def)

lemma table_next_recover: "\<not> interrupted p \<Longrightarrow> table_next p TrRecover = p"
  by (cases p) (simp_all add: interrupted_def table_next_def dispatch_apply_def)

lemma recover_dispatches_abs:
  assumes env: "env_ok env" and inv: "store_inv env db" and v: "versions_left db"
  obtains db' ry where "recover_dispatches env f db ts = Inr (db', ry)" and "ry_quarantined ry = []"
    and "abs_phases db' = (\<lambda>r. map_option (\<lambda>p. table_next p TrRecover) (abs_phases db r))"
proof -
  have "distinct (map row_id (db_rows db))" using inv by (simp add: store_inv_def)
  then have d: "distinct (active_request_keys db)"
    by (simp add: active_request_keys_def distinct_map_filter)
  have k: "\<forall>k \<in> set (active_request_keys db). \<exists>x \<in> set (db_rows db). row_id x = k
      \<and> interrupted (row_phase x) \<and> dr_version (sx_record x) \<noteq> - 1"
    using v by (auto simp: active_request_keys_interrupted versions_left_def)
  obtain db' ry where r: "recover_dispatches env f db ts = Inr (db', ry)" "ry_quarantined ry = []"
    "abs_phases db' = (\<lambda>r. if r \<in> set (active_request_keys db)
        then map_option (\<lambda>p. table_next p TrRecover) (abs_phases db r) else abs_phases db r)"
    using recover_loop_abs [OF env inv d k, of f ts "\<lparr>ry_recovered = [], ry_quarantined = []\<rparr>"]
    by (auto simp: recover_dispatches_def)
  have "abs_phases db r = map_option (\<lambda>p. table_next p TrRecover) (abs_phases db r)"
    if "r \<notin> set (active_request_keys db)" for r
  proof (cases "abs_phases db r")
    case (Some p)
    with abs_phases_Some [OF Some] that have "\<not> interrupted p"
      by (auto simp: active_request_keys_interrupted)
    with Some show ?thesis by (simp add: table_next_recover)
  qed simp
  then have "abs_phases db' = (\<lambda>r. map_option (\<lambda>p. table_next p TrRecover) (abs_phases db r))"
    using r(3) by (auto simp: fun_eq_iff)
  with r show thesis using that by blast
qed

lemma move_phase_terminal:
  "m r = Some p \<Longrightarrow> dispatch_is_terminal p \<Longrightarrow> move_phase m r (TrFinish oc) = m"
  by (cases p) (auto simp: move_phase_def table_next_def dispatch_apply_def dispatch_is_terminal_def fun_eq_iff)

lemma admit_dispatch_abs:
  assumes inv: "store_inv env db" and "admit_dispatch env fp ft fr db adm = Inr (db', c)"
  shows "abs_phases db' = (if abs_phases db (da_request_id adm) = None
     then (abs_phases db)(da_request_id adm \<mapsto> DpAdmitted) else abs_phases db)"
  using assms(2)
proof (cases rule: admit_dispatch_cases)
  case (repeated stored)
  with load_row_Some [OF repeated(2)] abs_phases_row [OF inv] show ?thesis by fastforce
next
  case (admitted task run x)
  then have x: "row_id x = da_request_id adm" "row_phase x = DpAdmitted"
    by (simp_all add: admitted_record_def)
  with admitted(6) have "abs_phases db (da_request_id adm) = None" by (simp add: abs_phases_None)
  then show ?thesis
    using x admitted(9) by (auto simp: abs_phases_def find_append fun_eq_iff split: option.splits)
qed

text \<open>The initial databases: no attempt yet, and no dispatch event in the log.\<close>

definition store_init :: "dispatch_env \<Rightarrow> dispatch_db \<Rightarrow> bool" where
  "store_init env db \<longleftrightarrow> db_rows db = [] \<and> distinct (map ee_idempotency_key (db_events db))
     \<and> (\<forall>e \<in> set (db_events db). \<forall>r t. ee_idempotency_key e \<noteq> idempotency_key env r t)"

lemma store_init_inv: "store_init env db \<Longrightarrow> store_inv env db"
  by (auto simp: store_init_def store_inv_def unique_active_def keys_logged_def)

text \<open>The moves of the table, one trigger at a time.\<close>

inductive table_move :: "dispatch_phase \<Rightarrow> dispatch_phase \<Rightarrow> bool" where
  "dispatch_apply p tr = Inr (TransChanged t) \<Longrightarrow> table_move p (pt_to t)"

inductive_cases table_moveE: "table_move p q"

lemma table_next_move: "table_move\<^sup>*\<^sup>* p (table_next p tr)"
  by (auto simp: table_next_def intro: table_move.intros split: sum.splits transition_result.splits)

lemma table_move_from_recovered:
  "table_move p q \<Longrightarrow> p \<in> {DpRecoveryPending, DpCancelled, DpFailed} \<Longrightarrow>
   q \<in> {DpRecoveryPending, DpCancelled, DpFailed}"
  by (auto elim!: table_moveE dispatch_apply_cases simp: phase_changed_eq)

lemma move_phase_moves:
  "m r = Some p \<Longrightarrow> \<exists>q. move_phase m i tr r = Some q \<and> table_move\<^sup>*\<^sup>* p q"
  by (auto simp: move_phase_def table_next_move)

lemma recover_loop_moves:
  assumes "env_ok env"
  shows "store_inv env db \<Longrightarrow> recover_loop env f ts keys db ry = Inr (db', ry') \<Longrightarrow>
   abs_phases db r = Some p \<Longrightarrow> \<exists>q. abs_phases db' r = Some q \<and> table_move\<^sup>*\<^sup>* p q"
proof (induction keys arbitrary: db ry p)
  case (Cons i keys)
  show ?case
  proof (cases "recover_one env f ts i db")
    case (Inl e)
    with Cons.prems Cons.IH [OF Cons.prems(1) _ Cons.prems(3)] show ?thesis by (auto split: if_splits)
  next
    case (Inr pr)
    obtain db1 c where pr: "pr = (db1, c)" by force
    note one = Inr [unfolded pr]
    obtain q where q: "abs_phases db1 r = Some q" "table_move\<^sup>*\<^sup>* p q"
      using move_phase_moves [of "abs_phases db" r p i TrRecover, OF Cons.prems(3)] recover_one_abs [OF Cons.prems(1) one] by metis
    from Cons.IH [OF recover_one_inv [OF assms Cons.prems(1) one] _ q(1)] Cons.prems(2) one
    obtain s where "abs_phases db' r = Some s" "table_move\<^sup>*\<^sup>* q s" by auto
    with q(2) show ?thesis by (meson rtranclp_trans)
  qed
qed auto

text \<open>Each command but recovery moves one phase by the table.\<close>

lemma dispatch_step_abs:
  assumes inv: "store_inv env db" and step: "dispatch_step env db op = Inr db'"
    and "\<And>ts. op \<noteq> OpRecover ts"
  shows "abs_phases db' = abs_step op (abs_phases db)"
proof (cases op)
  case (OpAdmit p t r adm)
  with step obtain c where "admit_dispatch env p t r db adm = Inr (db', c)"
    by (auto simp: dispatch_step_def split: sum.splits prod.splits)
  from admit_dispatch_abs [OF inv this] OpAdmit show ?thesis by simp
next
  case (OpClaim f i ts)
  with step obtain r where "claim_dispatch env f db i ts = Inr (db', r)"
    by (auto simp: dispatch_step_def split: sum.splits prod.splits)
  then obtain x c g where "x \<in> set (db_rows db)" "row_id x = i"
    "commit_transition env f db x TrClaim None ts = Inr (db', c, g)"
    by (elim claim_dispatch_Inr) (auto dest: load_existing_Inr)
  with commit_transition_abs [OF inv] OpClaim show ?thesis by (metis abs_step.simps(2))
next
  case (OpFinish fin)
  with step obtain c where "finish_dispatch env 0 db fin = Inr (db', c)"
    by (auto simp: dispatch_step_def split: sum.splits prod.splits)
  then show ?thesis
  proof (cases rule: finish_dispatch_Inr)
    case (repeated x)
    with load_existing_Inr [OF repeated(2)] abs_phases_row [OF inv, of x] OpFinish
    show ?thesis by (metis abs_step.simps(3) move_phase_terminal)
  next
    case (finished x g)
    with load_existing_Inr [OF finished(2)] commit_transition_abs [OF inv _ finished(3)] OpFinish
    show ?thesis by simp
  qed
next
  case (OpCancel i ts)
  with step obtain c where "cancel_dispatch env 0 db i ts = Inr (db', c)"
    by (auto simp: dispatch_step_def split: sum.splits prod.splits)
  then obtain x g where "x \<in> set (db_rows db)" "row_id x = i"
    "commit_transition env 0 db x TrCancel None ts = Inr (db', c, g)"
    by (elim cancel_dispatch_Inr) (auto dest: load_existing_Inr)
  with commit_transition_abs [OF inv] OpCancel show ?thesis by (metis abs_step.simps(4))
next
  case (OpRecover ts)
  with assms(3) show ?thesis by blast
qed

lemma dispatch_step_moves:
  assumes env: "env_ok env" and inv: "store_inv env db" and step: "dispatch_step env db op = Inr db'"
    and p: "abs_phases db r = Some p"
  shows "\<exists>q. abs_phases db' r = Some q \<and> table_move\<^sup>*\<^sup>* p q"
proof (cases op)
  case (OpRecover ts)
  with step obtain ry where "recover_dispatches env 0 db ts = Inr (db', ry)"
    by (auto simp: dispatch_step_def split: sum.splits prod.splits)
  then show ?thesis unfolding recover_dispatches_def using recover_loop_moves [OF env inv _ p] by blast
next
  case (OpAdmit a b c adm)
  then have "abs_phases db' = abs_step op (abs_phases db)" by (intro dispatch_step_abs [OF inv step]) simp
  with OpAdmit p show ?thesis by auto
next
  case (OpClaim a b c)
  then have "abs_phases db' = abs_step op (abs_phases db)" by (intro dispatch_step_abs [OF inv step]) simp
  with OpClaim show ?thesis using move_phase_moves [of "abs_phases db" r p, OF p] by simp
next
  case (OpFinish fin)
  then have "abs_phases db' = abs_step op (abs_phases db)" by (intro dispatch_step_abs [OF inv step]) simp
  with OpFinish show ?thesis using move_phase_moves [of "abs_phases db" r p, OF p] by simp
next
  case (OpCancel a b)
  then have "abs_phases db' = abs_step op (abs_phases db)" by (intro dispatch_step_abs [OF inv step]) simp
  with OpCancel show ?thesis using move_phase_moves [of "abs_phases db" r p, OF p] by simp
qed

lemma dispatch_run_moves:
  assumes env: "env_ok env"
  shows "store_inv env db \<Longrightarrow> abs_phases db r = Some p \<Longrightarrow>
   \<exists>q. abs_phases (run_events (dispatch_step env) db ops) r = Some q \<and> table_move\<^sup>*\<^sup>* p q"
proof (induction ops arbitrary: db p)
  case (Cons op ops)
  show ?case
  proof (cases "dispatch_step env db op")
    case (Inr db1)
    obtain q where q: "abs_phases db1 r = Some q" "table_move\<^sup>*\<^sup>* p q"
      using dispatch_step_moves [OF env Cons.prems(1) Inr Cons.prems(2)] by blast
    from Cons.IH [OF dispatch_step_inv [OF env Cons.prems(1) Inr] q(1)] Inr q(2)
    show ?thesis by (auto intro: rtranclp_trans)
  qed (use Cons in auto)
qed auto

lemma recovered_stays:
  "table_move\<^sup>*\<^sup>* p q \<Longrightarrow> p \<in> {DpRecoveryPending, DpCancelled, DpFailed} \<Longrightarrow>
   q \<in> {DpRecoveryPending, DpCancelled, DpFailed}"
  by (induction rule: rtranclp_induct) (use table_move_from_recovered in blast)+

section \<open>Histories of the store\<close>

definition dispatch_run :: "dispatch_env \<Rightarrow> dispatch_db \<Rightarrow> dispatch_op list \<Rightarrow> dispatch_db" where
  "dispatch_run env db ops = run_events (dispatch_step env) db ops"

lemma dispatch_run_inv: "env_ok env \<Longrightarrow> store_init env db \<Longrightarrow> store_inv env (dispatch_run env db ops)"
  unfolding dispatch_run_def using dispatch_store.run_inv [of env db ops] store_init_inv by blast

lemma commit_fenced:
  assumes "commit_transition env fresh db x (TrFinish oc) (Some fin) ts = Inr (db', c, g)" and "db' \<noteq> db"
  shows "sx_fence x = Some (fi_fence fin) \<and> (row_phase x = DpRunning \<or> row_phase x = DpCancelRequested)"
  using assms(1)
proof (cases rule: commit_transition_cases)
  case (changed t ev y)
  then have a: "dispatch_apply (row_phase x) (TrFinish oc) = Inr (TransChanged t)"
    and f: "new_fence (pt_fence t) (sx_fence x) (Some fin) fresh = Inr (sx_fence y)"
    by (auto simp: row_change_def)
  from a have "pt_fence t = FenceRequire" "row_phase x = DpRunning \<or> row_phase x = DpCancelRequested"
    by (auto elim!: dispatch_apply_cases simp: phase_changed_eq)
  with f show ?thesis by (auto simp: new_fence_def split: option.splits if_splits)
qed (use assms(2) in simp)

subsection \<open>An instance\<close>

definition example_env :: dispatch_env where
  "example_env = \<lparr>en_sha256 = (\<lambda>_. 9),
     en_uuid_text = (\<lambda>u. replicate 20 CHR ''-'' @ be_bytes 16 (unat u)), en_detected = (\<lambda>_. True)\<rparr>"

definition example_admission :: dispatch_admission where
  "example_admission = \<lparr>da_request_id = 7, da_harness = Codex, da_protocol = CodexExec,
     da_prompt = \<lparr>pd_sha256 = 1, pd_byte_count = 10\<rparr>, da_config_sha256 = 2, da_resource_key = 3,
     da_base_commit = ''abcdef1'', da_timestamp = 100\<rparr>"

definition example_db :: dispatch_db where
  "example_db = \<lparr>db_rows = [], db_events = []\<rparr>"

lemma example_env_ok: "env_ok example_env"
proof -
  have "u = v" if "be_bytes 16 (unat u) = be_bytes 16 (unat v)" for u v :: uuid
  proof -
    have b: "unat w < 256 ^ 16" for w :: uuid using unsigned_less [of w] by simp
    have "unat u = unat v"
      using that from_be_be_bytes [OF b, of u] from_be_be_bytes [OF b, of v] by metis
    then show ?thesis by (simp add: word_unat_eq_iff)
  qed
  then show ?thesis by (auto simp: env_ok_def example_env_def inj_def)
qed

lemma example_init: "store_init example_env example_db"
  by (simp add: store_init_def example_db_def)

lemma example_env_simps [simp]: "en_sha256 example_env s = 9" "en_detected example_env c"
  by (simp_all add: example_env_def)

definition example_task :: task where
  "example_task = \<lparr>tk_task_id = 21, tk_project_id = 20, tk_title = ''harness dispatch codex'',
     tk_description = '''', tk_status = TaskInProgress\<rparr>"

definition example_run :: run where
  "example_run = \<lparr>rn_run_id = 22, rn_project_id = 20, rn_task_id = 21, rn_harness = ''codex'',
     rn_role = ''dispatch'', rn_protocol = ''codex_exec'', rn_base_commit = ''abcdef1'',
     rn_status = RunPreparing\<rparr>"

definition example_row :: stored_dispatch where
  "example_row = \<lparr>sx_record = \<lparr>dr_schema_version = 1, dr_request_id = 7, dr_project_id = 20,
       dr_task_id = 21, dr_run_id = 22, dr_harness = Codex, dr_protocol = CodexExec, dr_fingerprint = 9,
       dr_resource_key = 3, dr_prompt = \<lparr>pd_sha256 = 1, pd_byte_count = 10\<rparr>, dr_config_sha256 = 2,
       dr_base_commit = ''abcdef1'', dr_phase = DpAdmitted, dr_version = 1, dr_outcome = None,
       dr_error_code = None, dr_process = None, dr_capture = None, dr_created_at = 100, dr_updated_at = 100\<rparr>,
     sx_fence = None, sx_sequence = 1, sx_task = example_task, sx_run = example_run\<rparr>"

lemma example_entities:
  "admitted_entities 20 21 22 example_admission = Inr (example_task, example_run)"
proof -
  have "\<not> trim_is_empty ''harness dispatch codex''" "\<not> trim_is_empty ''codex''"
    "\<not> trim_is_empty ''dispatch''" "\<not> trim_is_empty ''codex_exec''" by code_simp+
  moreover have "validate_base_commit ''abcdef1'' = Inr ()" by code_simp
  ultimately show ?thesis
    by (simp add: admitted_entities_def task_new_def validate_required_def validate_optional_def
        domain_limits task_transitioned_def run_new_def example_admission_def DISPATCH_TASK_TITLE_PREFIX_def
        DISPATCH_RUN_ROLE_def ADMISSION_TASK_STATUS_def ADMISSION_RUN_STATUS_def example_task_def
        example_run_def)
qed

lemma example_dispatch_admitted:
  "\<exists>e. dispatch_step example_env example_db (OpAdmit 20 21 22 example_admission) =
     Inr \<lparr>db_rows = [example_row], db_events = [e]\<rparr>"
proof -
  have r: "admitted_record example_env 20 example_task example_run example_admission = sx_record example_row"
    by (simp add: admitted_record_def request_fingerprint_def hash_fields_def example_admission_def
        example_row_def example_task_def example_run_def HARNESS_DISPATCH_RECORD_SCHEMA_VERSION_def)
  have row: "\<lparr>sx_record = sx_record example_row, sx_fence = None, sx_sequence = Suc 0,
      sx_task = example_task, sx_run = example_run\<rparr> = example_row"
    by (simp add: example_row_def)
  have ins: "insert_row (example_db\<lparr>db_events := [e]\<rparr>) example_row =
      Inr \<lparr>db_rows = [example_row], db_events = [e]\<rparr>" for e
    by (simp add: insert_row_def example_db_def example_row_def fence_check_def is_reserved_def)
  have p: "resolve_or_mint_project_id example_db 20 = 20"
    by (simp add: resolve_or_mint_project_id_def example_db_def)
  have l: "load_row example_env example_db i = Inr None" "is_reserved example_db k = False" for i k
    by (simp_all add: load_row_def is_reserved_def example_db_def)
  have ev: "insert_event example_db e = Inr (example_db\<lparr>db_events := [e]\<rparr>, Suc 0)" for e
    by (simp add: insert_event_def example_db_def)
  have g: "da_request_id example_admission \<noteq> 0"
    "protocol_accepts (da_protocol example_admission) (da_harness example_admission)"
    "pd_byte_count (da_prompt example_admission) \<noteq> 0"
    "unat (pd_byte_count (da_prompt example_admission)) \<le> MAX_PROMPT_BYTES"
    "supports_execution (da_protocol example_admission)"
    by (simp_all add: example_admission_def MAX_PROMPT_BYTES_def supports_execution_def)
  show ?thesis
    using g by (simp add: dispatch_step_def admit_dispatch_def Let_def p l example_entities r ev row ins)
qed

lemma example_claimed:
  obtains db where "dispatch_run example_env example_db [OpAdmit 20 21 22 example_admission] = db"
    and "db_rows db = [example_row]" and "store_inv example_env db" and "versions_left db"
proof -
  obtain e where e: "dispatch_step example_env example_db (OpAdmit 20 21 22 example_admission) =
     Inr \<lparr>db_rows = [example_row], db_events = [e]\<rparr>" using example_dispatch_admitted by blast
  then have run: "dispatch_run example_env example_db [OpAdmit 20 21 22 example_admission] =
      \<lparr>db_rows = [example_row], db_events = [e]\<rparr>"
    by (simp add: dispatch_run_def)
  moreover have "store_inv example_env \<lparr>db_rows = [example_row], db_events = [e]\<rparr>"
    using dispatch_run_inv [OF example_env_ok example_init, of "[OpAdmit 20 21 22 example_admission]"] run
    by simp
  moreover have "versions_left \<lparr>db_rows = [example_row], db_events = [e]\<rparr>"
    by (simp add: versions_left_def example_row_def)
  ultimately show thesis using that by simp
qed

section \<open>Properties\<close>

lemma dispatch_step_recover_abs:
  assumes "env_ok env" and "store_inv env db" and "versions_left db"
    and "dispatch_step env db (OpRecover ts) = Inr db'"
  shows "abs_phases db' = (\<lambda>r. map_option (\<lambda>p. table_next p TrRecover) (abs_phases db r))"
proof -
  obtain db1 ry where r: "recover_dispatches env 0 db ts = Inr (db1, ry)"
    and a: "abs_phases db1 = (\<lambda>r. map_option (\<lambda>p. table_next p TrRecover) (abs_phases db r))"
    by (rule recover_dispatches_abs [OF assms(1-3)])
  from r assms(4) have "db' = db1" by (simp add: dispatch_step_def)
  with a show ?thesis by simp
qed

lemma succeeded_is_completed:
  "(ts, RunSucceeded) \<in> set (allowed_statuses p) \<Longrightarrow> p = DpCompleted"
  by (cases p) auto

lemma store_inv_row:
  assumes "store_inv env db" and "x \<in> set (db_rows db)"
  shows "(tk_status (sx_task x), rn_status (sx_run x)) \<in> set (allowed_statuses (row_phase x))"
    and "row_phase x = DpCompleted \<Longrightarrow> completion_evidence (sx_record x)"
  using assms by (auto simp: store_inv_def row_inv_def row_consistent_def Let_def)

text \<open>C1. The dispatch store is sound. After any history of admissions, claims, finishes, cancellations and
  recoveries: request identifiers are unique; at most one attempt holds the reservation of a working
  directory; every stored row passes the checks of a load, with the Task and Run statuses its phase
  allows; a Run is \<open>succeeded\<close> only in a completed attempt whose record carries a clean exit, a capture
  and no error; and no idempotency key occurs twice in the log.\<close>

theorem dispatch_store_sound:
  assumes "env_ok env" and "store_init env db0" and db: "db = dispatch_run env db0 ops"
  shows "distinct (map row_id (db_rows db))
     \<and> (\<forall>x \<in> set (db_rows db). \<forall>y \<in> set (db_rows db).
          dispatch_holds_reservation (row_phase x) \<and> dispatch_holds_reservation (row_phase y)
          \<and> dr_resource_key (sx_record x) = dr_resource_key (sx_record y) \<longrightarrow> x = y)
     \<and> (\<forall>x \<in> set (db_rows db). load_existing env db (row_id x) = Inr x
          \<and> (tk_status (sx_task x), rn_status (sx_run x)) \<in> set (allowed_statuses (row_phase x))
          \<and> (rn_status (sx_run x) = RunSucceeded \<longrightarrow>
               row_phase x = DpCompleted \<and> dr_outcome (sx_record x) = Some OutCompleted
               \<and> dr_error_code (sx_record x) = None \<and> dr_capture (sx_record x) \<noteq> None
               \<and> (\<exists>p. dr_process (sx_record x) = Some p \<and> ps_exit_code p = Some 0
                    \<and> \<not> ps_forced_termination p)))
     \<and> distinct (map ee_idempotency_key (db_events db))"
proof -
  have inv: "store_inv env db" unfolding db by (rule dispatch_run_inv [OF assms(1,2)])
  note inv' = inv [unfolded store_inv_def]
  have "x = y" if "x \<in> set (db_rows db)" "y \<in> set (db_rows db)" "dispatch_holds_reservation (row_phase x)"
    "dispatch_holds_reservation (row_phase y)" "dr_resource_key (sx_record x) = dr_resource_key (sx_record y)"
    for x y
  proof -
    have "row_id x = row_id y" using inv' that unfolding unique_active_def active_iff by blast
    with inv' that show ?thesis by (auto simp: distinct_map inj_on_def)
  qed
  moreover have "row_phase x = DpCompleted \<and> dr_outcome (sx_record x) = Some OutCompleted
      \<and> dr_error_code (sx_record x) = None \<and> dr_capture (sx_record x) \<noteq> None
      \<and> (\<exists>p. dr_process (sx_record x) = Some p \<and> ps_exit_code p = Some 0 \<and> \<not> ps_forced_termination p)"
    if x: "x \<in> set (db_rows db)" and s: "rn_status (sx_run x) = RunSucceeded" for x
  proof -
    have "row_phase x = DpCompleted"
      using store_inv_row(1) [OF inv x] s succeeded_is_completed by metis
    with store_inv_row(2) [OF inv x] show ?thesis
      by (auto simp: completion_evidence_def is_clean_completion_def split: option.splits)
  qed
  ultimately show ?thesis
    using inv' store_inv_row(1) [OF inv] load_existing_row [OF inv] by blast
qed

theorem dispatch_store_sound_witness:
  "load_existing example_env (dispatch_run example_env example_db [OpAdmit 20 21 22 example_admission]) 7
     = Inr example_row"
proof -
  have r: "db_rows (dispatch_run example_env example_db [OpAdmit 20 21 22 example_admission]) = [example_row]"
    by (rule example_claimed) simp
  have "row_id example_row = 7" by (simp add: example_row_def)
  with r dispatch_store_sound [OF example_env_ok example_init refl, of "[OpAdmit 20 21 22 example_admission]"]
  show ?thesis by simp
qed

text \<open>C2. The store refines the phase machine. Seen through the phases of the attempts, every accepted
  command does exactly what the abstract machine does: an admission adds an admitted attempt, a claim,
  a finish and a cancellation move one attempt by the table of \<open>attempt.rs\<close>, and recovery moves all
  interrupted attempts at once (as long as no version counter is exhausted).\<close>

theorem dispatch_store_refines:
  assumes "env_ok env" and "store_init env db0"
    and "dispatch_step env (dispatch_run env db0 ops) op = Inr db'"
    and "versions_left (dispatch_run env db0 ops)"
  shows "abs_phases db' = abs_step op (abs_phases (dispatch_run env db0 ops))"
proof (cases "\<exists>ts. op = OpRecover ts")
  case True
  note inv = dispatch_run_inv [OF assms(1,2)]
  from True obtain ts where ts: "op = OpRecover ts" ..
  with dispatch_step_recover_abs [OF assms(1) inv assms(4)] assms(3) show ?thesis by simp
next
  case False
  then show ?thesis by (intro dispatch_step_abs [OF dispatch_run_inv [OF assms(1,2)] assms(3)]) blast
qed

theorem dispatch_store_refines_witness:
  "\<exists>db'. dispatch_step example_env example_db (OpAdmit 20 21 22 example_admission) = Inr db'
     \<and> abs_phases db' = [7 \<mapsto> DpAdmitted]"
proof -
  obtain e where e: "dispatch_step example_env example_db (OpAdmit 20 21 22 example_admission) =
     Inr \<lparr>db_rows = [example_row], db_events = [e]\<rparr>" using example_dispatch_admitted by blast
  have "dispatch_run example_env example_db [] = example_db" "versions_left example_db"
    "abs_phases example_db = Map.empty" "da_request_id example_admission = 7"
    by (simp_all add: dispatch_run_def versions_left_def example_db_def abs_phases_def example_admission_def)
  with dispatch_store_refines [OF example_env_ok example_init, of "[]"] e
  show ?thesis by fastforce
qed

text \<open>C3. Fencing. A finish that changes anything presents the fence of an attempt that is running or being
  cancelled. Once recovery has committed, an attempt it interrupted never completes again, whatever
  commands follow: a stale executor cannot finish it.\<close>

theorem dispatch_fencing:
  assumes "env_ok env" and "store_init env db0" and db: "db = dispatch_run env db0 ops"
  shows "(\<forall>fin db'. dispatch_step env db (OpFinish fin) = Inr db' \<and> db' \<noteq> db \<longrightarrow>
           (\<exists>x \<in> set (db_rows db). row_id x = fi_request_id fin \<and> sx_fence x = Some (fi_fence fin)
              \<and> (row_phase x = DpRunning \<or> row_phase x = DpCancelRequested)))
     \<and> (\<forall>ts db' r p later. versions_left db \<and> dispatch_step env db (OpRecover ts) = Inr db'
          \<and> abs_phases db r = Some p \<and> interrupted p \<longrightarrow>
          abs_phases (dispatch_run env db' later) r
            \<in> {Some DpFailed, Some DpRecoveryPending, Some DpCancelled})"
proof (intro conjI allI impI)
  note inv = dispatch_run_inv [OF assms(1,2), of ops, folded db]
  fix fin db'
  assume "dispatch_step env db (OpFinish fin) = Inr db' \<and> db' \<noteq> db"
  then obtain c where "finish_dispatch env 0 db fin = Inr (db', c)" and ne: "db' \<noteq> db"
    by (auto simp: dispatch_step_def split: sum.splits prod.splits)
  then show "\<exists>x \<in> set (db_rows db). row_id x = fi_request_id fin \<and> sx_fence x = Some (fi_fence fin)
      \<and> (row_phase x = DpRunning \<or> row_phase x = DpCancelRequested)"
  proof (cases rule: finish_dispatch_Inr)
    case (finished x g)
    with commit_fenced [OF finished(3) ne] load_existing_Inr [OF finished(2)] show ?thesis by blast
  qed (use ne in simp)
next
  note inv = dispatch_run_inv [OF assms(1,2), of ops, folded db]
  fix ts db' r p later
  assume h: "versions_left db \<and> dispatch_step env db (OpRecover ts) = Inr db'
      \<and> abs_phases db r = Some p \<and> interrupted p"
  with dispatch_step_recover_abs [OF assms(1) inv, of ts db']
  have "abs_phases db' r = Some (table_next p TrRecover)" by simp
  moreover have next_phase: "table_next p TrRecover \<in> {DpRecoveryPending, DpCancelled, DpFailed}"
    using h by (auto simp: interrupted_def table_next_def dispatch_apply_def phase_changed_def)
  moreover have "store_inv env db'" using dispatch_step_inv [OF assms(1) inv] h by blast
  ultimately obtain q where "abs_phases (dispatch_run env db' later) r = Some q"
    "table_move\<^sup>*\<^sup>* (table_next p TrRecover) q"
    using dispatch_run_moves [OF assms(1), of db' r _ later] by (auto simp: dispatch_run_def)
  with recovered_stays next_phase
  show "abs_phases (dispatch_run env db' later) r \<in> {Some DpFailed, Some DpRecoveryPending, Some DpCancelled}"
    by blast
qed

theorem dispatch_fencing_witness:
  "\<exists>db'. dispatch_step example_env (dispatch_run example_env example_db [OpAdmit 20 21 22 example_admission])
        (OpRecover 200) = Inr db'
     \<and> abs_phases (dispatch_run example_env db' [OpClaim 30 7 210]) 7
         \<in> {Some DpFailed, Some DpRecoveryPending, Some DpCancelled}"
proof -
  obtain db where db: "dispatch_run example_env example_db [OpAdmit 20 21 22 example_admission] = db"
    "db_rows db = [example_row]" "store_inv example_env db" "versions_left db" by (rule example_claimed)
  obtain db' ry where "recover_dispatches example_env 0 db 200 = Inr (db', ry)"
    by (rule recover_dispatches_abs [OF example_env_ok db(3,4)])
  then have step: "dispatch_step example_env db (OpRecover 200) = Inr db'"
    by (simp add: dispatch_step_def)
  moreover have "abs_phases db 7 = Some DpAdmitted" "interrupted DpAdmitted"
    using db(2) by (simp_all add: abs_phases_def example_row_def interrupted_def)
  ultimately show ?thesis
    using dispatch_fencing [OF example_env_ok example_init db(1) [symmetric]] db(1,4) by blast
qed

text \<open>C28. Recovery makes progress. In every reachable state (with no version counter exhausted) startup
  recovery commits, quarantines nothing and leaves no interrupted attempt; and an attempt awaiting the
  operator can always be acknowledged by a cancellation, which ends it and frees its directory.\<close>

theorem recovery_completes:
  assumes "env_ok env" and "store_init env db0" and db: "db = dispatch_run env db0 ops"
    and "versions_left db"
  shows "\<exists>db' ry. recover_dispatches env 0 db ts = Inr (db', ry) \<and> ry_quarantined ry = []
     \<and> (\<forall>x \<in> set (db_rows db'). \<not> interrupted (row_phase x))
     \<and> (\<forall>x \<in> set (db_rows db'). row_phase x = DpRecoveryPending \<and> dr_version (sx_record x) \<noteq> - 1 \<longrightarrow>
          (\<exists>db''. dispatch_step env db' (OpCancel (row_id x) ts) = Inr db''
             \<and> abs_phases db'' (row_id x) = Some DpCancelled))"
proof -
  note inv = dispatch_run_inv [OF assms(1,2), of ops, folded db]
  obtain db' ry where r: "recover_dispatches env 0 db ts = Inr (db', ry)" "ry_quarantined ry = []"
    and a: "abs_phases db' = (\<lambda>r. map_option (\<lambda>p. table_next p TrRecover) (abs_phases db r))"
    by (rule recover_dispatches_abs [OF assms(1) inv assms(4)])
  have inv': "store_inv env db'"
    by (rule dispatch_step_inv [OF assms(1) inv, of "OpRecover ts"]) (simp add: dispatch_step_def r)
  have "\<not> interrupted (row_phase x)" if x: "x \<in> set (db_rows db')" for x
  proof -
    obtain p where "row_phase x = table_next p TrRecover"
      using abs_phases_row [OF inv' x] a by (metis map_option_eq_Some)
    then show ?thesis
      by (cases p) (auto simp: interrupted_def table_next_def dispatch_apply_def phase_changed_def)
  qed
  moreover have "\<exists>db''. dispatch_step env db' (OpCancel (row_id x) ts) = Inr db''
      \<and> abs_phases db'' (row_id x) = Some DpCancelled"
    if x: "x \<in> set (db_rows db')" "row_phase x = DpRecoveryPending" "dr_version (sx_record x) \<noteq> - 1" for x
  proof -
    obtain t where t: "dispatch_apply (row_phase x) TrCancel = Inr (TransChanged t)"
      "pt_fence t \<noteq> FenceRequire" "pt_to t = DpCancelled"
      using x(2) by (simp add: dispatch_apply_def phase_changed_def)
    obtain db'' c g where step: "commit_transition env 0 db' x TrCancel None ts = Inr (db'', c, g)"
      by (rule commit_transition_progress [OF inv' x(1) _ t(1) _ x(3), of None 0 ts])
        (use t(2) in \<open>auto simp: trigger_ok_def\<close>)
    have "abs_phases db'' (row_id x) = Some DpCancelled"
      using commit_transition_abs [OF inv' x(1) step] abs_phases_row [OF inv' x(1)] t
      by (simp add: move_phase_def table_next_def)
    moreover have "dispatch_step env db' (OpCancel (row_id x) ts) = Inr db''"
      using load_existing_row [OF inv' x(1)] step by (simp add: dispatch_step_def cancel_dispatch_def)
    ultimately show ?thesis by blast
  qed
  ultimately show ?thesis using r by blast
qed

theorem recovery_completes_witness:
  "\<exists>db' ry. recover_dispatches example_env 0
        (dispatch_run example_env example_db [OpAdmit 20 21 22 example_admission]) 200 = Inr (db', ry)
     \<and> ry_quarantined ry = [] \<and> (\<forall>x \<in> set (db_rows db'). \<not> interrupted (row_phase x))"
proof -
  obtain db where db: "dispatch_run example_env example_db [OpAdmit 20 21 22 example_admission] = db"
    "versions_left db" by (rule example_claimed)
  from recovery_completes [OF example_env_ok example_init db(1) [symmetric] db(2), of 200] db(1)
  show ?thesis by auto
qed

end
