(* ===== verification/Line_Framer.thy ===== *)
theory Line_Framer
  imports Dispatch
begin

text \<open>
  Incremental JSON Lines framing, \<open>crates/vibemux_harness/src/dispatch/json_line_framer.rs\<close>. The daemon
  feeds the framer chunks of any size; \<open>feed\<close> folds \<open>push\<close> over them.

  The lemmas show that the framer refines the splitting of the whole stream into lines, wherever the
  chunks end, that it never holds more than the frame limit, that a failure is permanent, and that a
  stream of well-formed records comes back record by record.
\<close>

section \<open>UTF-8\<close>

text \<open>\<open>String::from_utf8\<close> accepts exactly the well-formed sequences of the Unicode standard: no overlong
  forms, no surrogates, nothing above U+10FFFF.\<close>

definition in_range :: "nat \<Rightarrow> nat \<Rightarrow> char \<Rightarrow> bool" where
  "in_range lo hi c \<longleftrightarrow> lo \<le> byte c \<and> byte c \<le> hi"

fun utf8_valid :: "string \<Rightarrow> bool" where
  "utf8_valid [] = True"
| "utf8_valid (a # s) =
     (if byte a \<le> 0x7F then utf8_valid s
      else (case s of
        [] \<Rightarrow> False
      | b # t \<Rightarrow>
          if in_range 0xC2 0xDF a then in_range 0x80 0xBF b \<and> utf8_valid t
          else (case t of
            [] \<Rightarrow> False
          | c # u \<Rightarrow>
              if byte a = 0xE0 then in_range 0xA0 0xBF b \<and> in_range 0x80 0xBF c \<and> utf8_valid u
              else if in_range 0xE1 0xEC a \<or> in_range 0xEE 0xEF a
              then in_range 0x80 0xBF b \<and> in_range 0x80 0xBF c \<and> utf8_valid u
              else if byte a = 0xED then in_range 0x80 0x9F b \<and> in_range 0x80 0xBF c \<and> utf8_valid u
              else (case u of
                [] \<Rightarrow> False
              | d # v \<Rightarrow>
                  (byte a = 0xF0 \<and> in_range 0x90 0xBF b \<or> in_range 0xF1 0xF3 a \<and> in_range 0x80 0xBF b
                   \<or> byte a = 0xF4 \<and> in_range 0x80 0x8F b)
                  \<and> in_range 0x80 0xBF c \<and> in_range 0x80 0xBF d \<and> utf8_valid v))))"

section \<open>The framer\<close>

abbreviation LF :: char where "LF \<equiv> CHR 0x0A"
abbreviation CR :: char where "CR \<equiv> CHR 0x0D"

record json_line_framer =
  lf_pending :: string
  lf_max_frame_bytes :: nat
  lf_failure :: "dispatch_error option"

definition framer_new :: "nat \<Rightarrow> json_line_framer" where
  "framer_new max_frame_bytes =
     \<lparr>lf_pending = [], lf_max_frame_bytes = max_frame_bytes, lf_failure = None\<rparr>"

definition decode_frame :: "string \<Rightarrow> dispatch_error + string" where
  "decode_frame frame =
     (let frame = (if frame \<noteq> [] \<and> last frame = CR then butlast frame else frame) in
      if frame = [] then Inl DeEmptyRecord
      else if utf8_valid frame then Inr frame else Inl DeInvalidUtf8)"

text \<open>\<open>chunk.iter().position(|byte| *byte == b'\\n')\<close>.\<close>

definition newline_position :: "string \<Rightarrow> nat option" where
  "newline_position chunk =
     (if LF \<in> set chunk then Some (length (takeWhile (\<lambda>b. b \<noteq> LF) chunk)) else None)"

text \<open>The loop of \<open>push_unpoisoned\<close>, over the pending bytes, the rest of the chunk and the frames. Lengths
  of vectors in memory never saturate the sum.\<close>

function push_unpoisoned ::
  "nat \<Rightarrow> string \<Rightarrow> string \<Rightarrow> string list \<Rightarrow> string \<times> string list \<times> (dispatch_error + unit)" where
  "push_unpoisoned max_frame_bytes pending chunk frames =
     (if chunk = [] then (pending, frames, Inr ())
      else
     (let newline = newline_position chunk;
          body = (case newline of None \<Rightarrow> chunk | Some index \<Rightarrow> take index chunk)
      in if length pending + length body > max_frame_bytes then (pending, frames, Inl DeFrameTooLarge)
         else (case newline of
           None \<Rightarrow> (pending @ body, frames, Inr ())
         | Some index \<Rightarrow>
             (case decode_frame (pending @ body) of
                Inl e \<Rightarrow> ([], frames, Inl e)
              | Inr text \<Rightarrow>
                  push_unpoisoned max_frame_bytes [] (drop (Suc index) chunk) (frames @ [text])))))"
  by pat_completeness auto
termination
  by (relation "measure (\<lambda>(m, p, chunk, fs). length chunk)") auto

definition push ::
  "json_line_framer \<Rightarrow> string \<Rightarrow> string list \<Rightarrow>
   json_line_framer \<times> string list \<times> (dispatch_error + unit)" where
  "push self chunk frames =
     (case lf_failure self of
        Some failure \<Rightarrow> (self, frames, Inl failure)
      | None \<Rightarrow>
          (case push_unpoisoned (lf_max_frame_bytes self) (lf_pending self) chunk frames of
             (pending, frames', result) \<Rightarrow>
               (case result of
                  Inl failure \<Rightarrow> (self\<lparr>lf_failure := Some failure, lf_pending := []\<rparr>, frames', result)
                | Inr _ \<Rightarrow> (self\<lparr>lf_pending := pending\<rparr>, frames', result))))"

definition finish ::
  "json_line_framer \<Rightarrow> json_line_framer \<times> (dispatch_error + string option)" where
  "finish self =
     (case lf_failure self of
        Some failure \<Rightarrow> (self, Inl failure)
      | None \<Rightarrow>
          if lf_pending self = [] then (self, Inr None)
          else (case decode_frame (lf_pending self) of
             Inl failure \<Rightarrow> (self\<lparr>lf_pending := [], lf_failure := Some failure\<rparr>, Inl failure)
           | Inr text \<Rightarrow> (self\<lparr>lf_pending := []\<rparr>, Inr (Some text))))"

definition pending_bytes :: "json_line_framer \<Rightarrow> nat" where
  "pending_bytes self = length (lf_pending self)"

text \<open>The daemon's loop: every chunk it reads is pushed; the state keeps the first failure.\<close>

fun feed :: "json_line_framer \<Rightarrow> string list \<Rightarrow> string list \<Rightarrow> json_line_framer \<times> string list" where
  "feed self frames [] = (self, frames)"
| "feed self frames (chunk # chunks) =
     (case push self chunk frames of (self', frames', _) \<Rightarrow> feed self' frames' chunks)"

section \<open>The stream of lines\<close>

text \<open>The complete lines of a stream and the bytes after the last newline.\<close>

fun split_stream :: "string \<Rightarrow> string list \<times> string" where
  "split_stream [] = ([], [])"
| "split_stream (c # s) =
     (case split_stream s of (ls, r) \<Rightarrow>
        if c = LF then ([] # ls, r)
        else (case ls of [] \<Rightarrow> ([], c # r) | l # ls' \<Rightarrow> ((c # l) # ls', r)))"

text \<open>Frames, first failure and remaining bytes of a stream.\<close>

fun frame_lines :: "nat \<Rightarrow> string list \<Rightarrow> string \<Rightarrow> string list \<times> dispatch_error option \<times> string" where
  "frame_lines m [] r = (if length r > m then ([], Some DeFrameTooLarge, []) else ([], None, r))"
| "frame_lines m (l # ls) r =
     (if length l > m then ([], Some DeFrameTooLarge, [])
      else (case decode_frame l of
         Inl e \<Rightarrow> ([], Some e, [])
       | Inr text \<Rightarrow> (case frame_lines m ls r of (fs, f, p) \<Rightarrow> (text # fs, f, p))))"

definition frame_stream :: "nat \<Rightarrow> string \<Rightarrow> string list \<times> dispatch_error option \<times> string" where
  "frame_stream m s = (case split_stream s of (ls, r) \<Rightarrow> frame_lines m ls r)"

lemma split_stream_plain: "LF \<notin> set s \<Longrightarrow> split_stream s = ([], s)"
  by (induction s) auto

lemma split_stream_line:
  "LF \<notin> set l \<Longrightarrow> split_stream (l @ LF # s) = (l # fst (split_stream s), snd (split_stream s))"
  by (induction l) (auto split: prod.splits)

lemma split_stream_rest: "split_stream s = (ls, r) \<Longrightarrow> LF \<notin> set r \<and> (\<forall>l \<in> set ls. LF \<notin> set l)"
  by (induction s arbitrary: ls r) (auto split: prod.splits if_splits list.splits)

lemma split_stream_append:
  "split_stream (xs @ ys) =
   (fst (split_stream xs) @ fst (split_stream (snd (split_stream xs) @ ys)),
    snd (split_stream (snd (split_stream xs) @ ys)))"
proof (induction xs)
  case (Cons c xs)
  then show ?case
    by (cases "split_stream xs"; cases "fst (split_stream xs)") (auto split: prod.splits list.splits)
qed simp

lemma frame_lines_append_None:
  "frame_lines m ls r = (fs, None, p) \<Longrightarrow>
   frame_lines m (ls @ ls') r' = (case frame_lines m ls' r' of (fs', f, p') \<Rightarrow> (fs @ fs', f, p')) \<and> p = r"
  by (induction ls arbitrary: fs) (auto split: if_splits sum.splits prod.splits)

lemma frame_stream_too_long:
  assumes "LF \<notin> set r" and "length r > m"
  shows "frame_stream m (r @ ys) = ([], Some DeFrameTooLarge, [])"
proof (cases "LF \<in> set ys")
  case True
  then obtain u v where ys: "ys = u @ LF # v" "LF \<notin> set u" by (meson split_list_first)
  then have "split_stream (r @ ys) = ((r @ u) # fst (split_stream v), snd (split_stream v))"
    using split_stream_line [of "r @ u" v] assms(1) by simp
  with assms(2) show ?thesis by (simp add: frame_stream_def)
next
  case False
  with assms show ?thesis by (simp add: frame_stream_def split_stream_plain)
qed

lemma frame_lines_Some:
  "frame_lines m ls r = (fs, Some e, p) \<Longrightarrow>
   p = [] \<and> (frame_lines m (ls @ ls') r' = (fs, Some e, []) \<or>
     (\<exists>gs. frame_lines m ls [] = (fs, None, []) \<and> length r > m \<and> e = DeFrameTooLarge \<and> gs = ls))"
  by (induction ls arbitrary: fs) (auto split: if_splits sum.splits prod.splits)

lemma frame_stream_append:
  assumes "frame_stream m xs = (fs, f, r)"
  shows "frame_stream m (xs @ ys) =
    (case f of Some e \<Rightarrow> (fs, Some e, [])
     | None \<Rightarrow> (case frame_stream m (r @ ys) of (fs', f', r') \<Rightarrow> (fs @ fs', f', r')))"
proof -
  obtain ls q where xs: "split_stream xs = (ls, q)" by fastforce
  obtain ls' q' where ys: "split_stream (q @ ys) = (ls', q')" by fastforce
  have whole: "frame_stream m (xs @ ys) = frame_lines m (ls @ ls') q'"
    using split_stream_append [of xs ys] by (simp add: frame_stream_def xs ys)
  have rest: "frame_stream m (q @ ys) = frame_lines m ls' q'" by (simp add: frame_stream_def ys)
  have lines: "frame_lines m ls q = (fs, f, r)" using assms by (simp add: frame_stream_def xs)
  show ?thesis
  proof (cases f)
    case None
    then show ?thesis
      using frame_lines_append_None [of m ls q fs r ls' q'] lines whole rest by simp
  next
    case (Some e)
    then consider "frame_lines m (ls @ ls') q' = (fs, Some e, [])"
      | "frame_lines m ls [] = (fs, None, [])" "length q > m" "e = DeFrameTooLarge"
      using frame_lines_Some [of m ls q fs e r ls' q'] lines by auto
    then show ?thesis
    proof cases
      case 1
      then show ?thesis using whole Some by simp
    next
      case 2
      have "LF \<notin> set q" using split_stream_rest [OF xs] by simp
      then have "frame_lines m ls' q' = ([], Some DeFrameTooLarge, [])"
        using frame_stream_too_long [of q m ys] 2 rest by simp
      then show ?thesis using frame_lines_append_None [OF 2(1), of ls' q'] whole Some 2 by simp
    qed
  qed
qed

lemma frame_stream_first_line:
  "LF \<notin> set l \<Longrightarrow> frame_stream m (l @ LF # s) =
   (if length l > m then ([], Some DeFrameTooLarge, [])
    else case decode_frame l of Inl e \<Rightarrow> ([], Some e, [])
      | Inr t \<Rightarrow> (case frame_stream m s of (fs, f, p) \<Rightarrow> (t # fs, f, p)))"
  by (cases "split_stream s") (simp add: frame_stream_def split_stream_line split: sum.split)

lemma newline_position_cases:
  obtains (none) "newline_position chunk = None" "LF \<notin> set chunk"
  | (some) body rest where "chunk = body @ LF # rest" "LF \<notin> set body"
      "newline_position chunk = Some (length body)"
proof (cases "LF \<in> set chunk")
  case True
  then obtain u v where "chunk = u @ LF # v" "LF \<notin> set u" by (meson split_list_first)
  moreover from this have "takeWhile (\<lambda>b. b \<noteq> LF) chunk = u" by (auto simp: takeWhile_tail)
  ultimately show ?thesis using some [of u v] True by (simp add: newline_position_def)
next
  case False
  then show ?thesis using none by (simp add: newline_position_def)
qed

lemma push_unpoisoned_refines:
  assumes "LF \<notin> set p" and "length p \<le> m" and "frame_stream m (p @ chunk) = (fs, f, r)"
  shows "\<exists>q. push_unpoisoned m p chunk frames =
      (q, frames @ fs, case f of None \<Rightarrow> Inr () | Some e \<Rightarrow> Inl e) \<and> (f = None \<longrightarrow> q = r)"
  using assms
proof (induction m p chunk frames arbitrary: fs f r rule: push_unpoisoned.induct)
  case (1 m p chunk frames)
  show ?case
  proof (cases rule: newline_position_cases [of chunk])
    case none
    then have "split_stream (p @ chunk) = ([], p @ chunk)" using "1.prems"(1) by (simp add: split_stream_plain)
    then show ?thesis using none "1.prems"(2,3)
      by (auto simp: frame_stream_def push_unpoisoned.simps [of m p chunk] split: if_splits)
  next
    case (some body rest)
    have fs: "(if length (p @ body) > m then ([], Some DeFrameTooLarge, [])
        else case decode_frame (p @ body) of Inl e \<Rightarrow> ([], Some e, [])
          | Inr t \<Rightarrow> (case frame_stream m rest of (fs, f, p) \<Rightarrow> (t # fs, f, p))) = (fs, f, r)"
      using frame_stream_first_line [of "p @ body" m rest] some "1.prems" by simp
    show ?thesis
    proof (cases "length (p @ body) > m")
      case True
      then show ?thesis using some fs by (auto simp: push_unpoisoned.simps [of m p chunk])
    next
      case False
      show ?thesis
      proof (cases "decode_frame (p @ body)")
        case (Inl e)
        then show ?thesis using False some fs by (auto simp: push_unpoisoned.simps [of m p chunk])
      next
        case (Inr t)
        obtain fs' f' r' where sub: "frame_stream m rest = (fs', f', r')" by (metis prod_cases3)
        have "\<exists>q. push_unpoisoned m [] rest (frames @ [t]) =
            (q, (frames @ [t]) @ fs', case f' of None \<Rightarrow> Inr () | Some e \<Rightarrow> Inl e) \<and> (f' = None \<longrightarrow> q = r')"
          using "1.IH" [of "Some (length body)" body "length body" t fs' f' r'] some False Inr sub by simp
        then show ?thesis using False some fs Inr sub by (auto simp: push_unpoisoned.simps [of m p chunk])
      qed
    qed
  qed
qed

lemma frame_lines_pending: "frame_lines m ls r = (fs, f, p) \<Longrightarrow> length p \<le> m \<and> (p = [] \<or> p = r)"
  by (induction ls arbitrary: fs) (auto split: if_splits sum.splits prod.splits)

lemma frame_stream_pending: "frame_stream m s = (fs, f, p) \<Longrightarrow> length p \<le> m \<and> LF \<notin> set p"
  using split_stream_rest [of s] frame_lines_pending
  by (fastforce simp: frame_stream_def split: prod.splits)

lemma frame_stream_failed: "frame_stream m s = (fs, Some e, p) \<Longrightarrow> p = []"
  using frame_lines_Some by (fastforce simp: frame_stream_def split: prod.splits)

text \<open>The state of a framer that has read the stream \<open>s\<close>.\<close>

definition framer_after :: "nat \<Rightarrow> string \<Rightarrow> json_line_framer \<times> string list" where
  "framer_after m s = (case frame_stream m s of (fs, f, p) \<Rightarrow>
     (\<lparr>lf_pending = p, lf_max_frame_bytes = m, lf_failure = f\<rparr>, fs))"

lemma push_refines:
  "push (fst (framer_after m s)) chunk (snd (framer_after m s)) =
   (fst (framer_after m (s @ chunk)), snd (framer_after m (s @ chunk)),
    case lf_failure (fst (framer_after m (s @ chunk))) of None \<Rightarrow> Inr () | Some e \<Rightarrow> Inl e)"
proof -
  obtain fs f p where s: "frame_stream m s = (fs, f, p)" by (metis prod_cases3)
  obtain fs' f' p' where t: "frame_stream m (p @ chunk) = (fs', f', p')" by (metis prod_cases3)
  note app = frame_stream_append [OF s, of chunk]
  show ?thesis
  proof (cases f)
    case (Some e)
    then show ?thesis using app s frame_stream_failed [of m s] by (simp add: framer_after_def push_def)
  next
    case None
    obtain q where "push_unpoisoned m p chunk fs =
        (q, fs @ fs', case f' of None \<Rightarrow> Inr () | Some e \<Rightarrow> Inl e)" "f' = None \<longrightarrow> q = p'"
      using push_unpoisoned_refines [OF _ _ t] frame_stream_pending [OF s] by blast
    then show ?thesis using None app s t frame_stream_failed [of m "p @ chunk"]
      by (cases f') (auto simp: framer_after_def push_def)
  qed
qed

lemma feed_refines:
  "feed (fst (framer_after m s)) (snd (framer_after m s)) chunks = framer_after m (s @ concat chunks)"
  by (induction chunks arbitrary: s) (simp_all add: push_refines)

lemma framer_after_empty: "framer_after m [] = (framer_new m, [])"
  by (simp add: framer_after_def framer_new_def frame_stream_def)

text \<open>C29. The framer computes the lines of the whole stream, however the stream is cut into chunks: the
  frames it returns are the decoded lines before the first bad one, the failure it keeps is that of the
  first line that is too long, empty or not UTF-8, and the bytes it holds are those after the last
  newline, never more than the limit. So chunk boundaries inside a character or between CR and LF change
  nothing.\<close>

theorem framer_refines_stream:
  "feed (framer_new m) [] chunks =
     (case frame_stream m (concat chunks) of (frames, failure, rest) \<Rightarrow>
        (\<lparr>lf_pending = rest, lf_max_frame_bytes = m, lf_failure = failure\<rparr>, frames))
   \<and> pending_bytes (fst (feed (framer_new m) [] chunks)) \<le> m"
proof -
  have eq: "feed (framer_new m) [] chunks = framer_after m (concat chunks)"
    using feed_refines [of m "[]" chunks] by (simp add: framer_after_empty)
  obtain fs f p where s: "frame_stream m (concat chunks) = (fs, f, p)" by (metis prod_cases3)
  show ?thesis using eq s frame_stream_pending [OF s]
    by (simp add: framer_after_def pending_bytes_def)
qed

section \<open>Round trip\<close>

text \<open>A record as a peer writes it, with LF or with CR LF.\<close>

definition write_record :: "string \<times> bool \<Rightarrow> string" where
  "write_record = (\<lambda>(line, crlf). line @ (if crlf then [CR, LF] else [LF]))"

definition record_ok :: "nat \<Rightarrow> string \<times> bool \<Rightarrow> bool" where
  "record_ok m = (\<lambda>(line, crlf). line \<noteq> [] \<and> utf8_valid line \<and> LF \<notin> set line
     \<and> last line \<noteq> CR \<and> length line + (if crlf then 1 else 0) \<le> m)"

lemma frame_stream_write_record:
  assumes "record_ok m (line, crlf)"
  shows "frame_stream m (write_record (line, crlf) @ s) =
    (case frame_stream m s of (fs, f, p) \<Rightarrow> (line # fs, f, p))"
  using assms frame_stream_first_line [of line m s] frame_stream_first_line [of "line @ [CR]" m s]
  by (auto simp: record_ok_def write_record_def decode_frame_def split: if_splits)

lemma frame_stream_records:
  assumes "list_all (record_ok m) rs"
  shows "frame_stream m (concat (map write_record rs) @ s) =
    (case frame_stream m s of (fs, f, p) \<Rightarrow> (map fst rs @ fs, f, p))"
  using assms
proof (induction rs)
  case (Cons r rs)
  then show ?case
    using frame_stream_write_record [of m "fst r" "snd r" "concat (map write_record rs) @ s"]
    by (simp split: prod.splits)
qed (simp split: prod.splits)

text \<open>C30. Whatever the chunks, the records a peer wrote with LF or CR LF come back in order and
  unchanged, without a failure, and a last record without its newline is returned by \<open>finish\<close>, which
  leaves nothing behind.\<close>

theorem framer_roundtrip:
  assumes "list_all (record_ok m) records" and "record_ok m (tail, False)"
    and "concat chunks = concat (map write_record records) @ tail"
  shows "\<exists>framer. feed (framer_new m) [] chunks = (framer, map fst records)
    \<and> finish framer = (framer_new m, Inr (Some tail))"
proof -
  have tail: "frame_stream m tail = ([], None, tail)"
    using assms(2) split_stream_plain [of tail] by (simp add: record_ok_def frame_stream_def)
  have "feed (framer_new m) [] chunks = framer_after m (concat chunks)"
    using feed_refines [of m "[]" chunks] by (simp add: framer_after_empty)
  also have "\<dots> = (\<lparr>lf_pending = tail, lf_max_frame_bytes = m, lf_failure = None\<rparr>, map fst records)"
    using frame_stream_records [OF assms(1), of tail] assms(3) tail by (simp add: framer_after_def)
  finally show ?thesis using assms(2)
    by (auto simp: finish_def framer_new_def record_ok_def decode_frame_def)
qed

theorem framer_roundtrip_witness:
  "\<exists>framer. feed (framer_new 4) []
      [[CHR 0xC3], [CHR 0xA9, CHR 0x0D], [CHR 0x0A, CHR 0x61], [CHR 0x0A, CHR 0x62]]
        = (framer, [[CHR 0xC3, CHR 0xA9], [CHR 0x61]])
    \<and> finish framer = (framer_new 4, Inr (Some [CHR 0x62]))"
  using framer_roundtrip [of 4 "[([CHR 0xC3, CHR 0xA9], True), ([CHR 0x61], False)]" "[CHR 0x62]"
      "[[CHR 0xC3], [CHR 0xA9, CHR 0x0D], [CHR 0x0A, CHR 0x61], [CHR 0x0A, CHR 0x62]]"]
  by (simp add: record_ok_def write_record_def in_range_def)

end
