(* ===== verification/Canonical_Json.thy ===== *)
theory Canonical_Json
  imports Digests
begin

text \<open>
  VibeMux canonical JSON, \<open>crates/vibemux_workflow/src/canonical_json.rs\<close>: the bytes every contract,
  candidate and receipt identity hashes. \<open>serde_json::Value\<close> is \<open>json_value\<close>, with its number type as
  a type parameter: \<open>as_i64\<close> and \<open>as_u64\<close> of \<open>serde_json::Number\<close> are arguments of the definitions, and so
  are \<open>serde_json::to_value\<close> and SHA-256. A \<open>Map\<close> is the list of its members in iteration order.

  The lemmas show that the writer succeeds exactly on values of bounded depth with integer numbers, and
  that two values have the same bytes iff they are the same JSON value: the order of members and the
  representation of numbers are forgotten, nothing else is.
\<close>

section \<open>Values and errors\<close>

datatype 'n json_value =
    JNull
  | JBool bool
  | JNumber 'n
  | JString string
  | JArray "'n json_value list"
  | JObject "(string \<times> 'n json_value) list"

datatype canonical_error = NonIntegerNumber | CanonicalTooDeep | Unserializable

fun canonical_error_code :: "canonical_error \<Rightarrow> string" where
  "canonical_error_code NonIntegerNumber = ''workflow_canonical_non_integer''"
| "canonical_error_code CanonicalTooDeep = ''workflow_canonical_too_deep''"
| "canonical_error_code Unserializable = ''workflow_canonical_unserializable''"

definition MAX_CANONICAL_DEPTH :: nat where "MAX_CANONICAL_DEPTH = 32"

definition CANONICAL_JSON_VERSION :: string where
  "CANONICAL_JSON_VERSION = ''vibemux_canonical_json_v1''"

section \<open>Decimal integers\<close>

text \<open>\<open>to_string\<close> of an \<open>i64\<close> or \<open>u64\<close>.\<close>

fun decimal :: "nat \<Rightarrow> string" where
  "decimal n =
     (if n < 10 then [char_of (48 + n)] else decimal (n div 10) @ [char_of (48 + n mod 10)])"

declare decimal.simps [simp del]

definition int_to_string :: "int \<Rightarrow> string" where
  "int_to_string i = (if i < 0 then CHR ''-'' # decimal (nat (- i)) else decimal (nat i))"

definition decimal_value :: "string \<Rightarrow> nat" where
  "decimal_value s = foldl (\<lambda>a c. a * 10 + (byte c - 48)) 0 s"

lemma byte_digit [simp]: "n < 10 \<Longrightarrow> byte (char_of (48 + n)) = 48 + n"
  by simp

lemma decimal_digits: "list_all is_ascii_digit (decimal n)"
proof (induction n rule: decimal.induct)
  case (1 n)
  have "is_ascii_digit (char_of (48 + m))" if "m < 10" for m :: nat
    using byte_digit [OF that] that by (simp add: is_ascii_digit_def del: of_char_of byte_digit)
  with 1 show ?case by (subst decimal.simps) simp
qed

lemma decimal_not_Nil [simp]: "decimal n \<noteq> []"
  by (subst decimal.simps) simp

lemma decimal_value_decimal: "decimal_value (decimal n) = n"
proof (induction n rule: decimal.induct)
  case (1 n)
  show ?case
  proof (cases "n < 10")
    case True
    then show ?thesis by (subst decimal.simps) (simp add: decimal_value_def)
  next
    case False
    have "decimal n = decimal (n div 10) @ [char_of (48 + n mod 10)]"
      using False by (subst decimal.simps) simp
    then have "decimal_value (decimal n) = n div 10 * 10 + (byte (char_of (48 + n mod 10) :: char) - 48)"
      using 1 False by (simp add: decimal_value_def del: of_char_of)
    also have "\<dots> = n div 10 * 10 + n mod 10" by (simp del: of_char_of)
    finally show ?thesis by simp
  qed
qed

text \<open>A decimal number ends where the digits end.\<close>

definition digit_free :: "string \<Rightarrow> bool" where
  "digit_free s \<longleftrightarrow> s = [] \<or> \<not> is_ascii_digit (hd s)"

lemma takeWhile_decimal: "digit_free r \<Longrightarrow> takeWhile is_ascii_digit (decimal n @ r) = decimal n"
  using decimal_digits [of n]
  by (cases r) (auto simp: digit_free_def list_all_iff takeWhile_append2 takeWhile_eq_all_conv)

lemma decimal_inject:
  assumes "decimal m @ r = decimal n @ s" and "digit_free r" and "digit_free s"
  shows "m = n \<and> r = s"
  by (metis assms append_same_eq same_append_eq decimal_value_decimal takeWhile_decimal)

lemma decimal_head: "\<exists>c t. decimal n = c # t \<and> is_ascii_digit c"
  using decimal_digits [of n] by (cases "decimal n") (auto simp: decimal_not_Nil)

lemma int_to_string_head: "\<exists>c t. int_to_string i = c # t \<and> (is_ascii_digit c \<or> c = CHR ''-'')"
  using decimal_head [of "nat i"] by (auto simp: int_to_string_def)

lemma int_to_string_inject:
  assumes "int_to_string i @ r = int_to_string j @ s" and "digit_free r" and "digit_free s"
  shows "i = j \<and> r = s"
proof -
  have "\<not> is_ascii_digit (CHR ''-'')" by (simp add: is_ascii_digit_def)
  then have sign: "(i < 0) = (j < 0)"
    using assms(1) decimal_head [of "nat i"] decimal_head [of "nat j"]
    by (auto simp: int_to_string_def split: if_splits)
  show ?thesis
  proof (cases "i < 0")
    case True
    then have "decimal (nat (- i)) @ r = decimal (nat (- j)) @ s"
      using assms(1) sign by (simp add: int_to_string_def)
    from decimal_inject [OF this assms(2,3)] True sign show ?thesis by auto
  next
    case False
    then have "decimal (nat i) @ r = decimal (nat j) @ s"
      using assms(1) sign by (simp add: int_to_string_def)
    from decimal_inject [OF this assms(2,3)] False sign show ?thesis by auto
  qed
qed

section \<open>Strings\<close>

text \<open>One step of the loop of \<open>write_string\<close>. A character below U+0080 is one byte; every byte of a longer
  character is at least 0x80 and is written as it is, as \<open>encode_utf8\<close> does.\<close>

definition escape :: "char \<Rightarrow> string" where
  "escape c =
     (if c = CHR 0x22 then [CHR 0x5C, CHR 0x22]
      else if c = CHR 0x5C then [CHR 0x5C, CHR 0x5C]
      else if c = CHR 0x08 then [CHR 0x5C, CHR ''b'']
      else if c = CHR 0x0C then [CHR 0x5C, CHR ''f'']
      else if c = CHR 0x0A then [CHR 0x5C, CHR ''n'']
      else if c = CHR 0x0D then [CHR 0x5C, CHR ''r'']
      else if c = CHR 0x09 then [CHR 0x5C, CHR ''t'']
      else if byte c < 0x20
      then [CHR 0x5C, CHR ''u'', CHR ''0'', CHR ''0'', HEX ! (byte c div 16), HEX ! (byte c mod 16)]
      else [c])"

definition write_string :: "string \<Rightarrow> string" where
  "write_string text = CHR 0x22 # concat (map escape text) @ [CHR 0x22]"

lemma hex_digits_inject:
  assumes "HEX ! (byte c div 16) = HEX ! (byte d div 16)" and "HEX ! (byte c mod 16) = HEX ! (byte d mod 16)"
  shows "c = d"
proof -
  have div: "byte x div 16 < 16" for x :: char
    by (rule less_mult_imp_div_less) (use byte_less [of x] in simp)
  from assms(1) have "byte c div 16 = byte d div 16" by (metis div nibble_HEX option.inject)
  moreover from assms(2) have "byte c mod 16 = byte d mod 16"
    by (metis mod_less_divisor nibble_HEX option.inject zero_less_numeral)
  ultimately have "byte c = byte d" by (metis div_mult_mod_eq)
  then show ?thesis by simp
qed

text \<open>The character a two-byte escape stands for.\<close>

definition unescape :: "char \<Rightarrow> char" where
  "unescape e =
     (if e = CHR ''b'' then CHR 0x08 else if e = CHR ''f'' then CHR 0x0C else if e = CHR ''n'' then CHR 0x0A
      else if e = CHR ''r'' then CHR 0x0D else if e = CHR ''t'' then CHR 0x09 else e)"

lemma escape_forms:
  obtains (plain) "escape c = [c]" "c \<noteq> CHR 0x5C" "c \<noteq> CHR 0x22"
  | (short) e where "escape c = [CHR 0x5C, e]" "e \<noteq> CHR ''u''" "unescape e = c"
  | (control) "escape c =
      [CHR 0x5C, CHR ''u'', CHR ''0'', CHR ''0'', HEX ! (byte c div 16), HEX ! (byte c mod 16)]"
proof -
  let ?S = "{CHR 0x22, CHR 0x5C, CHR 0x08, CHR 0x0C, CHR 0x0A, CHR 0x0D, CHR 0x09}"
  show ?thesis
  proof (cases "c \<in> ?S")
    case True
    then have "\<exists>e. escape c = [CHR 0x5C, e] \<and> e \<noteq> CHR ''u'' \<and> unescape e = c"
      by (elim insertE emptyE; simp add: escape_def unescape_def)
    then show ?thesis using short by blast
  next
    case False
    then show ?thesis using plain control by (cases "byte c < 0x20") (simp_all add: escape_def)
  qed
qed

lemma escape_inject:
  assumes "escape c @ r = escape d @ s"
  shows "c = d \<and> r = s"
proof (cases rule: escape_forms [of c])
  case plain
  then show ?thesis using assms by (cases rule: escape_forms [of d]) auto
next
  case (short e)
  then show ?thesis using assms by (cases rule: escape_forms [of d]) auto
next
  case control
  then show ?thesis using assms hex_digits_inject [of c d] by (cases rule: escape_forms [of d]) auto
qed

lemma escape_head: "\<exists>e t. escape c = e # t \<and> e \<noteq> CHR 0x22"
  by (cases rule: escape_forms [of c]) auto

lemma write_string_inject:
  "write_string k @ r = write_string l @ s \<Longrightarrow> k = l \<and> r = s"
proof (induction k arbitrary: l)
  case Nil
  show ?case
  proof (cases l)
    case (Cons d l')
    then show ?thesis using Nil escape_head [of d] by (auto simp: write_string_def)
  qed (use Nil in \<open>simp add: write_string_def\<close>)
next
  case (Cons c k)
  show ?case
  proof (cases l)
    case Nil
    then show ?thesis using Cons.prems escape_head [of c] by (auto simp: write_string_def)
  next
    case (Cons d l')
    then have eq: "escape c @ (concat (map escape k) @ [CHR 0x22]) @ r =
        escape d @ (concat (map escape l') @ [CHR 0x22]) @ s"
      using Cons.prems by (simp add: write_string_def)
    from escape_inject [OF eq] have "c = d" and "write_string k @ r = write_string l' @ s"
      by (auto simp: write_string_def)
    with Cons.IH Cons show ?thesis by blast
  qed
qed

section \<open>The writer\<close>

text \<open>The loops over the items of an array and the members of an object: results in order, with a comma
  before all but the first, up to the first error.\<close>

fun separated :: "(canonical_error + string) list \<Rightarrow> canonical_error + string" where
  "separated [] = Inr []"
| "separated (r # rs) =
     (case r of Inl e \<Rightarrow> Inl e
      | Inr s \<Rightarrow> (case separated rs of Inl e \<Rightarrow> Inl e
         | Inr t \<Rightarrow> Inr (if rs = [] then s else s @ CHR '','' # t)))"

definition bracketed :: "char \<Rightarrow> char \<Rightarrow> canonical_error + string \<Rightarrow> canonical_error + string" where
  "bracketed opening closing r = map_sum id (\<lambda>s. opening # s @ [closing]) r"

definition write_number ::
  "('n \<Rightarrow> 64 word option) \<Rightarrow> ('n \<Rightarrow> 64 word option) \<Rightarrow> 'n \<Rightarrow> canonical_error + string" where
  "write_number as_i64 as_u64 number =
     (case as_i64 number of
        Some integer \<Rightarrow> Inr (int_to_string (sint integer))
      | None \<Rightarrow> (case as_u64 number of
          Some integer \<Rightarrow> Inr (int_to_string (uint integer))
        | None \<Rightarrow> Inl NonIntegerNumber))"

text \<open>What \<open>write_value\<close> appends to its output. The members are written in the order of their keys, so
  sorting the written members by key visits them as the loop over the sorted keys does.\<close>

function write_value ::
  "('n \<Rightarrow> 64 word option) \<Rightarrow> ('n \<Rightarrow> 64 word option) \<Rightarrow> 'n json_value \<Rightarrow> nat \<Rightarrow> canonical_error + string" where
  "write_value as_i64 as_u64 value depth =
     (if depth > MAX_CANONICAL_DEPTH then Inl CanonicalTooDeep
      else (case value of
        JNull \<Rightarrow> Inr ''null''
      | JBool b \<Rightarrow> Inr (if b then ''true'' else ''false'')
      | JNumber number \<Rightarrow> write_number as_i64 as_u64 number
      | JString text \<Rightarrow> Inr (write_string text)
      | JArray items \<Rightarrow>
          bracketed CHR ''['' CHR '']''
            (separated (map (\<lambda>item. write_value as_i64 as_u64 item (depth + 1)) items))
      | JObject members \<Rightarrow>
          bracketed CHR ''{'' CHR ''}''
            (separated (map snd (sort_key fst (map (\<lambda>m. (fst m,
               map_sum id (\<lambda>s. write_string (fst m) @ CHR '':'' # s)
                 (write_value as_i64 as_u64 (snd m) (depth + 1)))) members))))))"
  by pat_completeness auto
termination
proof (relation "measure (\<lambda>(_, _, v, _). size v)", goal_cases)
  case (2 as_i64 as_u64 v d items x)
  then show ?case by (auto dest: size_list_estimation' [of _ _ "size x" size])
next
  case (3 as_i64 as_u64 v d members m)
  then show ?case
    using size_list_estimation' [of m members "size (snd m)" "size_prod (\<lambda>_. 0) size"]
    by (cases m) auto
qed simp

declare write_value.simps [simp del]

definition canonical_bytes ::
  "('n \<Rightarrow> 64 word option) \<Rightarrow> ('n \<Rightarrow> 64 word option) \<Rightarrow> 'n json_value \<Rightarrow> canonical_error + string" where
  "canonical_bytes as_i64 as_u64 value = write_value as_i64 as_u64 value 0"

definition to_canonical_bytes ::
  "('n \<Rightarrow> 64 word option) \<Rightarrow> ('n \<Rightarrow> 64 word option) \<Rightarrow> ('a \<Rightarrow> 'n json_value option) \<Rightarrow> 'a \<Rightarrow>
   canonical_error + string" where
  "to_canonical_bytes as_i64 as_u64 to_value value =
     (case to_value value of None \<Rightarrow> Inl Unserializable
      | Some v \<Rightarrow> canonical_bytes as_i64 as_u64 v)"

definition canonical_digest ::
  "('n \<Rightarrow> 64 word option) \<Rightarrow> ('n \<Rightarrow> 64 word option) \<Rightarrow> ('a \<Rightarrow> 'n json_value option) \<Rightarrow>
   (string \<Rightarrow> digest) \<Rightarrow> string \<Rightarrow> 'a \<Rightarrow> canonical_error + digest" where
  "canonical_digest as_i64 as_u64 to_value sha256 domain value =
     (case to_canonical_bytes as_i64 as_u64 to_value value of Inl e \<Rightarrow> Inl e
      | Inr bytes \<Rightarrow> Inr (hash_fields sha256 domain [CANONICAL_JSON_VERSION, bytes]))"

section \<open>The value the bytes stand for\<close>

text \<open>A JSON value up to the order of members and the representation of numbers: members sorted by key, a
  number by the integer it holds, if any.\<close>

definition number_value ::
  "('n \<Rightarrow> 64 word option) \<Rightarrow> ('n \<Rightarrow> 64 word option) \<Rightarrow> 'n \<Rightarrow> int option" where
  "number_value as_i64 as_u64 n =
     (case as_i64 n of Some i \<Rightarrow> Some (sint i) | None \<Rightarrow> map_option uint (as_u64 n))"

primrec json_norm :: "('n \<Rightarrow> 'm) \<Rightarrow> 'n json_value \<Rightarrow> 'm json_value" where
  "json_norm f JNull = JNull"
| "json_norm f (JBool b) = JBool b"
| "json_norm f (JNumber n) = JNumber (f n)"
| "json_norm f (JString s) = JString s"
| "json_norm f (JArray xs) = JArray (map (json_norm f) xs)"
| "json_norm f (JObject ms) = JObject (sort_key fst (map (map_prod id (json_norm f)) ms))"

primrec json_height :: "'n json_value \<Rightarrow> nat" where
  "json_height JNull = 0"
| "json_height (JBool b) = 0"
| "json_height (JNumber n) = 0"
| "json_height (JString s) = 0"
| "json_height (JArray xs) = foldr (\<lambda>h. max (Suc h)) (map json_height xs) 0"
| "json_height (JObject ms) = foldr (\<lambda>h. max (Suc h)) (map snd (map (map_prod id json_height) ms)) 0"

fun commas :: "string list \<Rightarrow> string" where
  "commas [] = []"
| "commas (s # ss) = s @ concat (map (\<lambda>t. CHR '','' # t) ss)"

definition member_text :: "string \<times> string \<Rightarrow> string" where
  "member_text m = write_string (fst m) @ CHR '':'' # snd m"

primrec json_text :: "int option json_value \<Rightarrow> string" where
  "json_text JNull = ''null''"
| "json_text (JBool b) = (if b then ''true'' else ''false'')"
| "json_text (JNumber n) = (case n of None \<Rightarrow> [] | Some i \<Rightarrow> int_to_string i)"
| "json_text (JString s) = write_string s"
| "json_text (JArray xs) = CHR ''['' # commas (map json_text xs) @ [CHR '']'']"
| "json_text (JObject ms) =
     CHR ''{'' # commas (map member_text (map (map_prod id json_text) ms)) @ [CHR ''}'']"

lemma height_le_iff: "d + foldr (\<lambda>h. max (Suc h)) hs 0 \<le> m \<longleftrightarrow> d \<le> m \<and> (\<forall>h \<in> set hs. Suc d + h \<le> m)"
  by (induction hs) (auto simp: max_def)

lemma set_json_object: "set_json_value (JObject ms) = (\<Union>m \<in> set ms. set_json_value (snd m))"
  by (force simp: prod_set_simps)

lemma object_fits:
  "d + json_height (JObject ms) \<le> k \<longleftrightarrow> d \<le> k \<and> (\<forall>m \<in> set ms. Suc d + json_height (snd m) \<le> k)"
  by (auto simp: height_le_iff)

lemma array_fits:
  "d + json_height (JArray xs) \<le> k \<longleftrightarrow> d \<le> k \<and> (\<forall>x \<in> set xs. Suc d + json_height x \<le> k)"
  by (auto simp: height_le_iff)

lemma separated_map_Inr:
  "separated (map F xs) = Inr s \<Longrightarrow> (\<forall>x \<in> set xs. \<exists>t. F x = Inr t) \<and> s = commas (map (projr \<circ> F) xs)"
proof (induction xs arbitrary: s)
  case (Cons x xs)
  then show ?case by (cases xs) (auto split: sum.splits)
qed simp

lemma separated_Inl: "separated rs = Inl e \<Longrightarrow> Inl e \<in> set rs"
  by (induction rs) (auto split: sum.splits if_splits)

lemma write_number_value:
  "write_number i u n = (case number_value i u n of None \<Rightarrow> Inl NonIntegerNumber | Some k \<Rightarrow> Inr (int_to_string k))"
  by (simp add: write_number_def number_value_def split: option.splits)

lemma write_object_sorted:
  "map snd (sort_key fst (map (\<lambda>m. (fst m, F m)) ms)) = map F (sort_key fst ms)"
  by (simp add: sort_key_map comp_def)

lemma json_norm_object:
  "json_norm f (JObject ms) = JObject (map (map_prod id (json_norm f)) (sort_key fst ms))"
  by (simp add: sort_key_map)

lemma write_value_Inr:
  assumes "write_value i u v d = Inr b"
  shows "b = json_text (json_norm (number_value i u) v) \<and> d + json_height v \<le> MAX_CANONICAL_DEPTH
    \<and> None \<notin> number_value i u ` set_json_value v"
  using assms
proof (induction i u v d arbitrary: b rule: write_value.induct)
  case (1 i u v d)
  have d: "d \<le> MAX_CANONICAL_DEPTH"
    using "1.prems" by (auto simp: write_value.simps [of i u v d] split: if_splits)
  show ?case
  proof (cases v)
    case (JArray xs)
    let ?W = "\<lambda>x. write_value i u x (d + 1)"
    from "1.prems" d JArray obtain s where s: "separated (map ?W xs) = Inr s" and b: "b = CHR ''['' # s @ [CHR '']'']"
      by (cases "separated (map ?W xs)") (auto simp: write_value.simps [of i u "JArray xs" d] bracketed_def)
    note sep = separated_map_Inr [OF s]
    have IH: "projr (?W x) = json_text (json_norm (number_value i u) x) \<and> Suc d + json_height x \<le> MAX_CANONICAL_DEPTH
        \<and> None \<notin> number_value i u ` set_json_value x" if "x \<in> set xs" for x
      using "1.IH"(1) [OF _ JArray that] sep that d by fastforce
    then show ?thesis using sep b JArray d by (auto simp: height_le_iff cong: map_cong)
  next
    case (JObject ms)
    let ?W = "\<lambda>m. write_value i u (snd m) (d + 1)"
    let ?M = "\<lambda>m. map_sum id (\<lambda>s. write_string (fst m) @ CHR '':'' # s) (?W m)"
    from "1.prems" d JObject obtain s where s: "separated (map ?M (sort_key fst ms)) = Inr s"
      and b: "b = CHR ''{'' # s @ [CHR ''}'']"
      by (cases "separated (map ?M (sort_key fst ms))")
        (auto simp: write_value.simps [of i u "JObject ms" d] bracketed_def write_object_sorted)
    note sep = separated_map_Inr [OF s]
    have W: "\<exists>t. ?W m = Inr t" if "m \<in> set ms" for m
      using sep that by (cases "?W m") auto
    have IH: "projr (?M m) = member_text (map_prod id json_text (map_prod id (json_norm (number_value i u)) m))
        \<and> Suc d + json_height (snd m) \<le> MAX_CANONICAL_DEPTH
        \<and> None \<notin> number_value i u ` set_json_value (snd m)" if "m \<in> set ms" for m
      using "1.IH"(2) [OF _ JObject that] W [OF that] d by (cases m) (fastforce simp: member_text_def)
    have "map (projr \<circ> ?M) (sort_key fst ms) = map member_text (map (map_prod id json_text)
        (map (map_prod id (json_norm (number_value i u))) (sort_key fst ms)))"
      unfolding map_map by (rule map_cong) (use IH in auto)
    with sep have "s = commas (map member_text (map (map_prod id json_text)
        (map (map_prod id (json_norm (number_value i u))) (sort_key fst ms))))"
      by (elim conjE) (simp only:)
    then show ?thesis using IH b d
      unfolding JObject json_norm_object set_json_object object_fits by auto
  qed (use "1.prems" d in \<open>auto simp: write_value.simps [of i u _ d] write_number_value split: option.splits\<close>)
qed

lemma write_value_Inl:
  assumes "write_value i u v d = Inl e"
  shows "e = CanonicalTooDeep \<and> d + json_height v > MAX_CANONICAL_DEPTH
    \<or> e = NonIntegerNumber \<and> None \<in> number_value i u ` set_json_value v"
  using assms
proof (induction i u v d rule: write_value.induct)
  case (1 i u v d)
  show ?case
  proof (cases "d > MAX_CANONICAL_DEPTH")
    case True
    with "1.prems" show ?thesis by (simp add: write_value.simps [of i u v d])
  next
    case d: False
    show ?thesis
    proof (cases v)
      case (JArray xs)
      then obtain x where x: "x \<in> set xs" "write_value i u x (d + 1) = Inl e"
        using "1.prems" d by (auto simp: write_value.simps [of i u "JArray xs" d] bracketed_def map_sum_def
            split: sum.splits dest!: separated_Inl)
      from "1.IH"(1) [OF d JArray this] x d show ?thesis
        unfolding JArray linorder_not_le [symmetric] array_fits by auto
    next
      case (JObject ms)
      then obtain m where m: "m \<in> set ms" "write_value i u (snd m) (d + 1) = Inl e"
        using "1.prems" d by (auto simp: write_value.simps [of i u "JObject ms" d] bracketed_def map_sum_def write_object_sorted
            split: sum.splits dest!: separated_Inl)
      from "1.IH"(2) [OF d JObject this] m d show ?thesis
        unfolding JObject set_json_object linorder_not_le [symmetric] object_fits by auto
    qed (use "1.prems" d in \<open>auto simp: write_value.simps [of i u _ d] write_number_value split: option.splits if_splits\<close>)
  qed
qed

section \<open>The bytes determine the value\<close>

lemma digit_free_Cons: "digit_free (c # s) \<longleftrightarrow> \<not> is_ascii_digit c"
  by (simp add: digit_free_def)

text \<open>The first byte tells the kind of the value, and closes no list.\<close>

fun json_tag :: "'n json_value \<Rightarrow> nat" where
  "json_tag JNull = 0"
| "json_tag (JBool b) = 1"
| "json_tag (JNumber n) = 2"
| "json_tag (JString s) = 3"
| "json_tag (JArray xs) = 4"
| "json_tag (JObject ms) = 5"

definition head_tag :: "char \<Rightarrow> nat" where
  "head_tag c =
     (if c = CHR ''n'' then 0 else if c = CHR ''t'' \<or> c = CHR ''f'' then 1
      else if is_ascii_digit c \<or> c = CHR ''-'' then 2 else if c = CHR 0x22 then 3
      else if c = CHR ''['' then 4 else if c = CHR ''{'' then 5 else 6)"

lemma json_text_tag:
  assumes "None \<notin> set_json_value v"
  shows "\<exists>c t. json_text v = c # t \<and> head_tag c = json_tag v"
proof (cases v)
  case (JNumber n)
  then obtain i where "n = Some i" using assms by (cases n) auto
  moreover obtain c t where "int_to_string i = c # t" "is_ascii_digit c \<or> c = CHR ''-''"
    using int_to_string_head [of i] by blast
  moreover have "head_tag c = 2" using calculation(3) by (elim disjE) (auto simp: head_tag_def is_ascii_digit_def)
  ultimately show ?thesis using JNumber by simp
qed (simp_all add: write_string_def head_tag_def is_ascii_digit_def)

lemma json_text_head:
  assumes "None \<notin> set_json_value v"
  shows "\<exists>c t. json_text v = c # t \<and> c \<notin> {CHR '']'', CHR ''}'', CHR '',''}"
proof -
  obtain c t where "json_text v = c # t" "head_tag c = json_tag v" using json_text_tag [OF assms] by blast
  moreover have "json_tag v \<noteq> 6" by (cases v) auto
  moreover have "head_tag (CHR '']'') = 6" "head_tag (CHR ''}'') = 6" "head_tag (CHR '','') = 6"
    by (simp_all add: head_tag_def is_ascii_digit_def)
  ultimately show ?thesis by auto
qed

lemma json_text_same_tag:
  assumes "json_text v @ r = json_text w @ s" and "None \<notin> set_json_value v" and "None \<notin> set_json_value w"
  shows "json_tag v = json_tag w"
  using json_text_tag [OF assms(2)] json_text_tag [OF assms(3)] assms(1) by auto

text \<open>Comma-separated lists of texts that each determine their value and their end.\<close>

lemma comma_tail_inject:
  assumes "\<And>x y r s. x \<in> set xs \<Longrightarrow> y \<in> set ys \<Longrightarrow> f x @ r = f y @ s \<Longrightarrow> digit_free r \<Longrightarrow> digit_free s
      \<Longrightarrow> x = y \<and> r = s"
    and "concat (map (\<lambda>t. CHR '','' # f t) xs) @ c # r = concat (map (\<lambda>t. CHR '','' # f t) ys) @ c # s"
    and "c \<noteq> CHR '',''" and "\<not> is_ascii_digit c"
  shows "xs = ys \<and> r = s"
  using assms(1,2)
proof (induction xs arbitrary: ys)
  case Nil
  then show ?case using assms(3) by (cases ys) auto
next
  case (Cons x xs)
  obtain y ys' where ys: "ys = y # ys'" using Cons.prems(2) assms(3) by (cases ys) auto
  have free: "digit_free (concat (map (\<lambda>t. CHR '','' # f t) zs) @ c # q)" for zs q
    using assms(4) by (cases zs) (auto simp: digit_free_def is_ascii_digit_def)
  have "x = y \<and> concat (map (\<lambda>t. CHR '','' # f t) xs) @ c # r = concat (map (\<lambda>t. CHR '','' # f t) ys') @ c # s"
    using Cons.prems ys free by (intro Cons.prems(1)) auto
  then show ?case using Cons.IH [of ys'] Cons.prems(1) ys by auto
qed

lemma commas_inject:
  assumes inj: "\<And>x y r s. x \<in> set xs \<Longrightarrow> y \<in> set ys \<Longrightarrow> f x @ r = f y @ s \<Longrightarrow> digit_free r \<Longrightarrow> digit_free s
      \<Longrightarrow> x = y \<and> r = s"
    and head: "\<And>x. x \<in> set xs \<union> set ys \<Longrightarrow> \<exists>a t. f x = a # t \<and> a \<noteq> c"
    and eq: "commas (map f xs) @ c # r = commas (map f ys) @ c # s"
    and c: "c \<noteq> CHR '',''" "\<not> is_ascii_digit c"
  shows "xs = ys \<and> r = s"
proof (cases xs)
  case Nil
  then show ?thesis using eq head by (cases ys) fastforce+
next
  case (Cons x xs')
  show ?thesis
  proof (cases ys)
    case Nil
    then show ?thesis using Cons eq head [of x] by auto
  next
    case ys: (Cons y ys')
    have free: "digit_free (concat (map (\<lambda>t. CHR '','' # f t) zs) @ c # q)" for zs q
      using c by (cases zs) (auto simp: digit_free_def is_ascii_digit_def)
    have "x = y \<and> concat (map (\<lambda>t. CHR '','' # f t) xs') @ c # r = concat (map (\<lambda>t. CHR '','' # f t) ys') @ c # s"
      using eq Cons ys free by (intro inj) (auto simp: comp_def)
    then show ?thesis using comma_tail_inject [of xs' ys' f c r s] inj c Cons ys by auto
  qed
qed

lemma json_text_inject:
  assumes "json_text v @ r = json_text w @ s"
    and "None \<notin> set_json_value v" and "None \<notin> set_json_value w" and "digit_free r" and "digit_free s"
  shows "v = w \<and> r = s"
  using assms
proof (induction v arbitrary: w r s)
  case JNull
  then show ?case using json_text_same_tag [OF JNull.prems(1-3)] by (cases w) auto
next
  case (JBool b)
  then show ?case using json_text_same_tag [OF JBool.prems(1-3)] by (cases w) (auto split: if_splits)
next
  case (JNumber n)
  obtain m where w: "w = JNumber m" using json_text_same_tag [OF JNumber.prems(1-3)] by (cases w) auto
  obtain i j where "n = Some i" "m = Some j" using JNumber.prems(2,3) w by (cases n; cases m) auto
  then show ?case using JNumber.prems w int_to_string_inject [of i r j s] by simp
next
  case (JString k)
  obtain l where "w = JString l" using json_text_same_tag [OF JString.prems(1-3)] by (cases w) auto
  then show ?case using JString.prems write_string_inject [of k r l s] by simp
next
  case (JArray xs)
  obtain ys where w: "w = JArray ys" using json_text_same_tag [OF JArray.prems(1-3)] by (cases w) auto
  have "commas (map json_text xs) @ CHR '']'' # r = commas (map json_text ys) @ CHR '']'' # s"
    using JArray.prems(1) w by simp
  moreover have "\<exists>a t. json_text x = a # t \<and> a \<noteq> CHR '']''" if "x \<in> set xs \<union> set ys" for x
    using json_text_head [of x] that JArray.prems w by auto
  moreover have "x = y \<and> p = q" if "x \<in> set xs" "y \<in> set ys" "json_text x @ p = json_text y @ q"
    "digit_free p" "digit_free q" for x y p q
    using JArray.IH [OF that(1,3)] that JArray.prems w by auto
  ultimately show ?case
    using commas_inject [of xs ys json_text "CHR '']''" r s] w by (auto simp: is_ascii_digit_def)
next
  case (JObject ms)
  let ?f = "\<lambda>m. member_text (map_prod id json_text m)"
  obtain ns where w: "w = JObject ns" using json_text_same_tag [OF JObject.prems(1-3)] by (cases w) auto
  have "commas (map ?f ms) @ CHR ''}'' # r = commas (map ?f ns) @ CHR ''}'' # s"
    using JObject.prems(1) w by (simp add: comp_def)
  moreover have "\<exists>a t. ?f m = a # t \<and> a \<noteq> CHR ''}''" for m
    by (simp add: member_text_def write_string_def)
  moreover have "m = n \<and> p = q" if m: "m \<in> set ms" "n \<in> set ns" and eq: "?f m @ p = ?f n @ q"
    and free: "digit_free p" "digit_free q" for m n p q
  proof -
    have key: "fst m = fst n \<and> CHR '':'' # json_text (snd m) @ p = CHR '':'' # json_text (snd n) @ q"
      using write_string_inject [of "fst m" "CHR '':'' # json_text (snd m) @ p" "fst n"
          "CHR '':'' # json_text (snd n) @ q"] eq by (simp add: member_text_def)
    have "None \<notin> set_json_value (snd m)" "None \<notin> set_json_value (snd n)"
      using JObject.prems(2,3) m unfolding w set_json_object by auto
    then have "snd m = snd n \<and> p = q"
      using JObject.IH [of m "snd m" p "snd n" q] key m free by (simp add: snds.intros)
    with key show ?thesis by (simp add: prod_eq_iff)
  qed
  ultimately show ?case
    using commas_inject [of ms ns ?f "CHR ''}''" r s] w by (auto simp: is_ascii_digit_def)
qed

section \<open>Identities\<close>

lemma canonical_bytes_Inr:
  "canonical_bytes i u v = Inr b \<Longrightarrow>
   b = json_text (json_norm (number_value i u) v) \<and> json_height v \<le> MAX_CANONICAL_DEPTH
   \<and> None \<notin> number_value i u ` set_json_value v"
  unfolding canonical_bytes_def by (drule write_value_Inr) simp

lemma set_json_norm: "set_json_value (json_norm f v) = f ` set_json_value v"
proof (induction v)
  case (JObject ms)
  have "set_json_value (json_norm f (snd m)) = f ` set_json_value (snd m)" if "m \<in> set ms" for m
    using JObject.IH [OF that, of "snd m"] by (simp add: snds.intros)
  then show ?case unfolding json_norm_object set_json_object by auto
qed auto

text \<open>C31. Canonical bytes identify values: two values that have canonical bytes have the same bytes
  exactly when they are the same JSON value, up to the order of members and the representation of
  integers, and the preimages of \<open>canonical_digest\<close> agree only for the same domain and the same value.\<close>

theorem canonical_bytes_identify:
  assumes "canonical_bytes i u v = Inr b" and "canonical_bytes i u w = Inr c"
  shows "(b = c \<longleftrightarrow> json_norm (number_value i u) v = json_norm (number_value i u) w)
    \<and> (CHR 0x00 \<notin> set d \<union> set e \<longrightarrow> length b < 2 ^ 64 \<longrightarrow> length c < 2 ^ 64 \<longrightarrow>
      hash_preimage d [CANONICAL_JSON_VERSION, b] = hash_preimage e [CANONICAL_JSON_VERSION, c] \<longrightarrow>
      d = e \<and> json_norm (number_value i u) v = json_norm (number_value i u) w)"
proof -
  note v = canonical_bytes_Inr [OF assms(1)] and w = canonical_bytes_Inr [OF assms(2)]
  have iff: "b = c \<longleftrightarrow> json_norm (number_value i u) v = json_norm (number_value i u) w"
    using json_text_inject [of "json_norm (number_value i u) v" "[]" "json_norm (number_value i u) w" "[]"]
      v w by (auto simp: set_json_norm digit_free_def)
  have version: "length CANONICAL_JSON_VERSION < 2 ^ 64" by (simp add: CANONICAL_JSON_VERSION_def)
  show ?thesis
    using hash_preimage_inject [of d "[CANONICAL_JSON_VERSION, b]" e "[CANONICAL_JSON_VERSION, c]"]
      version iff by auto
qed

lemma witness_bytes_object:
  "canonical_bytes Some Some (JObject [(''b'', JNumber (- 1)), (''a'', JArray [JString [CHR 0x0A], JNull])]) =
   Inr (''{'' @ [CHR 0x22] @ ''a'' @ [CHR 0x22] @ '':['' @ [CHR 0x22, CHR 0x5C, CHR ''n'', CHR 0x22] @ '',null],''
     @ [CHR 0x22] @ ''b'' @ [CHR 0x22] @ '':-1}'')"
  "canonical_bytes Some Some (JObject [(''a'', JArray [JString [CHR 0x0A], JNull]), (''b'', JNumber (- 1))]) =
   Inr (''{'' @ [CHR 0x22] @ ''a'' @ [CHR 0x22] @ '':['' @ [CHR 0x22, CHR 0x5C, CHR ''n'', CHR 0x22] @ '',null],''
     @ [CHR 0x22] @ ''b'' @ [CHR 0x22] @ '':-1}'')"
  by code_simp+

theorem canonical_bytes_identify_witness:
  "json_norm (number_value Some Some)
     (JObject [(''b'', JNumber (- 1)), (''a'', JArray [JString [CHR 0x0A], JNull])]) =
   json_norm (number_value Some Some)
     (JObject [(''a'', JArray [JString [CHR 0x0A], JNull]), (''b'', JNumber (- 1))])"
  using canonical_bytes_identify [OF witness_bytes_object] by simp

text \<open>C32. A value has canonical bytes exactly when it nests at most 32 levels deep and all its numbers are
  integers of 64 bits; otherwise the error names a defect the value has.\<close>

theorem canonical_bytes_total:
  "((\<exists>b. canonical_bytes i u v = Inr b) \<longleftrightarrow>
      json_height v \<le> MAX_CANONICAL_DEPTH \<and> None \<notin> number_value i u ` set_json_value v)
   \<and> (canonical_bytes i u v = Inl e \<longrightarrow>
      e = CanonicalTooDeep \<and> json_height v > MAX_CANONICAL_DEPTH
      \<or> e = NonIntegerNumber \<and> None \<in> number_value i u ` set_json_value v)"
proof -
  have Inl: "canonical_bytes i u v = Inl e \<Longrightarrow>
      e = CanonicalTooDeep \<and> json_height v > MAX_CANONICAL_DEPTH
      \<or> e = NonIntegerNumber \<and> None \<in> number_value i u ` set_json_value v" for e
    unfolding canonical_bytes_def by (drule write_value_Inl) simp
  show ?thesis
    using Inl canonical_bytes_Inr [of i u v] by (cases "canonical_bytes i u v") (auto simp: not_le [symmetric])
qed

theorem canonical_bytes_total_witness:
  "\<exists>b. canonical_bytes Some Some (JArray [JNumber 7, JBool True]) = Inr b"
  using canonical_bytes_total [of Some Some "JArray [JNumber 7, JBool True]"]
  by (simp add: MAX_CANONICAL_DEPTH_def number_value_def)

end
