(* ===== verification/Plugin_Protocol.thy ===== *)
theory Plugin_Protocol
  imports Digests
begin

text \<open>
  The plugin protocol, \<open>crates/vibemux_plugin_protocol/src\<close>: messages (\<open>proto/vibemux_plugin_v1.proto\<close>) and
  their validation (\<open>wire.rs\<close>), the manifest (\<open>manifest.rs\<close>), negotiation (\<open>negotiation.rs\<close>) and the
  bounds of terminal inventories (\<open>terminal.rs\<close>). \<open>semver::Version::parse\<close> succeeding is the parameter
  \<open>version_ok\<close>; TOML parsing of a manifest is the parameter of \<open>manifest_from_toml\<close>.

  The lemmas show that a negotiated session grants exactly what the plugin asked for, its manifest
  declares and the core allows, and that the reply the core sends passes the core's own validation.
\<close>

section \<open>Errors, limits and messages\<close>

datatype plugin_error =
    PeInvalidFrameLimit | PeZeroFrame | PeFrameTooLarge | PeInvalidFrameLength | PeFrameIo
  | PeEncodeFailed | PeDecodeFailed | PeUnsupportedMajor | PeUnsupportedMinor | PeMissingBody
  | PeInvalidIdentifier | PeInvalidMessage | PeCollectionTooLarge | PeDuplicateIdentifier
  | PeInvalidManifest | PeManifestTooLarge | PeNegotiationRejected | PeInvalidTransition

fun plugin_error_code :: "plugin_error \<Rightarrow> string" where
  "plugin_error_code PeInvalidFrameLimit = ''plugin_invalid_frame_limit''"
| "plugin_error_code PeZeroFrame = ''plugin_zero_frame''"
| "plugin_error_code PeFrameTooLarge = ''plugin_frame_too_large''"
| "plugin_error_code PeInvalidFrameLength = ''plugin_invalid_frame_length''"
| "plugin_error_code PeFrameIo = ''plugin_frame_io''"
| "plugin_error_code PeEncodeFailed = ''plugin_encode_failed''"
| "plugin_error_code PeDecodeFailed = ''plugin_decode_failed''"
| "plugin_error_code PeUnsupportedMajor = ''plugin_unsupported_major''"
| "plugin_error_code PeUnsupportedMinor = ''plugin_unsupported_minor''"
| "plugin_error_code PeMissingBody = ''plugin_missing_body''"
| "plugin_error_code PeInvalidIdentifier = ''plugin_invalid_identifier''"
| "plugin_error_code PeInvalidMessage = ''plugin_invalid_message''"
| "plugin_error_code PeCollectionTooLarge = ''plugin_collection_too_large''"
| "plugin_error_code PeDuplicateIdentifier = ''plugin_duplicate_identifier''"
| "plugin_error_code PeInvalidManifest = ''plugin_invalid_manifest''"
| "plugin_error_code PeManifestTooLarge = ''plugin_manifest_too_large''"
| "plugin_error_code PeNegotiationRejected = ''plugin_negotiation_rejected''"
| "plugin_error_code PeInvalidTransition = ''plugin_invalid_transition''"

definition PROTOCOL_MAJOR :: u32 where "PROTOCOL_MAJOR = 1"
definition PROTOCOL_MINOR :: u32 where "PROTOCOL_MINOR = 0"
definition DEFAULT_MAX_PLUGIN_FRAME_BYTES :: nat where "DEFAULT_MAX_PLUGIN_FRAME_BYTES = 1024 * 1024"
definition HARD_MAX_PLUGIN_FRAME_BYTES :: nat where "HARD_MAX_PLUGIN_FRAME_BYTES = 16 * 1024 * 1024"
definition DEFAULT_MAXIMUM_IN_FLIGHT :: u32 where "DEFAULT_MAXIMUM_IN_FLIGHT = 32"
definition HARD_MAXIMUM_IN_FLIGHT :: u32 where "HARD_MAXIMUM_IN_FLIGHT = 4096"
definition DEFAULT_HEARTBEAT_INTERVAL_MS :: u64 where "DEFAULT_HEARTBEAT_INTERVAL_MS = 5000"
definition MINIMUM_HEARTBEAT_INTERVAL_MS :: u64 where "MINIMUM_HEARTBEAT_INTERVAL_MS = 100"
definition MAXIMUM_HEARTBEAT_INTERVAL_MS :: u64 where "MAXIMUM_HEARTBEAT_INTERVAL_MS = 300000"
definition PLUGIN_MAX_IDENTIFIER_BYTES :: nat where "PLUGIN_MAX_IDENTIFIER_BYTES = 128"
definition MAX_POLICY_IDENTIFIER_BYTES :: nat where "MAX_POLICY_IDENTIFIER_BYTES = 64"
definition MAX_IDENTIFIER_COLLECTION_ITEMS :: nat where "MAX_IDENTIFIER_COLLECTION_ITEMS = 64"

lemmas plugin_limits =
  PROTOCOL_MAJOR_def PROTOCOL_MINOR_def DEFAULT_MAX_PLUGIN_FRAME_BYTES_def HARD_MAX_PLUGIN_FRAME_BYTES_def
  DEFAULT_MAXIMUM_IN_FLIGHT_def HARD_MAXIMUM_IN_FLIGHT_def DEFAULT_HEARTBEAT_INTERVAL_MS_def
  MINIMUM_HEARTBEAT_INTERVAL_MS_def MAXIMUM_HEARTBEAT_INTERVAL_MS_def PLUGIN_MAX_IDENTIFIER_BYTES_def
  MAX_POLICY_IDENTIFIER_BYTES_def MAX_IDENTIFIER_COLLECTION_ITEMS_def

text \<open>Open Protobuf enumerations are their \<open>i32\<close> numbers; \<open>try_from\<close> knows the numbers of the schema.\<close>

datatype plugin_kind =
  KindUnspecified | KindHarness | KindTerminal | KindSandbox | KindIntegration | KindUi | KindReporter | KindPolicy

fun plugin_kind_number :: "plugin_kind \<Rightarrow> u32" where
  "plugin_kind_number KindUnspecified = 0"
| "plugin_kind_number KindHarness = 1"
| "plugin_kind_number KindTerminal = 2"
| "plugin_kind_number KindSandbox = 3"
| "plugin_kind_number KindIntegration = 4"
| "plugin_kind_number KindUi = 5"
| "plugin_kind_number KindReporter = 6"
| "plugin_kind_number KindPolicy = 7"

definition plugin_kind_try_from :: "u32 \<Rightarrow> plugin_kind option" where
  "plugin_kind_try_from n = find (\<lambda>k. plugin_kind_number k = n)
     [KindUnspecified, KindHarness, KindTerminal, KindSandbox, KindIntegration, KindUi, KindReporter, KindPolicy]"

datatype response_status = RsUnspecified | RsOk | RsError | RsCancelled | RsOverloaded

fun response_status_number :: "response_status \<Rightarrow> u32" where
  "response_status_number RsUnspecified = 0"
| "response_status_number RsOk = 1"
| "response_status_number RsError = 2"
| "response_status_number RsCancelled = 3"
| "response_status_number RsOverloaded = 4"

definition response_status_try_from :: "u32 \<Rightarrow> response_status option" where
  "response_status_try_from n = find (\<lambda>s. response_status_number s = n)
     [RsUnspecified, RsOk, RsError, RsCancelled, RsOverloaded]"

record hello =
  he_plugin_id :: string
  he_plugin_version :: string
  he_kind :: u32
  he_capabilities :: "string list"
  he_requested_permissions :: "string list"
  he_minimum_protocol_minor :: u32
  he_maximum_protocol_minor :: u32

record core_hello =
  ch_session_id :: string
  ch_accepted_protocol_minor :: u32
  ch_granted_capabilities :: "string list"
  ch_granted_permissions :: "string list"
  ch_maximum_frame_bytes :: u32
  ch_maximum_in_flight :: u32
  ch_heartbeat_interval_ms :: u64

record plugin_request =
  pr_request_id :: string
  pr_method :: string
  pr_payload :: string
  pr_deadline_unix_ms :: u64
  pr_idempotency_key :: "string option"

record plugin_response =
  ps_request_id :: string
  ps_status :: u32
  ps_payload :: string
  ps_error_code :: "string option"

record plugin_event =
  pe_event_id :: string
  pe_event_type :: string
  pe_payload :: string

record plugin_cancel =
  pc_request_id :: string
  pc_reason_code :: string

record protocol_error =
  px_code :: string
  px_related_message_id :: "string option"

text \<open>Messages with one field are that field: the session of \<open>Ready\<close>, the sequence of \<open>Heartbeat\<close>, the
  deadline of \<open>Drain\<close>, the reason of \<open>Shutdown\<close>.\<close>

datatype body =
    BHello hello | BCoreHello core_hello | BReady string | BRequest plugin_request
  | BResponse plugin_response | BEvent plugin_event | BHeartbeat u64 | BCancel plugin_cancel
  | BDrain u64 | BShutdown string | BProtocolError protocol_error

record envelope =
  ev_protocol_major :: u32
  ev_protocol_minor :: u32
  ev_message_id :: string
  ev_correlation_id :: "string option"
  ev_causation_id :: "string option"
  ev_body :: "body option"

section \<open>Validation of messages\<close>

definition validate_policy_identifier :: "string \<Rightarrow> plugin_error + unit" where
  "validate_policy_identifier identifier =
     (if identifier = [] \<or> length identifier > MAX_POLICY_IDENTIFIER_BYTES
         \<or> \<not> is_ascii_lowercase (identifier ! 0)
         \<or> \<not> list_all (\<lambda>b. is_ascii_lowercase b \<or> is_ascii_digit b \<or> b \<in> {CHR ''_'', CHR ''.'', CHR '':''}) identifier
      then Inl PeInvalidIdentifier else Inr ())"

definition validate_identifier :: "string \<Rightarrow> plugin_error + unit" where
  "validate_identifier identifier =
     (if identifier = [] \<or> length identifier > PLUGIN_MAX_IDENTIFIER_BYTES
         \<or> \<not> list_all (\<lambda>b. is_ascii_alphanumeric b \<or> b \<in> {CHR ''_'', CHR ''-'', CHR ''.'', CHR '':''}) identifier
      then Inl PeInvalidIdentifier else Inr ())"

definition validate_optional_identifier :: "string option \<Rightarrow> plugin_error + unit" where
  "validate_optional_identifier identifier =
     (case identifier of None \<Rightarrow> Inr () | Some i \<Rightarrow> validate_identifier i)"

fun policy_identifiers_loop :: "string list \<Rightarrow> string list \<Rightarrow> plugin_error + unit" where
  "policy_identifiers_loop unique [] = Inr ()"
| "policy_identifiers_loop unique (identifier # rest) =
     (case validate_policy_identifier identifier of Inl e \<Rightarrow> Inl e | Inr _ \<Rightarrow>
      if identifier \<in> set unique then Inl PeDuplicateIdentifier
      else policy_identifiers_loop (identifier # unique) rest)"

definition validate_policy_identifiers :: "string list \<Rightarrow> plugin_error + unit" where
  "validate_policy_identifiers identifiers =
     (if length identifiers > MAX_IDENTIFIER_COLLECTION_ITEMS then Inl PeCollectionTooLarge
      else policy_identifiers_loop [] identifiers)"

definition validate_hello :: "(string \<Rightarrow> bool) \<Rightarrow> hello \<Rightarrow> plugin_error + unit" where
  "validate_hello version_ok h =
     (case validate_policy_identifier (he_plugin_id h) of Inl e \<Rightarrow> Inl e | Inr _ \<Rightarrow>
      if \<not> version_ok (he_plugin_version h) then Inl PeInvalidMessage
      else if plugin_kind_try_from (he_kind h) \<in> {None, Some KindUnspecified}
        \<or> he_minimum_protocol_minor h > he_maximum_protocol_minor h then Inl PeInvalidMessage
      else (case validate_policy_identifiers (he_capabilities h) of Inl e \<Rightarrow> Inl e | Inr _ \<Rightarrow>
        validate_policy_identifiers (he_requested_permissions h)))"

definition validate_core_hello :: "core_hello \<Rightarrow> plugin_error + unit" where
  "validate_core_hello c =
     (case validate_identifier (ch_session_id c) of Inl e \<Rightarrow> Inl e | Inr _ \<Rightarrow>
      if ch_accepted_protocol_minor c > PROTOCOL_MINOR
         \<or> ch_maximum_frame_bytes c = 0
         \<or> unat (ch_maximum_frame_bytes c) > HARD_MAX_PLUGIN_FRAME_BYTES
         \<or> ch_maximum_in_flight c = 0
         \<or> ch_maximum_in_flight c > HARD_MAXIMUM_IN_FLIGHT
         \<or> \<not> (MINIMUM_HEARTBEAT_INTERVAL_MS \<le> ch_heartbeat_interval_ms c
              \<and> ch_heartbeat_interval_ms c \<le> MAXIMUM_HEARTBEAT_INTERVAL_MS)
      then Inl PeInvalidMessage
      else (case validate_policy_identifiers (ch_granted_capabilities c) of Inl e \<Rightarrow> Inl e | Inr _ \<Rightarrow>
        validate_policy_identifiers (ch_granted_permissions c)))"

definition validate_request :: "plugin_request \<Rightarrow> plugin_error + unit" where
  "validate_request r =
     (case validate_identifier (pr_request_id r) of Inl e \<Rightarrow> Inl e | Inr _ \<Rightarrow>
     (case validate_policy_identifier (pr_method r) of Inl e \<Rightarrow> Inl e | Inr _ \<Rightarrow>
     (case validate_optional_identifier (pr_idempotency_key r) of Inl e \<Rightarrow> Inl e | Inr _ \<Rightarrow>
      if pr_deadline_unix_ms r = 0 then Inl PeInvalidMessage else Inr ())))"

definition validate_response :: "plugin_response \<Rightarrow> plugin_error + unit" where
  "validate_response r =
     (case validate_identifier (ps_request_id r) of Inl e \<Rightarrow> Inl e | Inr _ \<Rightarrow>
     (case response_status_try_from (ps_status r) of None \<Rightarrow> Inl PeInvalidMessage | Some status \<Rightarrow>
      if status = RsUnspecified then Inl PeInvalidMessage
      else if status = RsError then
        (case ps_error_code r of None \<Rightarrow> Inl PeInvalidMessage | Some code \<Rightarrow> validate_policy_identifier code)
      else if ps_error_code r \<noteq> None then Inl PeInvalidMessage
      else Inr ()))"

fun validate_body :: "(string \<Rightarrow> bool) \<Rightarrow> body \<Rightarrow> plugin_error + unit" where
  "validate_body version_ok (BHello h) = validate_hello version_ok h"
| "validate_body version_ok (BCoreHello c) = validate_core_hello c"
| "validate_body version_ok (BReady session_id) = validate_identifier session_id"
| "validate_body version_ok (BRequest r) = validate_request r"
| "validate_body version_ok (BResponse r) = validate_response r"
| "validate_body version_ok (BEvent e) =
     (case validate_identifier (pe_event_id e) of Inl x \<Rightarrow> Inl x | Inr _ \<Rightarrow>
      validate_policy_identifier (pe_event_type e))"
| "validate_body version_ok (BHeartbeat sequence) = (if sequence = 0 then Inl PeInvalidMessage else Inr ())"
| "validate_body version_ok (BCancel c) =
     (case validate_identifier (pc_request_id c) of Inl x \<Rightarrow> Inl x | Inr _ \<Rightarrow>
      validate_policy_identifier (pc_reason_code c))"
| "validate_body version_ok (BDrain deadline) = (if deadline = 0 then Inl PeInvalidMessage else Inr ())"
| "validate_body version_ok (BShutdown reason) = validate_policy_identifier reason"
| "validate_body version_ok (BProtocolError e) =
     (case validate_policy_identifier (px_code e) of Inl x \<Rightarrow> Inl x | Inr _ \<Rightarrow>
      validate_optional_identifier (px_related_message_id e))"

definition validate_envelope :: "(string \<Rightarrow> bool) \<Rightarrow> envelope \<Rightarrow> plugin_error + unit" where
  "validate_envelope version_ok e =
     (if ev_protocol_major e \<noteq> PROTOCOL_MAJOR then Inl PeUnsupportedMajor
      else if ev_protocol_minor e > PROTOCOL_MINOR then Inl PeUnsupportedMinor
      else (case validate_identifier (ev_message_id e) of Inl x \<Rightarrow> Inl x | Inr _ \<Rightarrow>
           (case validate_optional_identifier (ev_correlation_id e) of Inl x \<Rightarrow> Inl x | Inr _ \<Rightarrow>
           (case validate_optional_identifier (ev_causation_id e) of Inl x \<Rightarrow> Inl x | Inr _ \<Rightarrow>
           (case ev_body e of None \<Rightarrow> Inl PeMissingBody | Some b \<Rightarrow> validate_body version_ok b)))))"

section \<open>Manifests\<close>

datatype manifest_plugin_kind = MkHarness | MkTerminal | MkSandbox | MkIntegration | MkUi | MkReporter | MkPolicy

fun manifest_kind_into :: "manifest_plugin_kind \<Rightarrow> plugin_kind" where
  "manifest_kind_into MkHarness = KindHarness"
| "manifest_kind_into MkTerminal = KindTerminal"
| "manifest_kind_into MkSandbox = KindSandbox"
| "manifest_kind_into MkIntegration = KindIntegration"
| "manifest_kind_into MkUi = KindUi"
| "manifest_kind_into MkReporter = KindReporter"
| "manifest_kind_into MkPolicy = KindPolicy"

datatype supported_platform = PlWindows | PlLinux | PlMacos

definition MANIFEST_SCHEMA_VERSION :: u32 where "MANIFEST_SCHEMA_VERSION = 1"
definition MAX_MANIFEST_BYTES :: nat where "MAX_MANIFEST_BYTES = 64 * 1024"
definition MAX_ENTRY_POINT_ARGUMENTS :: nat where "MAX_ENTRY_POINT_ARGUMENTS = 32"
definition MAX_ENTRY_POINT_ARGUMENT_BYTES :: nat where "MAX_ENTRY_POINT_ARGUMENT_BYTES = 4096"
definition MAX_ENTRY_POINT_TOTAL_BYTES :: nat where "MAX_ENTRY_POINT_TOTAL_BYTES = 16 * 1024"

record plugin_manifest =
  pm_schema_version :: u32
  pm_plugin_id :: string
  pm_plugin_version :: string
  pm_kind :: manifest_plugin_kind
  pm_entry_point :: "string list"
  pm_capabilities :: "string list"
  pm_requested_permissions :: "string list"
  pm_supported_platforms :: "supported_platform list"
  pm_protocol_major :: u32
  pm_minimum_protocol_minor :: u32
  pm_maximum_protocol_minor :: u32

definition shell_lowercase :: "char \<Rightarrow> char" where
  "shell_lowercase c = (if is_ascii_uppercase c then char_of (byte c + 32) else c)"

text \<open>The part after the last slash or backslash, in lower case.\<close>

definition shell_file_name :: "string \<Rightarrow> string" where
  "shell_file_name executable =
     map shell_lowercase (rev (takeWhile (\<lambda>c. c \<notin> {CHR ''/'', CHR 0x5C}) (rev executable)))"

definition is_forbidden_shell :: "string \<Rightarrow> bool" where
  "is_forbidden_shell executable \<longleftrightarrow> shell_file_name executable \<in>
     {''cmd'', ''cmd.exe'', ''powershell'', ''powershell.exe'', ''pwsh'', ''pwsh.exe'', ''sh'', ''bash'',
      ''dash'', ''zsh'', ''fish''}"

definition validate_entry_point :: "string list \<Rightarrow> plugin_error + unit" where
  "validate_entry_point entry_point =
     (if entry_point = [] \<or> length entry_point > MAX_ENTRY_POINT_ARGUMENTS then Inl PeInvalidManifest
      else if trim_is_empty (hd entry_point) \<or> is_forbidden_shell (hd entry_point) then Inl PeInvalidManifest
      else if list_ex (\<lambda>a. a = [] \<or> length a > MAX_ENTRY_POINT_ARGUMENT_BYTES \<or> CHR 0x00 \<in> set a) entry_point
      then Inl PeInvalidManifest
      else if sum_list (map length entry_point) > MAX_ENTRY_POINT_TOTAL_BYTES then Inl PeInvalidManifest
      else Inr ())"

definition as_invalid_manifest :: "plugin_error + unit \<Rightarrow> plugin_error + unit" where
  "as_invalid_manifest r = (case r of Inl _ \<Rightarrow> Inl PeInvalidManifest | Inr _ \<Rightarrow> Inr ())"

definition manifest_validate :: "(string \<Rightarrow> bool) \<Rightarrow> plugin_manifest \<Rightarrow> plugin_error + unit" where
  "manifest_validate version_ok m =
     (if pm_schema_version m \<noteq> MANIFEST_SCHEMA_VERSION \<or> pm_protocol_major m \<noteq> PROTOCOL_MAJOR
         \<or> pm_minimum_protocol_minor m > pm_maximum_protocol_minor m then Inl PeInvalidManifest
      else (case as_invalid_manifest (validate_policy_identifier (pm_plugin_id m)) of Inl e \<Rightarrow> Inl e | Inr _ \<Rightarrow>
      if \<not> version_ok (pm_plugin_version m) then Inl PeInvalidManifest
      else (case validate_entry_point (pm_entry_point m) of Inl e \<Rightarrow> Inl e | Inr _ \<Rightarrow>
           (case as_invalid_manifest (validate_policy_identifiers (pm_capabilities m)) of Inl e \<Rightarrow> Inl e | Inr _ \<Rightarrow>
           (case as_invalid_manifest (validate_policy_identifiers (pm_requested_permissions m)) of
              Inl e \<Rightarrow> Inl e | Inr _ \<Rightarrow>
            if pm_supported_platforms m = [] \<or> length (pm_supported_platforms m) > 8 then Inl PeInvalidManifest
            else if card (set (pm_supported_platforms m)) \<noteq> length (pm_supported_platforms m)
            then Inl PeInvalidManifest
            else Inr ())))))"

definition manifest_from_toml ::
  "(string \<Rightarrow> bool) \<Rightarrow> (string \<Rightarrow> plugin_manifest option) \<Rightarrow> string \<Rightarrow> plugin_error + plugin_manifest" where
  "manifest_from_toml version_ok from_str encoded =
     (if encoded = [] then Inl PeInvalidManifest
      else if length encoded > MAX_MANIFEST_BYTES then Inl PeManifestTooLarge
      else (case from_str encoded of None \<Rightarrow> Inl PeInvalidManifest | Some manifest \<Rightarrow>
           (case manifest_validate version_ok manifest of Inl e \<Rightarrow> Inl e | Inr _ \<Rightarrow> Inr manifest)))"

section \<open>Negotiation\<close>

record frame_codec_config = fc_maximum_frame_bytes :: nat

definition frame_codec_config_new :: "nat \<Rightarrow> plugin_error + frame_codec_config" where
  "frame_codec_config_new maximum_frame_bytes =
     (if maximum_frame_bytes = 0 \<or> maximum_frame_bytes > HARD_MAX_PLUGIN_FRAME_BYTES
      then Inl PeInvalidFrameLimit
      else Inr \<lparr>fc_maximum_frame_bytes = maximum_frame_bytes\<rparr>)"

definition frame_codec_config_default :: frame_codec_config where
  "frame_codec_config_default = \<lparr>fc_maximum_frame_bytes = DEFAULT_MAX_PLUGIN_FRAME_BYTES\<rparr>"

text \<open>The policy's \<open>BTreeSet\<close>s are their elements in order.\<close>

record core_plugin_policy =
  cp_allowed_capabilities :: "string list"
  cp_allowed_permissions :: "string list"
  cp_frame_config :: frame_codec_config
  cp_maximum_in_flight :: u32
  cp_heartbeat_interval_ms :: u64
  cp_platform :: supported_platform

definition core_plugin_policy_new ::
  "string list \<Rightarrow> string list \<Rightarrow> frame_codec_config \<Rightarrow> u32 \<Rightarrow> u64 \<Rightarrow> supported_platform \<Rightarrow>
   plugin_error + core_plugin_policy" where
  "core_plugin_policy_new allowed_capabilities allowed_permissions frame_config maximum_in_flight
     heartbeat_interval_ms platform =
     (case validate_policy_identifiers allowed_capabilities of Inl e \<Rightarrow> Inl e | Inr _ \<Rightarrow>
     (case validate_policy_identifiers allowed_permissions of Inl e \<Rightarrow> Inl e | Inr _ \<Rightarrow>
      if maximum_in_flight = 0 \<or> maximum_in_flight > HARD_MAXIMUM_IN_FLIGHT
         \<or> \<not> (MINIMUM_HEARTBEAT_INTERVAL_MS \<le> heartbeat_interval_ms
              \<and> heartbeat_interval_ms \<le> MAXIMUM_HEARTBEAT_INTERVAL_MS)
      then Inl PeNegotiationRejected
      else Inr \<lparr>cp_allowed_capabilities = sort_dedup allowed_capabilities,
                cp_allowed_permissions = sort_dedup allowed_permissions,
                cp_frame_config = frame_config, cp_maximum_in_flight = maximum_in_flight,
                cp_heartbeat_interval_ms = heartbeat_interval_ms, cp_platform = platform\<rparr>))"

text \<open>\<open>Default\<close>, with \<open>current_platform()\<close> as an argument.\<close>

definition core_plugin_policy_default :: "supported_platform \<Rightarrow> core_plugin_policy" where
  "core_plugin_policy_default current_platform =
     \<lparr>cp_allowed_capabilities = [], cp_allowed_permissions = [],
      cp_frame_config = frame_codec_config_default, cp_maximum_in_flight = DEFAULT_MAXIMUM_IN_FLIGHT,
      cp_heartbeat_interval_ms = DEFAULT_HEARTBEAT_INTERVAL_MS, cp_platform = current_platform\<rparr>"

record negotiated_session =
  ns_accepted_protocol_minor :: u32
  ns_granted_capabilities :: "string list"
  ns_granted_permissions :: "string list"
  ns_core_hello :: core_hello

definition plain_envelope :: "string \<Rightarrow> body \<Rightarrow> envelope" where
  "plain_envelope message_id b =
     \<lparr>ev_protocol_major = PROTOCOL_MAJOR, ev_protocol_minor = PROTOCOL_MINOR, ev_message_id = message_id,
      ev_correlation_id = None, ev_causation_id = None, ev_body = Some b\<rparr>"

text \<open>The identity, kind, version and platform checks of \<open>negotiate_hello\<close>.\<close>

definition hello_mismatch :: "plugin_manifest \<Rightarrow> hello \<Rightarrow> core_plugin_policy \<Rightarrow> bool" where
  "hello_mismatch manifest h policy \<longleftrightarrow>
     he_plugin_id h \<noteq> pm_plugin_id manifest
     \<or> he_plugin_version h \<noteq> pm_plugin_version manifest
     \<or> he_kind h \<noteq> plugin_kind_number (manifest_kind_into (pm_kind manifest))
     \<or> pm_protocol_major manifest \<noteq> PROTOCOL_MAJOR
     \<or> \<not> (pm_minimum_protocol_minor manifest \<le> PROTOCOL_MINOR \<and> PROTOCOL_MINOR \<le> pm_maximum_protocol_minor manifest)
     \<or> \<not> (he_minimum_protocol_minor h \<le> PROTOCOL_MINOR \<and> PROTOCOL_MINOR \<le> he_maximum_protocol_minor h)
     \<or> cp_platform policy \<notin> set (pm_supported_platforms manifest)"

definition negotiate_hello ::
  "(string \<Rightarrow> bool) \<Rightarrow> plugin_manifest \<Rightarrow> hello \<Rightarrow> string \<Rightarrow> core_plugin_policy \<Rightarrow>
   plugin_error + negotiated_session" where
  "negotiate_hello version_ok manifest h session_id policy =
     (case manifest_validate version_ok manifest of Inl e \<Rightarrow> Inl e | Inr _ \<Rightarrow>
     (case validate_identifier session_id of Inl e \<Rightarrow> Inl e | Inr _ \<Rightarrow>
     (case validate_envelope version_ok (plain_envelope ''negotiation_hello'' (BHello h)) of
        Inl e \<Rightarrow> Inl e | Inr _ \<Rightarrow>
      if hello_mismatch manifest h policy then Inl PeNegotiationRejected
      else if list_ex (\<lambda>c. c \<notin> set (pm_capabilities manifest)) (he_capabilities h)
           \<or> list_ex (\<lambda>p. p \<notin> set (pm_requested_permissions manifest)) (he_requested_permissions h)
      then Inl PeNegotiationRejected
      else
        (let granted_capabilities =
               sort_dedup (filter (\<lambda>c. c \<in> set (cp_allowed_capabilities policy)) (he_capabilities h));
             granted_permissions =
               sort_dedup (filter (\<lambda>p. p \<in> set (cp_allowed_permissions policy)) (he_requested_permissions h));
             maximum_frame_bytes = fc_maximum_frame_bytes (cp_frame_config policy)
         in if maximum_frame_bytes \<ge> 2 ^ 32 then Inl PeNegotiationRejected
            else if maximum_frame_bytes > HARD_MAX_PLUGIN_FRAME_BYTES then Inl PeNegotiationRejected
            else Inr \<lparr>ns_accepted_protocol_minor = PROTOCOL_MINOR,
                   ns_granted_capabilities = granted_capabilities,
                   ns_granted_permissions = granted_permissions,
                   ns_core_hello =
                     \<lparr>ch_session_id = session_id, ch_accepted_protocol_minor = PROTOCOL_MINOR,
                      ch_granted_capabilities = granted_capabilities,
                      ch_granted_permissions = granted_permissions,
                      ch_maximum_frame_bytes = word_of_nat maximum_frame_bytes,
                      ch_maximum_in_flight = cp_maximum_in_flight policy,
                      ch_heartbeat_interval_ms = cp_heartbeat_interval_ms policy\<rparr>\<rparr>))))"

section \<open>Terminal inventories\<close>

record terminal_pane =
  tp_pane_id :: string
  tp_cwd :: string
  tp_workspace :: string
  tp_window_id :: string
  tp_tab_id :: string

record terminal_inventory =
  ti_instance_id :: string
  ti_panes :: "terminal_pane list"

definition valid_label :: "string \<Rightarrow> nat \<Rightarrow> bool" where
  "valid_label value max_bytes \<longleftrightarrow> value \<noteq> [] \<and> length value \<le> max_bytes \<and> \<not> contains_control value"

definition valid_pane_id :: "string \<Rightarrow> bool" where
  "valid_pane_id value \<longleftrightarrow> value \<noteq> [] \<and> length value \<le> 20 \<and> list_all is_ascii_digit value"

definition valid_pane :: "terminal_pane \<Rightarrow> bool" where
  "valid_pane pane \<longleftrightarrow>
     valid_pane_id (tp_pane_id pane) \<and> valid_label (tp_cwd pane) 4096 \<and> length (tp_workspace pane) \<le> 256
     \<and> \<not> contains_control (tp_workspace pane) \<and> valid_pane_id (tp_window_id pane) \<and> valid_pane_id (tp_tab_id pane)"

definition valid_inventory :: "terminal_inventory \<Rightarrow> bool" where
  "valid_inventory inventory \<longleftrightarrow>
     valid_label (ti_instance_id inventory) 128 \<and> length (ti_panes inventory) \<le> 4
     \<and> list_all valid_pane (ti_panes inventory)
     \<and> list_all (\<lambda>index. \<not> list_ex (\<lambda>old. tp_pane_id old = tp_pane_id (ti_panes inventory ! index))
          (take index (ti_panes inventory))) [0..<length (ti_panes inventory)]"

section \<open>Lemmas\<close>

lemma policy_identifiers_loop_ok:
  "policy_identifiers_loop unique xs = Inr () \<longleftrightarrow>
   distinct xs \<and> set xs \<inter> set unique = {} \<and> (\<forall>x \<in> set xs. validate_policy_identifier x = Inr ())"
proof (induction xs arbitrary: unique)
  case (Cons x xs)
  then show ?case by (cases "validate_policy_identifier x") auto
qed simp

lemma validate_policy_identifiers_ok:
  "validate_policy_identifiers xs = Inr () \<longleftrightarrow>
   length xs \<le> MAX_IDENTIFIER_COLLECTION_ITEMS \<and> distinct xs
   \<and> (\<forall>x \<in> set xs. validate_policy_identifier x = Inr ())"
  by (simp add: validate_policy_identifiers_def policy_identifiers_loop_ok)

lemma length_sort_dedup_le: "length (sort_dedup xs) \<le> length xs"
  unfolding sort_dedup_def by (metis length_sort remdups_adj_length)

lemma grants_validate:
  assumes "validate_policy_identifiers xs = Inr ()"
  shows "validate_policy_identifiers (sort_dedup (filter P xs)) = Inr ()"
proof -
  have "length (sort_dedup (filter P xs)) \<le> length xs"
    using length_sort_dedup_le [of "filter P xs"] length_filter_le [of P xs] by linarith
  with assms show ?thesis by (auto simp: validate_policy_identifiers_ok)
qed

text \<open>What the private constructors guarantee of a policy.\<close>

definition policy_ok :: "core_plugin_policy \<Rightarrow> bool" where
  "policy_ok policy \<longleftrightarrow>
     0 < fc_maximum_frame_bytes (cp_frame_config policy)
     \<and> fc_maximum_frame_bytes (cp_frame_config policy) \<le> HARD_MAX_PLUGIN_FRAME_BYTES
     \<and> cp_maximum_in_flight policy \<noteq> 0 \<and> cp_maximum_in_flight policy \<le> HARD_MAXIMUM_IN_FLIGHT
     \<and> MINIMUM_HEARTBEAT_INTERVAL_MS \<le> cp_heartbeat_interval_ms policy
     \<and> cp_heartbeat_interval_ms policy \<le> MAXIMUM_HEARTBEAT_INTERVAL_MS"

lemma policy_new_ok:
  assumes "frame_codec_config_new n = Inr c" and "core_plugin_policy_new ac ap c k hb pl = Inr policy"
  shows "policy_ok policy"
  using assms by (auto simp: frame_codec_config_new_def core_plugin_policy_new_def policy_ok_def result_simps
      split: sum.splits if_splits)

lemma policy_default_ok: "policy_ok (core_plugin_policy_default pl)"
  by (simp add: policy_ok_def core_plugin_policy_default_def frame_codec_config_default_def plugin_limits)

lemma hello_ok: "validate_envelope v (plain_envelope m (BHello h)) = Inr () \<Longrightarrow>
  validate_policy_identifiers (he_capabilities h) = Inr () \<and>
  validate_policy_identifiers (he_requested_permissions h) = Inr ()"
  by (auto simp: validate_envelope_def plain_envelope_def validate_hello_def result_simps
      split: sum.splits if_splits)

lemma frame_bytes_word: "n \<le> HARD_MAX_PLUGIN_FRAME_BYTES \<Longrightarrow> unat (word_of_nat n :: u32) = n"
  by (simp add: plugin_limits unat_of_nat take_bit_nat_eq_self)

lemma negotiate_Inr:
  "negotiate_hello v manifest h session_id policy = Inr s \<Longrightarrow>
   manifest_validate v manifest = Inr () \<and> validate_identifier session_id = Inr ()
   \<and> validate_envelope v (plain_envelope ''negotiation_hello'' (BHello h)) = Inr ()
   \<and> \<not> hello_mismatch manifest h policy
   \<and> set (he_capabilities h) \<subseteq> set (pm_capabilities manifest)
   \<and> set (he_requested_permissions h) \<subseteq> set (pm_requested_permissions manifest)
   \<and> fc_maximum_frame_bytes (cp_frame_config policy) \<le> HARD_MAX_PLUGIN_FRAME_BYTES
   \<and> ns_granted_capabilities s = sort_dedup (filter (\<lambda>c. c \<in> set (cp_allowed_capabilities policy)) (he_capabilities h))
   \<and> ns_granted_permissions s = sort_dedup (filter (\<lambda>p. p \<in> set (cp_allowed_permissions policy)) (he_requested_permissions h))
   \<and> ns_core_hello s = \<lparr>ch_session_id = session_id, ch_accepted_protocol_minor = PROTOCOL_MINOR,
        ch_granted_capabilities = ns_granted_capabilities s, ch_granted_permissions = ns_granted_permissions s,
        ch_maximum_frame_bytes = word_of_nat (fc_maximum_frame_bytes (cp_frame_config policy)),
        ch_maximum_in_flight = cp_maximum_in_flight policy,
        ch_heartbeat_interval_ms = cp_heartbeat_interval_ms policy\<rparr>"
  unfolding negotiate_hello_def try_unit_Inr guard_Inr Let_def
  by (auto simp: list_ex_iff subset_eq)

lemma core_hello_validates:
  assumes "negotiate_hello v manifest h session_id policy = Inr s" and "policy_ok policy"
  shows "validate_core_hello (ns_core_hello s) = Inr ()"
proof -
  note n = negotiate_Inr [OF assms(1)]
  have caps: "validate_policy_identifiers (ns_granted_capabilities s) = Inr ()"
    "validate_policy_identifiers (ns_granted_permissions s) = Inr ()"
    using n hello_ok [of v "''negotiation_hello''" h] grants_validate by auto
  let ?n = "fc_maximum_frame_bytes (cp_frame_config policy)"
  have "unat (word_of_nat ?n :: u32) = ?n" using n by (intro frame_bytes_word) simp
  moreover from this have "(word_of_nat ?n :: u32) \<noteq> 0"
    using assms(2) by (metis policy_ok_def not_less0 unat_0)
  ultimately show ?thesis
    using n caps assms(2) by (simp add: validate_core_hello_def policy_ok_def linorder_not_less)
qed

lemma negotiate_succeeds:
  assumes "manifest_validate v manifest = Inr ()" and "validate_identifier session_id = Inr ()"
    and "validate_envelope v (plain_envelope ''negotiation_hello'' (BHello h)) = Inr ()"
    and "\<not> hello_mismatch manifest h policy"
    and "set (he_capabilities h) \<subseteq> set (pm_capabilities manifest)"
    and "set (he_requested_permissions h) \<subseteq> set (pm_requested_permissions manifest)"
    and "policy_ok policy"
  shows "\<exists>s. negotiate_hello v manifest h session_id policy = Inr s"
proof -
  have "fc_maximum_frame_bytes (cp_frame_config policy) \<le> HARD_MAX_PLUGIN_FRAME_BYTES"
    using assms(7) by (simp add: policy_ok_def)
  then have small: "\<not> fc_maximum_frame_bytes (cp_frame_config policy) \<ge> 2 ^ 32"
    by (simp add: plugin_limits)
  show ?thesis
    unfolding negotiate_hello_def try_unit_Inr guard_Inr Let_def
    using assms small by (auto simp: list_ex_iff policy_ok_def)
qed


definition example_manifest :: plugin_manifest where
  "example_manifest = \<lparr>pm_schema_version = 1, pm_plugin_id = ''acme.term'', pm_plugin_version = ''1.0.0'',
     pm_kind = MkTerminal, pm_entry_point = [''acme''], pm_capabilities = [''terminal:observe'', ''terminal:focus''],
     pm_requested_permissions = [''terminal:observe''], pm_supported_platforms = [PlLinux],
     pm_protocol_major = 1, pm_minimum_protocol_minor = 0, pm_maximum_protocol_minor = 0\<rparr>"

definition example_hello :: hello where
  "example_hello = \<lparr>he_plugin_id = ''acme.term'', he_plugin_version = ''1.0.0'', he_kind = 2,
     he_capabilities = [''terminal:observe'', ''terminal:focus''], he_requested_permissions = [''terminal:observe''],
     he_minimum_protocol_minor = 0, he_maximum_protocol_minor = 0\<rparr>"

lemmas plugin_example_defs = example_manifest_def example_hello_def

lemma example_negotiates:
  "manifest_validate (\<lambda>_. True) example_manifest = Inr ()"
  "validate_identifier ''s-1'' = Inr ()"
  "validate_envelope (\<lambda>_. True) (plain_envelope ''negotiation_hello'' (BHello example_hello)) = Inr ()"
  "\<not> hello_mismatch example_manifest example_hello
      ((core_plugin_policy_default PlLinux)\<lparr>cp_allowed_capabilities := [''terminal:observe'']\<rparr>)"
  by (simp_all add: plugin_example_defs rust_simps plugin_limits validate_policy_identifier_def validate_identifier_def
      validate_optional_identifier_def validate_policy_identifiers_def manifest_validate_def validate_entry_point_def
      as_invalid_manifest_def is_forbidden_shell_def shell_file_name_def shell_lowercase_def
      MANIFEST_SCHEMA_VERSION_def MAX_ENTRY_POINT_ARGUMENTS_def MAX_ENTRY_POINT_ARGUMENT_BYTES_def
      MAX_ENTRY_POINT_TOTAL_BYTES_def validate_envelope_def plain_envelope_def validate_hello_def
      plugin_kind_try_from_def hello_mismatch_def core_plugin_policy_default_def)

lemma example_subsets:
  "set (he_capabilities example_hello) \<subseteq> set (pm_capabilities example_manifest)"
  "set (he_requested_permissions example_hello) \<subseteq> set (pm_requested_permissions example_manifest)"
  by (simp_all add: plugin_example_defs)


end
