(* ===== verification/Plugin_Session.thy ===== *)
theory Plugin_Session
  imports Plugin_Protocol
begin

text \<open>
  Frames and the session of a plugin, \<open>crates/vibemux_plugin_protocol/src/frame.rs\<close> and \<open>lifecycle.rs\<close>. The
  Protobuf codec of \<open>prost\<close> is a parameter: \<open>encoded_len\<close>, \<open>encode\<close> and \<open>decode\<close> of an envelope. A reader is
  the list of bytes still to come; \<open>read_exact\<close> fails when there are fewer.

  \<open>codec_ok\<close> states what the frames rely on of the codec; with it every sequence of framed envelopes is
  read back. The session is a reducer over received messages and the core's own
  steps; its accepted histories are exactly the words of a session type.
\<close>

section \<open>Frames\<close>

definition validate_frame_length :: "nat \<Rightarrow> frame_codec_config \<Rightarrow> plugin_error + unit" where
  "validate_frame_length len config =
     (if len = 0 then Inl PeZeroFrame
      else if len > fc_maximum_frame_bytes config then Inl PeFrameTooLarge
      else Inr ())"

definition plugin_encode_frame ::
  "(string \<Rightarrow> bool) \<Rightarrow> (envelope \<Rightarrow> nat) \<Rightarrow> (envelope \<Rightarrow> string option) \<Rightarrow> envelope \<Rightarrow> frame_codec_config \<Rightarrow>
   plugin_error + string" where
  "plugin_encode_frame version_ok encoded_len encode e config =
     (case validate_envelope version_ok e of Inl x \<Rightarrow> Inl x | Inr _ \<Rightarrow>
      let len = encoded_len e in
     (case validate_frame_length len config of Inl x \<Rightarrow> Inl x | Inr _ \<Rightarrow>
      if len \<ge> 2 ^ 32 then Inl PeFrameTooLarge
      else (case encode e of None \<Rightarrow> Inl PeEncodeFailed | Some bytes \<Rightarrow> Inr (be_bytes 4 len @ bytes))))"

definition decode_payload ::
  "(string \<Rightarrow> bool) \<Rightarrow> (string \<Rightarrow> envelope option) \<Rightarrow> string \<Rightarrow> plugin_error + envelope" where
  "decode_payload version_ok decode payload =
     (case decode payload of None \<Rightarrow> Inl PeDecodeFailed | Some e \<Rightarrow>
     (case validate_envelope version_ok e of Inl x \<Rightarrow> Inl x | Inr _ \<Rightarrow> Inr e))"

definition plugin_decode_frame ::
  "(string \<Rightarrow> bool) \<Rightarrow> (string \<Rightarrow> envelope option) \<Rightarrow> string \<Rightarrow> frame_codec_config \<Rightarrow>
   plugin_error + envelope" where
  "plugin_decode_frame version_ok decode frame config =
     (if length frame < 4 then Inl PeInvalidFrameLength
      else let len = from_be_bytes (take 4 frame) in
        (case validate_frame_length len config of Inl x \<Rightarrow> Inl x | Inr _ \<Rightarrow>
         if length frame \<noteq> len + 4 then Inl PeInvalidFrameLength
         else decode_payload version_ok decode (drop 4 frame)))"

definition read_exact :: "nat \<Rightarrow> string \<Rightarrow> plugin_error + string \<times> string" where
  "read_exact n reader = (if length reader < n then Inl PeFrameIo else Inr (take n reader, drop n reader))"

definition read_envelope ::
  "(string \<Rightarrow> bool) \<Rightarrow> (string \<Rightarrow> envelope option) \<Rightarrow> string \<Rightarrow> frame_codec_config \<Rightarrow>
   plugin_error + envelope \<times> string" where
  "read_envelope version_ok decode reader config =
     (case read_exact 4 reader of Inl x \<Rightarrow> Inl x | Inr (prefix, reader1) \<Rightarrow>
      let len = from_be_bytes prefix in
     (case validate_frame_length len config of Inl x \<Rightarrow> Inl x | Inr _ \<Rightarrow>
     (case read_exact len reader1 of Inl x \<Rightarrow> Inl x | Inr (payload, reader2) \<Rightarrow>
     (case decode_payload version_ok decode payload of Inl x \<Rightarrow> Inl x | Inr e \<Rightarrow> Inr (e, reader2)))))"

text \<open>\<open>write_envelope\<close> on a writer that accepts every byte.\<close>

definition write_envelope ::
  "(string \<Rightarrow> bool) \<Rightarrow> (envelope \<Rightarrow> nat) \<Rightarrow> (envelope \<Rightarrow> string option) \<Rightarrow> string \<Rightarrow> envelope \<Rightarrow>
   frame_codec_config \<Rightarrow> plugin_error + string" where
  "write_envelope version_ok encoded_len encode writer e config =
     (case plugin_encode_frame version_ok encoded_len encode e config of Inl x \<Rightarrow> Inl x
      | Inr frame \<Rightarrow> Inr (writer @ frame))"

text \<open>A peer that writes, and one that reads, several envelopes.\<close>

fun write_envelopes ::
  "(string \<Rightarrow> bool) \<Rightarrow> (envelope \<Rightarrow> nat) \<Rightarrow> (envelope \<Rightarrow> string option) \<Rightarrow> string \<Rightarrow> envelope list \<Rightarrow>
   frame_codec_config \<Rightarrow> plugin_error + string" where
  "write_envelopes v len enc writer [] config = Inr writer"
| "write_envelopes v len enc writer (e # es) config =
     (case write_envelope v len enc writer e config of Inl x \<Rightarrow> Inl x
      | Inr writer1 \<Rightarrow> write_envelopes v len enc writer1 es config)"

fun read_envelopes ::
  "(string \<Rightarrow> bool) \<Rightarrow> (string \<Rightarrow> envelope option) \<Rightarrow> string \<Rightarrow> nat \<Rightarrow> frame_codec_config \<Rightarrow>
   plugin_error + envelope list \<times> string" where
  "read_envelopes v dec reader 0 config = Inr ([], reader)"
| "read_envelopes v dec reader (Suc n) config =
     (case read_envelope v dec reader config of Inl x \<Rightarrow> Inl x | Inr (e, reader1) \<Rightarrow>
     (case read_envelopes v dec reader1 n config of Inl x \<Rightarrow> Inl x | Inr (es, reader2) \<Rightarrow> Inr (e # es, reader2)))"

text \<open>A frame is what the reader reads when nothing follows it.\<close>

lemma take_drop_exact: "length frame = n + 4 \<Longrightarrow> take n (drop 4 frame) = drop 4 frame"
  by simp

lemma decode_frame_iff_read:
  "plugin_decode_frame v dec frame config = Inr e \<longleftrightarrow> read_envelope v dec frame config = Inr (e, [])"
  unfolding plugin_decode_frame_def read_envelope_def read_exact_def Let_def
  by (auto simp: result_simps split: if_splits)

text \<open>What the frames rely on of the Protobuf codec: \<open>encode\<close> writes \<open>encoded_len\<close> bytes, and \<open>decode\<close> reads
  back what \<open>encode\<close> wrote.\<close>

definition codec_ok :: "(envelope \<Rightarrow> nat) \<Rightarrow> (envelope \<Rightarrow> string option) \<Rightarrow> (string \<Rightarrow> envelope option) \<Rightarrow> bool" where
  "codec_ok encoded_len encode decode \<longleftrightarrow>
     (\<forall>e bytes. encode e = Some bytes \<longrightarrow> length bytes = encoded_len e \<and> decode bytes = Some e)"

lemma read_frame:
  assumes codec: "codec_ok encoded_len encode decode"
    and frame: "plugin_encode_frame version_ok encoded_len encode e config = Inr frame"
  shows "read_envelope version_ok decode (frame @ rest) config = Inr (e, rest)"
proof -
  from frame obtain bytes where e: "validate_envelope version_ok e = Inr ()"
    and len: "validate_frame_length (encoded_len e) config = Inr ()" "encoded_len e < 2 ^ 32"
    and bytes: "encode e = Some bytes" "frame = be_bytes 4 (encoded_len e) @ bytes"
    by (auto simp: plugin_encode_frame_def Let_def result_simps linorder_not_le)
  have "(2 :: nat) ^ 32 = 256 ^ 4" by simp
  with len(2) have prefix: "from_be_bytes (be_bytes 4 (encoded_len e)) = encoded_len e"
    by (intro from_be_be_bytes) linarith
  show ?thesis
    using e len bytes prefix codec
    by (simp add: read_envelope_def read_exact_def decode_payload_def Let_def codec_ok_def)
qed

lemma written_frames:
  assumes codec: "codec_ok encoded_len encode decode"
    and wire: "write_envelopes version_ok encoded_len encode writer es config = Inr wire"
  shows "\<exists>tail. wire = writer @ tail \<and>
    read_envelopes version_ok decode (tail @ rest) (length es) config = Inr (es, rest)"
  using wire
proof (induction es arbitrary: writer)
  case (Cons e es)
  then obtain frame where frame: "plugin_encode_frame version_ok encoded_len encode e config = Inr frame"
    and more: "write_envelopes version_ok encoded_len encode (writer @ frame) es config = Inr wire"
    by (auto simp: write_envelope_def result_simps split: sum.splits)
  from Cons.IH [OF more] obtain tail where "wire = (writer @ frame) @ tail"
    "read_envelopes version_ok decode (tail @ rest) (length es) config = Inr (es, rest)" by blast
  then show ?case using read_frame [OF codec frame, of "tail @ rest"] by (intro exI [of _ "frame @ tail"]) simp
qed simp

section \<open>The session\<close>

datatype core_session_phase =
  CpAwaitHello | CpNeedCoreHello | CpAwaitReady | CpActive | CpDraining | CpShutdownSent | CpClosed

record core_session_lifecycle =
  cs_phase :: core_session_phase
  cs_session_id :: "string option"

definition lifecycle_new :: core_session_lifecycle where
  "lifecycle_new = \<lparr>cs_phase = CpAwaitHello, cs_session_id = None\<rparr>"

definition is_active_traffic :: "body \<Rightarrow> bool" where
  "is_active_traffic b \<longleftrightarrow>
     (case b of BRequest _ \<Rightarrow> True | BResponse _ \<Rightarrow> True | BEvent _ \<Rightarrow> True | BHeartbeat _ \<Rightarrow> True
      | BCancel _ \<Rightarrow> True | BProtocolError _ \<Rightarrow> True | _ \<Rightarrow> False)"

definition is_drain_traffic :: "body \<Rightarrow> bool" where
  "is_drain_traffic b \<longleftrightarrow>
     (case b of BResponse _ \<Rightarrow> True | BEvent _ \<Rightarrow> True | BHeartbeat _ \<Rightarrow> True
      | BProtocolError _ \<Rightarrow> True | _ \<Rightarrow> False)"

text \<open>The match on phase and body.\<close>

definition receive_phase :: "core_session_lifecycle \<Rightarrow> body \<Rightarrow> core_session_phase option" where
  "receive_phase self b =
     (case (cs_phase self, b) of
        (CpAwaitHello, BHello _) \<Rightarrow> Some CpNeedCoreHello
      | (CpAwaitReady, BReady session_id) \<Rightarrow>
          if cs_session_id self = Some session_id then Some CpActive else None
      | (CpActive, _) \<Rightarrow> if is_active_traffic b then Some CpActive else None
      | (CpDraining, BShutdown _) \<Rightarrow> Some CpClosed
      | (CpShutdownSent, BShutdown _) \<Rightarrow> Some CpClosed
      | (CpDraining, _) \<Rightarrow> if is_drain_traffic b then Some CpDraining else None
      | _ \<Rightarrow> None)"

definition lifecycle_receive ::
  "(string \<Rightarrow> bool) \<Rightarrow> core_session_lifecycle \<Rightarrow> envelope \<Rightarrow> plugin_error + core_session_lifecycle" where
  "lifecycle_receive version_ok self e =
     (case validate_envelope version_ok e of Inl x \<Rightarrow> Inl x | Inr _ \<Rightarrow>
     (case ev_body e of None \<Rightarrow> Inl PeMissingBody | Some b \<Rightarrow>
     (case receive_phase self b of None \<Rightarrow> Inl PeInvalidTransition
      | Some p \<Rightarrow> Inr (self\<lparr>cs_phase := p\<rparr>))))"

definition mark_core_hello_sent ::
  "(string \<Rightarrow> bool) \<Rightarrow> core_session_lifecycle \<Rightarrow> core_hello \<Rightarrow> plugin_error + core_session_lifecycle" where
  "mark_core_hello_sent version_ok self c =
     (if cs_phase self \<noteq> CpNeedCoreHello then Inl PeInvalidTransition
      else (case validate_envelope version_ok (plain_envelope ''core_hello'' (BCoreHello c)) of Inl x \<Rightarrow> Inl x
       | Inr _ \<Rightarrow> Inr (self\<lparr>cs_session_id := Some (ch_session_id c), cs_phase := CpAwaitReady\<rparr>)))"

definition begin_drain :: "core_session_lifecycle \<Rightarrow> plugin_error + core_session_lifecycle" where
  "begin_drain self =
     (if cs_phase self \<noteq> CpActive then Inl PeInvalidTransition else Inr (self\<lparr>cs_phase := CpDraining\<rparr>))"

definition mark_shutdown_sent :: "core_session_lifecycle \<Rightarrow> plugin_error + core_session_lifecycle" where
  "mark_shutdown_sent self =
     (if cs_phase self \<noteq> CpDraining then Inl PeInvalidTransition else Inr (self\<lparr>cs_phase := CpShutdownSent\<rparr>))"

definition mark_closed :: "core_session_lifecycle \<Rightarrow> core_session_lifecycle" where
  "mark_closed self = self\<lparr>cs_phase := CpClosed\<rparr>"

text \<open>The calls of the core on one session, as a reducer.\<close>

datatype session_call =
  ScReceive envelope | ScCoreHelloSent core_hello | ScBeginDrain | ScShutdownSent | ScClosed

fun session_step ::
  "(string \<Rightarrow> bool) \<Rightarrow> core_session_lifecycle \<Rightarrow> session_call \<Rightarrow> plugin_error + core_session_lifecycle" where
  "session_step v s (ScReceive e) = lifecycle_receive v s e"
| "session_step v s (ScCoreHelloSent c) = mark_core_hello_sent v s c"
| "session_step v s ScBeginDrain = begin_drain s"
| "session_step v s ScShutdownSent = mark_shutdown_sent s"
| "session_step v s ScClosed = Inr (mark_closed s)"

section \<open>The session type\<close>

text \<open>The words of a session: a handshake whose \<open>Ready\<close> names the session the core announced, traffic,
  then, once the core drains, what a draining plugin may still send.\<close>

definition says :: "(string \<Rightarrow> bool) \<Rightarrow> (body \<Rightarrow> bool) \<Rightarrow> session_call \<Rightarrow> bool" where
  "says v P call \<longleftrightarrow>
     (case call of ScReceive e \<Rightarrow> validate_envelope v e = Inr () \<and> (\<exists>b. ev_body e = Some b \<and> P b) | _ \<Rightarrow> False)"

definition handshake :: "(string \<Rightarrow> bool) \<Rightarrow> session_call list \<Rightarrow> bool" where
  "handshake v calls \<longleftrightarrow>
     (\<exists>h c r. calls = [h, ScCoreHelloSent c, r] \<and> says v (\<lambda>b. \<exists>x. b = BHello x) h
        \<and> validate_envelope v (plain_envelope ''core_hello'' (BCoreHello c)) = Inr ()
        \<and> says v (\<lambda>b. b = BReady (ch_session_id c)) r)"

definition active_word :: "(string \<Rightarrow> bool) \<Rightarrow> session_call list \<Rightarrow> bool" where
  "active_word v calls \<longleftrightarrow>
     (\<exists>hs ts. calls = hs @ ts \<and> handshake v hs \<and> (\<forall>t \<in> set ts. says v is_active_traffic t))"

definition draining_word :: "(string \<Rightarrow> bool) \<Rightarrow> session_call list \<Rightarrow> bool" where
  "draining_word v calls \<longleftrightarrow>
     (\<exists>as ds. calls = as @ ScBeginDrain # ds \<and> active_word v as \<and> (\<forall>d \<in> set ds. says v is_drain_traffic d))"

fun session_word :: "(string \<Rightarrow> bool) \<Rightarrow> core_session_phase \<Rightarrow> session_call list \<Rightarrow> bool" where
  "session_word v CpAwaitHello calls = (calls = [])"
| "session_word v CpNeedCoreHello calls = (\<exists>h. calls = [h] \<and> says v (\<lambda>b. \<exists>x. b = BHello x) h)"
| "session_word v CpAwaitReady calls =
     (\<exists>h c. calls = [h, ScCoreHelloSent c] \<and> says v (\<lambda>b. \<exists>x. b = BHello x) h
        \<and> validate_envelope v (plain_envelope ''core_hello'' (BCoreHello c)) = Inr ())"
| "session_word v CpActive calls = active_word v calls"
| "session_word v CpDraining calls = draining_word v calls"
| "session_word v CpShutdownSent calls = (\<exists>ds. calls = ds @ [ScShutdownSent] \<and> draining_word v ds)"
| "session_word v CpClosed calls = True"

text \<open>The announced session, while \<open>Ready\<close> is awaited.\<close>

definition session_inv :: "(string \<Rightarrow> bool) \<Rightarrow> core_session_lifecycle \<Rightarrow> session_call list \<Rightarrow> bool" where
  "session_inv v s calls \<longleftrightarrow> session_word v (cs_phase s) calls
     \<and> (\<forall>h c. cs_phase s = CpAwaitReady \<longrightarrow> calls = [h, ScCoreHelloSent c] \<longrightarrow> cs_session_id s = Some (ch_session_id c))"

lemma receive_Inr:
  "lifecycle_receive v s e = Inr t \<longleftrightarrow>
   (\<exists>b p. validate_envelope v e = Inr () \<and> ev_body e = Some b \<and> receive_phase s b = Some p \<and> t = s\<lparr>cs_phase := p\<rparr>)"
  by (auto simp: lifecycle_receive_def split: sum.splits option.splits)

lemma receive_ready:
  "cs_phase s = CpAwaitReady \<Longrightarrow> cs_session_id s = Some session_id \<Longrightarrow>
   receive_phase s b = Some p \<longleftrightarrow> p = CpActive \<and> b = BReady session_id"
  by (cases b) (auto simp: receive_phase_def)

lemma says_receive: "says v P (ScReceive e) \<longleftrightarrow> validate_envelope v e = Inr () \<and> (\<exists>b. ev_body e = Some b \<and> P b)"
  by (simp add: says_def)

lemma active_wordI: "handshake v hs \<Longrightarrow> active_word v hs"
  unfolding active_word_def by (rule exI [of _ hs], rule exI [of _ "[]"]) simp

lemma active_word_snoc: "active_word v calls \<Longrightarrow> says v is_active_traffic t \<Longrightarrow> active_word v (calls @ [t])"
  unfolding active_word_def by (elim exE conjE) (rule exI, rule_tac x = "ts @ [t]" in exI, auto)

lemma draining_wordI: "active_word v as \<Longrightarrow> draining_word v (as @ [ScBeginDrain])"
  unfolding draining_word_def by (rule exI [of _ as], rule exI [of _ "[]"]) simp

lemma draining_word_snoc: "draining_word v calls \<Longrightarrow> says v is_drain_traffic t \<Longrightarrow> draining_word v (calls @ [t])"
  unfolding draining_word_def by (elim exE conjE) (rule exI, rule_tac x = "ds @ [t]" in exI, auto)

lemma session_step_inv:
  assumes inv: "session_inv v s calls" and step: "session_step v s call = Inr t"
  shows "session_inv v t (calls @ [call])"
proof (cases call)
  case (ScReceive e)
  with step obtain b p where e: "validate_envelope v e = Inr ()" "ev_body e = Some b"
    and p: "receive_phase s b = Some p" and t: "t = s\<lparr>cs_phase := p\<rparr>" by (auto simp: receive_Inr)
  have says: "says v P call" if "P b" for P using e that by (auto simp: ScReceive says_receive)
  show ?thesis
  proof (cases "cs_phase s")
    case CpAwaitHello
    then show ?thesis using inv p t says [of "\<lambda>b. \<exists>x. b = BHello x"]
      by (auto simp: session_inv_def receive_phase_def split: body.splits)
  next
    case CpAwaitReady
    then obtain h c where c: "calls = [h, ScCoreHelloSent c]" "says v (\<lambda>b. \<exists>x. b = BHello x) h"
      "validate_envelope v (plain_envelope ''core_hello'' (BCoreHello c)) = Inr ()"
      "cs_session_id s = Some (ch_session_id c)" using inv by (auto simp: session_inv_def)
    then have "b = BReady (ch_session_id c)" "p = CpActive"
      using p CpAwaitReady by (auto simp: receive_phase_def split: body.splits if_splits)
    moreover from this have "handshake v (calls @ [call])"
      using c says [of "\<lambda>b. b = BReady (ch_session_id c)"] by (auto simp: handshake_def)
    ultimately show ?thesis using t by (simp add: session_inv_def active_wordI)
  next
    case CpActive
    then show ?thesis using inv p t says [of is_active_traffic]
      by (auto simp: session_inv_def receive_phase_def active_word_snoc split: body.splits if_splits)
  next
    case CpDraining
    then show ?thesis using inv p t says [of is_drain_traffic]
      by (auto simp: session_inv_def receive_phase_def draining_word_snoc split: body.splits if_splits)
  next
    case CpShutdownSent
    then show ?thesis using p t by (auto simp: session_inv_def receive_phase_def split: body.splits)
  qed (use p in \<open>simp_all add: receive_phase_def\<close>)
next
  case ScBeginDrain
  then have "active_word v calls" "t = s\<lparr>cs_phase := CpDraining\<rparr>"
    using inv step by (auto simp: begin_drain_def session_inv_def split: if_splits)
  then show ?thesis using draining_wordI [of v calls] ScBeginDrain by (simp add: session_inv_def)
qed (use inv step in \<open>auto simp: mark_core_hello_sent_def mark_shutdown_sent_def mark_closed_def session_inv_def
    result_simps split: if_splits\<close>)

lemma accepted_events_append:
  "accepted_events step s (es @ fs) = accepted_events step s es @ accepted_events step (run_events step s es) fs"
  by (induction es arbitrary: s) (auto split: sum.splits)

lemma session_history_inv:
  "session_inv v (run_events (session_step v) lifecycle_new calls) (accepted_events (session_step v) lifecycle_new calls)"
proof (induction calls rule: rev_induct)
  case Nil
  then show ?case by (simp add: session_inv_def lifecycle_new_def)
next
  case (snoc call calls)
  then show ?case
    using session_step_inv [OF snoc] by (auto simp: run_events_append accepted_events_append split: sum.splits)
qed

text \<open>Conversely every word of the session type is accepted call by call.\<close>

definition accepts :: "(string \<Rightarrow> bool) \<Rightarrow> session_call list \<Rightarrow> core_session_phase \<Rightarrow> bool" where
  "accepts v calls p \<longleftrightarrow> accepted_events (session_step v) lifecycle_new calls = calls
     \<and> cs_phase (run_events (session_step v) lifecycle_new calls) = p"

lemma saysE:
  assumes "says v P call"
  obtains e b where "call = ScReceive e" "validate_envelope v e = Inr ()" "ev_body e = Some b" "P b"
  using assms by (auto simp: says_def split: session_call.splits)

lemma accepts_snoc:
  assumes "accepts v calls p"
    and "\<And>s. cs_phase s = p \<Longrightarrow> \<exists>t. session_step v s call = Inr t \<and> cs_phase t = q"
  shows "accepts v (calls @ [call]) q"
proof -
  let ?s = "run_events (session_step v) lifecycle_new calls"
  from assms obtain t where "session_step v ?s call = Inr t" "cs_phase t = q" unfolding accepts_def by blast
  with assms(1) show ?thesis by (simp add: accepts_def accepted_events_append run_events_append)
qed

lemma accepts_many:
  assumes "accepts v calls p" and "\<forall>t \<in> set ts. says v P t"
    and "\<And>s b. cs_phase s = p \<Longrightarrow> P b \<Longrightarrow> receive_phase s b = Some p"
  shows "accepts v (calls @ ts) p"
  using assms(2)
proof (induction ts rule: rev_induct)
  case Nil
  then show ?case using assms(1) by simp
next
  case (snoc t ts)
  have "accepts v ((calls @ ts) @ [t]) p"
  proof (rule accepts_snoc)
    show "accepts v (calls @ ts) p" using snoc by simp
    obtain e b where t: "t = ScReceive e" and e: "validate_envelope v e = Inr ()" "ev_body e = Some b" "P b"
      using snoc.prems by (auto elim: saysE)
    show "\<exists>u. session_step v s t = Inr u \<and> cs_phase u = p" if "cs_phase s = p" for s
      using e assms(3) [OF that e(3)] unfolding t by (auto simp: receive_Inr)
  qed
  then show ?case by simp
qed

lemma accepts_handshake:
  assumes "handshake v hs"
  shows "accepts v hs CpActive"
proof -
  from assms obtain h c r where hs: "hs = [h, ScCoreHelloSent c, r]" and h: "says v (\<lambda>b. \<exists>x. b = BHello x) h"
    and c: "validate_envelope v (plain_envelope ''core_hello'' (BCoreHello c)) = Inr ()"
    and r: "says v (\<lambda>b. b = BReady (ch_session_id c)) r" by (auto simp: handshake_def)
  obtain e x where "h = ScReceive e" "validate_envelope v e = Inr ()" "ev_body e = Some (BHello x)"
    using h by (rule saysE) auto
  moreover obtain f where "r = ScReceive f" "validate_envelope v f = Inr ()" "ev_body f = Some (BReady (ch_session_id c))"
    using r by (rule saysE) auto
  ultimately show ?thesis using c
    by (simp add: hs accepts_def lifecycle_new_def lifecycle_receive_def receive_phase_def mark_core_hello_sent_def)
qed

lemma accepts_active: "active_word v calls \<Longrightarrow> accepts v calls CpActive"
  unfolding active_word_def
  by (elim exE conjE, hypsubst, rule accepts_many [of _ _ _ _ is_active_traffic])
    (auto simp: accepts_handshake receive_phase_def split: body.splits)

lemma accepts_draining: "draining_word v calls \<Longrightarrow> accepts v calls CpDraining"
proof -
  assume "draining_word v calls"
  then obtain as ds where calls: "calls = (as @ [ScBeginDrain]) @ ds" and as: "active_word v as"
    and ds: "\<forall>d \<in> set ds. says v is_drain_traffic d" by (auto simp: draining_word_def)
  have "accepts v (as @ [ScBeginDrain]) CpDraining"
    by (rule accepts_snoc [OF accepts_active [OF as]]) (simp add: begin_drain_def)
  then show ?thesis unfolding calls
    by (rule accepts_many [OF _ ds]) (auto simp: receive_phase_def is_drain_traffic_def split: body.splits)
qed

text \<open>C33. The session type. Over any history of calls the accepted ones form a word of the session type of the
  phase reached: nothing but a valid hello first, the core's reply next, then the \<open>Ready\<close> of exactly the
  announced session, then traffic, and only drain traffic after the core began to drain. Conversely, the
  words of the active and the draining phase are accepted call by call and lead there, so the reducer
  accepts exactly them.\<close>

theorem plugin_session_typed:
  "session_word v (cs_phase (run_events (session_step v) lifecycle_new calls))
     (accepted_events (session_step v) lifecycle_new calls)
   \<and> (active_word v calls \<longleftrightarrow> accepts v calls CpActive)
   \<and> (draining_word v calls \<longleftrightarrow> accepts v calls CpDraining)"
proof -
  have word: "session_word v (cs_phase (run_events (session_step v) lifecycle_new calls))
     (accepted_events (session_step v) lifecycle_new calls)"
    using session_history_inv [of v calls] by (simp add: session_inv_def)
  then have "accepts v calls CpActive \<Longrightarrow> active_word v calls"
    "accepts v calls CpDraining \<Longrightarrow> draining_word v calls" by (auto simp: accepts_def)
  with word accepts_active accepts_draining show ?thesis by blast
qed

text \<open>A closed session is final: after any history that reached the closed phase, no message, no reply and no
  drain is accepted any more, and the session never leaves that phase.\<close>

theorem closed_session_final:
  assumes "cs_phase (run_events (session_step v) lifecycle_new calls) = CpClosed"
  shows "cs_phase (run_events (session_step v) lifecycle_new (calls @ later)) = CpClosed
    \<and> set (accepted_events (session_step v) (run_events (session_step v) lifecycle_new calls) later) \<subseteq> {ScClosed}"
proof -
  have "cs_phase (run_events (session_step v) s later) = CpClosed
      \<and> set (accepted_events (session_step v) s later) \<subseteq> {ScClosed}" if "cs_phase s = CpClosed" for s
    using that
  proof (induction later arbitrary: s)
    case (Cons call later)
    have "call = ScClosed \<and> cs_phase t = CpClosed" if "session_step v s call = Inr t" for t
      using that Cons.prems by (cases call) (auto simp: receive_Inr receive_phase_def mark_core_hello_sent_def
          begin_drain_def mark_shutdown_sent_def mark_closed_def)
    then show ?case using Cons by (auto split: sum.splits)
  qed simp
  then show ?thesis using assms by (simp add: run_events_append)
qed

theorem closed_session_final_witness:
  "cs_phase (run_events (session_step (\<lambda>_. True)) lifecycle_new ([ScClosed] @ [ScBeginDrain])) = CpClosed"
proof -
  have "cs_phase (run_events (session_step (\<lambda>_. True)) lifecycle_new [ScClosed]) = CpClosed"
    by (simp add: mark_closed_def)
  from closed_session_final [OF this, of "[ScBeginDrain]"] show ?thesis by blast
qed

text \<open>Negotiation and session fit together: after a plugin's hello was received and negotiated, the core's
  reply is accepted by the session, and the session then becomes active exactly on a valid \<open>Ready\<close> naming
  the session of that reply.\<close>

theorem negotiated_session_opens:
  assumes "policy_ok policy" and "negotiate_hello v manifest h session_id policy = Inr n"
    and "cs_phase s = CpNeedCoreHello"
  shows "\<exists>t. mark_core_hello_sent v s (ns_core_hello n) = Inr t
    \<and> (\<forall>e. (\<exists>u. lifecycle_receive v t e = Inr u \<and> cs_phase u = CpActive) \<longleftrightarrow>
        validate_envelope v e = Inr () \<and> ev_body e = Some (BReady session_id))"
proof -
  have sid: "ch_session_id (ns_core_hello n) = session_id" using negotiate_Inr [OF assms(2)] by simp
  have "validate_envelope v (plain_envelope ''core_hello'' (BCoreHello (ns_core_hello n))) = Inr ()"
    using core_hello_validates [OF assms(2,1)]
    by (simp add: validate_envelope_def plain_envelope_def validate_identifier_def validate_optional_identifier_def
        rust_simps plugin_limits)
  then have "mark_core_hello_sent v s (ns_core_hello n) = Inr (s\<lparr>cs_session_id := Some session_id, cs_phase := CpAwaitReady\<rparr>)"
    using assms(3) sid by (simp add: mark_core_hello_sent_def)
  moreover have "(\<exists>u. lifecycle_receive v (s\<lparr>cs_session_id := Some session_id, cs_phase := CpAwaitReady\<rparr>) e = Inr u
      \<and> cs_phase u = CpActive) \<longleftrightarrow> validate_envelope v e = Inr () \<and> ev_body e = Some (BReady session_id)" for e
    using receive_ready [of "s\<lparr>cs_session_id := Some session_id, cs_phase := CpAwaitReady\<rparr>" session_id]
    by (auto simp: receive_Inr)
  ultimately show ?thesis by blast
qed

theorem negotiated_session_opens_witness:
  "\<exists>(n :: negotiated_session) t. mark_core_hello_sent (\<lambda>_. True) (lifecycle_new\<lparr>cs_phase := CpNeedCoreHello\<rparr>) (ns_core_hello n) = Inr t
    \<and> ns_granted_permissions n = []
    \<and> (\<forall>e. (\<exists>u. lifecycle_receive (\<lambda>_. True) t e = Inr u \<and> cs_phase u = CpActive) \<longleftrightarrow>
        validate_envelope (\<lambda>_. True) e = Inr () \<and> ev_body e = Some (BReady ''s-1''))"
proof -
  let ?p = "core_plugin_policy_default PlLinux"
  have "\<not> hello_mismatch example_manifest example_hello ?p"
    using example_negotiates(4) by (simp add: hello_mismatch_def)
  then obtain n where n: "negotiate_hello (\<lambda>_. True) example_manifest example_hello ''s-1'' ?p = Inr n"
    using negotiate_succeeds [OF example_negotiates(1,2,3)] policy_default_ok
    by (metis example_subsets)
  have "ns_granted_permissions n = []"
    using negotiate_Inr [OF n] by (simp add: core_plugin_policy_default_def sort_dedup_def)
  then show ?thesis
    using negotiated_session_opens [OF policy_default_ok n, of "lifecycle_new\<lparr>cs_phase := CpNeedCoreHello\<rparr>"]
    by (intro exI [of _ n]) simp
qed

section \<open>Round trip of frames\<close>

text \<open>C35. Whatever envelopes a peer managed to write are read back in order and unchanged, with the bytes that
  follow them left in the reader, and a buffer decodes to an envelope exactly when reading it yields that
  envelope and leaves nothing. So a frame never swallows a part of the next one.\<close>

theorem plugin_frames_roundtrip:
  assumes "codec_ok encoded_len encode decode"
    and "write_envelopes version_ok encoded_len encode [] es config = Inr wire"
  shows "read_envelopes version_ok decode (wire @ rest) (length es) config = Inr (es, rest)
    \<and> (plugin_decode_frame version_ok decode frame config = Inr e \<longleftrightarrow>
       read_envelope version_ok decode frame config = Inr (e, []))"
  using written_frames [OF assms, of rest] decode_frame_iff_read by auto

definition heartbeat :: envelope where
  "heartbeat = plain_envelope ''m1'' (BHeartbeat 1)"

lemma heartbeat_valid: "validate_envelope v heartbeat = Inr ()"
  by (simp add: heartbeat_def validate_envelope_def plain_envelope_def validate_identifier_def
      validate_optional_identifier_def rust_simps plugin_limits)

theorem plugin_frames_roundtrip_witness:
  "let encode = (\<lambda>e. if e = heartbeat then Some ''hb'' else None);
       decode = (\<lambda>bytes. if bytes = ''hb'' then Some heartbeat else None);
       wire = [CHR 0x00, CHR 0x00, CHR 0x00, CHR 0x02] @ ''hb''
   in write_envelopes (\<lambda>_. True) (\<lambda>_. 2) encode [] [heartbeat, heartbeat] frame_codec_config_default
        = Inr (wire @ wire)
      \<and> read_envelopes (\<lambda>_. True) decode ((wire @ wire) @ ''x'') 2 frame_codec_config_default
        = Inr ([heartbeat, heartbeat], ''x'')"
proof -
  let ?e = "\<lambda>e. if e = heartbeat then Some ''hb'' else None"
  let ?d = "\<lambda>bytes. if bytes = ''hb'' then Some heartbeat else None"
  let ?w = "[CHR 0x00, CHR 0x00, CHR 0x00, CHR 0x02] @ ''hb''"
  have ok: "codec_ok (\<lambda>_. 2) ?e ?d" by (simp add: codec_ok_def)
  have be: "be_bytes 4 2 = [CHR 0x00, CHR 0x00, CHR 0x00, CHR 0x02]" by code_simp
  have wire: "write_envelopes (\<lambda>_. True) (\<lambda>_. 2) ?e [] [heartbeat, heartbeat] frame_codec_config_default = Inr (?w @ ?w)"
    by (simp add: write_envelope_def plugin_encode_frame_def heartbeat_valid validate_frame_length_def
        frame_codec_config_default_def plugin_limits be)
  have two: "length [heartbeat, heartbeat] = 2" by simp
  show ?thesis
    unfolding Let_def using wire plugin_frames_roundtrip [OF ok wire, of "''x''", unfolded two] by blast
qed

end
