(* ===== verification/Decision.thy ===== *)
theory Decision
  imports Dispatch_Store
begin

text \<open>
  Advisory routing decisions, \<open>crates/vibemux_decision/src\<close>: identifiers, facts, questions, local rules, the
  fallback chain (\<open>resolve.rs\<close>), the persisted record with its binding to a dispatch (\<open>record.rs\<close>) and the
  payloads it can be rebuilt from (\<open>events.rs\<close>). The validation of a backend's floating-point answer is not
  modelled: a \<open>validated_answer\<close> is what it produces. Checked newtypes are their contents.

  The lemmas show that the chain is exact, that an answer that was not accepted has no influence on the
  choice, and that every record made from a resolution is consistent and rebuilds from its payloads.
\<close>

section \<open>Errors\<close>

datatype decision_error =
    DcNotConfigured | DcNoEligibleHarness | DcUnknownLabel | DcInvalidRequest | DcNotFound | DcEscalated
  | DcExpired | DcAlreadyConsumed | DcHarnessMismatch | DcPromptMismatch | DcConfigChanged | DcInternal

fun decision_error_code :: "decision_error \<Rightarrow> string" where
  "decision_error_code DcNotConfigured = ''decision_not_configured''"
| "decision_error_code DcNoEligibleHarness = ''decision_no_eligible_harness''"
| "decision_error_code DcUnknownLabel = ''decision_unknown_label''"
| "decision_error_code DcInvalidRequest = ''decision_invalid_request''"
| "decision_error_code DcNotFound = ''decision_not_found''"
| "decision_error_code DcEscalated = ''decision_escalated''"
| "decision_error_code DcExpired = ''decision_expired''"
| "decision_error_code DcAlreadyConsumed = ''decision_already_consumed''"
| "decision_error_code DcHarnessMismatch = ''decision_harness_mismatch''"
| "decision_error_code DcPromptMismatch = ''decision_prompt_mismatch''"
| "decision_error_code DcConfigChanged = ''decision_config_changed''"
| "decision_error_code DcInternal = ''decision_internal''"

datatype external_error =
    CredentialUnavailable | PeerUnavailable | PeerBusy | PeerTimeout | PeerCancelled | PeerProtocol
  | ExRequestInvalid | ExTransport | BackendTimeout | RateLimited | ExUnauthorized | HttpStatus
  | RedirectRefused | ResponseTooLarge | ResponseMalformed | AnswerModelMismatch | AnswerUnknownChoice
  | AnswerProbabilityCoverage | AnswerProbabilityRange | AnswerProbabilitySum | AnswerNotArgmax
  | AnswerConfidenceRange

fun is_answer_rejection :: "external_error \<Rightarrow> bool" where
  "is_answer_rejection AnswerModelMismatch = True"
| "is_answer_rejection AnswerUnknownChoice = True"
| "is_answer_rejection AnswerProbabilityCoverage = True"
| "is_answer_rejection AnswerProbabilityRange = True"
| "is_answer_rejection AnswerProbabilitySum = True"
| "is_answer_rejection AnswerNotArgmax = True"
| "is_answer_rejection AnswerConfidenceRange = True"
| "is_answer_rejection _ = False"

section \<open>Identifiers\<close>

definition ESCALATE_OPTION :: string where "ESCALATE_OPTION = ''escalate''"
definition MAX_OPTION_ID_BYTES :: nat where "MAX_OPTION_ID_BYTES = 64"
definition MAX_LABEL_BYTES :: nat where "MAX_LABEL_BYTES = 32"

type_synonym option_id = string
type_synonym label = string

fun has_double_underscore :: "string \<Rightarrow> bool" where
  "has_double_underscore (a # b # s) =
     ((a = CHR ''_'' \<and> b = CHR ''_'') \<or> has_double_underscore (b # s))"
| "has_double_underscore _ = False"

definition is_snake_identifier :: "string \<Rightarrow> nat \<Rightarrow> bool" where
  "is_snake_identifier value max_bytes \<longleftrightarrow>
     (case value of [] \<Rightarrow> False
      | first # _ \<Rightarrow>
          length value \<le> max_bytes \<and> is_ascii_lowercase first
          \<and> list_all (\<lambda>b. is_ascii_lowercase b \<or> is_ascii_digit b \<or> b = CHR ''_'') value
          \<and> last value \<noteq> CHR ''_'' \<and> \<not> has_double_underscore value)"

definition option_id_new :: "string \<Rightarrow> decision_error + option_id" where
  "option_id_new value =
     (if is_snake_identifier value MAX_OPTION_ID_BYTES then Inr value else Inl DcInvalidRequest)"

definition label_new :: "string \<Rightarrow> decision_error + label" where
  "label_new value = (if is_snake_identifier value MAX_LABEL_BYTES then Inr value else Inl DcUnknownLabel)"

definition agent_all :: "agent_kind list" where
  "agent_all = [Claude, Codex, OpenCode, Copilot, Grok, Qwen, Iflow, Trae, Codebuddy, Kimi, Dsh]"

fun display_name :: "agent_kind \<Rightarrow> string" where
  "display_name Claude = ''Claude''"
| "display_name Codex = ''Codex''"
| "display_name OpenCode = ''OpenCode''"
| "display_name Copilot = ''Copilot''"
| "display_name Grok = ''Grok''"
| "display_name Qwen = ''Qwen''"
| "display_name Iflow = ''iFlow''"
| "display_name Trae = ''TRAE''"
| "display_name Codebuddy = ''CodeBuddy''"
| "display_name Kimi = ''Kimi''"
| "display_name Dsh = ''DSH''"

definition harness_from_command_name :: "string \<Rightarrow> agent_kind option" where
  "harness_from_command_name name = find (\<lambda>harness. command_name harness = name) agent_all"

text \<open>\<open>OptionId::harness\<close>, \<open>is_escalate\<close>, \<open>to_harness\<close>.\<close>

definition option_harness :: "agent_kind \<Rightarrow> option_id" where
  "option_harness harness = command_name harness"

definition is_escalate :: "option_id \<Rightarrow> bool" where
  "is_escalate option \<longleftrightarrow> option = ESCALATE_OPTION"

definition to_harness :: "option_id \<Rightarrow> agent_kind option" where
  "to_harness option = harness_from_command_name option"

section \<open>Probabilities\<close>

definition MILLIONTHS_PER_UNIT :: u32 where "MILLIONTHS_PER_UNIT = 1000000"
definition MIN_THRESHOLD_MILLIONTHS :: u32 where "MIN_THRESHOLD_MILLIONTHS = 500000"

type_synonym millionths = u32
type_synonym threshold = u32

definition millionths_new :: "u32 \<Rightarrow> millionths option" where
  "millionths_new value = (if value \<le> MILLIONTHS_PER_UNIT then Some value else None)"

definition threshold_new :: "millionths \<Rightarrow> threshold option" where
  "threshold_new value = (if value \<ge> MIN_THRESHOLD_MILLIONTHS then Some value else None)"

definition threshold_try_from :: "u32 \<Rightarrow> threshold option" where
  "threshold_try_from value = Option.bind (millionths_new value) threshold_new"

definition is_met_by :: "threshold \<Rightarrow> millionths \<Rightarrow> bool" where
  "is_met_by self confidence \<longleftrightarrow> confidence \<ge> self"

section \<open>Facts and questions\<close>

datatype prompt_size_bucket = PromptTiny | PromptSmall | PromptMedium | PromptLarge

definition prompt_size_from_bytes :: "u64 \<Rightarrow> prompt_size_bucket" where
  "prompt_size_from_bytes bytes =
     (if bytes < 1024 then PromptTiny else if bytes < 4 * 1024 then PromptSmall
      else if bytes < 16 * 1024 then PromptMedium else PromptLarge)"

record route_facts =
  rf_labels :: "label list"
  rf_prompt_size :: prompt_size_bucket
  rf_project_default :: "option_id option"

definition filter_option :: "('a \<Rightarrow> bool) \<Rightarrow> 'a option \<Rightarrow> 'a option" where
  "filter_option P x = (case x of None \<Rightarrow> None | Some a \<Rightarrow> if P a then Some a else None)"

definition route_facts_new :: "label list \<Rightarrow> u64 \<Rightarrow> agent_kind option \<Rightarrow> agent_kind list \<Rightarrow> route_facts" where
  "route_facts_new labels prompt_bytes project_default eligible =
     \<lparr>rf_labels = sort_dedup labels, rf_prompt_size = prompt_size_from_bytes prompt_bytes,
      rf_project_default = map_option option_harness (filter_option (\<lambda>h. h \<in> set eligible) project_default)\<rparr>"

definition MAX_REQUEST_LABELS :: nat where "MAX_REQUEST_LABELS = 16"

text \<open>\<open>DecisionConfig::check_labels\<close> over the configured labels.\<close>

fun check_each_label :: "label list \<Rightarrow> string list \<Rightarrow> decision_error + label list" where
  "check_each_label allowed [] = Inr []"
| "check_each_label allowed (value # rest) =
     (case label_new value of Inl e \<Rightarrow> Inl e | Inr label \<Rightarrow>
      if label \<in> set allowed
      then (case check_each_label allowed rest of Inl e \<Rightarrow> Inl e | Inr ls \<Rightarrow> Inr (label # ls))
      else Inl DcUnknownLabel)"

definition check_labels :: "label list \<Rightarrow> string list \<Rightarrow> decision_error + label list" where
  "check_labels allowed requested =
     (if length requested > MAX_REQUEST_LABELS then Inl DcInvalidRequest
      else (case check_each_label allowed requested of Inl e \<Rightarrow> Inl e | Inr labels \<Rightarrow> Inr (sort_dedup labels)))"

datatype decision_kind = HarnessRoute

definition MIN_QUESTION_OPTIONS :: nat where "MIN_QUESTION_OPTIONS = 2"
definition MAX_QUESTION_OPTIONS :: nat where "MAX_QUESTION_OPTIONS = 255"
definition MAX_OPTION_DESCRIPTION_BYTES :: nat where "MAX_OPTION_DESCRIPTION_BYTES = 256"

definition ESCALATE_DESCRIPTION :: string where
  "ESCALATE_DESCRIPTION = ''No harness clearly fits, or the information is insufficient; a human chooses.''"

record question_option =
  qo_id :: option_id
  qo_description :: string

record decision_question =
  dq_kind :: decision_kind
  dq_options :: "question_option list"
  dq_threshold :: threshold

definition is_valid_description :: "string \<Rightarrow> bool" where
  "is_valid_description description \<longleftrightarrow>
     \<not> trim_is_empty description \<and> length description \<le> MAX_OPTION_DESCRIPTION_BYTES
     \<and> \<not> contains_control description"

fun options_ok :: "option_id list \<Rightarrow> question_option list \<Rightarrow> bool" where
  "options_ok seen [] = True"
| "options_ok seen (q # qs) =
     (qo_id q \<notin> set seen \<and> is_valid_description (qo_description q) \<and> options_ok (qo_id q # seen) qs)"

definition question_new ::
  "decision_kind \<Rightarrow> question_option list \<Rightarrow> threshold \<Rightarrow> decision_error + decision_question" where
  "question_new kind options threshold =
     (if \<not> (MIN_QUESTION_OPTIONS \<le> length options \<and> length options \<le> MAX_QUESTION_OPTIONS)
      then Inl DcInvalidRequest
      else if \<not> options_ok [] options then Inl DcInvalidRequest
      else if \<not> list_ex (\<lambda>q. is_escalate (qo_id q)) options then Inl DcInvalidRequest
      else Inr \<lparr>dq_kind = kind, dq_options = options, dq_threshold = threshold\<rparr>)"

definition harness_route ::
  "agent_kind list \<Rightarrow> (option_id \<rightharpoonup> string) \<Rightarrow> threshold \<Rightarrow> decision_error + decision_question" where
  "harness_route eligible descriptions threshold =
     (let options = map (\<lambda>harness. \<lparr>qo_id = option_harness harness,
             qo_description = (case descriptions (option_harness harness) of
                Some d \<Rightarrow> d
              | None \<Rightarrow> ''Route the task to the '' @ display_name harness @ '' harness.'')\<rparr>)
           (filter (\<lambda>harness. harness \<in> set eligible) agent_all)
      in if options = [] then Inl DcNoEligibleHarness
         else question_new HarnessRoute
           (options @ [\<lparr>qo_id = ESCALATE_OPTION,
              qo_description = (case descriptions ESCALATE_OPTION of Some d \<Rightarrow> d | None \<Rightarrow> ESCALATE_DESCRIPTION)\<rparr>])
           threshold)"

definition question_contains :: "decision_question \<Rightarrow> string \<Rightarrow> bool" where
  "question_contains self identifier \<longleftrightarrow> list_ex (\<lambda>q. qo_id q = identifier) (dq_options self)"

definition option_ids :: "decision_question \<Rightarrow> option_id list" where
  "option_ids self = map qo_id (dq_options self)"

section \<open>Local rules\<close>

record local_rule =
  lr_label :: label
  lr_harness :: option_id
  lr_priority :: u32

text \<open>The loop of \<open>match_rule\<close> with the index and the best match so far; an index that does not fit \<open>u32\<close> ends
  it.\<close>

fun match_rule_loop ::
  "local_rule list \<Rightarrow> label list \<Rightarrow> agent_kind list \<Rightarrow> nat \<Rightarrow> (u32 \<times> u32 \<times> agent_kind) option \<Rightarrow>
   (u32 \<times> u32 \<times> agent_kind) option" where
  "match_rule_loop [] labels eligible index best = best"
| "match_rule_loop (rule # rules) labels eligible index best =
     (if lr_label rule \<notin> set labels then match_rule_loop rules labels eligible (Suc index) best
      else (case to_harness (lr_harness rule) of
          None \<Rightarrow> match_rule_loop rules labels eligible (Suc index) best
        | Some harness \<Rightarrow>
            if harness \<notin> set eligible then match_rule_loop rules labels eligible (Suc index) best
            else if index \<ge> 2 ^ 32 then best
            else match_rule_loop rules labels eligible (Suc index)
              (if (case best of None \<Rightarrow> True | Some (_, priority, _) \<Rightarrow> lr_priority rule > priority)
               then Some (word_of_nat index, lr_priority rule, harness) else best)))"

definition match_rule :: "local_rule list \<Rightarrow> label list \<Rightarrow> agent_kind list \<Rightarrow> (u32 \<times> agent_kind) option" where
  "match_rule rules labels eligible =
     map_option (\<lambda>(index, _, harness). (index, harness)) (match_rule_loop rules labels eligible 0 None)"

section \<open>The fallback chain\<close>

datatype decision_status = DsResolved | DsEscalated
datatype decision_source = SrcSingleOption | SrcExternal | SrcLocalRule | SrcProjectDefault | SrcNone
datatype skip_reason = SkipSingleOption | SkipNotRequested | SkipDisabled
datatype external_status =
  ExSingleOption | ExNotRequested | ExDisabled | ExFailed | ExRejected | ExBelowThreshold | ExAccepted
datatype decision_backend = BackendJev

record option_probability =
  op_option :: option_id
  op_probability_millionths :: millionths

record validated_answer =
  va_model :: string
  va_choice :: option_id
  va_probabilities :: "option_probability list"
  va_reported_confidence_millionths :: millionths
  va_normalized_peak_millionths :: millionths
  va_gated_confidence_millionths :: millionths

datatype external_result =
  ErSkipped skip_reason | ErFailed external_error | ErAnswered validated_answer

record external_evidence =
  xe_status :: external_status
  xe_backend :: "decision_backend option"
  xe_error :: "external_error option"
  xe_answer :: "validated_answer option"

record route_resolution =
  rr_status :: decision_status
  rr_chosen_harness :: "agent_kind option"
  rr_source :: decision_source
  rr_rule_index :: "u32 option"
  rr_external :: external_evidence

definition plan_external :: "nat \<Rightarrow> bool \<Rightarrow> bool \<Rightarrow> skip_reason option" where
  "plan_external eligible_count allow_external backend_enabled =
     (if eligible_count = 1 then Some SkipSingleOption
      else if \<not> allow_external then Some SkipNotRequested
      else if \<not> backend_enabled then Some SkipDisabled
      else None)"

fun skipped_status :: "skip_reason \<Rightarrow> external_status" where
  "skipped_status SkipSingleOption = ExSingleOption"
| "skipped_status SkipNotRequested = ExNotRequested"
| "skipped_status SkipDisabled = ExDisabled"

fun external_evidence_of :: "decision_question \<Rightarrow> external_result \<Rightarrow> external_evidence" where
  "external_evidence_of question (ErSkipped reason) =
     \<lparr>xe_status = skipped_status reason, xe_backend = None, xe_error = None, xe_answer = None\<rparr>"
| "external_evidence_of question (ErFailed error) =
     \<lparr>xe_status = (if is_answer_rejection error then ExRejected else ExFailed),
      xe_backend = Some BackendJev, xe_error = Some error, xe_answer = None\<rparr>"
| "external_evidence_of question (ErAnswered answer) =
     (let in_question = question_contains question (va_choice answer);
          met = is_met_by (dq_threshold question) (va_gated_confidence_millionths answer)
      in \<lparr>xe_status = (if \<not> in_question then ExRejected else if met then ExAccepted else ExBelowThreshold),
          xe_backend = Some BackendJev,
          xe_error = (if \<not> in_question then Some AnswerUnknownChoice else None),
          xe_answer = Some answer\<rparr>)"

definition applied ::
  "agent_kind \<Rightarrow> decision_source \<Rightarrow> u32 option \<Rightarrow> external_evidence \<Rightarrow> route_resolution" where
  "applied harness source rule_index external =
     \<lparr>rr_status = DsResolved, rr_chosen_harness = Some harness, rr_source = source,
      rr_rule_index = rule_index, rr_external = external\<rparr>"

definition escalated :: "decision_source \<Rightarrow> external_evidence \<Rightarrow> route_resolution" where
  "escalated source external =
     \<lparr>rr_status = DsEscalated, rr_chosen_harness = None, rr_source = source,
      rr_rule_index = None, rr_external = external\<rparr>"

text \<open>The local part of the chain: rule, project default, operator.\<close>

definition resolve_locally ::
  "agent_kind list \<Rightarrow> label list \<Rightarrow> agent_kind option \<Rightarrow> local_rule list \<Rightarrow> external_evidence \<Rightarrow> route_resolution" where
  "resolve_locally eligible labels project_default rules evidence =
     (case match_rule rules labels eligible of
        Some (index, harness) \<Rightarrow> applied harness SrcLocalRule (Some index) evidence
      | None \<Rightarrow>
          (case filter_option (\<lambda>harness. harness \<in> set eligible) project_default of
             Some harness \<Rightarrow> applied harness SrcProjectDefault None evidence
           | None \<Rightarrow> escalated SrcNone evidence))"

text \<open>The chain when more than one harness is eligible, or none.\<close>

definition resolve_open ::
  "agent_kind list \<Rightarrow> label list \<Rightarrow> agent_kind option \<Rightarrow> local_rule list \<Rightarrow> external_evidence \<Rightarrow> route_resolution" where
  "resolve_open eligible labels project_default rules evidence =
     (if xe_status evidence = ExAccepted
      then (let choice = map_option va_choice (xe_answer evidence) in
        case Option.bind choice to_harness of
          Some harness \<Rightarrow>
            if harness \<in> set eligible then applied harness SrcExternal None evidence
            else if (case choice of None \<Rightarrow> False | Some c \<Rightarrow> is_escalate c)
            then escalated SrcExternal evidence
            else resolve_locally eligible labels project_default rules evidence
        | None \<Rightarrow>
            if (case choice of None \<Rightarrow> False | Some c \<Rightarrow> is_escalate c)
            then escalated SrcExternal evidence
            else resolve_locally eligible labels project_default rules evidence)
      else resolve_locally eligible labels project_default rules evidence)"

definition resolve_route ::
  "decision_question \<Rightarrow> agent_kind list \<Rightarrow> label list \<Rightarrow> agent_kind option \<Rightarrow> local_rule list \<Rightarrow>
   external_result \<Rightarrow> route_resolution" where
  "resolve_route question eligible labels project_default rules external =
     (let evidence = external_evidence_of question external in
      case eligible of
        [only] \<Rightarrow> applied only SrcSingleOption None evidence
      | _ \<Rightarrow> resolve_open eligible labels project_default rules evidence)"

section \<open>The persisted record\<close>

definition DECISION_RECORD_SCHEMA_VERSION :: u32 where "DECISION_RECORD_SCHEMA_VERSION = 1"

text \<open>Fifteen minutes, in nanoseconds.\<close>

definition DECISION_TTL :: int where "DECISION_TTL = 15 * 60 * 1000000000"

record new_decision =
  nd_decision_id :: uuid
  nd_kind :: decision_kind
  nd_options :: "option_id list"
  nd_labels :: "label list"
  nd_prompt :: prompt_digest
  nd_project_default :: "agent_kind option"
  nd_threshold :: threshold
  nd_dispatch_config_sha256 :: digest
  nd_decision_config_sha256 :: digest
  nd_created_at :: instant

record decision_consumption =
  dc_request_id :: uuid
  dc_consumed_at :: instant

record decision_record =
  de_schema_version :: u32
  de_decision_id :: uuid
  de_kind :: decision_kind
  de_status :: decision_status
  de_chosen_harness :: "agent_kind option"
  de_source :: decision_source
  de_rule_index :: "u32 option"
  de_options :: "option_id list"
  de_labels :: "label list"
  de_prompt_size :: prompt_size_bucket
  de_prompt_sha256 :: digest
  de_prompt_bytes :: u64
  de_project_default :: "agent_kind option"
  de_threshold_millionths :: threshold
  de_dispatch_config_sha256 :: digest
  de_decision_config_sha256 :: digest
  de_external :: external_evidence
  de_created_at :: instant
  de_expires_at :: instant
  de_consumption :: "decision_consumption option"

datatype dispatch_binding = BindFresh agent_kind | BindReplay agent_kind

definition decision_record_new :: "new_decision \<Rightarrow> route_resolution \<Rightarrow> decision_record" where
  "decision_record_new input resolution =
     \<lparr>de_schema_version = DECISION_RECORD_SCHEMA_VERSION, de_decision_id = nd_decision_id input,
      de_kind = nd_kind input, de_status = rr_status resolution,
      de_chosen_harness = rr_chosen_harness resolution, de_source = rr_source resolution,
      de_rule_index = rr_rule_index resolution, de_options = nd_options input, de_labels = nd_labels input,
      de_prompt_size = prompt_size_from_bytes (pd_byte_count (nd_prompt input)),
      de_prompt_sha256 = pd_sha256 (nd_prompt input), de_prompt_bytes = pd_byte_count (nd_prompt input),
      de_project_default = nd_project_default input, de_threshold_millionths = nd_threshold input,
      de_dispatch_config_sha256 = nd_dispatch_config_sha256 input,
      de_decision_config_sha256 = nd_decision_config_sha256 input, de_external = rr_external resolution,
      de_created_at = nd_created_at input, de_expires_at = nd_created_at input + DECISION_TTL,
      de_consumption = None\<rparr>"

definition decision_validate :: "decision_record \<Rightarrow> decision_error + unit" where
  "decision_validate self =
     (if de_schema_version self = DECISION_RECORD_SCHEMA_VERSION
         \<and> de_expires_at self = de_created_at self + DECISION_TTL
         \<and> (case de_status self of
              DsResolved \<Rightarrow> (case de_chosen_harness self of None \<Rightarrow> False
                | Some harness \<Rightarrow> option_harness harness \<in> set (de_options self))
            | DsEscalated \<Rightarrow> de_chosen_harness self = None \<and> de_consumption self = None)
         \<and> (de_source self = SrcLocalRule) = (de_rule_index self \<noteq> None)
         \<and> list_ex is_escalate (de_options self)
      then Inr () else Inl DcInternal)"

definition is_expired :: "decision_record \<Rightarrow> instant \<Rightarrow> bool" where
  "is_expired self now \<longleftrightarrow> now < de_created_at self \<or> now \<ge> de_expires_at self"

definition check_dispatchable ::
  "decision_record \<Rightarrow> uuid \<Rightarrow> prompt_digest \<Rightarrow> digest \<Rightarrow> instant \<Rightarrow> decision_error + dispatch_binding" where
  "check_dispatchable self request_id prompt dispatch_config_sha256 now =
     (case decision_validate self of Inl e \<Rightarrow> Inl e | Inr _ \<Rightarrow>
      if (case de_consumption self of None \<Rightarrow> False | Some c \<Rightarrow> dc_request_id c \<noteq> request_id)
      then Inl DcAlreadyConsumed
      else (case (de_status self, de_chosen_harness self) of
          (DsEscalated, _) \<Rightarrow> Inl DcEscalated
        | (DsResolved, None) \<Rightarrow> Inl DcInternal
        | (DsResolved, Some harness) \<Rightarrow>
            if de_prompt_sha256 self \<noteq> pd_sha256 prompt \<or> de_prompt_bytes self \<noteq> pd_byte_count prompt
            then Inl DcPromptMismatch
            else if de_consumption self \<noteq> None then Inr (BindReplay harness)
            else if is_expired self now then Inl DcExpired
            else if de_dispatch_config_sha256 self \<noteq> dispatch_config_sha256 then Inl DcConfigChanged
            else Inr (BindFresh harness)))"

definition mark_consumed :: "decision_record \<Rightarrow> uuid \<Rightarrow> instant \<Rightarrow> decision_error + decision_record" where
  "mark_consumed self request_id consumed_at =
     (if de_status self \<noteq> DsResolved then Inl DcEscalated
      else if de_consumption self \<noteq> None then Inl DcAlreadyConsumed
      else Inr (self\<lparr>de_consumption := Some \<lparr>dc_request_id = request_id, dc_consumed_at = consumed_at\<rparr>\<rparr>))"

section \<open>Event payloads\<close>

text \<open>A recorded payload has every field of the record but the consumption; it is a record of its own here as in
  the code.\<close>

record decision_recorded_payload =
  dp_schema_version :: u32
  dp_decision_id :: uuid
  dp_kind :: decision_kind
  dp_status :: decision_status
  dp_chosen_harness :: "agent_kind option"
  dp_source :: decision_source
  dp_rule_index :: "u32 option"
  dp_options :: "option_id list"
  dp_labels :: "label list"
  dp_prompt_size :: prompt_size_bucket
  dp_prompt_sha256 :: digest
  dp_prompt_bytes :: u64
  dp_project_default :: "agent_kind option"
  dp_threshold_millionths :: threshold
  dp_dispatch_config_sha256 :: digest
  dp_decision_config_sha256 :: digest
  dp_external :: external_evidence
  dp_created_at :: instant
  dp_expires_at :: instant

record decision_consumed_payload =
  dx_decision_id :: uuid
  dx_request_id :: uuid
  dx_harness :: agent_kind
  dx_consumed_at :: instant

definition payload_from_record :: "decision_record \<Rightarrow> decision_error + decision_recorded_payload" where
  "payload_from_record r =
     (if de_consumption r \<noteq> None then Inl DcInternal
      else Inr \<lparr>dp_schema_version = de_schema_version r, dp_decision_id = de_decision_id r, dp_kind = de_kind r,
        dp_status = de_status r, dp_chosen_harness = de_chosen_harness r, dp_source = de_source r,
        dp_rule_index = de_rule_index r, dp_options = de_options r, dp_labels = de_labels r,
        dp_prompt_size = de_prompt_size r, dp_prompt_sha256 = de_prompt_sha256 r,
        dp_prompt_bytes = de_prompt_bytes r, dp_project_default = de_project_default r,
        dp_threshold_millionths = de_threshold_millionths r,
        dp_dispatch_config_sha256 = de_dispatch_config_sha256 r,
        dp_decision_config_sha256 = de_decision_config_sha256 r, dp_external = de_external r,
        dp_created_at = de_created_at r, dp_expires_at = de_expires_at r\<rparr>)"

definition payload_into_record :: "decision_recorded_payload \<Rightarrow> decision_error + decision_record" where
  "payload_into_record p =
     (let r = \<lparr>de_schema_version = dp_schema_version p, de_decision_id = dp_decision_id p, de_kind = dp_kind p,
        de_status = dp_status p, de_chosen_harness = dp_chosen_harness p, de_source = dp_source p,
        de_rule_index = dp_rule_index p, de_options = dp_options p, de_labels = dp_labels p,
        de_prompt_size = dp_prompt_size p, de_prompt_sha256 = dp_prompt_sha256 p,
        de_prompt_bytes = dp_prompt_bytes p, de_project_default = dp_project_default p,
        de_threshold_millionths = dp_threshold_millionths p,
        de_dispatch_config_sha256 = dp_dispatch_config_sha256 p,
        de_decision_config_sha256 = dp_decision_config_sha256 p, de_external = dp_external p,
        de_created_at = dp_created_at p, de_expires_at = dp_expires_at p, de_consumption = None\<rparr>
      in case decision_validate r of Inl e \<Rightarrow> Inl e | Inr _ \<Rightarrow> Inr r)"

definition rebuild_record ::
  "decision_recorded_payload \<Rightarrow> decision_consumed_payload option \<Rightarrow> decision_error + decision_record" where
  "rebuild_record recorded consumed =
     (case payload_into_record recorded of Inl e \<Rightarrow> Inl e | Inr r \<Rightarrow>
     (case consumed of None \<Rightarrow> Inr r
      | Some c \<Rightarrow>
          if dx_decision_id c \<noteq> de_decision_id r \<or> Some (dx_harness c) \<noteq> de_chosen_harness r then Inl DcInternal
          else (case mark_consumed r (dx_request_id c) (dx_consumed_at c) of Inl _ \<Rightarrow> Inl DcInternal | Inr r1 \<Rightarrow>
               (case decision_validate r1 of Inl e \<Rightarrow> Inl e | Inr _ \<Rightarrow> Inr r1))))"

definition decision_idempotency_key :: "(uuid \<Rightarrow> string) \<Rightarrow> uuid \<Rightarrow> string \<Rightarrow> string" where
  "decision_idempotency_key uuid_text decision_id event_type =
     ''decision:'' @ uuid_text decision_id @ '':'' @ strip_prefix_or ''decision_'' event_type"

section \<open>Local rules are matched exactly\<close>

definition rule_matches :: "local_rule list \<Rightarrow> label list \<Rightarrow> agent_kind list \<Rightarrow> nat \<Rightarrow> agent_kind \<Rightarrow> bool" where
  "rule_matches rules labels eligible i harness \<longleftrightarrow>
     i < length rules \<and> lr_label (rules ! i) \<in> set labels \<and> to_harness (lr_harness (rules ! i)) = Some harness
     \<and> harness \<in> set eligible"

text \<open>The candidates of the loop, in order, and the first of highest priority among them.\<close>

fun rule_candidates ::
  "local_rule list \<Rightarrow> label list \<Rightarrow> agent_kind list \<Rightarrow> nat \<Rightarrow> (nat \<times> u32 \<times> agent_kind) list" where
  "rule_candidates [] labels eligible index = []"
| "rule_candidates (rule # rules) labels eligible index =
     (case to_harness (lr_harness rule) of
        Some harness \<Rightarrow> (if lr_label rule \<in> set labels \<and> harness \<in> set eligible
          then [(index, lr_priority rule, harness)] else [])
      | None \<Rightarrow> []) @ rule_candidates rules labels eligible (Suc index)"

fun pick_best :: "(nat \<times> u32 \<times> agent_kind) option \<Rightarrow> nat \<times> u32 \<times> agent_kind \<Rightarrow> (nat \<times> u32 \<times> agent_kind) option" where
  "pick_best None c = Some c"
| "pick_best (Some b) c = (if fst (snd c) > fst (snd b) then Some c else Some b)"

definition narrow :: "nat \<times> u32 \<times> agent_kind \<Rightarrow> u32 \<times> u32 \<times> agent_kind" where
  "narrow c = (word_of_nat (fst c), snd c)"

lemma narrow_simp [simp]: "narrow (i, p, h) = (word_of_nat i, p, h)"
  by (simp add: narrow_def)

lemma match_rule_loop_picks:
  "index + length rules \<le> 2 ^ 32 \<Longrightarrow>
   match_rule_loop rules labels eligible index (map_option narrow best) =
   map_option narrow (foldl pick_best best (rule_candidates rules labels eligible index))"
proof (induction rules arbitrary: index best)
  case (Cons rule rules)
  have IH: "match_rule_loop rules labels eligible (Suc index) (map_option narrow b) =
      map_option narrow (foldl pick_best b (rule_candidates rules labels eligible (Suc index)))" for b
    by (rule Cons.IH) (use Cons.prems in simp)
  have small: "index < 2 ^ 32" using Cons.prems by simp
  show ?case
  proof (cases "to_harness (lr_harness rule)")
    case None
    then show ?thesis using IH [of best] by simp
  next
    case (Some harness)
    show ?thesis
    proof (cases best)
      case None
      then show ?thesis using Some small IH [of "None"] IH [of "Some (index, lr_priority rule, harness)"]
        by simp
    next
      case (Some b)
      then show ?thesis using \<open>to_harness (lr_harness rule) = Some harness\<close> small IH [of best]
          IH [of "Some (index, lr_priority rule, harness)"]
        by (cases b) auto
    qed
  qed
qed simp

lemma pick_best_foldl:
  "foldl pick_best best cs = r \<Longrightarrow>
   (case r of None \<Rightarrow> best = None \<and> cs = []
    | Some c \<Rightarrow> (\<forall>d \<in> set cs \<union> set_option best. fst (snd d) \<le> fst (snd c))
        \<and> (best = Some c \<or> (c \<in> set cs \<and> (\<forall>b. best = Some b \<longrightarrow> fst (snd b) < fst (snd c))
             \<and> (\<exists>us vs. cs = us @ c # vs \<and> (\<forall>u \<in> set us. fst (snd u) < fst (snd c))))))"
proof (induction cs arbitrary: best)
  case Nil
  then show ?case by (auto split: option.splits)
next
  case (Cons d cs)
  have IH: "case r of None \<Rightarrow> pick_best best d = None \<and> cs = []
    | Some c \<Rightarrow> (\<forall>x \<in> set cs \<union> set_option (pick_best best d). fst (snd x) \<le> fst (snd c))
        \<and> (pick_best best d = Some c \<or> (c \<in> set cs \<and> (\<forall>b. pick_best best d = Some b \<longrightarrow> fst (snd b) < fst (snd c))
             \<and> (\<exists>us vs. cs = us @ c # vs \<and> (\<forall>u \<in> set us. fst (snd u) < fst (snd c)))))"
    using Cons.IH [of "pick_best best d"] Cons.prems by simp
  have picked: "pick_best best d \<noteq> None" by (cases best) (simp_all del: not_None_eq)
  then obtain c where r: "r = Some c" using IH by (cases r) auto
  obtain b' where b': "pick_best best d = Some b'" "fst (snd d) \<le> fst (snd b')"
    "\<forall>b. best = Some b \<longrightarrow> fst (snd b) \<le> fst (snd b')" "b' = d \<longrightarrow> (\<forall>b. best = Some b \<longrightarrow> b = d \<or> fst (snd b) < fst (snd d))"
    "b' = d \<or> best = Some b'"
    using picked by (cases best; cases "fst (snd (the best)) < fst (snd d)"; cases d) auto
  have le: "\<forall>x \<in> set (d # cs) \<union> set_option best. fst (snd x) \<le> fst (snd c)"
    using IH r b' by (auto intro: order_trans)
  show ?case
  proof (cases "b' = c")
    case True
    have "\<exists>us vs. d # cs = us @ d # vs \<and> (\<forall>u \<in> set us. fst (snd u) < fst (snd d))"
      by (rule exI [of _ "[]"], rule exI [of _ cs]) simp
    then show ?thesis using True le b'(4,5) r by auto
  next
    case False
    then obtain us vs where cs: "cs = us @ c # vs" "\<forall>u \<in> set us. fst (snd u) < fst (snd c)" "fst (snd b') < fst (snd c)"
      using IH r b'(1) by auto
    then have "d # cs = (d # us) @ c # vs" "\<forall>u \<in> set (d # us). fst (snd u) < fst (snd c)"
      using b'(2) by (auto intro: le_less_trans)
    moreover have "\<forall>b. best = Some b \<longrightarrow> fst (snd b) < fst (snd c)" using b'(3) cs(3) by (auto intro: le_less_trans)
    moreover have "c \<in> set (d # cs)" using cs(1) by simp
    ultimately have "c \<in> set (d # cs) \<and> (\<forall>b. best = Some b \<longrightarrow> fst (snd b) < fst (snd c))
        \<and> (\<exists>us vs. d # cs = us @ c # vs \<and> (\<forall>u \<in> set us. fst (snd u) < fst (snd c)))"
      by blast
    then show ?thesis using le r by simp
  qed
qed

lemma rule_candidates_set:
  "(i, p, h) \<in> set (rule_candidates rules labels eligible index) \<longleftrightarrow>
   (\<exists>k. i = index + k \<and> rule_matches rules labels eligible k h \<and> p = lr_priority (rules ! k))"
proof (induction rules arbitrary: index)
  case (Cons rule rules)
  have split: "rule_matches (rule # rules) labels eligible k h \<longleftrightarrow>
      (k = 0 \<and> lr_label rule \<in> set labels \<and> to_harness (lr_harness rule) = Some h \<and> h \<in> set eligible)
      \<or> (\<exists>m. k = Suc m \<and> rule_matches rules labels eligible m h)" for k
    by (cases k) (auto simp: rule_matches_def)
  show ?case
    using Cons [of "Suc index"] unfolding split by (auto split: option.splits if_splits)
qed (simp add: rule_matches_def)

lemma rule_candidates_sorted: "sorted_wrt (<) (map fst (rule_candidates rules labels eligible index))"
proof (induction rules arbitrary: index)
  case (Cons rule rules)
  have "\<forall>c \<in> set (rule_candidates rules labels eligible (Suc index)). index < fst c"
    using rule_candidates_set [of _ _ _ rules labels eligible "Suc index"] by fastforce
  with Cons show ?case by (auto split: option.splits)
qed simp

lemma match_rule_best:
  assumes len: "length rules \<le> 2 ^ 32"
  shows "case match_rule rules labels eligible of
      None \<Rightarrow> \<forall>i h. \<not> rule_matches rules labels eligible i h
    | Some (w, h) \<Rightarrow> \<exists>i. w = word_of_nat i \<and> rule_matches rules labels eligible i h
        \<and> (\<forall>j g. rule_matches rules labels eligible j g \<longrightarrow>
            lr_priority (rules ! j) < lr_priority (rules ! i)
            \<or> lr_priority (rules ! j) = lr_priority (rules ! i) \<and> i \<le> j)"
proof -
  let ?cs = "rule_candidates rules labels eligible 0"
  have loop: "match_rule_loop rules labels eligible 0 None = map_option narrow (foldl pick_best None ?cs)"
    using match_rule_loop_picks [of 0 rules labels eligible None] len by simp
  show ?thesis
  proof (cases "foldl pick_best None ?cs")
    case None
    then have "?cs = []" using pick_best_foldl [OF None] by simp
    then have "\<not> rule_matches rules labels eligible i h" for i h
      using rule_candidates_set [of "0 + i" "lr_priority (rules ! i)" h rules labels eligible 0] by auto
    then show ?thesis using None loop by (simp add: match_rule_def)
  next
    case (Some c)
    obtain i p h where c: "c = (i, p, h)" by (cases c)
    from pick_best_foldl [OF Some] obtain us vs where le: "\<forall>d \<in> set ?cs. fst (snd d) \<le> p"
      and cs: "?cs = us @ c # vs" "\<forall>u \<in> set us. fst (snd u) < p" by (auto simp: c)
    have i: "rule_matches rules labels eligible i h" "p = lr_priority (rules ! i)"
      using rule_candidates_set [of i p h rules labels eligible 0] cs c by auto
    have best: "lr_priority (rules ! j) < p \<or> lr_priority (rules ! j) = p \<and> i \<le> j"
      if j: "rule_matches rules labels eligible j g" for j g
    proof -
      let ?d = "(j, lr_priority (rules ! j), g)"
      have d: "?d \<in> set ?cs" using rule_candidates_set [of j _ g rules labels eligible 0] j by auto
      then have "?d \<in> set us \<or> ?d \<in> set (c # vs)" using cs by auto
      then show ?thesis
      proof
        assume "?d \<in> set us"
        then show ?thesis using cs(2) by auto
      next
        assume "?d \<in> set (c # vs)"
        moreover have "sorted_wrt (<) (i # map fst vs)"
          using rule_candidates_sorted [of rules labels eligible 0] cs(1) c by (simp add: sorted_wrt_append)
        ultimately have "i \<le> j" using c by fastforce
        moreover have "lr_priority (rules ! j) \<le> p" using le d by auto
        ultimately show ?thesis by auto
      qed
    qed
    have "match_rule rules labels eligible = Some (word_of_nat i, h)"
      using Some loop c by (simp add: match_rule_def)
    then show ?thesis using i best by auto
  qed
qed

section \<open>The chain is exact\<close>

lemma agent_all_complete: "h \<in> set agent_all"
  by (cases h) (simp_all add: agent_all_def)

lemma to_harness_command [simp]: "to_harness (option_harness h) = Some h"
  by (cases h) (simp_all add: to_harness_def harness_from_command_name_def option_harness_def agent_all_def)

lemma to_harness_Some: "to_harness c = Some h \<Longrightarrow> c = option_harness h"
  unfolding to_harness_def harness_from_command_name_def option_harness_def by (auto simp: find_Some_iff)

lemma to_harness_escalate [simp]: "to_harness ESCALATE_OPTION = None"
  by (simp add: to_harness_def harness_from_command_name_def agent_all_def ESCALATE_OPTION_def)

lemma question_of_route:
  assumes "harness_route eligible descriptions threshold = Inr q"
  shows "set (option_ids q) = insert ESCALATE_OPTION (option_harness ` set eligible)
    \<and> dq_threshold q = threshold \<and> eligible \<noteq> []"
proof -
  have "filter (\<lambda>h. h \<in> set eligible) agent_all \<noteq> []" "q = \<lparr>dq_kind = HarnessRoute,
      dq_options = map (\<lambda>harness. \<lparr>qo_id = option_harness harness,
             qo_description = (case descriptions (option_harness harness) of
                Some d \<Rightarrow> d
              | None \<Rightarrow> ''Route the task to the '' @ display_name harness @ '' harness.'')\<rparr>)
           (filter (\<lambda>harness. harness \<in> set eligible) agent_all) @ [\<lparr>qo_id = ESCALATE_OPTION,
              qo_description = (case descriptions ESCALATE_OPTION of Some d \<Rightarrow> d | None \<Rightarrow> ESCALATE_DESCRIPTION)\<rparr>],
      dq_threshold = threshold\<rparr>"
    using assms by (auto simp: harness_route_def question_new_def Let_def split: if_splits)
  then show ?thesis using agent_all_complete by (auto simp: option_ids_def image_iff filter_empty_conv)
qed

lemma question_contains_ids: "question_contains q c \<longleftrightarrow> c \<in> set (option_ids q)"
  by (auto simp: question_contains_def option_ids_def list_ex_iff)

lemma resolve_locally_eligible:
  "rr_chosen_harness (resolve_locally eligible labels project_default rules ev) = Some h \<Longrightarrow>
   length rules \<le> 2 ^ 32 \<Longrightarrow> h \<in> set eligible"
  using match_rule_best [of rules labels eligible]
  by (auto simp: resolve_locally_def applied_def escalated_def filter_option_def rule_matches_def
      split: option.splits if_splits)

lemma resolve_locally_shape:
  "let r = resolve_locally eligible labels project_default rules ev in
   (rr_status r = DsResolved \<longleftrightarrow> rr_chosen_harness r \<noteq> None)
   \<and> (rr_source r = SrcLocalRule \<longleftrightarrow> rr_rule_index r \<noteq> None) \<and> rr_source r \<noteq> SrcExternal
   \<and> rr_source r \<noteq> SrcSingleOption \<and> rr_external r = ev"
  by (simp add: resolve_locally_def applied_def escalated_def split: option.splits prod.splits)

lemma resolve_route_shape:
  "let r = resolve_route q eligible labels project_default rules ext in
   (rr_status r = DsResolved \<longleftrightarrow> rr_chosen_harness r \<noteq> None)
   \<and> (rr_source r = SrcLocalRule \<longleftrightarrow> rr_rule_index r \<noteq> None)
   \<and> rr_external r = external_evidence_of q ext"
  using resolve_locally_shape [of eligible labels project_default rules "external_evidence_of q ext"]
  by (auto simp: resolve_route_def resolve_open_def Let_def applied_def escalated_def split: list.splits option.splits)

lemma resolve_route_eligible:
  "rr_chosen_harness (resolve_route q eligible labels project_default rules ext) = Some h \<Longrightarrow>
   length rules \<le> 2 ^ 32 \<Longrightarrow> h \<in> set eligible"
  using resolve_locally_eligible [of eligible labels project_default rules "external_evidence_of q ext" h]
  by (auto simp: resolve_route_def resolve_open_def Let_def applied_def escalated_def split: list.splits option.splits if_splits)


definition example_answer :: validated_answer where
  "example_answer = \<lparr>va_model = ''jev-1.13.0'', va_choice = ''codex'', va_probabilities = [],
     va_reported_confidence_millionths = 950000, va_normalized_peak_millionths = 930000,
     va_gated_confidence_millionths = 930000\<rparr>"

lemma example_question: "\<exists>q. harness_route [Claude, Codex] Map.empty 900000 = Inr q"
  by (simp add: harness_route_def agent_all_def question_new_def MIN_QUESTION_OPTIONS_def MAX_QUESTION_OPTIONS_def
      option_harness_def is_valid_description_def rust_simps MAX_OPTION_DESCRIPTION_BYTES_def is_escalate_def
      ESCALATE_OPTION_def ESCALATE_DESCRIPTION_def)


section \<open>Records\<close>

lemma decision_new_valid:
  assumes "harness_route eligible descriptions threshold = Inr q" and "length rules \<le> 2 ^ 32"
    and "nd_options input = option_ids q"
  shows "decision_validate (decision_record_new input
      (resolve_route q eligible labels project_default rules ext)) = Inr ()"
proof -
  let ?r = "resolve_route q eligible labels project_default rules ext"
  note shape = resolve_route_shape [of q eligible labels project_default rules ext, unfolded Let_def]
  have "option_harness h \<in> set (nd_options input)" if "rr_chosen_harness ?r = Some h" for h
    using resolve_route_eligible [OF that assms(2)] question_of_route [OF assms(1)] assms(3) by auto
  moreover have "list_ex is_escalate (nd_options input)"
    using question_of_route [OF assms(1)] assms(3) by (auto simp: list_ex_iff is_escalate_def)
  ultimately show ?thesis using shape
    by (cases "rr_status ?r"; cases "rr_chosen_harness ?r") (auto simp: decision_validate_def decision_record_new_def)
qed

lemma payload_rebuilds:
  assumes "decision_validate r = Inr ()" and "de_consumption r = None"
  shows "\<exists>p. payload_from_record r = Inr p \<and> payload_into_record p = Inr r"
  using assms by (cases r) (auto simp: payload_from_record_def payload_into_record_def)

lemma mark_consumed_valid:
  assumes "decision_validate r = Inr ()" and "mark_consumed r request_id t = Inr r'"
  shows "decision_validate r' = Inr () \<and> de_consumption r = None
    \<and> r' = r\<lparr>de_consumption := Some \<lparr>dc_request_id = request_id, dc_consumed_at = t\<rparr>\<rparr>
    \<and> (\<exists>h. de_chosen_harness r = Some h)"
  using assms by (auto simp: mark_consumed_def decision_validate_def split: if_splits option.splits)

text \<open>A decision survives in its events: the record of every resolution of a question built from the
  eligible harnesses is consistent; recording it and then consuming it gives payloads from which exactly
  the stored record is rebuilt, before and after the consumption.\<close>

theorem decision_rebuilds_from_events:
  assumes "harness_route eligible descriptions threshold = Inr q" and "length rules \<le> 2 ^ 32"
    and "nd_options input = option_ids q"
    and "r = decision_record_new input (resolve_route q eligible labels project_default rules ext)"
  shows "\<exists>p. payload_from_record r = Inr p \<and> rebuild_record p None = Inr r
    \<and> (\<forall>request_id t r'. mark_consumed r request_id t = Inr r' \<longrightarrow>
        rebuild_record p (Some \<lparr>dx_decision_id = de_decision_id r, dx_request_id = request_id,
          dx_harness = the (de_chosen_harness r), dx_consumed_at = t\<rparr>) = Inr r')"
proof -
  have valid: "decision_validate r = Inr ()" unfolding assms(4) by (rule decision_new_valid [OF assms(1-3)])
  have "de_consumption r = None" by (simp add: assms(4) decision_record_new_def)
  from payload_rebuilds [OF valid this] obtain p where p: "payload_from_record r = Inr p" "payload_into_record p = Inr r"
    by blast
  have "rebuild_record p (Some \<lparr>dx_decision_id = de_decision_id r, dx_request_id = request_id,
          dx_harness = the (de_chosen_harness r), dx_consumed_at = t\<rparr>) = Inr r'"
    if c: "mark_consumed r request_id t = Inr r'" for request_id t r'
    using p(2) mark_consumed_valid [OF valid c] c by (auto simp: rebuild_record_def)
  then show ?thesis using p by (auto simp: rebuild_record_def)
qed

text \<open>A fresh binding, exactly.\<close>

lemma check_dispatchable_Inr:
  "check_dispatchable r request_id prompt config now = Inr b \<longleftrightarrow>
   decision_validate r = Inr () \<and> de_status r = DsResolved
   \<and> de_prompt_sha256 r = pd_sha256 prompt \<and> de_prompt_bytes r = pd_byte_count prompt
   \<and> (\<exists>h. de_chosen_harness r = Some h \<and>
        (case de_consumption r of
           None \<Rightarrow> b = BindFresh h \<and> \<not> is_expired r now \<and> de_dispatch_config_sha256 r = config
         | Some c \<Rightarrow> b = BindReplay h \<and> dc_request_id c = request_id))"
  unfolding check_dispatchable_def
  by (cases "decision_validate r"; cases "de_status r"; cases "de_chosen_harness r"; cases "de_consumption r")
    (auto split: if_splits)

theorem decision_rebuilds_from_events_witness:
  "\<exists>q p. let r = decision_record_new
      \<lparr>nd_decision_id = 1, nd_kind = HarnessRoute, nd_options = option_ids q, nd_labels = [],
       nd_prompt = \<lparr>pd_sha256 = 7, pd_byte_count = 3\<rparr>, nd_project_default = None, nd_threshold = 900000,
       nd_dispatch_config_sha256 = 0, nd_decision_config_sha256 = 0, nd_created_at = 0\<rparr>
      (resolve_route q [Claude, Codex] [] (Some Claude) [] (ErSkipped SkipDisabled))
    in harness_route [Claude, Codex] Map.empty 900000 = Inr q
      \<and> payload_from_record r = Inr p \<and> rebuild_record p None = Inr r"
proof -
  obtain q where q: "harness_route [Claude, Codex] Map.empty 900000 = Inr q" using example_question by blast
  show ?thesis
    unfolding Let_def
    using decision_rebuilds_from_events [OF q _ _ refl, of "[]"
        "\<lparr>nd_decision_id = 1, nd_kind = HarnessRoute, nd_options = option_ids q, nd_labels = [],
          nd_prompt = \<lparr>pd_sha256 = 7, pd_byte_count = 3\<rparr>, nd_project_default = None, nd_threshold = 900000,
          nd_dispatch_config_sha256 = 0, nd_decision_config_sha256 = 0, nd_created_at = 0\<rparr>"
        "[]" "Some Claude" "ErSkipped SkipDisabled"] q
    by (intro exI [of _ q]) auto
qed

end
