(* ===== verification/Dispatch_Frames.thy ===== *)
theory Dispatch_Frames
  imports Dispatch_Histories
begin

text \<open>
  What a transaction of another component may rely on when it shares the database with the dispatch
  writer of \<open>crates/vibemux_store/src/harness_dispatch.rs\<close>: no command forgets an attempt or changes its identity,
  and an event under a key of another component leaves the dispatch table sound.
\<close>

section \<open>What the dispatch table keeps\<close>

definition same_attempt :: "stored_dispatch \<Rightarrow> stored_dispatch \<Rightarrow> bool" where
  "same_attempt x y \<longleftrightarrow>
     row_id y = row_id x \<and> dr_harness (sx_record y) = dr_harness (sx_record x)
     \<and> dr_prompt (sx_record y) = dr_prompt (sx_record x)
     \<and> dr_config_sha256 (sx_record y) = dr_config_sha256 (sx_record x)
     \<and> dr_resource_key (sx_record y) = dr_resource_key (sx_record x)
     \<and> dr_created_at (sx_record y) = dr_created_at (sx_record x)"

text \<open>No attempt is forgotten or changes identity, and the log grows.\<close>

definition keeps :: "dispatch_db \<Rightarrow> dispatch_db \<Rightarrow> bool" where
  "keeps db db' \<longleftrightarrow>
     (\<forall>x \<in> set (db_rows db). \<exists>y \<in> set (db_rows db'). same_attempt x y)
     \<and> length (db_events db) \<le> length (db_events db')"

lemma same_attempt_trans: "same_attempt x y \<Longrightarrow> same_attempt y z \<Longrightarrow> same_attempt x z"
  by (simp add: same_attempt_def)

lemma keeps_refl [simp]: "keeps db db"
  by (auto simp: keeps_def same_attempt_def)

lemma keeps_trans: "keeps a b \<Longrightarrow> keeps b c \<Longrightarrow> keeps a c"
  unfolding keeps_def by (meson order_trans same_attempt_trans)

lemma insert_event_keeps: "insert_event db e = Inr (db1, n) \<Longrightarrow> keeps db db1"
  by (auto simp: insert_event_def keeps_def same_attempt_def split: if_splits)

lemma commit_transition_keeps:
  assumes inv: "store_inv env db" and x: "x \<in> set (db_rows db)"
    and c: "commit_transition env fresh db x tr fin ts = Inr (db', commit, fence)"
  shows "keeps db db'"
  using c
proof (cases rule: commit_transition_cases)
  case unchanged
  then show ?thesis by simp
next
  case (changed t event y)
  have same: "same_attempt x y"
  proof -
    obtain v where "sx_record y = transition_record (sx_record x) t fin ts v"
      using changed(1) unfolding row_change_def by blast
    then show ?thesis by (cases fin) (simp_all add: same_attempt_def transition_record_def)
  qed
  have "z = x" if "z \<in> set (db_rows db)" "row_id z = row_id y" for z
    using that x inv same by (auto simp: store_inv_def same_attempt_def dest: inj_onD [OF distinct_map [THEN iffD1, THEN conjunct2]])
  then have "\<exists>w \<in> set (db_rows db'). same_attempt z w" if "z \<in> set (db_rows db)" for z
    using that same unfolding changed(5)
    by (cases "row_id z = row_id y") (auto simp: same_attempt_def image_iff intro: bexI [of _ z])
  then show ?thesis unfolding keeps_def using changed(5) by simp
qed

lemma recover_loop_keeps:
  assumes "env_ok env" and "store_inv env db" and "recover_loop env fence ts ids db rec = Inr (db', rec')"
  shows "keeps db db'"
  using assms(2,3)
proof (induction ids arbitrary: db rec)
  case (Cons i ids)
  show ?case
  proof (cases "recover_one env fence ts i db")
    case (Inl e)
    then show ?thesis using Cons by (auto split: if_splits)
  next
    case (Inr p)
    obtain db1 c where p: "p = (db1, c)" by (cases p)
    then have one: "recover_one env fence ts i db = Inr (db1, c)" using Inr by simp
    have "keeps db db1"
      using one commit_transition_keeps [OF Cons.prems(1)] load_existing_Inr [of env db i]
      by (auto simp: recover_one_def split: sum.splits)
    moreover have "store_inv env db1" using recover_one_inv [OF assms(1) Cons.prems(1) one] by simp
    ultimately show ?thesis
      using Cons.IH [of db1] Cons.prems(2) one by (auto split: if_splits intro: keeps_trans)
  qed
qed simp

lemma admit_dispatch_keeps:
  "admit_dispatch env p t r db adm = Inr (db', c) \<Longrightarrow> keeps db db'"
  by (erule admit_dispatch_cases) (auto simp: keeps_def same_attempt_def)

lemma dispatch_step_keeps:
  assumes "env_ok env" and inv: "store_inv env db" and "dispatch_step env db op = Inr db'"
  shows "keeps db db'"
proof (cases op)
  case (OpAdmit p t r adm)
  then show ?thesis using assms(3) admit_dispatch_keeps by (auto simp: dispatch_step_def split: sum.splits)
next
  case (OpClaim f i ts)
  then show ?thesis
    using assms(3) commit_transition_keeps [OF inv] load_existing_Inr [of env db i]
    by (auto simp: dispatch_step_def claim_dispatch_def split: sum.splits option.splits)
next
  case (OpFinish fin)
  then show ?thesis
    using assms(3) commit_transition_keeps [OF inv] load_existing_Inr [of env db "fi_request_id fin"]
    by (auto simp: dispatch_step_def finish_dispatch_def split: sum.splits if_splits)
next
  case (OpCancel i ts)
  then show ?thesis
    using assms(3) commit_transition_keeps [OF inv] load_existing_Inr [of env db i]
    by (auto simp: dispatch_step_def cancel_dispatch_def split: sum.splits)
next
  case (OpRecover ts)
  then show ?thesis
    using assms(3) recover_loop_keeps [OF assms(1) inv]
    by (auto simp: dispatch_step_def recover_dispatches_def split: sum.splits)
qed

lemma admit_dispatch_fresh:
  assumes "admit_dispatch env p t r db adm = Inr (db', c)" and "hc_event c \<noteq> None"
  shows "\<exists>x \<in> set (db_rows db'). row_id x = da_request_id adm \<and> dr_harness (sx_record x) = da_harness adm
    \<and> dr_prompt (sx_record x) = da_prompt adm \<and> dr_config_sha256 (sx_record x) = da_config_sha256 adm
    \<and> dr_resource_key (sx_record x) = da_resource_key adm
    \<and> dr_created_at (sx_record x) = da_timestamp adm"
  using assms(1)
proof (cases rule: admit_dispatch_cases)
  case (repeated stored)
  then have "hc_event c = None"
    using assms(1) by (auto simp: admit_dispatch_def Let_def unchanged_commit_def split: if_splits)
  with assms(2) show ?thesis by simp
next
  case (admitted task run x)
  then show ?thesis by (intro bexI [of _ x]) (auto simp: admitted_record_def)
qed

section \<open>Events of other components\<close>

lemma insert_other_event_inv:
  assumes "store_inv env db" and "insert_event db e = Inr (db1, n)"
    and "\<And>r u. ee_idempotency_key e \<noteq> idempotency_key env r u"
  shows "store_inv env db1 \<and> db_rows db1 = db_rows db \<and> n = Suc (length (db_events db))
    \<and> length (db_events db1) = n"
proof -
  from assms(2) have db1: "db1 = db\<lparr>db_events := db_events db @ [e]\<rparr>" "n = Suc (length (db_events db))"
    and new: "ee_idempotency_key e \<notin> ee_idempotency_key ` set (db_events db)"
    by (simp_all add: insert_event_def split: if_splits)
  have old: "keys_logged env db" using assms(1) unfolding store_inv_def by blast
  have "keys_logged env db1"
    unfolding keys_logged_def
  proof (intro ballI allI impI)
    fix f r u
    assume f: "f \<in> set (db_events db1)" and u: "u \<in> set dispatch_event_types"
      and key: "ee_idempotency_key f = idempotency_key env r u"
    have "f \<noteq> e" using key assms(3) by metis
    then have "f \<in> set (db_events db)" using f db1(1) by simp
    then have "\<exists>x \<in> set (db_rows db). row_id x = r \<and> u \<in> set (emitted (row_phase x))"
      using old u key unfolding keys_logged_def by blast
    then show "\<exists>x \<in> set (db_rows db1). row_id x = r \<and> u \<in> set (emitted (row_phase x))"
      using db1(1) by simp
  qed
  moreover have rows: "db_rows db1 = db_rows db" using db1(1) by simp
  moreover have "distinct (map ee_idempotency_key (db_events db))" using assms(1) unfolding store_inv_def by blast
  then have "distinct (map ee_idempotency_key (db_events db1))" using new db1(1) by simp
  moreover have "unique_active db" using assms(1) unfolding store_inv_def by blast
  then have "unique_active db1" unfolding unique_active_def rows .
  moreover have "distinct (map row_id (db_rows db1)) \<and> (\<forall>x \<in> set (db_rows db1). row_inv env x)"
    using assms(1) unfolding store_inv_def rows by blast
  moreover have "length (db_events db1) = n" using db1 by simp
  ultimately show ?thesis using db1(2) unfolding store_inv_def by blast
qed

end
