(* ===== verification/Decision_Store.thy ===== *)
theory Decision_Store
  imports Decision Dispatch_Frames
begin

text \<open>
  Decisions in the store, \<open>crates/vibemux_store/src/decision.rs\<close>: recording a decision, and admitting the
  dispatch it authorised while consuming it, in one transaction over the dispatch table, the decision
  table and the event log. The rows are typed; the payloads of decision events are kept beside the log.
  Whether \<open>EventDraft\<close> accepts a payload (its encoded size and values) is the parameter \<open>payload_ok\<close>.

  The lemmas show that over any history, interleaved with every other dispatch command, a decision is
  used by at most one dispatch and forever by that one, a dispatch by at most one decision, that the
  dispatch agrees with the decision, and that every row can be rebuilt from the logged payloads.
\<close>

section \<open>Tables and transactions\<close>

record decision_row =
  dw_decision_id :: uuid
  dw_status :: decision_status
  dw_consumed_request_id :: "uuid option"
  dw_record :: decision_record
  dw_created_sequence :: nat
  dw_updated_sequence :: nat

datatype decision_payload = DlRecorded decision_recorded_payload | DlConsumed decision_consumed_payload

record decision_db =
  dd_dispatch :: dispatch_db
  dd_rows :: "decision_row list"
  dd_payloads :: "decision_payload list"

datatype decision_store_error =
  DsStore store_error | DsDecision decision_error | DsDecisionConflict | DsDecisionProjectionMismatch

record stored_decision =
  sd_record :: decision_record
  sd_created_sequence :: nat
  sd_updated_sequence :: nat

record decision_commit =
  dk_decision :: stored_decision
  dk_event :: "event_envelope option"

record decided_dispatch_commit =
  ddc_dispatch :: dispatch_commit
  ddc_decision :: stored_decision
  ddc_consumed_event :: "event_envelope option"

text \<open>\<open>validated\<close>: the indexed columns agree with the record.\<close>

definition decision_row_consistent :: "decision_row \<Rightarrow> bool" where
  "decision_row_consistent row \<longleftrightarrow>
     decision_validate (dw_record row) = Inr ()
     \<and> dw_decision_id row = de_decision_id (dw_record row)
     \<and> dw_status row = de_status (dw_record row)
     \<and> dw_consumed_request_id row = map_option dc_request_id (de_consumption (dw_record row))
     \<and> dw_created_sequence row \<le> dw_updated_sequence row"

definition decision_row_validated :: "decision_row \<Rightarrow> decision_store_error + stored_decision" where
  "decision_row_validated row =
     (if \<not> decision_row_consistent row then Inl DsDecisionProjectionMismatch
      else Inr \<lparr>sd_record = dw_record row, sd_created_sequence = dw_created_sequence row,
                sd_updated_sequence = dw_updated_sequence row\<rparr>)"

definition load_decision :: "decision_db \<Rightarrow> uuid \<Rightarrow> decision_store_error + stored_decision option" where
  "load_decision db decision_id =
     (case find (\<lambda>row. dw_decision_id row = decision_id) (dd_rows db) of
        None \<Rightarrow> Inr None
      | Some row \<Rightarrow> map_sum id Some (decision_row_validated row))"

definition DECISION_RECORDED_EVENT :: string where "DECISION_RECORDED_EVENT = ''decision_recorded''"
definition DECISION_CONSUMED_EVENT :: string where "DECISION_CONSUMED_EVENT = ''decision_consumed''"

definition decision_draft ::
  "dispatch_env \<Rightarrow> (decision_payload \<Rightarrow> bool) \<Rightarrow> string \<Rightarrow> uuid \<Rightarrow> uuid \<Rightarrow> (uuid \<times> uuid) option \<Rightarrow> instant \<Rightarrow>
   decision_payload \<Rightarrow> decision_error + event_envelope" where
  "decision_draft env payload_ok event_type decision_id project_id run timestamp payload =
     (if \<not> payload_ok payload then Inl DcInternal
      else Inr \<lparr>ee_event_type = event_type, ee_project_id = project_id, ee_task_id = map_option fst run,
        ee_run_id = map_option snd run, ee_timestamp = timestamp,
        ee_idempotency_key = decision_idempotency_key (en_uuid_text env) decision_id event_type,
        ee_payload = PayOther\<rparr>)"

definition recorded_event ::
  "dispatch_env \<Rightarrow> (decision_payload \<Rightarrow> bool) \<Rightarrow> uuid \<Rightarrow> decision_record \<Rightarrow>
   decision_error + event_envelope \<times> decision_payload" where
  "recorded_event env payload_ok project_id r =
     (case payload_from_record r of Inl e \<Rightarrow> Inl e | Inr p \<Rightarrow>
     (case decision_draft env payload_ok DECISION_RECORDED_EVENT (de_decision_id r) project_id None
             (de_created_at r) (DlRecorded p) of
        Inl e \<Rightarrow> Inl e | Inr event \<Rightarrow> Inr (event, DlRecorded p)))"

definition consumed_event ::
  "dispatch_env \<Rightarrow> (decision_payload \<Rightarrow> bool) \<Rightarrow> dispatch_record \<Rightarrow> instant \<Rightarrow> decision_consumed_payload \<Rightarrow>
   decision_error + event_envelope" where
  "consumed_event env payload_ok dispatch timestamp payload =
     decision_draft env payload_ok DECISION_CONSUMED_EVENT (dx_decision_id payload) (dr_project_id dispatch)
       (Some (dr_task_id dispatch, dr_run_id dispatch)) timestamp (DlConsumed payload)"

text \<open>\<open>INSERT\<close>, under the primary key and the unique creation sequence.\<close>

definition insert_decision_row :: "decision_row \<Rightarrow> decision_row list \<Rightarrow> decision_store_error + decision_row list" where
  "insert_decision_row row rows =
     (if dw_decision_id row \<in> dw_decision_id ` set rows
         \<or> dw_created_sequence row \<in> dw_created_sequence ` set rows
      then Inl (DsStore StDatabase) else Inr (rows @ [row]))"

definition record_decision ::
  "dispatch_env \<Rightarrow> (decision_payload \<Rightarrow> bool) \<Rightarrow> uuid \<Rightarrow> decision_db \<Rightarrow> decision_record \<Rightarrow>
   decision_store_error + decision_db \<times> decision_commit" where
  "record_decision env payload_ok fresh_project db r =
     (case decision_validate r of Inl e \<Rightarrow> Inl (DsDecision e) | Inr _ \<Rightarrow>
      if de_consumption r \<noteq> None then Inl (DsDecision DcInvalidRequest)
      else (case load_decision db (de_decision_id r) of Inl e \<Rightarrow> Inl e | Inr loaded \<Rightarrow>
     (case loaded of
        Some stored \<Rightarrow>
          if sd_record stored \<noteq> r then Inl DsDecisionConflict
          else Inr (db, \<lparr>dk_decision = stored, dk_event = None\<rparr>)
      | None \<Rightarrow>
     (let project_id = resolve_or_mint_project_id (dd_dispatch db) fresh_project in
     (case recorded_event env payload_ok project_id r of Inl e \<Rightarrow> Inl (DsDecision e) | Inr (event, payload) \<Rightarrow>
     (case insert_event (dd_dispatch db) event of Inl e \<Rightarrow> Inl (DsStore e) | Inr (dispatch1, sequence) \<Rightarrow>
     (case insert_decision_row \<lparr>dw_decision_id = de_decision_id r, dw_status = de_status r,
             dw_consumed_request_id = None, dw_record = r, dw_created_sequence = sequence,
             dw_updated_sequence = sequence\<rparr> (dd_rows db) of Inl e \<Rightarrow> Inl e | Inr rows \<Rightarrow>
      Inr (\<lparr>dd_dispatch = dispatch1, dd_rows = rows, dd_payloads = dd_payloads db @ [payload]\<rparr>,
           \<lparr>dk_decision = \<lparr>sd_record = r, sd_created_sequence = sequence, sd_updated_sequence = sequence\<rparr>,
            dk_event = Some event\<rparr>))))))))"

text \<open>The \<open>UPDATE\<close> of \<open>admit_decided_dispatch\<close>: its \<open>WHERE\<close> clause, and the unique and foreign key of the
  consuming request.\<close>

definition update_decision_row ::
  "dispatch_db \<Rightarrow> uuid \<Rightarrow> nat \<Rightarrow> decision_record \<Rightarrow> uuid \<Rightarrow> nat \<Rightarrow> decision_row list \<Rightarrow>
   decision_store_error + decision_row list" where
  "update_decision_row dispatch decision_id previous_sequence r request_id sequence rows =
     (let hit = (\<lambda>row. dw_decision_id row = decision_id \<and> dw_consumed_request_id row = None
                   \<and> dw_updated_sequence row = previous_sequence) in
      if length (filter hit rows) \<noteq> 1 then Inl DsDecisionConflict
      else if Some request_id \<in> dw_consumed_request_id ` set rows
         \<or> request_id \<notin> row_id ` set (db_rows dispatch)
         \<or> list_ex (\<lambda>row. hit row \<and> dw_status row \<noteq> DsResolved) rows
      then Inl (DsStore StDatabase)
      else Inr (map (\<lambda>row. if hit row
             then row\<lparr>dw_consumed_request_id := Some request_id, dw_record := r, dw_updated_sequence := sequence\<rparr>
             else row) rows))"

fun binding_harness :: "dispatch_binding \<Rightarrow> agent_kind" where
  "binding_harness (BindFresh harness) = harness"
| "binding_harness (BindReplay harness) = harness"

definition admit_decided_dispatch ::
  "dispatch_env \<Rightarrow> (decision_payload \<Rightarrow> bool) \<Rightarrow> uuid \<Rightarrow> uuid \<Rightarrow> uuid \<Rightarrow> decision_db \<Rightarrow> uuid \<Rightarrow> dispatch_admission \<Rightarrow>
   decision_store_error + decision_db \<times> decided_dispatch_commit" where
  "admit_decided_dispatch env payload_ok fresh_project fresh_task fresh_run db decision_id admission =
     (case load_decision db decision_id of Inl e \<Rightarrow> Inl e | Inr loaded \<Rightarrow>
     (case loaded of None \<Rightarrow> Inl (DsDecision DcNotFound) | Some stored \<Rightarrow>
     (case check_dispatchable (sd_record stored) (da_request_id admission) (da_prompt admission)
             (da_config_sha256 admission) (da_timestamp admission) of
        Inl e \<Rightarrow> Inl (DsDecision e) | Inr binding \<Rightarrow>
      if binding_harness binding \<noteq> da_harness admission then Inl (DsDecision DcHarnessMismatch)
      else (case admit_dispatch env fresh_project fresh_task fresh_run (dd_dispatch db) admission of
        Inl e \<Rightarrow> Inl (DsStore e) | Inr (dispatch1, commit) \<Rightarrow>
     (case binding of
        BindReplay _ \<Rightarrow>
          if hc_event commit \<noteq> None then Inl DsDecisionProjectionMismatch
          else Inr (db,
            \<lparr>ddc_dispatch = commit, ddc_decision = stored, ddc_consumed_event = None\<rparr>)
      | BindFresh harness \<Rightarrow>
          if hc_event commit = None then Inl (DsStore (StHarness DeConflict))
          else
     (case mark_consumed (sd_record stored) (da_request_id admission) (da_timestamp admission) of
        Inl e \<Rightarrow> Inl (DsDecision e) | Inr r \<Rightarrow>
     (let payload = \<lparr>dx_decision_id = decision_id, dx_request_id = da_request_id admission,
             dx_harness = harness, dx_consumed_at = da_timestamp admission\<rparr> in
     (case consumed_event env payload_ok (hc_record commit) (da_timestamp admission) payload of
        Inl e \<Rightarrow> Inl (DsDecision e) | Inr event \<Rightarrow>
     (case insert_event dispatch1 event of Inl e \<Rightarrow> Inl (DsStore e) | Inr (dispatch2, sequence) \<Rightarrow>
     (case update_decision_row dispatch2 decision_id (sd_updated_sequence stored) r (da_request_id admission)
             sequence (dd_rows db) of Inl e \<Rightarrow> Inl e | Inr rows \<Rightarrow>
      Inr (\<lparr>dd_dispatch = dispatch2, dd_rows = rows, dd_payloads = dd_payloads db @ [DlConsumed payload]\<rparr>,
           \<lparr>ddc_dispatch = commit,
            ddc_decision = \<lparr>sd_record = r, sd_created_sequence = sd_created_sequence stored,
              sd_updated_sequence = sequence\<rparr>,
            ddc_consumed_event = Some event\<rparr>)))))))))))"

text \<open>\<open>decisions_after\<close>: a page of rows by creation sequence, each validated.\<close>

definition MAX_DECISION_PAGE :: nat where "MAX_DECISION_PAGE = 100"

fun validate_rows :: "decision_row list \<Rightarrow> decision_store_error + stored_decision list" where
  "validate_rows [] = Inr []"
| "validate_rows (row # rows) =
     (case decision_row_validated row of Inl e \<Rightarrow> Inl e | Inr d \<Rightarrow>
     (case validate_rows rows of Inl e \<Rightarrow> Inl e | Inr ds \<Rightarrow> Inr (d # ds)))"

definition decisions_after :: "decision_db \<Rightarrow> u64 \<Rightarrow> nat \<Rightarrow> decision_store_error + stored_decision list" where
  "decisions_after db after_sequence limit =
     (if \<not> (1 \<le> limit \<and> limit \<le> MAX_DECISION_PAGE) then Inl (DsDecision DcInvalidRequest)
      else validate_rows (take limit (sort_key dw_created_sequence
        (filter (\<lambda>row. dw_created_sequence row > min (unat after_sequence) (2 ^ 63 - 1)) (dd_rows db)))))"

section \<open>Histories\<close>

datatype decision_op =
    DoRecord uuid decision_record
  | DoAdmitDecided uuid uuid uuid uuid dispatch_admission
  | DoDispatch dispatch_op

definition decision_step ::
  "dispatch_env \<Rightarrow> (decision_payload \<Rightarrow> bool) \<Rightarrow> decision_db \<Rightarrow> decision_op \<Rightarrow> decision_store_error + decision_db" where
  "decision_step env payload_ok db op =
     (case op of
        DoRecord project r \<Rightarrow>
          (case record_decision env payload_ok project db r of Inl e \<Rightarrow> Inl e | Inr (db1, _) \<Rightarrow> Inr db1)
      | DoAdmitDecided project task run decision_id admission \<Rightarrow>
          (case admit_decided_dispatch env payload_ok project task run db decision_id admission of
             Inl e \<Rightarrow> Inl e | Inr (db1, _) \<Rightarrow> Inr db1)
      | DoDispatch dop \<Rightarrow>
          (case dispatch_step env (dd_dispatch db) dop of Inl e \<Rightarrow> Inl (DsStore e)
           | Inr dispatch1 \<Rightarrow> Inr (db\<lparr>dd_dispatch := dispatch1\<rparr>)))"

section \<open>Other events leave the dispatch table sound\<close>

lemma decision_key_other: "decision_idempotency_key f d t \<noteq> idempotency_key env r u"
  by (simp add: decision_idempotency_key_def idempotency_key_def)

lemma insert_decision_event_inv:
  assumes "store_inv env db" and "insert_event db e = Inr (db1, n)"
    and "ee_idempotency_key e = decision_idempotency_key (en_uuid_text env) d t"
  shows "store_inv env db1 \<and> db_rows db1 = db_rows db \<and> n = Suc (length (db_events db))
    \<and> length (db_events db1) = n"
  using assms(3) decision_key_other by (intro insert_other_event_inv [OF assms(1,2)]) simp

lemma decision_draft_key:
  "decision_draft env ok t d p run ts pl = Inr e \<Longrightarrow>
   ee_idempotency_key e = decision_idempotency_key (en_uuid_text env) d t"
  by (auto simp: decision_draft_def split: if_splits)

section \<open>The invariant\<close>

text \<open>The dispatch that used a decision agrees with it and was admitted while the decision was valid.\<close>

definition agrees :: "decision_record \<Rightarrow> uuid \<Rightarrow> stored_dispatch \<Rightarrow> bool" where
  "agrees r request_id x \<longleftrightarrow>
     row_id x = request_id \<and> de_chosen_harness r = Some (dr_harness (sx_record x))
     \<and> pd_sha256 (dr_prompt (sx_record x)) = de_prompt_sha256 r
     \<and> pd_byte_count (dr_prompt (sx_record x)) = de_prompt_bytes r
     \<and> dr_config_sha256 (sx_record x) = de_dispatch_config_sha256 r
     \<and> de_created_at r \<le> dr_created_at (sx_record x) \<and> dr_created_at (sx_record x) < de_expires_at r"

definition rebuilds :: "decision_payload list \<Rightarrow> decision_record \<Rightarrow> bool" where
  "rebuilds payloads r \<longleftrightarrow>
     (\<exists>p. DlRecorded p \<in> set payloads \<and>
        (case de_consumption r of
           None \<Rightarrow> rebuild_record p None = Inr r
         | Some _ \<Rightarrow> (\<exists>c. DlConsumed c \<in> set payloads \<and> rebuild_record p (Some c) = Inr r)))"

definition decision_row_inv :: "dispatch_db \<Rightarrow> decision_payload list \<Rightarrow> decision_row \<Rightarrow> bool" where
  "decision_row_inv dispatch payloads w \<longleftrightarrow>
     decision_row_consistent w \<and> dw_updated_sequence w \<le> length (db_events dispatch)
     \<and> (\<forall>q. dw_consumed_request_id w = Some q \<longrightarrow> (\<exists>x \<in> set (db_rows dispatch). agrees (dw_record w) q x))
     \<and> rebuilds payloads (dw_record w)"

definition one_decision_each :: "decision_row list \<Rightarrow> bool" where
  "one_decision_each rows \<longleftrightarrow>
     (\<forall>w \<in> set rows. \<forall>v \<in> set rows. \<forall>q. dw_consumed_request_id w = Some q \<and> dw_consumed_request_id v = Some q \<longrightarrow>
        dw_decision_id w = dw_decision_id v)"

definition decision_inv :: "dispatch_env \<Rightarrow> decision_db \<Rightarrow> bool" where
  "decision_inv env db \<longleftrightarrow>
     store_inv env (dd_dispatch db) \<and> distinct (map dw_decision_id (dd_rows db))
     \<and> (\<forall>w \<in> set (dd_rows db). decision_row_inv (dd_dispatch db) (dd_payloads db) w)
     \<and> one_decision_each (dd_rows db)"

text \<open>Decisions stay, and a use is final.\<close>

definition decisions_kept :: "decision_db \<Rightarrow> decision_db \<Rightarrow> bool" where
  "decisions_kept db db' \<longleftrightarrow>
     (\<forall>w \<in> set (dd_rows db). \<exists>v \<in> set (dd_rows db'). dw_decision_id v = dw_decision_id w
        \<and> (dw_consumed_request_id w \<noteq> None \<longrightarrow> v = w))"

lemma decisions_kept_refl [simp]: "dd_rows db' = dd_rows db \<Longrightarrow> decisions_kept db db'"
  by (auto simp: decisions_kept_def)

lemma decisions_kept_trans: "decisions_kept a b \<Longrightarrow> decisions_kept b c \<Longrightarrow> decisions_kept a c"
  unfolding decisions_kept_def by metis

lemma agrees_same: "agrees r q x \<Longrightarrow> same_attempt x y \<Longrightarrow> agrees r q y"
  by (simp add: agrees_def same_attempt_def)

lemma rebuilds_mono: "rebuilds ps r \<Longrightarrow> set ps \<subseteq> set qs \<Longrightarrow> rebuilds qs r"
  unfolding rebuilds_def by (cases "de_consumption r") (simp_all, blast+)

lemma decision_row_inv_mono:
  assumes "decision_row_inv d ps w" and "keeps d d'" and "set ps \<subseteq> set qs"
  shows "decision_row_inv d' qs w"
proof -
  have "\<exists>y \<in> set (db_rows d'). agrees (dw_record w) q y" if q: "dw_consumed_request_id w = Some q" for q
  proof -
    obtain x where "x \<in> set (db_rows d)" "agrees (dw_record w) q x"
      using assms(1) q unfolding decision_row_inv_def by blast
    then show ?thesis using assms(2) agrees_same unfolding keeps_def by blast
  qed
  moreover have "dw_updated_sequence w \<le> length (db_events d')"
    using assms(1,2) unfolding decision_row_inv_def keeps_def by (meson order_trans)
  ultimately show ?thesis
    using assms(1) rebuilds_mono [OF _ assms(3)] unfolding decision_row_inv_def by blast
qed

lemma decision_inv_dispatch:
  assumes "decision_inv env db" and "store_inv env d'" and "keeps (dd_dispatch db) d'"
  shows "decision_inv env (db\<lparr>dd_dispatch := d'\<rparr>)"
  using assms decision_row_inv_mono [OF _ assms(3), of "dd_payloads db" _ "dd_payloads db"]
  by (simp add: decision_inv_def)

section \<open>Recording\<close>

lemma load_decision_Some:
  assumes "load_decision db i = Inr (Some s)"
  obtains w where "w \<in> set (dd_rows db)" "dw_decision_id w = i" "decision_row_consistent w"
    "s = \<lparr>sd_record = dw_record w, sd_created_sequence = dw_created_sequence w,
          sd_updated_sequence = dw_updated_sequence w\<rparr>"
  using assms
  by (auto simp: load_decision_def decision_row_validated_def split: option.splits if_splits dest!: find_Some_filter)

lemma record_decision_cases:
  assumes "record_decision env ok fp db r = Inr (db', c)"
  obtains (repeated) "db' = db"
  | (recorded) p e d1 n where "decision_validate r = Inr ()" "de_consumption r = None"
      "payload_from_record r = Inr p"
      "ee_idempotency_key e = decision_idempotency_key (en_uuid_text env) (de_decision_id r) DECISION_RECORDED_EVENT"
      "insert_event (dd_dispatch db) e = Inr (d1, n)" "de_decision_id r \<notin> dw_decision_id ` set (dd_rows db)"
      "db' = \<lparr>dd_dispatch = d1, dd_rows = dd_rows db @ [\<lparr>dw_decision_id = de_decision_id r, dw_status = de_status r,
             dw_consumed_request_id = None, dw_record = r, dw_created_sequence = n,
             dw_updated_sequence = n\<rparr>], dd_payloads = dd_payloads db @ [DlRecorded p]\<rparr>"
proof (cases "load_decision db (de_decision_id r)")
  case (Inl e)
  with assms show thesis by (auto simp: record_decision_def split: sum.splits if_splits)
next
  case (Inr loaded)
  show thesis
  proof (cases loaded)
    case (Some s)
    with Inr assms show thesis by (intro repeated) (auto simp: record_decision_def split: sum.splits if_splits)
  next
    case None
    with Inr assms obtain e pl d1 n rows where v: "decision_validate r = Inr ()" "de_consumption r = None"
      and ev: "recorded_event env ok (resolve_or_mint_project_id (dd_dispatch db) fp) r = Inr (e, pl)"
      and ins: "insert_event (dd_dispatch db) e = Inr (d1, n)"
      and row: "insert_decision_row \<lparr>dw_decision_id = de_decision_id r, dw_status = de_status r,
             dw_consumed_request_id = None, dw_record = r, dw_created_sequence = n,
             dw_updated_sequence = n\<rparr> (dd_rows db) = Inr rows"
      and db': "db' = \<lparr>dd_dispatch = d1, dd_rows = rows, dd_payloads = dd_payloads db @ [pl]\<rparr>"
      by (auto simp: record_decision_def Let_def split: sum.splits if_splits)
    from ev obtain p where p: "payload_from_record r = Inr p" "pl = DlRecorded p"
      and key: "ee_idempotency_key e = decision_idempotency_key (en_uuid_text env) (de_decision_id r) DECISION_RECORDED_EVENT"
      by (auto simp: recorded_event_def dest: decision_draft_key split: sum.splits)
    show thesis
      by (rule recorded [OF v p(1) key ins])
        (use row db' p in \<open>auto simp: insert_decision_row_def split: if_splits\<close>)
  qed
qed

lemma record_decision_inv:
  assumes inv: "decision_inv env db" and step: "record_decision env ok fp db r = Inr (db', c)"
  shows "decision_inv env db' \<and> decisions_kept db db'"
  using step
proof (cases rule: record_decision_cases)
  case repeated
  then show ?thesis using inv by simp
next
  case (recorded p e d1 n)
  have store: "store_inv env (dd_dispatch db)" using inv by (simp add: decision_inv_def)
  note ins = insert_decision_event_inv [OF store recorded(5,4)]
  let ?w = "\<lparr>dw_decision_id = de_decision_id r, dw_status = de_status r, dw_consumed_request_id = None,
      dw_record = r, dw_created_sequence = n, dw_updated_sequence = n\<rparr>"
  have p: "payload_into_record p = Inr r" using payload_rebuilds [OF recorded(1,2)] recorded(3) by auto
  have new: "decision_row_inv d1 (dd_payloads db @ [DlRecorded p]) ?w"
  proof -
    have "rebuild_record p None = Inr r" using p by (simp add: rebuild_record_def)
    then have "rebuilds (dd_payloads db @ [DlRecorded p]) r"
      unfolding rebuilds_def using recorded(2) by (intro exI [of _ p]) simp
    then show ?thesis using recorded(1,2) ins by (simp add: decision_row_inv_def decision_row_consistent_def)
  qed
  have old: "decision_row_inv d1 (dd_payloads db @ [DlRecorded p]) w" if "w \<in> set (dd_rows db)" for w
  proof (rule decision_row_inv_mono)
    show "decision_row_inv (dd_dispatch db) (dd_payloads db) w" using inv that by (simp add: decision_inv_def)
    show "keeps (dd_dispatch db) d1" by (rule insert_event_keeps [OF recorded(5)])
  qed auto
  have "one_decision_each (dd_rows db @ [?w])"
    using inv by (auto simp: decision_inv_def one_decision_each_def)
  then show ?thesis
    using new old ins recorded(6) inv unfolding recorded(7) by (auto simp: decision_inv_def decisions_kept_def)
qed

section \<open>Admitting a decided dispatch\<close>

lemma admit_decided_cases:
  assumes "admit_decided_dispatch env ok fp ft fr db i adm = Inr (db', c)"
  obtains (replay) "db' = db"
  | (fresh) w h d1 commit r e d2 n rows where
      "w \<in> set (dd_rows db)" "dw_decision_id w = i" "decision_row_consistent w"
      "check_dispatchable (dw_record w) (da_request_id adm) (da_prompt adm) (da_config_sha256 adm) (da_timestamp adm)
        = Inr (BindFresh h)" "h = da_harness adm"
      "admit_dispatch env fp ft fr (dd_dispatch db) adm = Inr (d1, commit)" "hc_event commit \<noteq> None"
      "mark_consumed (dw_record w) (da_request_id adm) (da_timestamp adm) = Inr r"
      "ee_idempotency_key e = decision_idempotency_key (en_uuid_text env) i DECISION_CONSUMED_EVENT"
      "insert_event d1 e = Inr (d2, n)"
      "update_decision_row d2 i (dw_updated_sequence w) r (da_request_id adm) n (dd_rows db) = Inr rows"
      "db' = \<lparr>dd_dispatch = d2, dd_rows = rows, dd_payloads = dd_payloads db @
         [DlConsumed \<lparr>dx_decision_id = i, dx_request_id = da_request_id adm, dx_harness = h,
            dx_consumed_at = da_timestamp adm\<rparr>]\<rparr>"
proof -
  from assms obtain s binding where load: "load_decision db i = Inr (Some s)"
    and check: "check_dispatchable (sd_record s) (da_request_id adm) (da_prompt adm) (da_config_sha256 adm)
      (da_timestamp adm) = Inr binding" and h: "binding_harness binding = da_harness adm"
    unfolding admit_decided_dispatch_def by (auto split: sum.splits option.splits if_splits)
  from load_decision_Some [OF load] obtain w where w: "w \<in> set (dd_rows db)" "dw_decision_id w = i"
    "decision_row_consistent w" and s: "s = \<lparr>sd_record = dw_record w, sd_created_sequence = dw_created_sequence w,
          sd_updated_sequence = dw_updated_sequence w\<rparr>" by blast
  show thesis
  proof (cases binding)
    case (BindReplay g)
    then show thesis using assms load check h
      by (intro replay) (auto simp: admit_decided_dispatch_def split: sum.splits if_splits)
  next
    case (BindFresh g)
    with assms load check h s obtain d1 commit r e d2 n rows where
      d1: "admit_dispatch env fp ft fr (dd_dispatch db) adm = Inr (d1, commit)" "hc_event commit \<noteq> None"
      and r: "mark_consumed (dw_record w) (da_request_id adm) (da_timestamp adm) = Inr r"
      and e: "consumed_event env ok (hc_record commit) (da_timestamp adm) \<lparr>dx_decision_id = i,
          dx_request_id = da_request_id adm, dx_harness = g, dx_consumed_at = da_timestamp adm\<rparr> = Inr e"
      and d2: "insert_event d1 e = Inr (d2, n)"
      and rows: "update_decision_row d2 i (dw_updated_sequence w) r (da_request_id adm) n (dd_rows db) = Inr rows"
      and db': "db' = \<lparr>dd_dispatch = d2, dd_rows = rows, dd_payloads = dd_payloads db @
         [DlConsumed \<lparr>dx_decision_id = i, dx_request_id = da_request_id adm, dx_harness = g,
            dx_consumed_at = da_timestamp adm\<rparr>]\<rparr>"
      unfolding admit_decided_dispatch_def Let_def by (auto split: sum.splits if_splits)
    have key: "ee_idempotency_key e = decision_idempotency_key (en_uuid_text env) i DECISION_CONSUMED_EVENT"
      using e by (auto simp: consumed_event_def dest: decision_draft_key)
    show thesis
      by (rule fresh [OF w _ _ d1 r key d2 rows db']) (use check h s BindFresh in auto)
  qed
qed

lemma update_decision_row_Inr:
  assumes "update_decision_row d i s r q n rows = Inr rows'" and "distinct (map dw_decision_id rows)"
    and "w \<in> set rows" and "dw_decision_id w = i" and "dw_consumed_request_id w = None" and "dw_updated_sequence w = s"
  shows "rows' = map (\<lambda>v. if v = w then w\<lparr>dw_consumed_request_id := Some q, dw_record := r, dw_updated_sequence := n\<rparr>
      else v) rows \<and> Some q \<notin> dw_consumed_request_id ` set rows"
proof -
  have only: "dw_decision_id v = i \<and> dw_consumed_request_id v = None \<and> dw_updated_sequence v = s \<longleftrightarrow> v = w"
    if "v \<in> set rows" for v
    using that assms(2-6) by (auto simp: distinct_map dest: inj_onD)
  show ?thesis
    using assms(1) only unfolding update_decision_row_def Let_def by (auto split: if_splits cong: map_cong)
qed

lemma consumed_row_inv:
  assumes w: "decision_row_inv (dd_dispatch db) (dd_payloads db) w" and i: "dw_decision_id w = i"
    and check: "check_dispatchable (dw_record w) (da_request_id adm) (da_prompt adm) (da_config_sha256 adm)
      (da_timestamp adm) = Inr (BindFresh (da_harness adm))"
    and r: "mark_consumed (dw_record w) (da_request_id adm) (da_timestamp adm) = Inr r"
    and x: "x \<in> set (db_rows d2)" "row_id x = da_request_id adm" "dr_harness (sx_record x) = da_harness adm"
      "dr_prompt (sx_record x) = da_prompt adm" "dr_config_sha256 (sx_record x) = da_config_sha256 adm"
      "dr_created_at (sx_record x) = da_timestamp adm"
    and n: "length (db_events (dd_dispatch db)) \<le> n" "n \<le> length (db_events d2)"
  shows "decision_row_inv d2 (dd_payloads db @ [DlConsumed \<lparr>dx_decision_id = i, dx_request_id = da_request_id adm,
      dx_harness = da_harness adm, dx_consumed_at = da_timestamp adm\<rparr>])
    (w\<lparr>dw_consumed_request_id := Some (da_request_id adm), dw_record := r, dw_updated_sequence := n\<rparr>)"
proof -
  let ?c = "\<lparr>dx_decision_id = i, dx_request_id = da_request_id adm, dx_harness = da_harness adm,
      dx_consumed_at = da_timestamp adm\<rparr>"
  have cons: "decision_row_consistent w" using w by (simp add: decision_row_inv_def)
  then have valid: "decision_validate (dw_record w) = Inr ()" by (simp add: decision_row_consistent_def)
  note m = mark_consumed_valid [OF valid r]
  have chosen: "de_chosen_harness (dw_record w) = Some (da_harness adm)" "\<not> is_expired (dw_record w) (da_timestamp adm)"
    "de_prompt_sha256 (dw_record w) = pd_sha256 (da_prompt adm)" "de_prompt_bytes (dw_record w) = pd_byte_count (da_prompt adm)"
    "de_dispatch_config_sha256 (dw_record w) = da_config_sha256 adm"
    using check m by (auto simp: check_dispatchable_Inr)
  have agree: "agrees r (da_request_id adm) x"
    using m chosen x by (auto simp: agrees_def is_expired_def)
  obtain p where p: "DlRecorded p \<in> set (dd_payloads db)" "rebuild_record p None = Inr (dw_record w)"
    using w m by (auto simp: decision_row_inv_def rebuilds_def)
  then have "payload_into_record p = Inr (dw_record w)" by (auto simp: rebuild_record_def split: sum.splits)
  moreover have "de_decision_id (dw_record w) = i" using cons i by (simp add: decision_row_consistent_def)
  ultimately have "rebuild_record p (Some ?c) = Inr r"
    using r m [THEN conjunct1] chosen(1) by (simp add: rebuild_record_def)
  then have "rebuilds (dd_payloads db @ [DlConsumed ?c]) r"
    unfolding rebuilds_def using p(1) m by (intro exI [of _ p]) auto
  moreover have "dw_created_sequence w \<le> n"
    using cons w n(1) by (auto simp: decision_row_consistent_def decision_row_inv_def)
  ultimately show ?thesis
    using agree x(1) n(2) m cons by (auto simp: decision_row_inv_def decision_row_consistent_def)
qed

lemma admit_decided_inv:
  assumes env: "env_ok env" and inv: "decision_inv env db"
    and step: "admit_decided_dispatch env ok fp ft fr db i adm = Inr (db', c)"
  shows "decision_inv env db' \<and> decisions_kept db db'"
  using step
proof (cases rule: admit_decided_cases)
  case replay
  then show ?thesis using inv by simp
next
  case (fresh w h d1 commit r e d2 n rows)
  have store: "store_inv env (dd_dispatch db)" and dist: "distinct (map dw_decision_id (dd_rows db))"
    and wi: "decision_row_inv (dd_dispatch db) (dd_payloads db) w" and one: "one_decision_each (dd_rows db)"
    using inv fresh(1) by (simp_all add: decision_inv_def)
  have s1: "store_inv env d1" by (rule admit_dispatch_inv [OF env store fresh(6)])
  note ins = insert_decision_event_inv [OF s1 fresh(10,9)]
  have k: "keeps (dd_dispatch db) d1" "keeps d1 d2"
    using admit_dispatch_keeps [OF fresh(6)] insert_event_keeps [OF fresh(10)] by auto
  then have k2: "keeps (dd_dispatch db) d2" by (rule keeps_trans)
  obtain x where x: "x \<in> set (db_rows d2)" "row_id x = da_request_id adm" "dr_harness (sx_record x) = da_harness adm"
    "dr_prompt (sx_record x) = da_prompt adm" "dr_config_sha256 (sx_record x) = da_config_sha256 adm"
    "dr_created_at (sx_record x) = da_timestamp adm"
    using admit_dispatch_fresh [OF fresh(6,7)] ins by auto
  have unused: "dw_consumed_request_id w = None"
    using fresh(3,4) by (auto simp: decision_row_consistent_def check_dispatchable_Inr split: option.splits)
  note upd = update_decision_row_Inr [OF fresh(11) dist fresh(1,2) unused refl]
  let ?w = "w\<lparr>dw_consumed_request_id := Some (da_request_id adm), dw_record := r, dw_updated_sequence := n\<rparr>"
  let ?c = "DlConsumed \<lparr>dx_decision_id = i, dx_request_id = da_request_id adm, dx_harness = h,
      dx_consumed_at = da_timestamp adm\<rparr>"
  have len: "length (db_events (dd_dispatch db)) \<le> n" "n \<le> length (db_events d2)"
    using k2 ins by (auto simp: keeps_def)
  have new: "decision_row_inv d2 (dd_payloads db @ [?c]) ?w"
    using consumed_row_inv [OF wi fresh(2) fresh(4) [unfolded fresh(5)] fresh(8) x len] fresh(5) by simp
  have old: "decision_row_inv d2 (dd_payloads db @ [?c]) v" if "v \<in> set (dd_rows db)" for v
    by (rule decision_row_inv_mono [OF _ k2]) (use inv that in \<open>auto simp: decision_inv_def\<close>)
  have ids: "map dw_decision_id rows = map dw_decision_id (dd_rows db)" using upd by auto
  have set_rows: "v \<in> set rows \<Longrightarrow> v = ?w \<or> v \<in> set (dd_rows db)" for v using upd by auto
  have "one_decision_each rows"
    unfolding one_decision_each_def
  proof (intro ballI allI impI)
    fix u v q
    assume uv: "u \<in> set rows" "v \<in> set rows"
      and q: "dw_consumed_request_id u = Some q \<and> dw_consumed_request_id v = Some q"
    have fresh_q: "dw_consumed_request_id z \<noteq> Some (da_request_id adm)" if "z \<in> set (dd_rows db)" for z
      using upd that by (metis image_eqI)
    from uv q fresh_q consider "u = ?w" "v = ?w" | "u \<in> set (dd_rows db)" "v \<in> set (dd_rows db)"
      using set_rows [OF uv(1)] set_rows [OF uv(2)] by fastforce
    then show "dw_decision_id u = dw_decision_id v"
      using one q unfolding one_decision_each_def by cases (simp, blast)
  qed
  moreover have "decisions_kept db db'"
    unfolding decisions_kept_def
  proof (intro ballI)
    fix u assume u: "u \<in> set (dd_rows db)"
    show "\<exists>v \<in> set (dd_rows db'). dw_decision_id v = dw_decision_id u \<and> (dw_consumed_request_id u \<noteq> None \<longrightarrow> v = u)"
    proof (cases "u = w")
      case True
      then have "?w \<in> set (dd_rows db')" using u upd fresh(12) by auto
      then show ?thesis using True unused by (intro bexI [of _ ?w]) auto
    next
      case False
      then have "u \<in> set (dd_rows db')" using u upd fresh(12) by auto
      then show ?thesis by blast
    qed
  qed
  ultimately show ?thesis
    using new old ids dist ins set_rows unfolding fresh(12) decision_inv_def by auto
qed

lemma decision_step_inv:
  assumes env: "env_ok env" and inv: "decision_inv env db" and step: "decision_step env ok db op = Inr db'"
  shows "decision_inv env db' \<and> decisions_kept db db'"
proof (cases op)
  case (DoRecord p r)
  then show ?thesis using step record_decision_inv [OF inv] by (auto simp: decision_step_def split: sum.splits)
next
  case (DoAdmitDecided p t r i adm)
  then show ?thesis using step admit_decided_inv [OF env inv] by (auto simp: decision_step_def split: sum.splits)
next
  case (DoDispatch dop)
  then obtain d where d: "dispatch_step env (dd_dispatch db) dop = Inr d" "db' = db\<lparr>dd_dispatch := d\<rparr>"
    using step by (auto simp: decision_step_def split: sum.splits)
  have store: "store_inv env (dd_dispatch db)" using inv by (simp add: decision_inv_def)
  show ?thesis
    unfolding d(2)
    using decision_inv_dispatch [OF inv dispatch_step_inv [OF env store d(1)] dispatch_step_keeps [OF env store d(1)]]
    by simp
qed

interpretation decision_store: guarded_reducer "decision_step env ok" "\<lambda>db. env_ok env \<and> decision_inv env db" for env ok
  by unfold_locales (use decision_step_inv in blast)

lemma decision_run_kept:
  "env_ok env \<Longrightarrow> decision_inv env db \<Longrightarrow> decisions_kept db (run_events (decision_step env ok) db ops)"
proof (induction ops arbitrary: db)
  case (Cons op ops)
  then show ?case
    using decision_step_inv [OF Cons.prems, of ok op] by (auto split: sum.splits intro: decisions_kept_trans)
qed simp

text \<open>C9. One decision, one dispatch. After any history of recordings, decided admissions and every other
  dispatch command, from a store without dispatches: a used decision was used by a dispatch of the table
  with the chosen harness, the decided prompt and the pinned configuration, admitted while the decision
  was valid; no dispatch uses two decisions; a use is final whatever follows; and every decision row is
  exactly what its logged payloads rebuild to.\<close>

theorem decision_used_once:
  assumes "env_ok env" and "store_init env d"
    and "db = run_events (decision_step env ok) \<lparr>dd_dispatch = d, dd_rows = [], dd_payloads = []\<rparr> ops"
  shows "(\<forall>w \<in> set (dd_rows db). \<forall>q. dw_consumed_request_id w = Some q \<longrightarrow>
      (\<exists>x \<in> set (db_rows (dd_dispatch db)). agrees (dw_record w) q x)
      \<and> w \<in> set (dd_rows (run_events (decision_step env ok) db later)))
    \<and> one_decision_each (dd_rows db)
    \<and> (\<forall>w \<in> set (dd_rows db). decision_row_consistent w \<and> rebuilds (dd_payloads db) (dw_record w))
    \<and> store_inv env (dd_dispatch db)"
proof -
  have "decision_inv env \<lparr>dd_dispatch = d, dd_rows = [], dd_payloads = []\<rparr>"
    using store_init_inv [OF assms(2)] by (simp add: decision_inv_def one_decision_each_def)
  then have inv: "decision_inv env db"
    unfolding assms(3) using decision_store.run_inv [of env] assms(1) by blast
  have kept: "decisions_kept db (run_events (decision_step env ok) db later)"
    by (rule decision_run_kept [OF assms(1) inv])
  show ?thesis
  proof (intro conjI ballI allI impI)
    fix w q assume w: "w \<in> set (dd_rows db)" and q: "dw_consumed_request_id w = Some q"
    show "\<exists>x \<in> set (db_rows (dd_dispatch db)). agrees (dw_record w) q x"
      using inv w q unfolding decision_inv_def decision_row_inv_def by blast
    obtain v where "v \<in> set (dd_rows (run_events (decision_step env ok) db later))"
      "dw_consumed_request_id w \<noteq> None \<longrightarrow> v = w" using kept w unfolding decisions_kept_def by blast
    then show "w \<in> set (dd_rows (run_events (decision_step env ok) db later))" using q by auto
  qed (use inv in \<open>auto simp: decision_inv_def decision_row_inv_def\<close>)
qed

definition example_decision :: decision_record where
  "example_decision = decision_record_new
     \<lparr>nd_decision_id = 1, nd_kind = HarnessRoute, nd_options = [''codex'', ''escalate''], nd_labels = [],
      nd_prompt = \<lparr>pd_sha256 = 7, pd_byte_count = 3\<rparr>, nd_project_default = None, nd_threshold = 900000,
      nd_dispatch_config_sha256 = 0, nd_decision_config_sha256 = 0, nd_created_at = 0\<rparr>
     (applied Codex SrcSingleOption None
        \<lparr>xe_status = ExSingleOption, xe_backend = None, xe_error = None, xe_answer = None\<rparr>)"

lemma example_decision_recorded:
  "\<exists>db c. record_decision example_env (\<lambda>_. True) 3
     \<lparr>dd_dispatch = example_db, dd_rows = [], dd_payloads = []\<rparr> example_decision = Inr (db, c)
     \<and> dd_rows db \<noteq> []"
proof -
  have v: "decision_validate example_decision = Inr ()" "de_consumption example_decision = None"
    by (simp_all add: example_decision_def decision_record_new_def decision_validate_def applied_def
        option_harness_def is_escalate_def ESCALATE_OPTION_def)
  then obtain p where "payload_from_record example_decision = Inr p" by (auto simp: payload_from_record_def)
  then show ?thesis
    using v by (simp add: record_decision_def load_decision_def recorded_event_def decision_draft_def example_db_def
        insert_event_def insert_decision_row_def Let_def)
qed

theorem decision_used_once_witness:
  "let db = run_events (decision_step example_env (\<lambda>_. True))
         \<lparr>dd_dispatch = example_db, dd_rows = [], dd_payloads = []\<rparr> [DoRecord 3 example_decision]
   in dd_rows db \<noteq> [] \<and> (\<forall>w \<in> set (dd_rows db). rebuilds (dd_payloads db) (dw_record w))"
proof -
  obtain db c where db: "record_decision example_env (\<lambda>_. True) 3
     \<lparr>dd_dispatch = example_db, dd_rows = [], dd_payloads = []\<rparr> example_decision = Inr (db, c)" "dd_rows db \<noteq> []"
    using example_decision_recorded by blast
  then have run: "run_events (decision_step example_env (\<lambda>_. True))
      \<lparr>dd_dispatch = example_db, dd_rows = [], dd_payloads = []\<rparr> [DoRecord 3 example_decision] = db"
    by (simp add: decision_step_def)
  show ?thesis
    using db decision_used_once [OF example_env_ok example_init, of db "\<lambda>_. True" "[DoRecord 3 example_decision]"] run
    by simp
qed

end
