(* ===== verification/Gateway.thy ===== *)
theory Gateway
  imports Canonical_Json
begin

text \<open>
  The model gateway contract, \<open>crates/vibemux_workflow/src/gateway.rs\<close>: route bindings and the operator's
  configuration, the evaluation of a route against the gateway's health, request bodies, the parsing of
  completions, the retry policy and the accumulation of a response stream. The JSON parser of
  \<open>serde_json\<close>, \<open>Number::as_u64\<close> and the conversion of integers to \<open>Number\<close> are parameters.

  The lemmas show which endpoints count as loopback, what a valid configuration guarantees, that a route
  is open exactly when nothing blocks it and otherwise every block is named, and what a stream ends with:
  text is neither lost nor joined, and a broken stream counts as without output only when no chunk
  carried any.
\<close>

section \<open>Text\<close>

text \<open>\<open>chars().any(char::is_whitespace)\<close> on UTF-8 bytes; a lead byte occurs only at the start of a character.\<close>

fun contains_whitespace :: "string \<Rightarrow> bool" where
  "contains_whitespace [] = False"
| "contains_whitespace (c # cs) =
     (whitespace1 c
      \<or> (case cs of d # ds \<Rightarrow> whitespace2 c d \<or> (case ds of e # es \<Rightarrow> whitespace3 c d e | [] \<Rightarrow> False) | [] \<Rightarrow> False)
      \<or> contains_whitespace cs)"

text \<open>\<open>str::trim\<close>: the White\_Space characters are cut off at the front, and at the back of the reversed bytes.\<close>

fun trim_start :: "string \<Rightarrow> string" where
  "trim_start (c # d # e # cs) =
     (if whitespace1 c then trim_start (d # e # cs)
      else if whitespace2 c d then trim_start (e # cs)
      else if whitespace3 c d e then trim_start cs
      else c # d # e # cs)"
| "trim_start [c, d] = (if whitespace1 c then trim_start [d] else if whitespace2 c d then [] else [c, d])"
| "trim_start [c] = (if whitespace1 c then [] else [c])"
| "trim_start [] = []"

fun trim_end_rev :: "string \<Rightarrow> string" where
  "trim_end_rev (e # d # c # cs) =
     (if whitespace1 e then trim_end_rev (d # c # cs)
      else if whitespace2 d e then trim_end_rev (c # cs)
      else if whitespace3 c d e then trim_end_rev cs
      else e # d # c # cs)"
| "trim_end_rev [e, d] = (if whitespace1 e then trim_end_rev [d] else if whitespace2 d e then [] else [e, d])"
| "trim_end_rev [e] = (if whitespace1 e then [] else [e])"
| "trim_end_rev [] = []"

definition trim :: "string \<Rightarrow> string" where
  "trim s = rev (trim_end_rev (rev (trim_start s)))"

definition strip_prefix :: "string \<Rightarrow> string \<Rightarrow> string option" where
  "strip_prefix p s = (if take (length p) s = p then Some (drop (length p) s) else None)"

text \<open>\<open>rsplit_once\<close> at a character: split at its last occurrence.\<close>

definition rsplit_once :: "char \<Rightarrow> string \<Rightarrow> (string \<times> string) option" where
  "rsplit_once c s =
     (if c \<in> set s
      then Some (rev (tl (dropWhile (\<lambda>x. x \<noteq> c) (rev s))), rev (takeWhile (\<lambda>x. x \<noteq> c) (rev s)))
      else None)"

section \<open>JSON accessors\<close>

fun json_get :: "string \<Rightarrow> 'n json_value \<Rightarrow> 'n json_value option" where
  "json_get key (JObject members) = map_of members key"
| "json_get key _ = None"

fun json_as_str :: "'n json_value \<Rightarrow> string option" where
  "json_as_str (JString s) = Some s"
| "json_as_str _ = None"

fun json_as_array :: "'n json_value \<Rightarrow> 'n json_value list option" where
  "json_as_array (JArray xs) = Some xs"
| "json_as_array _ = None"

fun json_as_u64 :: "('n \<Rightarrow> u64 option) \<Rightarrow> 'n json_value \<Rightarrow> u64 option" where
  "json_as_u64 as_u64 (JNumber n) = as_u64 n"
| "json_as_u64 as_u64 _ = None"

definition first_of :: "'a list \<Rightarrow> 'a option" where
  "first_of xs = (case xs of [] \<Rightarrow> None | x # _ \<Rightarrow> Some x)"

definition get_str :: "string \<Rightarrow> 'n json_value \<Rightarrow> string option" where
  "get_str key v = Option.bind (json_get key v) json_as_str"

definition get_array :: "string \<Rightarrow> 'n json_value \<Rightarrow> 'n json_value list option" where
  "get_array key v = Option.bind (json_get key v) json_as_array"

definition get_u64 :: "('n \<Rightarrow> u64 option) \<Rightarrow> string \<Rightarrow> 'n json_value \<Rightarrow> u64 option" where
  "get_u64 as_u64 key v = Option.bind (json_get key v) (json_as_u64 as_u64)"

section \<open>Roles, bindings and configuration\<close>

definition GATEWAY_CONFIG_SCHEMA_VERSION :: u32 where "GATEWAY_CONFIG_SCHEMA_VERSION = 1"
definition ROUTE_GENERATION_DOMAIN :: string where "ROUTE_GENERATION_DOMAIN = ''vibemux.workflow.route_generation.v1''"
definition MAX_ALIAS_BYTES :: nat where "MAX_ALIAS_BYTES = 128"
definition MAX_COMPLETION_BYTES :: nat where "MAX_COMPLETION_BYTES = 256 * 1024"
definition MIN_TIMEOUT_MS :: u64 where "MIN_TIMEOUT_MS = 1000"
definition MAX_TIMEOUT_MS :: u64 where "MAX_TIMEOUT_MS = 600000"
definition MAX_OUTPUT_TOKENS :: u32 where "MAX_OUTPUT_TOKENS = 16384"

datatype gateway_protocol = OpenaiChatCompletions | AnthropicMessages | OpenaiResponses

fun protocol_path :: "gateway_protocol \<Rightarrow> string" where
  "protocol_path OpenaiChatCompletions = ''/v1/chat/completions''"
| "protocol_path AnthropicMessages = ''/v1/messages''"
| "protocol_path OpenaiResponses = ''/v1/responses''"

definition adapter_supported :: "gateway_protocol \<Rightarrow> bool" where
  "adapter_supported self \<longleftrightarrow> self \<noteq> OpenaiResponses"

datatype route_role = RoleSupervisor | RoleCompiler | RoleWorkerA | RoleWorkerB | RoleReviewer | RoleOptimizer

fun route_role_as_str :: "route_role \<Rightarrow> string" where
  "route_role_as_str RoleSupervisor = ''supervisor''"
| "route_role_as_str RoleCompiler = ''compiler''"
| "route_role_as_str RoleWorkerA = ''worker_a''"
| "route_role_as_str RoleWorkerB = ''worker_b''"
| "route_role_as_str RoleReviewer = ''reviewer''"
| "route_role_as_str RoleOptimizer = ''optimizer''"

text \<open>The derived order of the variants.\<close>

fun route_role_rank :: "route_role \<Rightarrow> nat" where
  "route_role_rank RoleSupervisor = 0"
| "route_role_rank RoleCompiler = 1"
| "route_role_rank RoleWorkerA = 2"
| "route_role_rank RoleWorkerB = 3"
| "route_role_rank RoleReviewer = 4"
| "route_role_rank RoleOptimizer = 5"

lemma route_role_rank_eq_iff [simp]: "route_role_rank a = route_role_rank b \<longleftrightarrow> a = b"
  by (cases a; cases b) simp_all

instantiation route_role :: linorder
begin

definition less_eq_route_role :: "route_role \<Rightarrow> route_role \<Rightarrow> bool" where
  "less_eq_route_role a b \<longleftrightarrow> route_role_rank a \<le> route_role_rank b"

definition less_route_role :: "route_role \<Rightarrow> route_role \<Rightarrow> bool" where
  "less_route_role a b \<longleftrightarrow> route_role_rank a < route_role_rank b"

instance
  by standard (auto simp: less_eq_route_role_def less_route_role_def)

end

record route_binding =
  rb_role :: route_role
  rb_model_alias :: string
  rb_protocol :: gateway_protocol
  rb_max_output_tokens :: u32
  rb_timeout_ms :: u64

record gateway_config =
  gc_schema_version :: u32
  gc_endpoint :: string
  gc_credential_env :: string
  gc_bindings :: "route_binding list"
  gc_strict_routing :: bool

datatype gateway_config_error = GceSchemaUnsupported | GceEndpointNotLoopback | GceInvalidCredentialReference
  | GceDuplicateRole | GceInvalidAlias | GceInvalidBounds | GceReviewerNotIndependent

fun gateway_config_error_code :: "gateway_config_error \<Rightarrow> string" where
  "gateway_config_error_code GceSchemaUnsupported = ''gateway_config_schema_unsupported''"
| "gateway_config_error_code GceEndpointNotLoopback = ''gateway_endpoint_not_loopback''"
| "gateway_config_error_code GceInvalidCredentialReference = ''gateway_invalid_credential_reference''"
| "gateway_config_error_code GceDuplicateRole = ''gateway_duplicate_role''"
| "gateway_config_error_code GceInvalidAlias = ''gateway_invalid_alias''"
| "gateway_config_error_code GceInvalidBounds = ''gateway_invalid_bounds''"
| "gateway_config_error_code GceReviewerNotIndependent = ''gateway_reviewer_not_independent''"

text \<open>\<open>port.parse::<u16>()\<close> on ASCII digits.\<close>

definition loopback_port :: "string \<Rightarrow> bool" where
  "loopback_port port \<longleftrightarrow> port \<noteq> [] \<and> length port \<le> 5 \<and> list_all is_ascii_digit port
     \<and> decimal_value port < 2 ^ 16 \<and> decimal_value port > 0"

definition loopback_host :: "string \<Rightarrow> bool" where
  "loopback_host host \<longleftrightarrow> host = ''127.0.0.1'' \<or> host = ''localhost'' \<or> host = ''[::1]''"

definition strip_slash :: "string \<Rightarrow> string" where
  "strip_slash s = (if s \<noteq> [] \<and> last s = CHR ''/'' then butlast s else s)"

definition host_port :: "string \<Rightarrow> (string \<times> string) option" where
  "host_port rest =
     (case strip_prefix ''[::1]:'' rest of
        Some after \<Rightarrow> Some (''[::1]'', after)
      | None \<Rightarrow> rsplit_once CHR '':'' rest)"

definition is_loopback_origin :: "string \<Rightarrow> bool" where
  "is_loopback_origin endpoint =
     (case strip_prefix ''http://'' endpoint of None \<Rightarrow> False | Some r \<Rightarrow>
     (case host_port (strip_slash r) of
        None \<Rightarrow> False
      | Some (host, port) \<Rightarrow> loopback_host host \<and> loopback_port port))"

definition binding :: "gateway_config \<Rightarrow> route_role \<Rightarrow> route_binding option" where
  "binding self role = find (\<lambda>b. rb_role b = role) (gc_bindings self)"

definition valid_credential :: "string \<Rightarrow> bool" where
  "valid_credential name \<longleftrightarrow> name \<noteq> [] \<and> length name \<le> 128
     \<and> list_all (\<lambda>b. is_ascii_uppercase b \<or> is_ascii_digit b \<or> b = CHR ''_'') name
     \<and> take 8 name \<noteq> ''VIBEMUX_''"

definition alias_bad :: "string \<Rightarrow> bool" where
  "alias_bad a \<longleftrightarrow> a = [] \<or> length a > MAX_ALIAS_BYTES \<or> contains_whitespace a \<or> contains_control a"

definition bounds_out_of_range :: "u64 \<Rightarrow> u32 \<Rightarrow> bool" where
  "bounds_out_of_range timeout_ms max_output_tokens \<longleftrightarrow>
     \<not> (MIN_TIMEOUT_MS \<le> timeout_ms \<and> timeout_ms \<le> MAX_TIMEOUT_MS)
     \<or> max_output_tokens = 0 \<or> max_output_tokens > MAX_OUTPUT_TOKENS"

fun check_bindings :: "route_binding list \<Rightarrow> gateway_config_error + unit" where
  "check_bindings [] = Inr ()"
| "check_bindings (b # bs) =
     (if alias_bad (rb_model_alias b) then Inl GceInvalidAlias
      else if bounds_out_of_range (rb_timeout_ms b) (rb_max_output_tokens b) then Inl GceInvalidBounds
      else check_bindings bs)"

definition reviewer_collides :: "gateway_config \<Rightarrow> bool" where
  "reviewer_collides self =
     (case binding self RoleReviewer of None \<Rightarrow> False
      | Some reviewer \<Rightarrow> list_ex (\<lambda>worker. rb_model_alias worker = rb_model_alias reviewer)
          (List.map_filter (binding self) [RoleWorkerA, RoleWorkerB]))"

definition gateway_config_validate :: "gateway_config \<Rightarrow> gateway_config_error + unit" where
  "gateway_config_validate self =
     (if gc_schema_version self \<noteq> GATEWAY_CONFIG_SCHEMA_VERSION then Inl GceSchemaUnsupported
      else if \<not> is_loopback_origin (gc_endpoint self) then Inl GceEndpointNotLoopback
      else if \<not> valid_credential (gc_credential_env self) then Inl GceInvalidCredentialReference
      else (let roles = map rb_role (gc_bindings self) in
      if length (sort_dedup roles) \<noteq> length roles then Inl GceDuplicateRole
      else (case check_bindings (gc_bindings self) of Inl e \<Rightarrow> Inl e | Inr _ \<Rightarrow>
      if reviewer_collides self then Inl GceReviewerNotIndependent
      else Inr ())))"

section \<open>Health and routes\<close>

datatype response_error = ReMalformed | ReTooLarge | ReEmpty

fun response_error_code :: "response_error \<Rightarrow> string" where
  "response_error_code ReMalformed = ''gateway_response_malformed''"
| "response_error_code ReTooLarge = ''gateway_response_too_large''"
| "response_error_code ReEmpty = ''gateway_response_empty''"

record gateway_health =
  gh_status_ok :: bool
  gh_pinned_provider_present :: bool
  gh_models :: "string list"
  gh_route_generation :: digest

definition health_from_responses ::
  "('n \<Rightarrow> u64 option) \<Rightarrow> ('n \<Rightarrow> u64 option) \<Rightarrow> (string \<Rightarrow> digest) \<Rightarrow> 'n json_value \<Rightarrow> 'n json_value \<Rightarrow>
   response_error + gateway_health" where
  "health_from_responses as_i64 as_u64 sha256 health models =
     (let status_ok = (get_str ''status'' health = Some ''ok'');
          pinned = (case json_get ''pinnedProvider'' health of
              None \<Rightarrow> False | Some JNull \<Rightarrow> False
            | Some (JString text) \<Rightarrow> text \<noteq> [] | Some _ \<Rightarrow> True)
      in (case get_array ''data'' models of None \<Rightarrow> Inl ReMalformed | Some entries \<Rightarrow>
     (let aliases = sort_dedup (List.map_filter (get_str ''id'') entries) in
     (case canonical_digest as_i64 as_u64 Some sha256 ROUTE_GENERATION_DOMAIN
             (JObject [(''pinned'', JBool pinned), (''models'', JArray (map JString aliases))]) of
        Inl _ \<Rightarrow> Inl ReMalformed
      | Inr route_generation \<Rightarrow>
          Inr \<lparr>gh_status_ok = status_ok, gh_pinned_provider_present = pinned, gh_models = aliases,
               gh_route_generation = route_generation\<rparr>))))"

datatype route_block = GatewayUnhealthy | GlobalProviderPinActive | AliasNotAdvertised | ProtocolUnsupported
  | RoleUnbound

fun route_block_code :: "route_block \<Rightarrow> string" where
  "route_block_code GatewayUnhealthy = ''route_gateway_unhealthy''"
| "route_block_code GlobalProviderPinActive = ''route_global_provider_pin_active''"
| "route_block_code AliasNotAdvertised = ''route_alias_not_advertised''"
| "route_block_code ProtocolUnsupported = ''route_protocol_unsupported''"
| "route_block_code RoleUnbound = ''route_role_unbound''"

fun route_block_rank :: "route_block \<Rightarrow> nat" where
  "route_block_rank GatewayUnhealthy = 0"
| "route_block_rank GlobalProviderPinActive = 1"
| "route_block_rank AliasNotAdvertised = 2"
| "route_block_rank ProtocolUnsupported = 3"
| "route_block_rank RoleUnbound = 4"

definition evaluate_route ::
  "gateway_config \<Rightarrow> gateway_health \<Rightarrow> route_role \<Rightarrow> route_block list + route_binding" where
  "evaluate_route config health role =
     (let bound = binding config role;
          blocks =
            (if bound = None then [RoleUnbound] else [])
            @ (if \<not> gh_status_ok health then [GatewayUnhealthy] else [])
            @ (if gc_strict_routing config \<and> gh_pinned_provider_present health then [GlobalProviderPinActive] else [])
            @ (case bound of None \<Rightarrow> [] | Some b \<Rightarrow>
                (if \<not> adapter_supported (rb_protocol b) then [ProtocolUnsupported] else [])
                @ (if \<not> list_ex (\<lambda>model. model = rb_model_alias b) (gh_models health) then [AliasNotAdvertised] else []))
      in case bound of
           Some b \<Rightarrow> if blocks = [] then Inr b else Inl (sort_key route_block_rank blocks)
         | None \<Rightarrow> Inl (sort_key route_block_rank blocks))"

section \<open>Requests and completions\<close>

record call_correlation =
  cc_workflow_id :: uuid
  cc_call_id :: uuid
  cc_attempt :: u32

definition header_value :: "(uuid \<Rightarrow> string) \<Rightarrow> call_correlation \<Rightarrow> string" where
  "header_value simple self =
     simple (cc_workflow_id self) @ ''/'' @ simple (cc_call_id self) @ ''/'' @ decimal (unat (cc_attempt self))"

definition request_body :: "(u64 \<Rightarrow> 'n) \<Rightarrow> route_binding \<Rightarrow> string \<Rightarrow> string \<Rightarrow> 'n json_value" where
  "request_body number b system user =
     (let message = (\<lambda>role content. JObject [(''role'', JString role), (''content'', JString content)]);
          limits = [(''max_tokens'', JNumber (number (ucast (rb_max_output_tokens b)))),
                    (''temperature'', JNumber (number 0)), (''stream'', JBool False)]
      in case rb_protocol b of
           AnthropicMessages \<Rightarrow>
             JObject ([(''model'', JString (rb_model_alias b)), (''system'', JString system),
               (''messages'', JArray [message ''user'' user])] @ limits)
         | _ \<Rightarrow>
             JObject ([(''model'', JString (rb_model_alias b)),
               (''messages'', JArray [message ''system'' system, message ''user'' user])] @ limits))"

record reported_usage =
  ru_input_tokens :: "u64 option"
  ru_output_tokens :: "u64 option"
  ru_cached_tokens :: "u64 option"

definition default_usage :: reported_usage where
  "default_usage = \<lparr>ru_input_tokens = None, ru_output_tokens = None, ru_cached_tokens = None\<rparr>"

definition usage_is_unknown :: "reported_usage \<Rightarrow> bool" where
  "usage_is_unknown self \<longleftrightarrow> ru_input_tokens self = None \<and> ru_output_tokens self = None"

record parsed_completion =
  pc_text :: string
  pc_reported_model :: "string option"
  pc_usage :: reported_usage
  pc_finish_reason :: "string option"
  pc_tool_call_requested :: bool

definition anthropic_usage :: "('n \<Rightarrow> u64 option) \<Rightarrow> 'n json_value \<Rightarrow> reported_usage" where
  "anthropic_usage as_u64 usage =
     \<lparr>ru_input_tokens = get_u64 as_u64 ''input_tokens'' usage,
      ru_output_tokens = get_u64 as_u64 ''output_tokens'' usage,
      ru_cached_tokens = get_u64 as_u64 ''cache_read_input_tokens'' usage\<rparr>"

definition openai_usage :: "('n \<Rightarrow> u64 option) \<Rightarrow> 'n json_value \<Rightarrow> reported_usage" where
  "openai_usage as_u64 usage =
     \<lparr>ru_input_tokens = get_u64 as_u64 ''prompt_tokens'' usage,
      ru_output_tokens = get_u64 as_u64 ''completion_tokens'' usage,
      ru_cached_tokens =
        Option.bind (json_get ''prompt_tokens_details'' usage) (get_u64 as_u64 ''cached_tokens'')\<rparr>"

definition usage_of :: "('n json_value \<Rightarrow> reported_usage) \<Rightarrow> 'n json_value \<Rightarrow> reported_usage" where
  "usage_of read value = (case json_get ''usage'' value of None \<Rightarrow> default_usage | Some usage \<Rightarrow> read usage)"

definition parse_anthropic :: "('n \<Rightarrow> u64 option) \<Rightarrow> 'n json_value \<Rightarrow> response_error + parsed_completion" where
  "parse_anthropic as_u64 value =
     (case get_array ''content'' value of None \<Rightarrow> Inl ReMalformed | Some content \<Rightarrow>
      Inr \<lparr>pc_text = concat (List.map_filter (get_str ''text'')
                       (filter (\<lambda>block. get_str ''type'' block = Some ''text'') content)),
           pc_reported_model = get_str ''model'' value,
           pc_usage = usage_of (anthropic_usage as_u64) value,
           pc_finish_reason = get_str ''stop_reason'' value,
           pc_tool_call_requested = list_ex (\<lambda>block. get_str ''type'' block = Some ''tool_use'') content\<rparr>)"

definition parse_chat :: "('n \<Rightarrow> u64 option) \<Rightarrow> 'n json_value \<Rightarrow> response_error + parsed_completion" where
  "parse_chat as_u64 value =
     (case Option.bind (get_array ''choices'' value) first_of of None \<Rightarrow> Inl ReMalformed | Some choice \<Rightarrow>
     (case json_get ''message'' choice of None \<Rightarrow> Inl ReMalformed | Some message \<Rightarrow>
      Inr \<lparr>pc_text = (case get_str ''content'' message of None \<Rightarrow> [] | Some text \<Rightarrow> text),
           pc_reported_model = get_str ''model'' value,
           pc_usage = usage_of (openai_usage as_u64) value,
           pc_finish_reason = get_str ''finish_reason'' choice,
           pc_tool_call_requested =
             (case get_array ''tool_calls'' message of None \<Rightarrow> False | Some calls \<Rightarrow> calls \<noteq> [])\<rparr>))"

definition parse_completion ::
  "('n \<Rightarrow> u64 option) \<Rightarrow> (string \<Rightarrow> 'n json_value option) \<Rightarrow> gateway_protocol \<Rightarrow> string \<Rightarrow>
   response_error + parsed_completion" where
  "parse_completion as_u64 from_slice protocol body =
     (if length body > MAX_COMPLETION_BYTES then Inl ReTooLarge
      else (case from_slice body of None \<Rightarrow> Inl ReMalformed | Some value \<Rightarrow>
     (case (case protocol of
              AnthropicMessages \<Rightarrow> parse_anthropic as_u64 value
            | OpenaiChatCompletions \<Rightarrow> parse_chat as_u64 value
            | OpenaiResponses \<Rightarrow> Inl ReMalformed) of Inl e \<Rightarrow> Inl e | Inr parsed \<Rightarrow>
      if trim_is_empty (pc_text parsed) \<and> \<not> pc_tool_call_requested parsed then Inl ReEmpty
      else Inr parsed)))"

section \<open>Retries\<close>

datatype failure_stage = FsConnect | FsStatus "16 word" | FsTimeout | FsBrokenAfterOutput

datatype retry_decision = MayRetryOnce | NoAutomaticRetry string

definition classify_failure :: "failure_stage \<Rightarrow> u64 \<Rightarrow> bool \<Rightarrow> retry_decision" where
  "classify_failure stage output_bytes tool_effect_possible =
     (if tool_effect_possible then NoAutomaticRetry ''tool_effect_possible''
      else if output_bytes > 0 then NoAutomaticRetry ''output_committed''
      else case stage of
          FsConnect \<Rightarrow> MayRetryOnce
        | FsStatus status \<Rightarrow>
            if status = 429 \<or> status \<ge> 500 then MayRetryOnce else NoAutomaticRetry ''request_rejected''
        | FsTimeout \<Rightarrow> NoAutomaticRetry ''upstream_may_still_run''
        | FsBrokenAfterOutput \<Rightarrow> NoAutomaticRetry ''output_committed'')"

section \<open>Streams\<close>

record stream_accumulator =
  sa_text :: string
  sa_committed_bytes :: u64
  sa_tool_call_seen :: bool
  sa_done :: bool
  sa_reported_model :: "string option"
  sa_usage :: reported_usage

definition stream_default :: stream_accumulator where
  "stream_default = \<lparr>sa_text = [], sa_committed_bytes = 0, sa_tool_call_seen = False, sa_done = False,
     sa_reported_model = None, sa_usage = default_usage\<rparr>"

datatype stream_end =
    SeCompleted parsed_completion
  | SeFailedAfterOutput u64 bool      \<comment> \<open>discarded\_bytes, tool\_call\_seen\<close>
  | SeFailedBeforeOutput

text \<open>The delta of the first choice; the content and the tool calls of it.\<close>

definition stream_delta :: "'n json_value \<Rightarrow> 'n json_value option" where
  "stream_delta value =
     Option.bind (Option.bind (get_array ''choices'' value) first_of) (json_get ''delta'')"

definition delta_content :: "'n json_value \<Rightarrow> string option" where
  "delta_content value = Option.bind (stream_delta value) (get_str ''content'')"

definition delta_has_tool_calls :: "'n json_value \<Rightarrow> bool" where
  "delta_has_tool_calls value =
     (case Option.bind (stream_delta value) (json_get ''tool_calls'') of
        None \<Rightarrow> False | Some calls \<Rightarrow> calls \<noteq> JNull)"

definition accept_header :: "('n \<Rightarrow> u64 option) \<Rightarrow> 'n json_value \<Rightarrow> stream_accumulator \<Rightarrow> stream_accumulator" where
  "accept_header as_u64 value self =
     (let s = (case get_str ''model'' value of None \<Rightarrow> self
               | Some model \<Rightarrow> self\<lparr>sa_reported_model := Some model\<rparr>)
      in case json_get ''usage'' value of None \<Rightarrow> s
         | Some usage \<Rightarrow> if usage = JNull then s else s\<lparr>sa_usage := openai_usage as_u64 usage\<rparr>)"

definition accept_content :: "string \<Rightarrow> stream_accumulator \<Rightarrow> response_error + stream_accumulator" where
  "accept_content content self =
     (if length (sa_text self) + length content > MAX_COMPLETION_BYTES then Inl ReTooLarge
      else Inr (self\<lparr>sa_text := sa_text self @ content,
                     sa_committed_bytes := sa_committed_bytes self + of_nat (length content)\<rparr>))"

definition accept_tool_calls :: "bool \<Rightarrow> stream_accumulator \<Rightarrow> stream_accumulator" where
  "accept_tool_calls present self =
     (if present then self\<lparr>sa_tool_call_seen := True, sa_committed_bytes := sa_committed_bytes self + 1\<rparr>
      else self)"

text \<open>\<open>accept_data\<close> updates in place: the state is returned beside the result, since a chunk that is refused for its
  size has already updated the reported model and usage.\<close>

definition accept_data ::
  "('n \<Rightarrow> u64 option) \<Rightarrow> (string \<Rightarrow> 'n json_value option) \<Rightarrow> stream_accumulator \<Rightarrow> string \<Rightarrow>
   stream_accumulator \<times> (response_error + unit)" where
  "accept_data as_u64 from_str self data =
     (if trim data = ''[DONE]'' then (self\<lparr>sa_done := True\<rparr>, Inr ())
      else (case from_str data of None \<Rightarrow> (self, Inl ReMalformed) | Some value \<Rightarrow>
     (let s = accept_header as_u64 value self in
     (case (case delta_content value of None \<Rightarrow> Inr s | Some content \<Rightarrow> accept_content content s) of
        Inl e \<Rightarrow> (s, Inl e)
      | Inr t \<Rightarrow> (accept_tool_calls (delta_has_tool_calls value) t, Inr ())))))"

definition stream_finish :: "stream_accumulator \<Rightarrow> bool \<Rightarrow> stream_end" where
  "stream_finish self broken =
     (if broken \<or> \<not> sa_done self
      then (if sa_committed_bytes self = 0 then SeFailedBeforeOutput
            else SeFailedAfterOutput (of_nat (length (sa_text self))) (sa_tool_call_seen self))
      else SeCompleted \<lparr>pc_text = sa_text self, pc_reported_model = sa_reported_model self,
             pc_usage = sa_usage self, pc_finish_reason = None,
             pc_tool_call_requested = sa_tool_call_seen self\<rparr>)"

datatype call_outcome = CoCompleted | CoFailedBeforeOutput | CoFailedAfterOutput | CoBlocked

datatype provider_attribution = ProviderUnknown

record model_call_receipt =
  mr_call_id :: uuid
  mr_role :: route_role
  mr_requested_alias :: string
  mr_protocol :: gateway_protocol
  mr_reported_model :: "string option"
  mr_effective_provider :: provider_attribution
  mr_usage :: reported_usage
  mr_http_status :: "16 word option"
  mr_outcome :: call_outcome
  mr_failure :: "failure_stage option"
  mr_elapsed_ms :: u64
  mr_request_sha256 :: digest
  mr_response_sha256 :: "digest option"
  mr_route_generation :: digest
  mr_attempt :: u32

section \<open>Endpoints\<close>

lemma strip_prefix_Some: "strip_prefix p s = Some r \<longleftrightarrow> s = p @ r"
  by (metis append_eq_conv_conj append_take_drop_id option.distinct(1) option.inject strip_prefix_def)

lemma rsplit_once_split:
  assumes "c \<notin> set ys"
  shows "rsplit_once c (xs @ c # ys) = Some (xs, ys)"
proof -
  have "takeWhile (\<lambda>x. x \<noteq> c) (rev ys @ [c] @ rev xs) = rev ys"
    using assms by (subst takeWhile_append2) auto
  moreover have "dropWhile (\<lambda>x. x \<noteq> c) (rev ys @ [c] @ rev xs) = c # rev xs"
    using assms by (subst dropWhile_append2) auto
  ultimately show ?thesis by (simp add: rsplit_once_def)
qed

lemma rsplit_once_Some:
  assumes "rsplit_once c s = Some (xs, ys)"
  shows "s = xs @ c # ys \<and> c \<notin> set ys"
proof -
  have c: "c \<in> set s" using assms by (simp add: rsplit_once_def split: if_splits)
  then obtain us vs where s: "s = us @ c # vs" "c \<notin> set vs" by (metis split_list_last)
  then show ?thesis using assms rsplit_once_split [OF s(2), of us] by simp
qed

lemma loopback_port_chars: "loopback_port p \<Longrightarrow> CHR '':'' \<notin> set p \<and> CHR ''/'' \<notin> set p \<and> p \<noteq> []"
  by (auto simp: loopback_port_def list_all_iff is_ascii_digit_def)

lemma strip_slash_simps [simp]:
  "strip_slash (s @ ''/'') = s"
  "loopback_port p \<Longrightarrow> strip_slash (h @ CHR '':'' # p) = h @ CHR '':'' # p"
proof -
  show "strip_slash (s @ ''/'') = s" by (simp add: strip_slash_def)
  assume "loopback_port p"
  then have "last (h @ CHR '':'' # p) \<noteq> CHR ''/''" using last_in_set [of p] loopback_port_chars [of p] by (metis last.simps last_appendR list.distinct(1))
  then show "strip_slash (h @ CHR '':'' # p) = h @ CHR '':'' # p" by (simp add: strip_slash_def)
qed

definition origin_of :: "string \<Rightarrow> string \<Rightarrow> string" where
  "origin_of host port = ''http://'' @ host @ CHR '':'' # port"

lemma host_port_Some: "host_port rest = Some (host, port) \<Longrightarrow> rest = host @ CHR '':'' # port"
  by (auto simp: host_port_def strip_prefix_Some dest: rsplit_once_Some split: option.splits)

lemma host_port_join:
  assumes "loopback_host host" and "loopback_port port"
  shows "host_port (host @ CHR '':'' # port) = Some (host, port)"
proof (cases "strip_prefix ''[::1]:'' (host @ CHR '':'' # port)")
  case None
  then show ?thesis using loopback_port_chars [OF assms(2)] by (simp add: host_port_def rsplit_once_split)
next
  case (Some after)
  then have "host @ CHR '':'' # port = ''[::1]:'' @ after" by (simp only: strip_prefix_Some)
  then have "host = ''[::1]'' \<and> port = after" using assms(1) by (auto simp: loopback_host_def)
  then show ?thesis using Some by (simp add: host_port_def)
qed

lemma loopback_origin_exact:
  "is_loopback_origin endpoint \<longleftrightarrow>
   (\<exists>host port. loopback_host host \<and> loopback_port port
      \<and> (endpoint = origin_of host port \<or> endpoint = origin_of host port @ ''/''))"
    (is "?l = ?r")
proof
  assume ?l
  then obtain r host port where r: "endpoint = ''http://'' @ r" and split: "host_port (strip_slash r) = Some (host, port)"
    and ok: "loopback_host host" "loopback_port port"
    unfolding is_loopback_origin_def
    by (auto simp del: append.simps simp: strip_prefix_Some split: option.split_asm prod.split_asm)
  have "strip_slash r = host @ CHR '':'' # port" using host_port_Some [OF split] .
  moreover have "r = strip_slash r \<or> r = strip_slash r @ ''/''"
    by (metis append_butlast_last_id strip_slash_def)
  ultimately show ?r using r ok by (metis append.assoc append_Cons origin_of_def)
next
  assume ?r
  then obtain host port where ok: "loopback_host host" "loopback_port port"
    and e: "endpoint = origin_of host port \<or> endpoint = origin_of host port @ ''/''" by blast
  let ?rest = "host @ CHR '':'' # port"
  have "host_port ?rest = Some (host, port)" by (rule host_port_join [OF ok])
  moreover from e have "\<exists>r. endpoint = ''http://'' @ r \<and> strip_slash r = ?rest"
  proof
    assume "endpoint = origin_of host port"
    then show ?thesis using ok(2) by (intro exI [of _ ?rest]) (simp add: origin_of_def)
  next
    assume "endpoint = origin_of host port @ ''/''"
    then show ?thesis using strip_slash_simps(1) [of ?rest]
      by (intro exI [of _ "?rest @ ''/''"]) (simp add: origin_of_def)
  qed
  ultimately show ?l using ok by (auto simp: is_loopback_origin_def strip_prefix_def)
qed

section \<open>Valid configurations and open routes\<close>

lemma check_bindings_ok:
  "check_bindings bs = Inr () \<longleftrightarrow>
   (\<forall>b \<in> set bs. \<not> alias_bad (rb_model_alias b) \<and> \<not> bounds_out_of_range (rb_timeout_ms b) (rb_max_output_tokens b))"
  by (induction bs) auto

lemma binding_distinct:
  "distinct (map rb_role (gc_bindings c)) \<Longrightarrow>
   binding c role = Some b \<longleftrightarrow> b \<in> set (gc_bindings c) \<and> rb_role b = role"
  unfolding binding_def
  by (metis (mono_tags, lifting) distinct_map find_Some_filter find_SomeI inj_onD)

lemma gateway_config_valid:
  "gateway_config_validate c = Inr () \<longleftrightarrow>
   gc_schema_version c = 1 \<and> is_loopback_origin (gc_endpoint c) \<and> valid_credential (gc_credential_env c)
   \<and> distinct (map rb_role (gc_bindings c))
   \<and> (\<forall>b \<in> set (gc_bindings c). \<not> alias_bad (rb_model_alias b)
        \<and> \<not> bounds_out_of_range (rb_timeout_ms b) (rb_max_output_tokens b))
   \<and> \<not> reviewer_collides c"
  by (simp add: gateway_config_validate_def Let_def result_simps length_sort_dedup_eq_iff check_bindings_ok
      GATEWAY_CONFIG_SCHEMA_VERSION_def)

fun blocks_route :: "gateway_config \<Rightarrow> gateway_health \<Rightarrow> route_role \<Rightarrow> route_block \<Rightarrow> bool" where
  "blocks_route c h role GatewayUnhealthy = (\<not> gh_status_ok h)"
| "blocks_route c h role GlobalProviderPinActive = (gc_strict_routing c \<and> gh_pinned_provider_present h)"
| "blocks_route c h role AliasNotAdvertised =
     (\<exists>b. binding c role = Some b \<and> rb_model_alias b \<notin> set (gh_models h))"
| "blocks_route c h role ProtocolUnsupported =
     (\<exists>b. binding c role = Some b \<and> \<not> adapter_supported (rb_protocol b))"
| "blocks_route c h role RoleUnbound = (binding c role = None)"

lemma evaluate_route_cases:
  "(case evaluate_route c h role of
      Inr b \<Rightarrow> binding c role = Some b \<and> (\<forall>x. \<not> blocks_route c h role x)
    | Inl blocks \<Rightarrow> blocks \<noteq> [] \<and> distinct blocks \<and> sorted (map route_block_rank blocks)
        \<and> (\<forall>x. x \<in> set blocks \<longleftrightarrow> blocks_route c h role x))"
proof (cases "binding c role")
  case None
  have "x \<in> set (case evaluate_route c h role of Inl xs \<Rightarrow> xs) \<longleftrightarrow> blocks_route c h role x" for x
    using None by (cases x) (auto simp: evaluate_route_def)
  moreover have "distinct (case evaluate_route c h role of Inl xs \<Rightarrow> xs)"
    "\<exists>xs. evaluate_route c h role = Inl xs \<and> xs \<noteq> [] \<and> sorted (map route_block_rank xs)"
    using None by (auto simp: evaluate_route_def)
  ultimately show ?thesis by auto
next
  case (Some b)
  show ?thesis
  proof (cases "evaluate_route c h role")
    case (Inl xs)
    have "x \<in> set xs \<longleftrightarrow> blocks_route c h role x" for x
      using Some Inl by (cases x) (auto simp: evaluate_route_def Let_def list_ex_iff split: if_splits)
    moreover have "distinct xs" "xs \<noteq> []" "sorted (map route_block_rank xs)"
      using Some Inl by (auto simp: evaluate_route_def Let_def split: if_splits)
    ultimately show ?thesis using Inl by simp
  next
    case (Inr b')
    have "\<not> blocks_route c h role x" for x
      using Some Inr by (cases x) (auto simp: evaluate_route_def Let_def list_ex_iff split: if_splits)
    then show ?thesis using Some Inr by (auto simp: evaluate_route_def Let_def split: if_splits)
  qed
qed

text \<open>C19. The gateway routes are safe and exact. A valid configuration points to a port of the local host and gives
  the reviewer a model no worker has. For every role the evaluation opens the route exactly when the role is bound and
  nothing blocks it, and otherwise names every block that applies, once and in order.\<close>

theorem gateway_routes_exact:
  shows "(\<forall>role. case evaluate_route config health role of
       Inr b \<Rightarrow> binding config role = Some b \<and> (\<forall>x. \<not> blocks_route config health role x)
     | Inl blocks \<Rightarrow> blocks \<noteq> [] \<and> distinct blocks \<and> sorted (map route_block_rank blocks)
         \<and> (\<forall>x. x \<in> set blocks \<longleftrightarrow> blocks_route config health role x))
    \<and> (gateway_config_validate config = Inr () \<longrightarrow>
        (\<exists>host port. loopback_host host \<and> loopback_port port
           \<and> (gc_endpoint config = origin_of host port \<or> gc_endpoint config = origin_of host port @ ''/''))
        \<and> (\<forall>role b. evaluate_route config health role = Inr b \<longrightarrow>
             rb_role b = role \<and> \<not> alias_bad (rb_model_alias b)
             \<and> (role \<in> {RoleWorkerA, RoleWorkerB} \<longrightarrow>
                 (\<forall>r. evaluate_route config health RoleReviewer = Inr r \<longrightarrow> rb_model_alias r \<noteq> rb_model_alias b))))"
proof (intro conjI allI impI)
  show "case evaluate_route config health role of
       Inr b \<Rightarrow> binding config role = Some b \<and> (\<forall>x. \<not> blocks_route config health role x)
     | Inl blocks \<Rightarrow> blocks \<noteq> [] \<and> distinct blocks \<and> sorted (map route_block_rank blocks)
         \<and> (\<forall>x. x \<in> set blocks \<longleftrightarrow> blocks_route config health role x)" for role
    by (rule evaluate_route_cases)
next
  assume valid: "gateway_config_validate config = Inr ()"
  then show "\<exists>host port. loopback_host host \<and> loopback_port port
       \<and> (gc_endpoint config = origin_of host port \<or> gc_endpoint config = origin_of host port @ ''/'')"
    by (simp add: gateway_config_valid loopback_origin_exact)
  fix role b
  assume "evaluate_route config health role = Inr b"
  then have b: "binding config role = Some b" using evaluate_route_cases [of config health role] by simp
  then show "rb_role b = role" and "\<not> alias_bad (rb_model_alias b)"
    using valid by (auto simp: gateway_config_valid binding_distinct)
  fix r
  assume "role \<in> {RoleWorkerA, RoleWorkerB}" and "evaluate_route config health RoleReviewer = Inr r"
  moreover from this have "binding config RoleReviewer = Some r"
    using evaluate_route_cases [of config health RoleReviewer] by simp
  ultimately show "rb_model_alias r \<noteq> rb_model_alias b"
    using valid b by (auto simp: gateway_config_valid reviewer_collides_def map_filter_simps split: option.splits)
qed

definition example_config :: gateway_config where
  "example_config = \<lparr>gc_schema_version = 1, gc_endpoint = ''http://127.0.0.1:15721'', gc_credential_env = ''AAG_GATEWAY_TOKEN'',
     gc_bindings = [\<lparr>rb_role = RoleWorkerA, rb_model_alias = ''worker_model'', rb_protocol = OpenaiChatCompletions,
         rb_max_output_tokens = 4096, rb_timeout_ms = 120000\<rparr>,
       \<lparr>rb_role = RoleReviewer, rb_model_alias = ''reviewer_model'', rb_protocol = AnthropicMessages,
         rb_max_output_tokens = 4096, rb_timeout_ms = 120000\<rparr>],
     gc_strict_routing = True\<rparr>"

definition example_health :: gateway_health where
  "example_health = \<lparr>gh_status_ok = True, gh_pinned_provider_present = False,
     gh_models = [''reviewer_model'', ''worker_model''], gh_route_generation = 5\<rparr>"

lemma example_endpoint: "is_loopback_origin (gc_endpoint example_config)"
  unfolding loopback_origin_exact
  by (rule exI [of _ "''127.0.0.1''"], rule exI [of _ "''15721''"])
    (simp add: example_config_def loopback_host_def loopback_port_def origin_of_def decimal_value_def is_ascii_digit_def)

lemma example_config_valid: "gateway_config_validate example_config = Inr ()"
  unfolding gateway_config_valid
  by (simp add: example_endpoint)
    (simp add: example_config_def valid_credential_def alias_bad_def bounds_out_of_range_def reviewer_collides_def
      binding_def map_filter_simps rust_simps MAX_ALIAS_BYTES_def MIN_TIMEOUT_MS_def MAX_TIMEOUT_MS_def MAX_OUTPUT_TOKENS_def)

lemma example_routes:
  "evaluate_route example_config example_health RoleWorkerA = Inr (hd (gc_bindings example_config))"
  "evaluate_route example_config example_health RoleReviewer = Inr (gc_bindings example_config ! 1)"
  by code_simp+

theorem gateway_routes_exact_witness:
  "\<exists>b r. evaluate_route example_config example_health RoleWorkerA = Inr b
     \<and> evaluate_route example_config example_health RoleReviewer = Inr r \<and> rb_model_alias r \<noteq> rb_model_alias b
     \<and> (\<exists>host port. loopback_host host \<and> loopback_port port
          \<and> (gc_endpoint example_config = origin_of host port \<or> gc_endpoint example_config = origin_of host port @ ''/''))"
  using gateway_routes_exact [of example_config example_health] example_config_valid example_routes by blast
section \<open>What a stream ends with\<close>

text \<open>The chunks of a stream up to the first one that is refused, as the reader feeds them.\<close>

fun feed_stream ::
  "('n \<Rightarrow> u64 option) \<Rightarrow> (string \<Rightarrow> 'n json_value option) \<Rightarrow> stream_accumulator \<Rightarrow> string list \<Rightarrow>
   stream_accumulator \<times> string list \<times> response_error option" where
  "feed_stream as_u64 from_str s [] = (s, [], None)"
| "feed_stream as_u64 from_str s (d # ds) =
     (case accept_data as_u64 from_str s d of
        (t, Inl e) \<Rightarrow> (t, [], Some e)
      | (t, Inr _) \<Rightarrow> (case feed_stream as_u64 from_str t ds of (u, ps, r) \<Rightarrow> (u, d # ps, r)))"

abbreviation done_mark :: "string \<Rightarrow> bool" where
  "done_mark d \<equiv> trim d = ''[DONE]''"

definition chunk_text :: "(string \<Rightarrow> 'n json_value option) \<Rightarrow> string \<Rightarrow> string" where
  "chunk_text from_str d =
     (if done_mark d then [] else case Option.bind (from_str d) delta_content of None \<Rightarrow> [] | Some c \<Rightarrow> c)"

definition chunk_tool :: "(string \<Rightarrow> 'n json_value option) \<Rightarrow> string \<Rightarrow> bool" where
  "chunk_tool from_str d \<longleftrightarrow> \<not> done_mark d \<and> (\<exists>v. from_str d = Some v \<and> delta_has_tool_calls v)"

lemma accept_header_fields [simp]:
  "sa_text (accept_header n v s) = sa_text s"
  "sa_committed_bytes (accept_header n v s) = sa_committed_bytes s"
  "sa_tool_call_seen (accept_header n v s) = sa_tool_call_seen s"
  "sa_done (accept_header n v s) = sa_done s"
  by (auto simp: accept_header_def Let_def split: option.splits)

lemma accept_data_ok:
  assumes "accept_data n p s d = (t, Inr u)"
  shows "sa_text t = sa_text s @ chunk_text p d
    \<and> sa_tool_call_seen t = (sa_tool_call_seen s \<or> chunk_tool p d)
    \<and> sa_done t = (sa_done s \<or> done_mark d)
    \<and> sa_committed_bytes t = sa_committed_bytes s + of_nat (length (chunk_text p d) + of_bool (chunk_tool p d))
    \<and> (length (sa_text s) \<le> MAX_COMPLETION_BYTES \<longrightarrow> length (sa_text t) \<le> MAX_COMPLETION_BYTES)"
  using assms
  by (auto simp: accept_data_def Let_def accept_content_def accept_tool_calls_def chunk_text_def chunk_tool_def
      split: if_splits option.splits sum.splits prod.splits)

lemma accept_data_refused:
  assumes "accept_data n p s d = (t, Inl e)"
  shows "sa_text t = sa_text s \<and> sa_tool_call_seen t = sa_tool_call_seen s \<and> sa_done t = sa_done s
    \<and> sa_committed_bytes t = sa_committed_bytes s"
  using assms
  by (auto simp: accept_data_def Let_def split: if_splits option.splits sum.splits prod.splits)

lemma feed_stream_fields:
  assumes "feed_stream n p s ds = (t, ps, r)"
  shows "sa_text t = sa_text s @ concat (map (chunk_text p) ps)
    \<and> sa_tool_call_seen t = (sa_tool_call_seen s \<or> list_ex (chunk_tool p) ps)
    \<and> sa_done t = (sa_done s \<or> list_ex done_mark ps)
    \<and> sa_committed_bytes t = sa_committed_bytes s
        + of_nat (length (concat (map (chunk_text p) ps)) + length (filter (chunk_tool p) ps))
    \<and> (length (sa_text s) \<le> MAX_COMPLETION_BYTES \<longrightarrow> length (sa_text t) \<le> MAX_COMPLETION_BYTES)
    \<and> (\<exists>qs. ds = ps @ qs \<and> (r = None) = (qs = []))"
  using assms
proof (induction ds arbitrary: s ps)
  case (Cons d ds)
  show ?case
  proof (cases "accept_data n p s d")
    case (Pair u res)
    show ?thesis
    proof (cases res)
      case (Inl e)
      then show ?thesis using Cons.prems Pair accept_data_refused [of n p s d u e] by auto
    next
      case (Inr x)
      obtain ps' where ps': "feed_stream n p u ds = (t, ps', r)" "ps = d # ps'"
        using Cons.prems Pair Inr by (auto split: prod.splits)
      show ?thesis
        using Cons.IH [OF ps'(1)] accept_data_ok [of n p s d u x] Pair Inr ps'(2)
        by (auto simp: algebra_simps)
    qed
  qed
qed simp

lemma of_nat_64_eq_0: "n < 2 ^ 64 \<Longrightarrow> (of_nat n :: u64) = 0 \<longleftrightarrow> n = 0"
  by (simp add: word_unat_eq_iff unat_of_nat)

definition stream_output :: "(string \<Rightarrow> 'n json_value option) \<Rightarrow> string list \<Rightarrow> string" where
  "stream_output from_str chunks = concat (map (chunk_text from_str) chunks)"

definition stream_tools :: "(string \<Rightarrow> 'n json_value option) \<Rightarrow> string list \<Rightarrow> bool" where
  "stream_tools from_str chunks = list_ex (chunk_tool from_str) chunks"

definition stream_complete :: "bool \<Rightarrow> string list \<Rightarrow> bool" where
  "stream_complete broken chunks \<longleftrightarrow> \<not> broken \<and> list_ex done_mark chunks"

text \<open>C20. The accumulated stream is exactly what was sent. Let a stream of fewer than 2^63 chunks be fed until a
  chunk is refused. The chunks accepted are a prefix, all of them if none was refused; the stream completes
  exactly when the transport did not break and the end mark was among them, and then with the concatenation of
  their texts, within the size limit; it counts as failed before output exactly when it did not complete and no
  accepted chunk carried text or a tool call, otherwise the discarded size is that of the text; and a
  failure is retried only when there was no output.\<close>

theorem stream_output_exact:
  assumes "feed_stream as_u64 from_str stream_default data = (s, accepted, refused)"
    and "length data < 2 ^ 63"
  shows "(\<exists>rest. data = accepted @ rest \<and> (refused = None) = (rest = []))
    \<and> length (stream_output from_str accepted) \<le> MAX_COMPLETION_BYTES
    \<and> (case stream_finish s broken of
         SeCompleted c \<Rightarrow>
           stream_complete broken accepted \<and> pc_text c = stream_output from_str accepted
           \<and> pc_tool_call_requested c = stream_tools from_str accepted
       | SeFailedBeforeOutput \<Rightarrow>
           \<not> stream_complete broken accepted \<and> stream_output from_str accepted = [] \<and> \<not> stream_tools from_str accepted
       | SeFailedAfterOutput n t \<Rightarrow>
           \<not> stream_complete broken accepted \<and> (stream_output from_str accepted \<noteq> [] \<or> stream_tools from_str accepted)
           \<and> unat n = length (stream_output from_str accepted) \<and> t = stream_tools from_str accepted)
    \<and> (classify_failure stage (sa_committed_bytes s) (sa_tool_call_seen s) = MayRetryOnce \<longrightarrow>
         stream_output from_str accepted = [] \<and> \<not> stream_tools from_str accepted)"
proof -
  let ?out = "stream_output from_str accepted" and ?tools = "stream_tools from_str accepted"
  have f: "sa_text s = ?out" "sa_tool_call_seen s = ?tools" "sa_done s = list_ex done_mark accepted"
    "sa_committed_bytes s = of_nat (length ?out + length (filter (chunk_tool from_str) accepted))"
    "length ?out \<le> MAX_COMPLETION_BYTES"
    and rest: "\<exists>rest. data = accepted @ rest \<and> (refused = None) = (rest = [])"
    using feed_stream_fields [OF assms(1)] by (auto simp: stream_default_def stream_output_def stream_tools_def)
  have "length (filter (chunk_tool from_str) accepted) \<le> length data"
    using rest length_filter_le [of "chunk_tool from_str" accepted] by (auto simp: trans_le_add1)
  then have "length ?out + length (filter (chunk_tool from_str) accepted) < 2 ^ 64"
    using f(5) assms(2) by (simp add: MAX_COMPLETION_BYTES_def)
  then have zero: "sa_committed_bytes s = 0 \<longleftrightarrow> ?out = [] \<and> \<not> ?tools"
    unfolding f(4) by (subst of_nat_64_eq_0) (auto simp: stream_tools_def list_ex_iff filter_empty_conv)
  have "unat (of_nat (length ?out) :: u64) = length ?out"
    using f(5) by (simp add: MAX_COMPLETION_BYTES_def unat_of_nat)
  then show ?thesis
    using f rest zero unfolding stream_finish_def stream_complete_def
    by (auto simp: classify_failure_def word_gt_0 split: if_splits)
qed

definition example_chunk :: "string \<Rightarrow> nat json_value option" where
  "example_chunk data = (if data = ''x''
     then Some (JObject [(''choices'', JArray [JObject [(''delta'', JObject [(''content'', JString ''hi'')])]])]) else None)"

theorem stream_output_exact_witness:
  "\<exists>s. feed_stream (\<lambda>_. None) example_chunk stream_default [''x'', ''x'', '' [DONE] ''] = (s, [''x'', ''x'', '' [DONE] ''], None)
     \<and> (\<exists>c. stream_finish s False = SeCompleted c \<and> pc_text c = ''hihi'')"
proof -
  let ?data = "[''x'', ''x'', '' [DONE] '']"
  let ?fed = "feed_stream (\<lambda>_. None) example_chunk stream_default ?data"
  have s: "?fed = (fst ?fed, ?data, None)" "sa_done (fst ?fed)" and o: "stream_output example_chunk ?data = ''hihi''"
    by (simp_all add: example_chunk_def accept_data_def trim_def rust_simps accept_header_def accept_content_def
        accept_tool_calls_def delta_content_def delta_has_tool_calls_def stream_delta_def get_str_def get_array_def
        first_of_def MAX_COMPLETION_BYTES_def stream_default_def stream_output_def chunk_text_def)
  obtain c where c: "stream_finish (fst ?fed) False = SeCompleted c" using s(2) by (simp add: stream_finish_def)
  from stream_output_exact [OF s(1), of False FsTimeout] c o show ?thesis using s(1)
    by (intro exI [of _ "fst ?fed"]) simp
qed

end
