(* ===== verification/Model_Call.thy ===== *)
theory Model_Call
  imports Gateway Identifiers
begin

text \<open>
  Admission and recovery records of effectful model calls, \<open>crates/vibemux_workflow/src/model_call.rs\<close>: the
  identity of a request, the admission, the record and its three writers \<open>mark_submitted\<close>, \<open>finish\<close> and
  \<open>recover_after_restart\<close>. The encoding of a JSON body to bytes, the fields of a fingerprint as a JSON
  value, and SHA-256 are parameters. The parsing of candidate responses rests on serde and is not modelled.

  The lemmas show that every writer keeps a record valid, that the state only moves along
  reserved, submitted, settled, and that a record is completed or rejected only on a receipt of exactly this call.
\<close>

section \<open>Data\<close>

definition MODEL_CALL_FINGERPRINT_DOMAIN :: string where
  "MODEL_CALL_FINGERPRINT_DOMAIN = ''vibemux.workflow.model_call_fingerprint.v1''"
definition MAX_MODEL_CALL_INPUT_BYTES :: nat where "MAX_MODEL_CALL_INPUT_BYTES = 256 * 1024"
definition MAX_MODEL_CALLS_PER_OWNER :: u32 where "MAX_MODEL_CALLS_PER_OWNER = 64"

datatype model_call_state = McReserved | McSubmitted | McCompleted | McRejected | McBlocked | McUnknown

record model_call_identity =
  mi_request_sha256 :: digest
  mi_request_fingerprint :: digest
  mi_config_sha256 :: digest
  mi_observation_digest :: "digest option"
  mi_role :: route_role
  mi_requested_alias :: string
  mi_protocol :: gateway_protocol
  mi_max_output_tokens :: u32
  mi_timeout_ms :: u64

record model_call_admission =
  ma_call_id :: uuid
  ma_owner_key :: spec_identifier
  ma_workflow_id :: "uuid option"
  ma_identity :: model_call_identity
  ma_deadline_unix_ms :: u64
  ma_max_calls :: u32

datatype model_call_error = MeInvalidAdmission | MeIdentityMismatch | MeCallLimitExceeded | MeNotReservable
  | MeNotSubmitted | MeInvalidFinish | MeReceiptMismatch | MeContentTooLarge | MeCandidateResponseInvalid
  | MeSupervisorProposalInvalid | MeIdentityUnavailable

fun model_call_error_code :: "model_call_error \<Rightarrow> string" where
  "model_call_error_code MeInvalidAdmission = ''model_call_admission_invalid''"
| "model_call_error_code MeIdentityMismatch = ''model_call_identity_mismatch''"
| "model_call_error_code MeCallLimitExceeded = ''model_call_limit_exceeded''"
| "model_call_error_code MeNotReservable = ''model_call_not_reservable''"
| "model_call_error_code MeNotSubmitted = ''model_call_not_submitted''"
| "model_call_error_code MeInvalidFinish = ''model_call_finish_invalid''"
| "model_call_error_code MeReceiptMismatch = ''model_call_receipt_mismatch''"
| "model_call_error_code MeContentTooLarge = ''model_call_content_too_large''"
| "model_call_error_code MeCandidateResponseInvalid = ''model_candidate_response_invalid''"
| "model_call_error_code MeSupervisorProposalInvalid = ''supervisor_proposal_invalid''"
| "model_call_error_code MeIdentityUnavailable = ''model_call_identity_unavailable''"

definition admission_validate :: "model_call_admission \<Rightarrow> model_call_error + unit" where
  "admission_validate self =
     (let identity = ma_identity self in
      if ma_deadline_unix_ms self = 0
         \<or> \<not> (1 \<le> ma_max_calls self \<and> ma_max_calls self \<le> MAX_MODEL_CALLS_PER_OWNER)
         \<or> \<not> adapter_supported (mi_protocol identity)
         \<or> mi_requested_alias identity = []
         \<or> length (mi_requested_alias identity) > MAX_ALIAS_BYTES
         \<or> contains_whitespace (mi_requested_alias identity) \<or> contains_control (mi_requested_alias identity)
         \<or> mi_max_output_tokens identity = 0
         \<or> mi_max_output_tokens identity > MAX_OUTPUT_TOKENS
         \<or> \<not> (MIN_TIMEOUT_MS \<le> mi_timeout_ms identity \<and> mi_timeout_ms identity \<le> MAX_TIMEOUT_MS)
      then Inl MeInvalidAdmission else Inr ())"

record model_call_record =
  mc_call_id :: uuid
  mc_admission :: model_call_admission
  mc_state :: model_call_state
  mc_calls_used :: u32
  mc_receipt :: "model_call_receipt option"
  mc_error_code :: "spec_identifier option"

section \<open>Writers\<close>

definition call_limit_bad :: "u32 \<Rightarrow> model_call_admission \<Rightarrow> bool" where
  "call_limit_bad calls_used admission \<longleftrightarrow> calls_used = 0 \<or> calls_used > ma_max_calls admission"

definition call_reserved :: "model_call_admission \<Rightarrow> u32 \<Rightarrow> model_call_error + model_call_record" where
  "call_reserved admission calls_used =
     (case admission_validate admission of Inl e \<Rightarrow> Inl e | Inr _ \<Rightarrow>
      if call_limit_bad calls_used admission then Inl MeCallLimitExceeded
      else Inr \<lparr>mc_call_id = ma_call_id admission, mc_admission = admission, mc_state = McReserved,
                mc_calls_used = calls_used, mc_receipt = None, mc_error_code = None\<rparr>)"

definition matches_admission :: "model_call_record \<Rightarrow> model_call_admission \<Rightarrow> bool" where
  "matches_admission self admission \<longleftrightarrow> mc_admission self = admission"

definition validate_receipt :: "model_call_record \<Rightarrow> model_call_receipt \<Rightarrow> model_call_error + unit" where
  "validate_receipt r receipt =
     (let identity = ma_identity (mc_admission r) in
      if mr_call_id receipt \<noteq> mc_call_id r
         \<or> mr_role receipt \<noteq> mi_role identity
         \<or> mr_requested_alias receipt \<noteq> mi_requested_alias identity
         \<or> mr_protocol receipt \<noteq> mi_protocol identity
         \<or> mr_request_sha256 receipt \<noteq> mi_request_sha256 identity
         \<or> (case mi_observation_digest identity of None \<Rightarrow> False
            | Some observation \<Rightarrow> mr_route_generation receipt \<noteq> observation)
         \<or> mr_attempt receipt \<noteq> mc_calls_used r
      then Inl MeReceiptMismatch else Inr ())"

definition rejection_code :: "spec_identifier option \<Rightarrow> bool" where
  "rejection_code code \<longleftrightarrow>
     code = Some ''model_call_response_too_large'' \<or> code = Some ''gateway_result_invalid''"

definition answered :: "model_call_receipt option \<Rightarrow> bool" where
  "answered receipt = (case receipt of None \<Rightarrow> False
     | Some r \<Rightarrow> mr_outcome r = CoCompleted \<and> mr_response_sha256 r \<noteq> None)"

definition has_response :: "model_call_receipt option \<Rightarrow> bool" where
  "has_response receipt = (case receipt of None \<Rightarrow> False | Some r \<Rightarrow> mr_response_sha256 r \<noteq> None)"

definition valid_terminal :: "model_call_record \<Rightarrow> bool" where
  "valid_terminal self =
     (case mc_state self of
        McReserved \<Rightarrow> mc_receipt self = None \<and> mc_error_code self = None
      | McSubmitted \<Rightarrow> mc_receipt self = None \<and> mc_error_code self = None
      | McCompleted \<Rightarrow> mc_error_code self = None \<and> answered (mc_receipt self)
      | McRejected \<Rightarrow> rejection_code (mc_error_code self) \<and> answered (mc_receipt self)
      | McBlocked \<Rightarrow> mc_error_code self \<noteq> None
          \<and> (case mc_receipt self of None \<Rightarrow> True
             | Some r \<Rightarrow> mr_outcome r = CoBlocked \<or> mr_outcome r = CoFailedBeforeOutput)
      | McUnknown \<Rightarrow> mc_error_code self \<noteq> None
          \<and> (case mc_receipt self of None \<Rightarrow> True | Some r \<Rightarrow> mr_outcome r = CoFailedAfterOutput))"

definition call_validate :: "model_call_record \<Rightarrow> model_call_error + unit" where
  "call_validate self =
     (case admission_validate (mc_admission self) of Inl e \<Rightarrow> Inl e | Inr _ \<Rightarrow>
      if mc_call_id self \<noteq> ma_call_id (mc_admission self) \<or> is_nil (mc_call_id self) then Inl MeIdentityMismatch
      else if call_limit_bad (mc_calls_used self) (mc_admission self) then Inl MeCallLimitExceeded
      else if \<not> valid_terminal self then Inl MeInvalidFinish
      else (case mc_receipt self of None \<Rightarrow> Inr () | Some receipt \<Rightarrow> validate_receipt self receipt))"

definition mark_submitted :: "model_call_record \<Rightarrow> model_call_error + model_call_record" where
  "mark_submitted self =
     (if mc_state self \<noteq> McReserved then Inl MeNotReservable else Inr (self\<lparr>mc_state := McSubmitted\<rparr>))"

text \<open>The state a submitted call settles in, from the receipt and the error code.\<close>

definition settled_state ::
  "model_call_receipt option \<Rightarrow> spec_identifier option \<Rightarrow> model_call_state option" where
  "settled_state receipt error_code =
     (case map_option mr_outcome receipt of
        Some CoCompleted \<Rightarrow>
          if rejection_code error_code \<and> has_response receipt then Some McRejected
          else if error_code = None \<and> has_response receipt then Some McCompleted
          else None
      | Some CoBlocked \<Rightarrow> if error_code \<noteq> None then Some McBlocked else None
      | Some CoFailedBeforeOutput \<Rightarrow> if error_code \<noteq> None then Some McBlocked else None
      | Some CoFailedAfterOutput \<Rightarrow> if error_code \<noteq> None then Some McUnknown else None
      | None \<Rightarrow> if error_code \<noteq> None then Some McUnknown else None)"

definition call_finish ::
  "model_call_record \<Rightarrow> model_call_receipt option \<Rightarrow> spec_identifier option \<Rightarrow> model_call_error + model_call_record" where
  "call_finish self receipt error_code =
     (if mc_state self = McReserved
      then (if receipt \<noteq> None \<or> error_code = None then Inl MeInvalidFinish
            else Inr (self\<lparr>mc_error_code := error_code, mc_state := McBlocked\<rparr>))
      else if mc_state self \<noteq> McSubmitted then Inl MeNotSubmitted
      else (case (case receipt of None \<Rightarrow> Inr () | Some r \<Rightarrow> validate_receipt self r) of Inl e \<Rightarrow> Inl e | Inr _ \<Rightarrow>
     (case settled_state receipt error_code of None \<Rightarrow> Inl MeInvalidFinish
      | Some state \<Rightarrow> Inr (self\<lparr>mc_receipt := receipt, mc_error_code := error_code, mc_state := state\<rparr>))))"

text \<open>\<open>recover_after_restart\<close> returns whether it changed the record.\<close>

definition recover_after_restart :: "model_call_record \<Rightarrow> model_call_error + model_call_record \<times> bool" where
  "recover_after_restart self =
     (if mc_state self \<noteq> McSubmitted then Inr (self, False)
      else (case spec_identifier_new ''model_call_outcome_unknown'' of
              Inl _ \<Rightarrow> Inl MeInvalidAdmission
            | Inr code \<Rightarrow> Inr (self\<lparr>mc_state := McUnknown, mc_error_code := Some code\<rparr>, True)))"

section \<open>The identity of a request\<close>

record model_call_request =
  mq_role :: route_role
  mq_requested_alias :: string
  mq_protocol :: gateway_protocol
  mq_max_output_tokens :: u32
  mq_timeout_ms :: u64
  mq_config_sha256 :: digest
  mq_observation_digest :: "digest option"
  mq_system_prompt :: string
  mq_user_prompt :: string

datatype model_call_identity_error = IeContentTooLarge | IeCanonical canonical_error

text \<open>\<open>content_bytes\<close> saturates at \<open>usize::MAX\<close>, above the limit, so the comparison is the one on the exact sum.
  \<open>fingerprint\<close> is the digest of the nine fields; \<open>to_vec\<close> the bytes of the JSON body.\<close>

definition request_identity ::
  "(u64 \<Rightarrow> 'n) \<Rightarrow> ('n json_value \<Rightarrow> string option) \<Rightarrow> (model_call_request \<Rightarrow> canonical_error + digest) \<Rightarrow>
   (string \<Rightarrow> digest) \<Rightarrow> model_call_request \<Rightarrow> model_call_identity_error + model_call_identity" where
  "request_identity number to_vec fingerprint sha256 self =
     (if length (mq_system_prompt self) + length (mq_user_prompt self) > MAX_MODEL_CALL_INPUT_BYTES
      then Inl IeContentTooLarge
      else (case fingerprint self of Inl e \<Rightarrow> Inl (IeCanonical e) | Inr request_fingerprint \<Rightarrow>
     (case to_vec (request_body number
             \<lparr>rb_role = mq_role self, rb_model_alias = mq_requested_alias self, rb_protocol = mq_protocol self,
              rb_max_output_tokens = mq_max_output_tokens self, rb_timeout_ms = mq_timeout_ms self\<rparr>
             (mq_system_prompt self) (mq_user_prompt self)) of
        None \<Rightarrow> Inl (IeCanonical Unserializable)
      | Some body_bytes \<Rightarrow>
          Inr \<lparr>mi_request_sha256 = sha256 body_bytes, mi_request_fingerprint = request_fingerprint,
               mi_config_sha256 = mq_config_sha256 self, mi_observation_digest = mq_observation_digest self,
               mi_role = mq_role self, mi_requested_alias = mq_requested_alias self,
               mi_protocol = mq_protocol self, mi_max_output_tokens = mq_max_output_tokens self,
               mi_timeout_ms = mq_timeout_ms self\<rparr>)))"

section \<open>Validity and progress\<close>

definition is_settled :: "model_call_state \<Rightarrow> bool" where
  "is_settled s \<longleftrightarrow> s \<noteq> McReserved \<and> s \<noteq> McSubmitted"

lemma outcome_unknown_identifier: "spec_identifier_new ''model_call_outcome_unknown'' = Inr ''model_call_outcome_unknown''"
  by (simp add: spec_identifier_new_def is_snake_case_def MAX_IDENTIFIER_BYTES_def rust_simps sublist_code suffix_def)


lemma settled_state_terminal:
  "settled_state receipt code = Some state \<Longrightarrow>
   is_settled state \<and> valid_terminal (r\<lparr>mc_receipt := receipt, mc_error_code := code, mc_state := state\<rparr>)"
  by (cases receipt)
    (auto simp: settled_state_def valid_terminal_def answered_def has_response_def is_settled_def split: call_outcome.splits if_splits)

lemma validate_receipt_update [simp]:
  "validate_receipt (r\<lparr>mc_state := s\<rparr>) x = validate_receipt r x"
  "validate_receipt (r\<lparr>mc_error_code := c\<rparr>) x = validate_receipt r x"
  "validate_receipt (r\<lparr>mc_receipt := y\<rparr>) x = validate_receipt r x"
  by (simp_all add: validate_receipt_def)

lemma call_reserved_Inr:
  "call_reserved admission n = Inr r \<Longrightarrow> \<not> is_nil (ma_call_id admission) \<Longrightarrow>
   call_validate r = Inr () \<and> mc_state r = McReserved \<and> mc_calls_used r = n \<and> mc_admission r = admission
   \<and> mc_call_id r = ma_call_id admission"
  by (auto simp: call_reserved_def call_validate_def valid_terminal_def result_simps)

text \<open>What a writer leaves alone.\<close>

definition same_call :: "model_call_record \<Rightarrow> model_call_record \<Rightarrow> bool" where
  "same_call r s \<longleftrightarrow> mc_call_id r = mc_call_id s \<and> mc_admission r = mc_admission s
     \<and> mc_calls_used r = mc_calls_used s"

lemma mark_submitted_Inr:
  "mark_submitted r = Inr s \<Longrightarrow> same_call r s \<and> mc_state r = McReserved \<and> mc_state s = McSubmitted
    \<and> (call_validate r = Inr () \<longrightarrow> call_validate s = Inr ())"
  by (auto simp: mark_submitted_def same_call_def call_validate_def valid_terminal_def result_simps)

lemma call_finish_Inr:
  assumes "call_finish r receipt code = Inr s" and "call_validate r = Inr ()"
  shows "same_call r s \<and> \<not> is_settled (mc_state r) \<and> is_settled (mc_state s) \<and> call_validate s = Inr ()
    \<and> (mc_state r = McReserved \<longrightarrow> mc_state s = McBlocked)"
proof (cases "mc_state r = McReserved")
  case True
  then show ?thesis using assms
    by (auto simp: call_finish_def same_call_def is_settled_def call_validate_def valid_terminal_def result_simps)
next
  case False
  then obtain state where state: "settled_state receipt code = Some state"
    and s: "s = r\<lparr>mc_receipt := receipt, mc_error_code := code, mc_state := state\<rparr>"
    and sub: "mc_state r = McSubmitted"
    and receipt: "\<forall>x. receipt = Some x \<longrightarrow> validate_receipt r x = Inr ()"
    using assms(1) by (auto simp: call_finish_def result_simps split: if_splits)
  have "valid_terminal s" and "is_settled state" using settled_state_terminal [OF state, of r] s by auto
  moreover have "call_validate s = Inr ()"
    using assms(2) receipt \<open>valid_terminal s\<close> unfolding s by (auto simp: call_validate_def result_simps)
  ultimately show ?thesis using s sub by (simp add: same_call_def is_settled_def)
qed

lemma recover_after_restart_Inr:
  "recover_after_restart r = Inr (s, changed) \<Longrightarrow> call_validate r = Inr () \<Longrightarrow>
   same_call r s \<and> call_validate s = Inr () \<and> changed = (mc_state r = McSubmitted)
   \<and> (changed \<longrightarrow> mc_state s = McUnknown) \<and> (\<not> changed \<longrightarrow> s = r)"
  by (auto simp: recover_after_restart_def outcome_unknown_identifier same_call_def call_validate_def
      valid_terminal_def result_simps split: if_splits)

lemma recover_total: "\<exists>s changed. recover_after_restart r = Inr (s, changed)"
  by (auto simp: recover_after_restart_def outcome_unknown_identifier)

end
