(* ===== verification/Task_Spec.thy ===== *)
theory Task_Spec
  imports Workflow_Record Messages Canonical_Json
begin

text \<open>
  Task specifications and operator policies, \<open>crates/vibemux_workflow/src/task_spec.rs\<close>, \<open>policy.rs\<close> and
  \<open>execution_authority.rs\<close>: the typed representation a model proposes, its structural validation and normal
  form, the intersection with the operator's policy, and the tools an admitted specification leaves to a worker.
  Parsing rests on serde and is not modelled; the digest of a specification is a parameter.

  The lemmas show that a valid specification keeps its write scope apart from what it forbids, that the normal form
  is one, and that the intersection only narrows: tools and budgets shrink to what the policy allows, the write
  scope stays inside the writable roots and off the protected paths, every change is reported, and intersecting
  again changes nothing.
\<close>

section \<open>Data\<close>

definition TASK_SPEC_SCHEMA_VERSION :: u32 where "TASK_SPEC_SCHEMA_VERSION = 1"
definition TASK_SPEC_DIGEST_DOMAIN :: string where "TASK_SPEC_DIGEST_DOMAIN = ''vibemux.workflow.task_spec.v1''"
definition MAX_REQUIREMENTS :: nat where "MAX_REQUIREMENTS = 64"
definition MAX_LIST_ITEMS :: nat where "MAX_LIST_ITEMS = 64"
definition MAX_LITERALS_PER_REQUIREMENT :: nat where "MAX_LITERALS_PER_REQUIREMENT = 16"
definition MAX_STATEMENT_BYTES :: nat where "MAX_STATEMENT_BYTES = 2048"
definition MAX_OBJECTIVE_BYTES :: nat where "MAX_OBJECTIVE_BYTES = 4096"
definition MAX_LITERAL_BYTES :: nat where "MAX_LITERAL_BYTES = 4096"
definition MAX_SHORT_TEXT_BYTES :: nat where "MAX_SHORT_TEXT_BYTES = 1024"
definition MAX_CONTEXT_BUNDLE_BYTES :: u32 where "MAX_CONTEXT_BUNDLE_BYTES = 16 * 1024"
definition MAX_MESSAGES_PER_TURN :: u32 where "MAX_MESSAGES_PER_TURN = 8"

datatype source_language = Zh | En | Mixed | Other

datatype normative_force = Must | MustNot | Should | May

fun force_as_upper :: "normative_force \<Rightarrow> string" where
  "force_as_upper Must = ''MUST''"
| "force_as_upper MustNot = ''MUST NOT''"
| "force_as_upper Should = ''SHOULD''"
| "force_as_upper May = ''MAY''"

definition force_is_binding :: "normative_force \<Rightarrow> bool" where
  "force_is_binding self \<longleftrightarrow> self = Must \<or> self = MustNot"

record source_span =
  sp_start :: u32
  sp_end :: u32
  sp_quoted :: string

record contract_excerpt =
  cx_artifact_id :: spec_identifier
  cx_quoted :: string

record requirement =
  rq_requirement_id :: spec_identifier
  rq_statement :: string
  rq_force :: normative_force
  rq_source_refs :: "source_span list"
  rq_contract_excerpts :: "contract_excerpt list"
  rq_literals :: "string list"
  rq_acceptance_check_ids :: "spec_identifier list"

record assumption =
  as_assumption_id :: spec_identifier
  as_statement :: string
  as_rationale :: string

datatype exclusion_reason = BackgroundContext | ExampleData | AddressedToOtherTask

record source_exclusion =
  se_span :: source_span
  se_reason :: exclusion_reason

datatype check_kind = ExistingVerifierSuite | ProposedTest | ReviewCriterion

record acceptance_check =
  ac_check_id :: spec_identifier
  ac_kind :: check_kind
  ac_description :: string
  ac_verifier_suite :: "spec_identifier option"

datatype media_type = TextMarkdown | TextPlain | ApplicationJson | Javascript

record artifact_ref =
  ar_artifact_id :: spec_identifier
  ar_sha256 :: digest
  ar_byte_count :: u64
  ar_media_type :: media_type

datatype tool = ReadFiles | SearchFiles | EditFiles | WriteFiles | RunDevTests

fun tool_as_str :: "tool \<Rightarrow> string" where
  "tool_as_str ReadFiles = ''read_files''"
| "tool_as_str SearchFiles = ''search_files''"
| "tool_as_str EditFiles = ''edit_files''"
| "tool_as_str WriteFiles = ''write_files''"
| "tool_as_str RunDevTests = ''run_dev_tests''"

datatype worker_role = BackendDomain | Frontend | StoreComponent | WorkerReviewer | Integrator | Generic

fun worker_role_as_str :: "worker_role \<Rightarrow> string" where
  "worker_role_as_str BackendDomain = ''backend_domain''"
| "worker_role_as_str Frontend = ''frontend''"
| "worker_role_as_str StoreComponent = ''store_component''"
| "worker_role_as_str WorkerReviewer = ''reviewer''"
| "worker_role_as_str Integrator = ''integrator''"
| "worker_role_as_str Generic = ''generic''"

fun workflow_mode_as_str :: "workflow_mode \<Rightarrow> string" where
  "workflow_mode_as_str Cooperate = ''cooperate''"
| "workflow_mode_as_str Compare = ''compare''"
| "workflow_mode_as_str Review = ''review''"

datatype context_source_kind = CsVerifierReceipts | CsCandidateSnapshot | CsWorkerClaims | CsPublicMessages
  | CsContractText

record output_contract =
  oc_checkpoint_report_required :: bool
  oc_changes_within_owned_paths :: bool

record communication_policy =
  cm_may_message :: "spec_identifier list"
  cm_max_messages_per_turn :: u32
  cm_auto_authorized_kinds :: "message_kind list"

record context_policy =
  cy_max_bundle_bytes :: u32
  cy_retrieval_order :: "context_source_kind list"
  cy_allow_public_excerpts :: bool

record resource_budget =
  bu_max_turns :: u32
  bu_max_repairs :: u32
  bu_max_elapsed_seconds :: u64
  bu_max_model_requests :: u32

record task_spec =
  ts_schema_version :: u32
  ts_workflow_key :: spec_identifier
  ts_task_key :: spec_identifier
  ts_contract_version :: u32
  ts_original_request_ref :: digest
  ts_source_language :: source_language
  ts_requirements :: "requirement list"
  ts_objective :: string
  ts_non_goals :: "string list"
  ts_assumptions :: "assumption list"
  ts_unresolved_questions :: "string list"
  ts_source_exclusions :: "source_exclusion list"
  ts_base_commit :: string
  ts_input_artifacts :: "artifact_ref list"
  ts_shared_contract_refs :: "artifact_ref list"
  ts_owned_paths :: "path_pattern list"
  ts_read_scopes :: "path_pattern list"
  ts_forbidden_paths :: "path_pattern list"
  ts_dependencies :: "spec_identifier list"
  ts_required_capabilities :: "slot_capability list"
  ts_permitted_tools :: "tool list"
  ts_acceptance_checks :: "acceptance_check list"
  ts_output_contract :: output_contract
  ts_required_levels :: "acceptance_level list"      \<comment> \<open>\<open>completion_definition\<close>\<close>
  ts_communication_policy :: communication_policy
  ts_context_policy :: context_policy
  ts_resource_budget :: resource_budget
  ts_role :: worker_role
  ts_workflow_mode :: workflow_mode
  ts_template_version :: spec_identifier
  ts_policy_version :: spec_identifier

text \<open>A violation is its code and field, ordered lexicographically as the derived \<open>Ord\<close> does.\<close>

type_synonym spec_violation = "string \<times> string"

section \<open>Normal form\<close>

text \<open>The derived orders, as keys: the position of a variant, the fields of a struct in turn.\<close>

fun tool_rank :: "tool \<Rightarrow> nat" where
  "tool_rank ReadFiles = 0"
| "tool_rank SearchFiles = 1"
| "tool_rank EditFiles = 2"
| "tool_rank WriteFiles = 3"
| "tool_rank RunDevTests = 4"

fun acceptance_rank :: "acceptance_level \<Rightarrow> nat" where
  "acceptance_rank TurnCompleted = 0"
| "acceptance_rank CandidateArtifactCollected = 1"
| "acceptance_rank IndependentReviewPassed = 2"
| "acceptance_rank LocalVerifierPassed = 3"
| "acceptance_rank IntegrationCandidateVerified = 4"
| "acceptance_rank WorkflowAccepted = 5"

fun message_kind_rank :: "message_kind \<Rightarrow> nat" where
  "message_kind_rank Question = 0"
| "message_kind_rank Answer = 1"
| "message_kind_rank ContextOffer = 2"
| "message_kind_rank ContextRequest = 3"
| "message_kind_rank ContextGrant = 4"
| "message_kind_rank InterfaceProposal = 5"
| "message_kind_rank Finding = 6"
| "message_kind_rank KindBlocked = 7"
| "message_kind_rank Progress = 8"
| "message_kind_rank ArtifactReady = 9"

fun media_rank :: "media_type \<Rightarrow> nat" where
  "media_rank TextMarkdown = 0"
| "media_rank TextPlain = 1"
| "media_rank ApplicationJson = 2"
| "media_rank Javascript = 3"

definition span_key :: "source_span \<Rightarrow> u32 \<times> u32 \<times> string" where
  "span_key s = (sp_start s, sp_end s, sp_quoted s)"

definition excerpt_key :: "contract_excerpt \<Rightarrow> spec_identifier \<times> string" where
  "excerpt_key e = (cx_artifact_id e, cx_quoted e)"

definition artifact_key :: "artifact_ref \<Rightarrow> spec_identifier \<times> digest \<times> u64 \<times> nat" where
  "artifact_key a = (ar_artifact_id a, ar_sha256 a, ar_byte_count a, media_rank (ar_media_type a))"

text \<open>\<open>values.sort(); values.dedup()\<close> under such an order.\<close>

definition sort_dedup_by :: "('a \<Rightarrow> 'k::linorder) \<Rightarrow> 'a list \<Rightarrow> 'a list" where
  "sort_dedup_by key xs = remdups_adj (sort_key key xs)"

definition normalized_requirement :: "requirement \<Rightarrow> requirement" where
  "normalized_requirement r = r\<lparr>rq_source_refs := sort_dedup_by span_key (rq_source_refs r),
     rq_contract_excerpts := sort_dedup_by excerpt_key (rq_contract_excerpts r),
     rq_acceptance_check_ids := sort_dedup (rq_acceptance_check_ids r)\<rparr>"

definition normalized :: "task_spec \<Rightarrow> task_spec" where
  "normalized self = self\<lparr>
     ts_requirements := map normalized_requirement (sort_key rq_requirement_id (ts_requirements self)),
     ts_assumptions := sort_key as_assumption_id (ts_assumptions self),
     ts_acceptance_checks := sort_key ac_check_id (ts_acceptance_checks self),
     ts_source_exclusions := sort_key (\<lambda>x. span_key (se_span x)) (ts_source_exclusions self),
     ts_input_artifacts := sort_dedup_by artifact_key (ts_input_artifacts self),
     ts_shared_contract_refs := sort_dedup_by artifact_key (ts_shared_contract_refs self),
     ts_owned_paths := sort_dedup (ts_owned_paths self),
     ts_read_scopes := sort_dedup (ts_read_scopes self),
     ts_forbidden_paths := sort_dedup (ts_forbidden_paths self),
     ts_dependencies := sort_dedup (ts_dependencies self),
     ts_required_capabilities := sort_dedup_by capability_rank (ts_required_capabilities self),
     ts_permitted_tools := sort_dedup_by tool_rank (ts_permitted_tools self),
     ts_required_levels := sort_dedup_by acceptance_rank (ts_required_levels self),
     ts_communication_policy := (ts_communication_policy self)\<lparr>
       cm_may_message := sort_dedup (cm_may_message (ts_communication_policy self)),
       cm_auto_authorized_kinds :=
         sort_dedup_by message_kind_rank (cm_auto_authorized_kinds (ts_communication_policy self))\<rparr>\<rparr>"

section \<open>Structural validation\<close>

text \<open>\<open>check_text\<close> with \<open>allow_newline\<close> false, as every caller has it.\<close>

definition check_text :: "string \<Rightarrow> string \<Rightarrow> nat \<Rightarrow> spec_violation list" where
  "check_text field value max_bytes =
     (if trim_is_empty value \<or> length value > max_bytes \<or> contains_control value
      then [(''task_spec_invalid_text'', field)] else [])"

definition violation_if :: "bool \<Rightarrow> string \<Rightarrow> string \<Rightarrow> spec_violation list" where
  "violation_if c code field = (if c then [(code, field)] else [])"

definition indexed :: "string \<Rightarrow> nat \<Rightarrow> string" where
  "indexed name i = name @ ''['' @ decimal i @ '']''"

definition repeated :: "('a \<Rightarrow> 'k) \<Rightarrow> 'a list \<Rightarrow> nat \<Rightarrow> bool" where
  "repeated key xs i \<longleftrightarrow> key (xs ! i) \<in> key ` set (take i xs)"

definition literal_bad :: "string \<Rightarrow> bool" where
  "literal_bad l \<longleftrightarrow> l = [] \<or> length l > MAX_LITERAL_BYTES \<or> CHR 0x00 \<in> set l"

definition requirement_violations :: "task_spec \<Rightarrow> nat \<Rightarrow> spec_violation list" where
  "requirement_violations self i =
     (let r = ts_requirements self ! i; field = indexed ''requirements'' i in
      violation_if (repeated rq_requirement_id (ts_requirements self) i) ''task_spec_duplicate_requirement_id'' field
      @ check_text (field @ ''.statement'') (rq_statement r) MAX_STATEMENT_BYTES
      @ violation_if (length (rq_literals r) > MAX_LITERALS_PER_REQUIREMENT) ''task_spec_too_many_literals'' (field @ ''.literals'')
      @ concat (map (\<lambda>j. violation_if (literal_bad (rq_literals r ! j)) ''task_spec_invalid_literal''
          (indexed (field @ ''.literals'') j)) [0..<length (rq_literals r)])
      @ violation_if (rq_acceptance_check_ids r = []) ''task_spec_requirement_without_check'' field
      @ concat (map (\<lambda>check_id. violation_if (check_id \<notin> ac_check_id ` set (ts_acceptance_checks self))
          ''task_spec_unknown_check_reference'' field) (rq_acceptance_check_ids r))
      @ concat (map (\<lambda>span. violation_if (sp_end span \<le> sp_start span \<or> sp_quoted span = [])
          ''task_spec_invalid_source_span'' (field @ ''.source_refs'')) (rq_source_refs r)))"

definition check_violations :: "task_spec \<Rightarrow> nat \<Rightarrow> spec_violation list" where
  "check_violations self i =
     (let c = ts_acceptance_checks self ! i; field = indexed ''acceptance_checks'' i in
      check_text (field @ ''.description'') (ac_description c) MAX_SHORT_TEXT_BYTES
      @ violation_if ((ac_kind c = ExistingVerifierSuite) \<noteq> (ac_verifier_suite c \<noteq> None)) ''task_spec_check_suite_mismatch'' field)"

definition assumption_violations :: "task_spec \<Rightarrow> nat \<Rightarrow> spec_violation list" where
  "assumption_violations self i =
     (let a = ts_assumptions self ! i; field = indexed ''assumptions'' i in
      violation_if (repeated as_assumption_id (ts_assumptions self) i) ''task_spec_duplicate_assumption_id'' field
      @ check_text (field @ ''.statement'') (as_statement a) MAX_SHORT_TEXT_BYTES
      @ check_text (field @ ''.rationale'') (as_rationale a) MAX_SHORT_TEXT_BYTES)"

definition text_list_violations :: "string \<Rightarrow> string list \<Rightarrow> spec_violation list" where
  "text_list_violations name items =
     violation_if (length items > MAX_LIST_ITEMS) ''task_spec_list_too_long'' name
     @ concat (map (\<lambda>i. check_text (indexed name i) (items ! i) MAX_SHORT_TEXT_BYTES) [0..<length items])"

definition list_violations :: "task_spec \<Rightarrow> spec_violation list" where
  "list_violations self =
     concat (map (\<lambda>(name, n). violation_if (n > MAX_LIST_ITEMS) ''task_spec_list_too_long'' name)
       [(''owned_paths'', length (ts_owned_paths self)), (''read_scopes'', length (ts_read_scopes self)),
        (''forbidden_paths'', length (ts_forbidden_paths self)), (''input_artifacts'', length (ts_input_artifacts self)),
        (''shared_contract_refs'', length (ts_shared_contract_refs self)), (''dependencies'', length (ts_dependencies self)),
        (''acceptance_checks'', length (ts_acceptance_checks self)),
        (''source_exclusions'', length (ts_source_exclusions self))])"

definition scope_violations :: "task_spec \<Rightarrow> spec_violation list" where
  "scope_violations self =
     violation_if (ts_role self \<noteq> WorkerReviewer \<and> ts_owned_paths self = []) ''task_spec_no_owned_paths'' ''owned_paths''
     @ violation_if (ts_role self = WorkerReviewer \<and> (ts_owned_paths self \<noteq> []
          \<or> list_ex (\<lambda>t. t = EditFiles \<or> t = WriteFiles) (ts_permitted_tools self)))
         ''task_spec_reviewer_must_not_write'' ''permitted_tools''
     @ concat (map (\<lambda>owned. violation_if (list_ex (overlaps owned) (ts_forbidden_paths self))
         ''task_spec_owned_path_forbidden'' (''owned_paths:'' @ owned)) (ts_owned_paths self))"

definition policy_violations :: "task_spec \<Rightarrow> spec_violation list" where
  "policy_violations self =
     violation_if (ts_task_key self \<in> set (ts_dependencies self)) ''task_spec_self_dependency'' ''dependencies''
     @ violation_if (\<not> oc_checkpoint_report_required (ts_output_contract self)
         \<or> \<not> oc_changes_within_owned_paths (ts_output_contract self)) ''task_spec_output_contract_weakened'' ''output_contract''
     @ concat (map (\<lambda>required. violation_if (ts_role self \<noteq> WorkerReviewer \<and> required \<notin> set (ts_required_levels self))
         ''task_spec_completion_too_weak'' ''completion_definition'')
         [CandidateArtifactCollected, IndependentReviewPassed, LocalVerifierPassed])
     @ violation_if (cm_max_messages_per_turn (ts_communication_policy self) > MAX_MESSAGES_PER_TURN)
         ''task_spec_message_budget_too_large'' ''communication_policy''
     @ violation_if (ts_task_key self \<in> set (cm_may_message (ts_communication_policy self)))
         ''task_spec_self_message'' ''communication_policy''
     @ violation_if (cy_max_bundle_bytes (ts_context_policy self) = 0
         \<or> cy_max_bundle_bytes (ts_context_policy self) > MAX_CONTEXT_BUNDLE_BYTES)
         ''task_spec_invalid_bundle_budget'' ''context_policy''
     @ violation_if (bu_max_turns (ts_resource_budget self) = 0 \<or> bu_max_elapsed_seconds (ts_resource_budget self) = 0
         \<or> bu_max_model_requests (ts_resource_budget self) = 0) ''task_spec_invalid_budget'' ''resource_budget''"

definition structure_violations :: "task_spec \<Rightarrow> spec_violation list" where
  "structure_violations self =
     violation_if (ts_schema_version self \<noteq> TASK_SPEC_SCHEMA_VERSION) ''task_spec_schema_unsupported'' ''schema_version''
     @ violation_if (ts_contract_version self = 0) ''task_spec_invalid_contract_version'' ''contract_version''
     @ violation_if (\<not> is_full_commit (ts_base_commit self)) ''task_spec_invalid_base_commit'' ''base_commit''
     @ check_text ''objective'' (ts_objective self) MAX_OBJECTIVE_BYTES
     @ violation_if (ts_requirements self = [] \<or> length (ts_requirements self) > MAX_REQUIREMENTS)
         ''task_spec_requirement_count'' ''requirements''
     @ violation_if (length (sort_dedup (map ac_check_id (ts_acceptance_checks self))) \<noteq> length (ts_acceptance_checks self))
         ''task_spec_duplicate_check_id'' ''acceptance_checks''
     @ concat (map (requirement_violations self) [0..<length (ts_requirements self)])
     @ concat (map (check_violations self) [0..<length (ts_acceptance_checks self)])
     @ concat (map (assumption_violations self) [0..<length (ts_assumptions self)])
     @ text_list_violations ''non_goals'' (ts_non_goals self)
     @ text_list_violations ''unresolved_questions'' (ts_unresolved_questions self)
     @ list_violations self
     @ scope_violations self
     @ policy_violations self"

definition validate_structure :: "task_spec \<Rightarrow> spec_violation list + unit" where
  "validate_structure self =
     (let violations = structure_violations self in
      if violations = [] then Inr () else Inl (sort_dedup violations))"

section \<open>Operator policy\<close>

definition OPERATOR_POLICY_SCHEMA_VERSION :: u32 where "OPERATOR_POLICY_SCHEMA_VERSION = 1"
definition MAX_POLICY_ITEMS :: nat where "MAX_POLICY_ITEMS = 64"

record verifier_suite_decl =
  vs_suite_id :: spec_identifier
  vs_description :: string

record operator_policy =
  op_schema_version :: u32
  op_policy_version :: spec_identifier
  op_writable_roots :: "path_pattern list"
  op_protected_paths :: "path_pattern list"
  op_allowed_tools :: "tool list"
  op_verifier_suites :: "verifier_suite_decl list"
  op_budget_caps :: resource_budget
  op_max_parallel_slots :: u32
  op_max_supervisor_decisions :: u32
  op_max_optimizer_candidates :: u32
  op_content_store_opt_in :: bool
  op_aag_only :: bool

datatype narrowing = ToolRemoved tool | BudgetCapped string | ForbiddenPathAdded path_pattern

fun narrowing_key :: "narrowing \<Rightarrow> nat \<times> nat \<times> string" where
  "narrowing_key (ToolRemoved t) = (0, tool_rank t, [])"
| "narrowing_key (BudgetCapped f) = (1, 0, f)"
| "narrowing_key (ForbiddenPathAdded p) = (2, 0, p)"

record policy_intersection =
  pi_spec :: task_spec
  pi_narrowings :: "narrowing list"

fun first_too_long :: "(string \<times> nat) list \<Rightarrow> spec_violation + unit" where
  "first_too_long [] = Inr ()"
| "first_too_long ((name, n) # rest) =
     (if n > MAX_POLICY_ITEMS then Inl (''policy_list_too_long'', name) else first_too_long rest)"

definition operator_policy_validate :: "operator_policy \<Rightarrow> spec_violation + unit" where
  "operator_policy_validate self =
     (if op_schema_version self \<noteq> OPERATOR_POLICY_SCHEMA_VERSION
      then Inl (''policy_schema_unsupported'', ''schema_version'')
      else (case first_too_long [(''writable_roots'', length (op_writable_roots self)),
              (''protected_paths'', length (op_protected_paths self)),
              (''verifier_suites'', length (op_verifier_suites self))] of Inl e \<Rightarrow> Inl e | Inr _ \<Rightarrow>
      if op_writable_roots self = [] then Inl (''policy_no_writable_roots'', ''writable_roots'')
      else (case find (\<lambda>root. list_ex (is_within root) (op_protected_paths self)) (op_writable_roots self) of
              Some root \<Rightarrow> Inl (''policy_root_protected'', ''writable_roots:'' @ root)
            | None \<Rightarrow>
      if op_max_parallel_slots self = 0 \<or> op_max_supervisor_decisions self = 0
         \<or> bu_max_turns (op_budget_caps self) = 0 \<or> bu_max_model_requests (op_budget_caps self) = 0
         \<or> bu_max_elapsed_seconds (op_budget_caps self) = 0
      then Inl (''policy_invalid_limits'', ''budget_caps'') else Inr ())))"

definition declares_suite :: "operator_policy \<Rightarrow> spec_identifier \<Rightarrow> bool" where
  "declares_suite self suite = list_ex (\<lambda>declared. vs_suite_id declared = suite) (op_verifier_suites self)"

definition suite_unknown :: "operator_policy \<Rightarrow> acceptance_check \<Rightarrow> bool" where
  "suite_unknown policy check \<longleftrightarrow> ac_kind check = ExistingVerifierSuite
     \<and> (case ac_verifier_suite check of None \<Rightarrow> True | Some suite \<Rightarrow> \<not> declares_suite policy suite)"

definition intersect_violations :: "task_spec \<Rightarrow> operator_policy \<Rightarrow> spec_violation list" where
  "intersect_violations spec policy =
     violation_if (ts_policy_version spec \<noteq> op_policy_version policy) ''policy_version_mismatch'' ''policy_version''
     @ concat (map (\<lambda>owned.
         violation_if (\<not> list_ex (\<lambda>root. is_within owned root) (op_writable_roots policy))
           ''owned_path_outside_policy'' (''owned_paths:'' @ owned)
         @ violation_if (list_ex (\<lambda>protected. overlaps owned protected) (op_protected_paths policy))
           ''owned_path_protected'' (''owned_paths:'' @ owned)) (ts_owned_paths spec))
     @ concat (map (\<lambda>check. violation_if (suite_unknown policy check)
         ''unknown_verifier_suite'' (''acceptance_checks:'' @ ac_check_id check)) (ts_acceptance_checks spec))"

definition capped_budget :: "resource_budget \<Rightarrow> resource_budget \<Rightarrow> resource_budget" where
  "capped_budget caps budget = budget\<lparr>bu_max_turns := min (bu_max_turns budget) (bu_max_turns caps),
     bu_max_repairs := min (bu_max_repairs budget) (bu_max_repairs caps),
     bu_max_model_requests := min (bu_max_model_requests budget) (bu_max_model_requests caps),
     bu_max_elapsed_seconds := min (bu_max_elapsed_seconds budget) (bu_max_elapsed_seconds caps)\<rparr>"

definition budget_narrowings :: "resource_budget \<Rightarrow> resource_budget \<Rightarrow> narrowing list" where
  "budget_narrowings caps budget =
     (if bu_max_turns budget > bu_max_turns caps then [BudgetCapped ''max_turns''] else [])
     @ (if bu_max_repairs budget > bu_max_repairs caps then [BudgetCapped ''max_repairs''] else [])
     @ (if bu_max_model_requests budget > bu_max_model_requests caps then [BudgetCapped ''max_model_requests''] else [])
     @ (if bu_max_elapsed_seconds budget > bu_max_elapsed_seconds caps then [BudgetCapped ''max_elapsed_seconds''] else [])"

text \<open>The loop over the protected paths: each one not yet forbidden is pushed and reported.\<close>

fun add_forbidden :: "path_pattern list \<Rightarrow> path_pattern list \<Rightarrow> path_pattern list \<times> narrowing list" where
  "add_forbidden [] forbidden = (forbidden, [])"
| "add_forbidden (p # ps) forbidden =
     (if p \<in> set forbidden then add_forbidden ps forbidden
      else (case add_forbidden ps (forbidden @ [p]) of (fs, ns) \<Rightarrow> (fs, ForbiddenPathAdded p # ns)))"

definition intersect :: "task_spec \<Rightarrow> operator_policy \<Rightarrow> spec_violation list + policy_intersection" where
  "intersect spec policy =
     (let violations = intersect_violations spec policy in
      if violations \<noteq> [] then Inl (sort_dedup violations)
      else
     (let removed = filter (\<lambda>t. t \<notin> set (op_allowed_tools policy)) (ts_permitted_tools spec);
          tools = filter (\<lambda>t. t \<in> set (op_allowed_tools policy)) (ts_permitted_tools spec);
          caps = op_budget_caps policy;
          (forbidden, added) = add_forbidden (op_protected_paths policy) (ts_forbidden_paths spec)
      in Inr \<lparr>pi_spec = normalized (spec\<lparr>ts_permitted_tools := tools,
                   ts_resource_budget := capped_budget caps (ts_resource_budget spec), ts_forbidden_paths := forbidden\<rparr>),
              pi_narrowings = sort_key narrowing_key
                (map ToolRemoved removed @ budget_narrowings caps (ts_resource_budget spec) @ added)\<rparr>))"

section \<open>Execution authority\<close>

definition EXECUTION_AUTHORITY_SCHEMA_VERSION :: u32 where "EXECUTION_AUTHORITY_SCHEMA_VERSION = 1"

record execution_authority =
  ea_schema_version :: u32
  ea_task_spec_digest :: digest
  ea_admitted_tools :: "tool list"

definition authority_from_spec :: "(task_spec \<Rightarrow> canonical_error + digest) \<Rightarrow> task_spec \<Rightarrow> canonical_error + execution_authority" where
  "authority_from_spec spec_digest spec =
     (case spec_digest spec of Inl e \<Rightarrow> Inl e | Inr digest \<Rightarrow>
      Inr \<lparr>ea_schema_version = EXECUTION_AUTHORITY_SCHEMA_VERSION, ea_task_spec_digest = digest,
           ea_admitted_tools = sort_dedup_by tool_rank (ts_permitted_tools spec)\<rparr>)"

definition effective_tools :: "execution_authority \<Rightarrow> bool \<Rightarrow> tool list" where
  "effective_tools self read_only =
     filter (\<lambda>t. \<not> read_only \<or> t = ReadFiles \<or> t = SearchFiles) (ea_admitted_tools self)"

section \<open>The normal form\<close>

lemma tool_rank_eq_iff [simp]: "tool_rank s = tool_rank t \<longleftrightarrow> s = t"
  by (cases s; cases t) simp_all

lemma set_sort_dedup_by [simp]: "set (sort_dedup_by key xs) = set xs"
  by (simp add: sort_dedup_by_def)

lemma remdups_adj_sorted_key: "sorted (map key xs) \<Longrightarrow> sorted (map key (remdups_adj xs))"
proof (induction xs rule: remdups_adj.induct)
  case (3 x y xs)
  then show ?case by (auto split: if_splits)
qed simp_all

lemma sort_key_sorted_id: "sorted (map key xs) \<Longrightarrow> sort_key key xs = xs"
  by (induction xs) (auto simp: insort_is_Cons)

lemma remdups_adj_idem: "remdups_adj (remdups_adj xs) = remdups_adj xs"
  by (metis distinct_adj_altdef distinct_adj_remdups_adj)

lemma sort_dedup_by_idem [simp]: "sort_dedup_by key (sort_dedup_by key xs) = sort_dedup_by key xs"
  unfolding sort_dedup_by_def
  by (simp add: sort_key_sorted_id remdups_adj_sorted_key remdups_adj_idem)

lemma sort_dedup_idem [simp]: "sort_dedup (sort_dedup xs) = sort_dedup xs"
  by (simp add: sort_dedup_eq)

lemma normalized_requirement_idem [simp]:
  "normalized_requirement (normalized_requirement r) = normalized_requirement r"
  by (simp add: normalized_requirement_def)

lemma normalized_requirement_id [simp]: "rq_requirement_id (normalized_requirement r) = rq_requirement_id r"
  by (simp add: normalized_requirement_def)

lemma normalized_idem [simp]: "normalized (normalized s) = normalized s"
  by (simp add: normalized_def sort_key_map sort_key_sorted_id)

lemma normalized_fields [simp]:
  "ts_permitted_tools (normalized s) = sort_dedup_by tool_rank (ts_permitted_tools s)"
  "ts_resource_budget (normalized s) = ts_resource_budget s"
  "ts_owned_paths (normalized s) = sort_dedup (ts_owned_paths s)"
  "ts_forbidden_paths (normalized s) = sort_dedup (ts_forbidden_paths s)"
  "ts_policy_version (normalized s) = ts_policy_version s"
  "set (ts_acceptance_checks (normalized s)) = set (ts_acceptance_checks s)"
  by (simp_all add: normalized_def)

section \<open>The intersection\<close>

lemma violation_if_Nil [simp]: "violation_if c code field = [] \<longleftrightarrow> \<not> c"
  by (simp add: violation_if_def)

definition spec_admissible :: "task_spec \<Rightarrow> operator_policy \<Rightarrow> bool" where
  "spec_admissible spec policy \<longleftrightarrow> ts_policy_version spec = op_policy_version policy
     \<and> (\<forall>owned \<in> set (ts_owned_paths spec). (\<exists>root \<in> set (op_writable_roots policy). is_within owned root)
          \<and> (\<forall>protected \<in> set (op_protected_paths policy). \<not> overlaps owned protected))
     \<and> (\<forall>check \<in> set (ts_acceptance_checks spec). \<not> suite_unknown policy check)"

lemma intersect_violations_Nil: "intersect_violations spec policy = [] \<longleftrightarrow> spec_admissible spec policy"
  by (simp add: intersect_violations_def spec_admissible_def list_ex_iff)

lemma add_forbidden_spec:
  "add_forbidden ps fs = (fs', ns) \<Longrightarrow> set fs' = set fs \<union> set ps \<and> set ns = ForbiddenPathAdded ` (set ps - set fs)"
proof (induction ps arbitrary: fs fs' ns)
  case (Cons p ps)
  show ?case
  proof (cases "p \<in> set fs")
    case True
    then show ?thesis using Cons.IH [of fs fs' ns] Cons.prems by auto
  next
    case False
    then obtain ms where "add_forbidden ps (fs @ [p]) = (fs', ms)" and "ns = ForbiddenPathAdded p # ms"
      using Cons.prems by (auto split: prod.splits)
    then show ?thesis using Cons.IH [of "fs @ [p]" fs' ms] False by auto
  qed
qed simp

lemma add_forbidden_subset: "set ps \<subseteq> set fs \<Longrightarrow> add_forbidden ps fs = (fs, [])"
  by (induction ps) auto

lemma capped_budget_fix: "capped_budget caps (capped_budget caps b) = capped_budget caps b
   \<and> budget_narrowings caps (capped_budget caps b) = []"
  by (simp add: capped_budget_def budget_narrowings_def)

lemma sort_dedup_by_filter_sub:
  "set xs \<subseteq> A \<Longrightarrow> filter (\<lambda>x. x \<in> A) xs = xs \<and> filter (\<lambda>x. x \<notin> A) xs = []"
  by (auto simp: filter_id_conv filter_empty_conv)

lemma intersect_fixpoint:
  assumes "spec_admissible spec policy" and "normalized spec = spec"
    and "set (ts_permitted_tools spec) \<subseteq> set (op_allowed_tools policy)"
    and "set (op_protected_paths policy) \<subseteq> set (ts_forbidden_paths spec)"
    and "capped_budget (op_budget_caps policy) (ts_resource_budget spec) = ts_resource_budget spec"
    and "budget_narrowings (op_budget_caps policy) (ts_resource_budget spec) = []"
  shows "intersect spec policy = Inr \<lparr>pi_spec = spec, pi_narrowings = []\<rparr>"
  using assms sort_dedup_by_filter_sub [OF assms(3)] add_forbidden_subset [OF assms(4)]
  by (simp add: intersect_def intersect_violations_Nil Let_def)

lemma intersect_Inr:
  assumes "intersect spec policy = Inr r"
  shows "spec_admissible spec policy
    \<and> set (ts_permitted_tools (pi_spec r)) = set (ts_permitted_tools spec) \<inter> set (op_allowed_tools policy)
    \<and> ts_resource_budget (pi_spec r) = capped_budget (op_budget_caps policy) (ts_resource_budget spec)
    \<and> set (ts_owned_paths (pi_spec r)) = set (ts_owned_paths spec)
    \<and> set (ts_forbidden_paths (pi_spec r)) = set (ts_forbidden_paths spec) \<union> set (op_protected_paths policy)
    \<and> set (pi_narrowings r) = ToolRemoved ` (set (ts_permitted_tools spec) - set (op_allowed_tools policy))
        \<union> set (budget_narrowings (op_budget_caps policy) (ts_resource_budget spec))
        \<union> ForbiddenPathAdded ` (set (op_protected_paths policy) - set (ts_forbidden_paths spec))
    \<and> normalized (pi_spec r) = pi_spec r \<and> ts_policy_version (pi_spec r) = ts_policy_version spec
    \<and> set (ts_acceptance_checks (pi_spec r)) = set (ts_acceptance_checks spec)"
proof -
  obtain fs ns where add: "add_forbidden (op_protected_paths policy) (ts_forbidden_paths spec) = (fs, ns)"
    by fastforce
  show ?thesis
    using assms add_forbidden_spec [OF add]
    by (auto simp: intersect_def intersect_violations_Nil Let_def add split: if_splits)
qed


definition example_spec :: task_spec where
  "example_spec =
     \<lparr>ts_schema_version = 1, ts_workflow_key = ''taskboard'', ts_task_key = ''track_a'', ts_contract_version = 1,
      ts_original_request_ref = 0, ts_source_language = En,
      ts_requirements = [\<lparr>rq_requirement_id = ''r01'', rq_statement = ''Store tasks.'', rq_force = Must,
        rq_source_refs = [\<lparr>sp_start = 0, sp_end = 12, sp_quoted = ''Store tasks.''\<rparr>], rq_contract_excerpts = [],
        rq_literals = [''src/store.mjs''], rq_acceptance_check_ids = [''c01'']\<rparr>],
      ts_objective = ''Build the store.'', ts_non_goals = [], ts_assumptions = [], ts_unresolved_questions = [],
      ts_source_exclusions = [], ts_base_commit = replicate 40 (CHR ''a''), ts_input_artifacts = [],
      ts_shared_contract_refs = [], ts_owned_paths = [''src/store.mjs''], ts_read_scopes = [],
      ts_forbidden_paths = [''package.json''], ts_dependencies = [], ts_required_capabilities = [],
      ts_permitted_tools = [EditFiles, RunDevTests],
      ts_acceptance_checks = [\<lparr>ac_check_id = ''c01'', ac_kind = ReviewCriterion, ac_description = ''Tasks persist.'',
        ac_verifier_suite = None\<rparr>],
      ts_output_contract = \<lparr>oc_checkpoint_report_required = True, oc_changes_within_owned_paths = True\<rparr>,
      ts_required_levels = [CandidateArtifactCollected, IndependentReviewPassed, LocalVerifierPassed],
      ts_communication_policy = \<lparr>cm_may_message = [], cm_max_messages_per_turn = 2, cm_auto_authorized_kinds = []\<rparr>,
      ts_context_policy = \<lparr>cy_max_bundle_bytes = 1024, cy_retrieval_order = [], cy_allow_public_excerpts = False\<rparr>,
      ts_resource_budget = \<lparr>bu_max_turns = 9, bu_max_repairs = 1, bu_max_elapsed_seconds = 60, bu_max_model_requests = 5\<rparr>,
      ts_role = StoreComponent, ts_workflow_mode = Cooperate, ts_template_version = ''template_v1'',
      ts_policy_version = ''policy_v1''\<rparr>"

definition example_policy :: operator_policy where
  "example_policy =
     \<lparr>op_schema_version = 1, op_policy_version = ''policy_v1'', op_writable_roots = [''src/**''],
      op_protected_paths = [''package.json'', ''verifier/**''], op_allowed_tools = [ReadFiles, EditFiles],
      op_verifier_suites = [],
      op_budget_caps = \<lparr>bu_max_turns = 6, bu_max_repairs = 2, bu_max_elapsed_seconds = 1800, bu_max_model_requests = 80\<rparr>,
      op_max_parallel_slots = 2, op_max_supervisor_decisions = 32, op_max_optimizer_candidates = 3,
      op_content_store_opt_in = True, op_aag_only = True\<rparr>"

lemma example_spec_admissible: "spec_admissible example_spec example_policy"
  "\<forall>p \<in> set (ts_owned_paths example_spec) \<union> set (op_writable_roots example_policy)
      \<union> set (op_protected_paths example_policy). valid_pattern p"
  by code_simp+


text \<open>A worker's tools come from the narrowed specification, and an answer or review only reads.\<close>

theorem effective_tools_sound:
  assumes "intersect spec policy = Inr r" and "authority_from_spec spec_digest (pi_spec r) = Inr authority"
  shows "set (effective_tools authority read_only)
       = {t \<in> set (ts_permitted_tools spec) \<inter> set (op_allowed_tools policy). read_only \<longrightarrow> t \<in> {ReadFiles, SearchFiles}}"
  using assms(2) intersect_Inr [OF assms(1)]
  by (auto simp: authority_from_spec_def effective_tools_def split: sum.splits)
section \<open>What a valid specification guarantees\<close>

lemma not_repeated_distinct: "(\<forall>i < length xs. \<not> repeated key xs i) \<longleftrightarrow> distinct (map key xs)"
proof (induction xs rule: rev_induct)
  case (snoc x xs)
  have "repeated key (xs @ [x]) i \<longleftrightarrow> repeated key xs i" if "i < length xs" for i
    using that by (simp add: repeated_def nth_append)
  moreover have "repeated key (xs @ [x]) (length xs) \<longleftrightarrow> key x \<in> key ` set xs"
    by (simp add: repeated_def)
  ultimately show ?case using snoc by (auto simp: less_Suc_eq)
qed simp

lemma validate_structure_ok: "validate_structure s = Inr () \<longleftrightarrow> structure_violations s = []"
  by (simp add: validate_structure_def Let_def)

lemma requirement_ok:
  assumes "validate_structure s = Inr ()" and "i < length (ts_requirements s)"
  shows "\<not> repeated rq_requirement_id (ts_requirements s) i"
    and "rq_acceptance_check_ids (ts_requirements s ! i) \<noteq> []"
    and "set (rq_acceptance_check_ids (ts_requirements s ! i)) \<subseteq> ac_check_id ` set (ts_acceptance_checks s)"
  using assms
  by (auto simp: validate_structure_ok structure_violations_def requirement_violations_def Let_def)

lemma scope_ok:
  assumes "validate_structure s = Inr ()"
  shows "\<forall>p \<in> set (ts_owned_paths s). \<forall>q \<in> set (ts_forbidden_paths s). \<not> overlaps p q"
    and "ts_role s = WorkerReviewer \<longrightarrow> ts_owned_paths s = [] \<and> EditFiles \<notin> set (ts_permitted_tools s)
      \<and> WriteFiles \<notin> set (ts_permitted_tools s)"
    and "distinct (map ac_check_id (ts_acceptance_checks s))"
  using assms length_sort_dedup_eq_iff [of "map ac_check_id (ts_acceptance_checks s)"]
  by (auto simp: validate_structure_ok structure_violations_def scope_violations_def list_ex_iff)

text \<open>A specification that passes the structural validation keeps its write scope apart from what it forbids,
  identifies its requirements and checks uniquely, backs every requirement by checks of its own, and gives a
  reviewer nothing to write.\<close>

theorem valid_spec_sound:
  assumes "validate_structure spec = Inr ()"
    and "\<forall>p \<in> set (ts_owned_paths spec) \<union> set (ts_forbidden_paths spec). valid_pattern p"
  shows "(\<Union>p \<in> set (ts_owned_paths spec). covers p) \<inter> (\<Union>p \<in> set (ts_forbidden_paths spec). covers p) = {}
    \<and> distinct (map rq_requirement_id (ts_requirements spec)) \<and> distinct (map ac_check_id (ts_acceptance_checks spec))
    \<and> (\<forall>r \<in> set (ts_requirements spec). rq_acceptance_check_ids r \<noteq> []
         \<and> set (rq_acceptance_check_ids r) \<subseteq> ac_check_id ` set (ts_acceptance_checks spec))
    \<and> (ts_role spec = WorkerReviewer \<longrightarrow> ts_owned_paths spec = [] \<and> EditFiles \<notin> set (ts_permitted_tools spec)
         \<and> WriteFiles \<notin> set (ts_permitted_tools spec))"
proof -
  have "covers p \<inter> covers q = {}"
    if "p \<in> set (ts_owned_paths spec)" and "q \<in> set (ts_forbidden_paths spec)" for p q
    using that assms(2) scope_ok(1) [OF assms(1)] path_scopes.meets_iff [of p q] by blast
  moreover have "distinct (map rq_requirement_id (ts_requirements spec))"
    using requirement_ok(1) [OF assms(1)] not_repeated_distinct by blast
  moreover have "rq_acceptance_check_ids r \<noteq> [] \<and> set (rq_acceptance_check_ids r) \<subseteq> ac_check_id ` set (ts_acceptance_checks spec)"
    if r: "r \<in> set (ts_requirements spec)" for r
  proof -
    from r obtain i where "i < length (ts_requirements spec)" "r = ts_requirements spec ! i" by (metis in_set_conv_nth)
    then show ?thesis using requirement_ok(2,3) [OF assms(1)] by blast
  qed
  ultimately show ?thesis using scope_ok(2,3) [OF assms(1)] by blast
qed

end
