(* ===== verification/Workflow_Rows.thy ===== *)
theory Workflow_Rows
  imports Task_Spec Model_Call Leases Slots Dispatch_Store
begin

text \<open>
  The workflow tables of the store, \<open>crates/vibemux_store/src/workflow/workflow_rows.rs\<close>, with the event
  log and the dispatch table they share a database with. A row keeps the columns that a query or a constraint reads
  and the record of its JSON column; a load compares the two and fails closed. Primary keys, unique indexes, checks
  and foreign keys of the schema are guards of the writers; a \<open>u64\<close> that does not fit SQLite's 64-bit signed
  integers is a database error. The encoded payload of an event is built as a JSON value and checked by the
  parameter \<open>we_payload_ok\<close> (\<open>EventPayload::new\<close>); the log keeps its type, key and time.
\<close>

section \<open>Environment, errors and rows\<close>

record workflow_env =
  we_dispatch :: dispatch_env
  we_payload_ok :: "int json_value \<Rightarrow> bool"
  we_uuid_simple :: "uuid \<Rightarrow> string"
  we_parse_uuid :: "string \<Rightarrow> uuid option"
  we_slot_json :: "slot_facts \<Rightarrow> string option"
  we_spec_digest :: "task_spec \<Rightarrow> canonical_error + digest"
  we_fingerprint :: "admission_fields \<Rightarrow> canonical_error + digest"

datatype workflow_store_error = WsCode string | WsStore store_error | WsEvent | WsJson

abbreviation mismatch :: workflow_store_error where
  "mismatch \<equiv> WsCode ''store_workflow_projection_mismatch''"

definition fits_i64 :: "u64 \<Rightarrow> bool" where
  "fits_i64 w \<longleftrightarrow> unat w < 2 ^ 63"

text \<open>\<open>millis\<close>: an instant is nanoseconds since the epoch.\<close>

definition millis :: "instant \<Rightarrow> u64" where
  "millis timestamp =
     (if timestamp < 0 then 0
      else if timestamp div 1000000 < 2 ^ 64 then of_int (timestamp div 1000000) else 0)"

record semantic_diff =
  sd_requirements_added :: "string list"
  sd_requirements_removed :: "string list"
  sd_requirements_changed :: "string list"
  sd_scope_changed :: bool
  sd_tools_changed :: bool
  sd_checks_changed :: bool
  sd_budget_changed :: bool
  sd_objective_changed :: bool

definition semantic_diff_is_empty :: "semantic_diff \<Rightarrow> bool" where
  "semantic_diff_is_empty self \<longleftrightarrow>
     self = \<lparr>sd_requirements_added = [], sd_requirements_removed = [], sd_requirements_changed = [],
       sd_scope_changed = False, sd_tools_changed = False, sd_checks_changed = False, sd_budget_changed = False,
       sd_objective_changed = False\<rparr>"

datatype route_transformation = RtNone | RtDeclared string

record contract_artifact =
  ct_schema_version :: u32
  ct_contract_id :: digest
  ct_workflow_key :: string
  ct_task_key :: string
  ct_contract_version :: u32
  ct_task_spec_digest :: digest
  ct_policy_digest :: digest
  ct_template_digest :: digest
  ct_template_version :: string
  ct_harness_profile :: string
  ct_route_transformation :: route_transformation
  ct_context_bundle_digests :: "digest list"
  ct_base_commit :: string
  ct_rendered_prompt_digest :: digest
  ct_rendered_prompt_bytes :: u64
  ct_previous_contract_id :: "digest option"
  ct_semantic_diff :: "semantic_diff option"

record workflow_row =
  ww_workflow_id :: uuid
  ww_request_key :: string
  ww_fingerprint :: digest
  ww_phase :: workflow_phase
  ww_version :: u64
  ww_record :: workflow_record
  ww_updated_sequence :: nat

record slot_row =
  sw_slot_id :: spec_identifier
  sw_record :: slot_facts
  sw_last_generation :: u64
  sw_updated_sequence :: nat

record lease_record =
  lr_schema_version :: u32
  lr_lease_id :: uuid
  lr_workflow_id :: uuid
  lr_task_key :: spec_identifier
  lr_slot_id :: spec_identifier
  lr_worktree_key :: digest
  lr_generation :: u64
  lr_state :: lease_state
  lr_heartbeat_deadline_ms :: u64
  lr_end_reason :: "string option"
  lr_created_at_ms :: u64
  lr_updated_at_ms :: u64

definition lease_record_view :: "lease_record \<Rightarrow> lease_view" where
  "lease_record_view self = \<lparr>lv_generation = lr_generation self, lv_state = lr_state self,
     lv_heartbeat_deadline_ms = lr_heartbeat_deadline_ms self\<rparr>"

record lease_row =
  lw_lease_id :: uuid
  lw_workflow_id :: uuid
  lw_slot_id :: spec_identifier
  lw_worktree_key :: digest
  lw_generation :: u64
  lw_state :: lease_state
  lw_record :: lease_record
  lw_updated_sequence :: nat

datatype attempt_purpose = PuImplement | PuRepair | PuAnswer | PuReview

fun purpose_as_str :: "attempt_purpose \<Rightarrow> string" where
  "purpose_as_str PuImplement = ''implement''"
| "purpose_as_str PuRepair = ''repair''"
| "purpose_as_str PuAnswer = ''answer''"
| "purpose_as_str PuReview = ''review''"

record execution_binding =
  eb_task_spec_digest :: digest
  eb_effective_tools :: "tool list"
  eb_harness_profile :: string
  eb_route_config_digest :: digest
  eb_evidence_class :: evidence_class
  eb_route_label :: string
  eb_effective_route :: effective_route_identity

record attempt_record =
  at_schema_version :: u32
  at_request_id :: uuid
  at_workflow_id :: uuid
  at_lease_id :: uuid
  at_lease_generation :: u64
  at_task_key :: spec_identifier
  at_contract_id :: digest
  at_purpose :: attempt_purpose
  at_session_id :: uuid
  at_rendered_prompt_sha256 :: digest
  at_execution :: "execution_binding option"
  at_created_at_ms :: u64

record attempt_row =
  aw_request_id :: uuid
  aw_workflow_id :: uuid
  aw_lease_id :: uuid
  aw_record :: attempt_record
  aw_created_sequence :: nat

record authority_row =
  hw_contract_id :: digest
  hw_task_spec_digest :: digest
  hw_record :: execution_authority

record call_owner_row =
  ow_owner_key :: spec_identifier
  ow_workflow_id :: "uuid option"
  ow_max_calls :: u32
  ow_deadline_unix_ms :: u64
  ow_calls_used :: u32

record call_row =
  kw_call_id :: uuid
  kw_owner_key :: spec_identifier
  kw_state :: model_call_state
  kw_record :: model_call_record
  kw_updated_sequence :: nat

record workflow_db =
  wd_dispatch :: dispatch_db
  wd_workflows :: "workflow_row list"
  wd_contracts :: "(digest \<times> contract_artifact) list"
  wd_authorities :: "authority_row list"
  wd_slots :: "slot_row list"
  wd_leases :: "lease_row list"
  wd_attempts :: "attempt_row list"
  wd_owners :: "call_owner_row list"
  wd_calls :: "call_row list"

section \<open>Events\<close>

definition json_uuid :: "workflow_env \<Rightarrow> uuid \<Rightarrow> int json_value" where
  "json_uuid env u = JString (en_uuid_text (we_dispatch env) u)"

definition json_digest :: "digest \<Rightarrow> int json_value" where
  "json_digest d = JString (to_hex d)"

definition json_word :: "'a::len word \<Rightarrow> int json_value" where
  "json_word w = JNumber (uint w)"

definition json_option :: "('a \<Rightarrow> int json_value) \<Rightarrow> 'a option \<Rightarrow> int json_value" where
  "json_option f x = (case x of None \<Rightarrow> JNull | Some a \<Rightarrow> f a)"

definition workflow_draft :: "uuid \<Rightarrow> string \<Rightarrow> string \<Rightarrow> instant \<Rightarrow> event_envelope" where
  "workflow_draft project_id event_type key timestamp =
     \<lparr>ee_event_type = event_type, ee_project_id = project_id, ee_task_id = None, ee_run_id = None,
      ee_timestamp = timestamp, ee_idempotency_key = key, ee_payload = PayOther\<rparr>"

definition append_event ::
  "workflow_env \<Rightarrow> uuid \<Rightarrow> workflow_db \<Rightarrow> string \<Rightarrow> string \<Rightarrow> int json_value \<Rightarrow> instant \<Rightarrow>
   workflow_store_error + workflow_db \<times> event_envelope \<times> nat" where
  "append_event env fresh_project db event_type key payload timestamp =
     (if \<not> we_payload_ok env payload then Inl WsEvent
      else (let event = workflow_draft (resolve_or_mint_project_id (wd_dispatch db) fresh_project) event_type key timestamp in
     (case insert_event (wd_dispatch db) event of Inl e \<Rightarrow> Inl (WsStore e)
      | Inr (d, sequence) \<Rightarrow> Inr (db\<lparr>wd_dispatch := d\<rparr>, event, sequence))))"

section \<open>Workflows\<close>

record stored_workflow =
  sg_record :: workflow_record
  sg_sequence :: nat

definition workflow_row_consistent :: "workflow_row \<Rightarrow> bool" where
  "workflow_row_consistent row \<longleftrightarrow>
     wr_workflow_id (ww_record row) = ww_workflow_id row
     \<and> wr_request_key (ww_record row) = ww_request_key row
     \<and> wr_phase (ww_record row) = ww_phase row
     \<and> wr_version (ww_record row) = ww_version row
     \<and> workflow_validate (ww_record row) = Inr ()"

definition load_workflow_where ::
  "workflow_db \<Rightarrow> (workflow_row \<Rightarrow> bool) \<Rightarrow> workflow_store_error + stored_workflow option" where
  "load_workflow_where db P =
     (case find P (wd_workflows db) of None \<Rightarrow> Inr None
      | Some row \<Rightarrow>
          if \<not> workflow_row_consistent row then Inl mismatch
          else Inr (Some \<lparr>sg_record = ww_record row, sg_sequence = ww_updated_sequence row\<rparr>))"

definition load_workflow :: "workflow_db \<Rightarrow> uuid \<Rightarrow> workflow_store_error + stored_workflow option" where
  "load_workflow db workflow_id = load_workflow_where db (\<lambda>row. ww_workflow_id row = workflow_id)"

definition load_workflow_by_request :: "workflow_db \<Rightarrow> string \<Rightarrow> workflow_store_error + stored_workflow option" where
  "load_workflow_by_request db request_key = load_workflow_where db (\<lambda>row. ww_request_key row = request_key)"

definition load_existing_workflow :: "workflow_db \<Rightarrow> uuid \<Rightarrow> workflow_store_error + stored_workflow" where
  "load_existing_workflow db workflow_id =
     (case load_workflow db workflow_id of Inl e \<Rightarrow> Inl e
      | Inr None \<Rightarrow> Inl (WsCode ''store_workflow_not_found'')
      | Inr (Some stored) \<Rightarrow> Inr stored)"

definition workflow_fingerprint :: "workflow_db \<Rightarrow> uuid \<Rightarrow> workflow_store_error + digest" where
  "workflow_fingerprint db workflow_id =
     (case find (\<lambda>row. ww_workflow_id row = workflow_id) (wd_workflows db) of
        None \<Rightarrow> Inl (WsStore StDatabase) | Some row \<Rightarrow> Inr (ww_fingerprint row))"

definition insert_workflow ::
  "workflow_db \<Rightarrow> workflow_record \<Rightarrow> digest \<Rightarrow> nat \<Rightarrow> workflow_store_error + workflow_db" where
  "insert_workflow db r fingerprint sequence =
     (if \<not> fits_i64 (wr_version r) \<or> wr_version r = 0
         \<or> wr_workflow_id r \<in> ww_workflow_id ` set (wd_workflows db)
         \<or> wr_request_key r \<in> ww_request_key ` set (wd_workflows db)
      then Inl (WsStore StDatabase)
      else Inr (db\<lparr>wd_workflows := wd_workflows db @
        [\<lparr>ww_workflow_id = wr_workflow_id r, ww_request_key = wr_request_key r, ww_fingerprint = fingerprint,
          ww_phase = wr_phase r, ww_version = wr_version r, ww_record = r, ww_updated_sequence = sequence\<rparr>]\<rparr>))"

text \<open>Compare-and-set on the version the transaction loaded.\<close>

definition update_workflow ::
  "workflow_db \<Rightarrow> workflow_record \<Rightarrow> u64 \<Rightarrow> nat \<Rightarrow> workflow_store_error + workflow_db" where
  "update_workflow db r previous_version sequence =
     (case workflow_validate r of Inl e \<Rightarrow> Inl (WsCode (workflow_record_error_code e)) | Inr _ \<Rightarrow>
     (let hit = (\<lambda>row. ww_workflow_id row = wr_workflow_id r \<and> ww_version row = previous_version) in
      if \<not> fits_i64 (wr_version r) \<or> \<not> fits_i64 previous_version then Inl (WsStore StDatabase)
      else if length (filter hit (wd_workflows db)) \<noteq> 1 then Inl (WsCode ''store_workflow_version_conflict'')
      else Inr (db\<lparr>wd_workflows := map (\<lambda>row. if hit row
             then row\<lparr>ww_phase := wr_phase r, ww_version := wr_version r, ww_record := r,
                      ww_updated_sequence := sequence\<rparr>
             else row) (wd_workflows db)\<rparr>)))"

section \<open>Contracts and slots\<close>

definition load_contract :: "workflow_db \<Rightarrow> digest \<Rightarrow> workflow_store_error + contract_artifact option" where
  "load_contract db contract_id =
     (case map_of (wd_contracts db) contract_id of None \<Rightarrow> Inr None
      | Some artifact \<Rightarrow> if ct_contract_id artifact \<noteq> contract_id then Inl mismatch else Inr (Some artifact))"

definition insert_contract_if_absent ::
  "workflow_db \<Rightarrow> contract_artifact \<Rightarrow> workflow_store_error + workflow_db" where
  "insert_contract_if_absent db artifact =
     (case load_contract db (ct_contract_id artifact) of Inl e \<Rightarrow> Inl e
      | Inr (Some existing) \<Rightarrow>
          if existing \<noteq> artifact then Inl (WsCode ''store_workflow_contract_conflict'') else Inr db
      | Inr None \<Rightarrow> Inr (db\<lparr>wd_contracts := wd_contracts db @ [(ct_contract_id artifact, artifact)]\<rparr>))"

fun insert_contracts :: "workflow_db \<Rightarrow> contract_artifact list \<Rightarrow> workflow_store_error + workflow_db" where
  "insert_contracts db [] = Inr db"
| "insert_contracts db (c # cs) =
     (case insert_contract_if_absent db c of Inl e \<Rightarrow> Inl e | Inr db1 \<Rightarrow> insert_contracts db1 cs)"

definition load_slot :: "workflow_db \<Rightarrow> spec_identifier \<Rightarrow> workflow_store_error + (slot_facts \<times> u64) option" where
  "load_slot db slot_id =
     (case find (\<lambda>row. sw_slot_id row = slot_id) (wd_slots db) of None \<Rightarrow> Inr None
      | Some row \<Rightarrow>
          if sf_slot_id (sw_record row) \<noteq> slot_id then Inl mismatch
          else Inr (Some (sw_record row, sw_last_generation row)))"

definition upsert_slot :: "workflow_db \<Rightarrow> slot_facts \<Rightarrow> nat \<Rightarrow> workflow_db" where
  "upsert_slot db slot sequence =
     (if sf_slot_id slot \<in> sw_slot_id ` set (wd_slots db)
      then db\<lparr>wd_slots := map (\<lambda>row. if sw_slot_id row = sf_slot_id slot
             then row\<lparr>sw_record := slot, sw_updated_sequence := sequence\<rparr> else row) (wd_slots db)\<rparr>
      else db\<lparr>wd_slots := wd_slots db @ [\<lparr>sw_slot_id = sf_slot_id slot, sw_record = slot,
             sw_last_generation = 0, sw_updated_sequence = sequence\<rparr>]\<rparr>)"

definition bump_slot_generation ::
  "workflow_db \<Rightarrow> spec_identifier \<Rightarrow> u64 \<Rightarrow> u64 \<Rightarrow> workflow_store_error + workflow_db" where
  "bump_slot_generation db slot_id previous following =
     (let hit = (\<lambda>row. sw_slot_id row = slot_id \<and> sw_last_generation row = previous) in
      if \<not> fits_i64 following \<or> \<not> fits_i64 previous then Inl (WsStore StDatabase)
      else if length (filter hit (wd_slots db)) \<noteq> 1 then Inl (WsCode ''store_workflow_version_conflict'')
      else Inr (db\<lparr>wd_slots := map (\<lambda>row. if hit row then row\<lparr>sw_last_generation := following\<rparr> else row)
             (wd_slots db)\<rparr>))"

section \<open>Leases\<close>

definition lease_row_consistent :: "lease_row \<Rightarrow> bool" where
  "lease_row_consistent row \<longleftrightarrow>
     lr_lease_id (lw_record row) = lw_lease_id row
     \<and> lr_workflow_id (lw_record row) = lw_workflow_id row
     \<and> lr_slot_id (lw_record row) = lw_slot_id row
     \<and> lr_worktree_key (lw_record row) = lw_worktree_key row
     \<and> lr_generation (lw_record row) = lw_generation row
     \<and> lr_state (lw_record row) = lw_state row"

definition query_leases :: "workflow_db \<Rightarrow> (lease_row \<Rightarrow> bool) \<Rightarrow> workflow_store_error + lease_record list" where
  "query_leases db P =
     (let rows = filter P (wd_leases db) in
      if list_all lease_row_consistent rows then Inr (map lw_record rows) else Inl mismatch)"

definition load_lease :: "workflow_db \<Rightarrow> uuid \<Rightarrow> workflow_store_error + lease_record option" where
  "load_lease db lease_id =
     (case query_leases db (\<lambda>row. lw_lease_id row = lease_id) of Inl e \<Rightarrow> Inl e
      | Inr leases \<Rightarrow> Inr (first_of leases))"

definition leases_for :: "workflow_db \<Rightarrow> uuid \<Rightarrow> workflow_store_error + lease_record list" where
  "leases_for db workflow_id = query_leases db (\<lambda>row. lw_workflow_id row = workflow_id)"

definition holding_leases :: "workflow_db \<Rightarrow> workflow_store_error + lease_record list" where
  "holding_leases db = query_leases db (\<lambda>row. holds_reservation (lw_state row))"

definition holder :: "workflow_db \<Rightarrow> (lease_row \<Rightarrow> bool) \<Rightarrow> workflow_store_error + lease_record option" where
  "holder db P =
     (case query_leases db (\<lambda>row. P row \<and> holds_reservation (lw_state row)) of Inl e \<Rightarrow> Inl e
      | Inr leases \<Rightarrow> Inr (first_of leases))"

text \<open>The primary key, the unique slot generation, the two partial unique indexes on the states that hold a
  reservation, the checks and the foreign keys.\<close>

definition lease_conflicts :: "lease_row \<Rightarrow> lease_row \<Rightarrow> bool" where
  "lease_conflicts new row \<longleftrightarrow>
     lw_lease_id row = lw_lease_id new
     \<or> (lw_slot_id row = lw_slot_id new \<and> lw_generation row = lw_generation new)
     \<or> (holds_reservation (lw_state row) \<and> holds_reservation (lw_state new)
        \<and> (lw_slot_id row = lw_slot_id new \<or> lw_worktree_key row = lw_worktree_key new))"

definition insert_lease :: "workflow_db \<Rightarrow> lease_record \<Rightarrow> nat \<Rightarrow> workflow_store_error + workflow_db" where
  "insert_lease db lease sequence =
     (let new = \<lparr>lw_lease_id = lr_lease_id lease, lw_workflow_id = lr_workflow_id lease, lw_slot_id = lr_slot_id lease,
                 lw_worktree_key = lr_worktree_key lease, lw_generation = lr_generation lease,
                 lw_state = lr_state lease, lw_record = lease, lw_updated_sequence = sequence\<rparr>
      in if \<not> fits_i64 (lr_generation lease) \<or> lr_generation lease = 0
            \<or> lr_workflow_id lease \<notin> ww_workflow_id ` set (wd_workflows db)
            \<or> lr_slot_id lease \<notin> sw_slot_id ` set (wd_slots db)
            \<or> list_ex (lease_conflicts new) (wd_leases db)
         then Inl (WsStore StDatabase)
         else Inr (db\<lparr>wd_leases := wd_leases db @ [new]\<rparr>))"

text \<open>An update never gains a reservation: the reducer leaves ended leases ended, so the partial indexes cannot be
  violated by it; the guard is stated all the same.\<close>

definition update_lease ::
  "workflow_db \<Rightarrow> lease_record \<Rightarrow> lease_state \<Rightarrow> nat \<Rightarrow> workflow_store_error + workflow_db" where
  "update_lease db lease previous_state sequence =
     (let hit = (\<lambda>row. lw_lease_id row = lr_lease_id lease \<and> lw_state row = previous_state
                    \<and> lw_generation row = lr_generation lease);
          new = (\<lambda>row. row\<lparr>lw_state := lr_state lease, lw_record := lease, lw_updated_sequence := sequence\<rparr>)
      in if \<not> fits_i64 (lr_generation lease) then Inl (WsStore StDatabase)
         else if list_ex (\<lambda>row. hit row \<and> list_ex (\<lambda>other. \<not> hit other \<and> lease_conflicts (new row) other)
                    (wd_leases db)) (wd_leases db)
         then Inl (WsStore StDatabase)
         else if length (filter hit (wd_leases db)) \<noteq> 1 then Inl (WsCode ''store_workflow_version_conflict'')
         else Inr (db\<lparr>wd_leases := map (\<lambda>row. if hit row then new row else row) (wd_leases db)\<rparr>))"

section \<open>Attempts\<close>

definition attempt_row_consistent :: "attempt_row \<Rightarrow> bool" where
  "attempt_row_consistent row \<longleftrightarrow>
     at_request_id (aw_record row) = aw_request_id row
     \<and> at_workflow_id (aw_record row) = aw_workflow_id row
     \<and> at_lease_id (aw_record row) = aw_lease_id row"

definition query_attempts :: "workflow_db \<Rightarrow> (attempt_row \<Rightarrow> bool) \<Rightarrow> workflow_store_error + attempt_record list" where
  "query_attempts db P =
     (let rows = filter P (wd_attempts db) in
      if list_all attempt_row_consistent rows then Inr (map aw_record rows) else Inl mismatch)"

definition load_attempt :: "workflow_db \<Rightarrow> uuid \<Rightarrow> workflow_store_error + attempt_record option" where
  "load_attempt db request_id =
     (case query_attempts db (\<lambda>row. aw_request_id row = request_id) of Inl e \<Rightarrow> Inl e
      | Inr attempts \<Rightarrow> Inr (first_of attempts))"

definition attempts_for :: "workflow_db \<Rightarrow> uuid \<Rightarrow> workflow_store_error + attempt_record list" where
  "attempts_for db workflow_id = query_attempts db (\<lambda>row. aw_workflow_id row = workflow_id)"

definition attempts_for_lease :: "workflow_db \<Rightarrow> uuid \<Rightarrow> workflow_store_error + attempt_record list" where
  "attempts_for_lease db lease_id = query_attempts db (\<lambda>row. aw_lease_id row = lease_id)"

definition insert_attempt :: "workflow_db \<Rightarrow> attempt_record \<Rightarrow> nat \<Rightarrow> workflow_store_error + workflow_db" where
  "insert_attempt db attempt sequence =
     (if \<not> fits_i64 (at_lease_generation attempt) \<or> at_lease_generation attempt = 0
         \<or> at_request_id attempt \<in> aw_request_id ` set (wd_attempts db)
         \<or> at_request_id attempt \<notin> row_id ` set (db_rows (wd_dispatch db))
         \<or> at_workflow_id attempt \<notin> ww_workflow_id ` set (wd_workflows db)
         \<or> at_lease_id attempt \<notin> lw_lease_id ` set (wd_leases db)
         \<or> at_contract_id attempt \<notin> fst ` set (wd_contracts db)
      then Inl (WsStore StDatabase)
      else Inr (db\<lparr>wd_attempts := wd_attempts db @
        [\<lparr>aw_request_id = at_request_id attempt, aw_workflow_id = at_workflow_id attempt,
          aw_lease_id = at_lease_id attempt, aw_record = attempt, aw_created_sequence = sequence\<rparr>]\<rparr>))"

definition attempt_phase :: "workflow_db \<Rightarrow> uuid \<Rightarrow> dispatch_phase option" where
  "attempt_phase db request_id =
     map_option row_phase (find (\<lambda>x. row_id x = request_id) (db_rows (wd_dispatch db)))"

end
