(* ===== verification/Model_Calls.thy ===== *)
theory Model_Calls
  imports Workflow_Rows
begin

text \<open>
  The ledger of model calls, \<open>crates/vibemux_store/src/workflow/model_calls.rs\<close>: reserving, submitting and
  finishing a call, recovery after a restart, and the charge of a compiler call when its workflow is
  prepared. A UUID's text orders like the UUID, so the pages of recovery are ordered by the identifier itself.
\<close>

definition COMPILER_OWNER_PREFIX :: string where "COMPILER_OWNER_PREFIX = ''compiler_''"
definition COMPILER_REQUEST_DOMAIN :: string where "COMPILER_REQUEST_DOMAIN = ''vibemux.workflow.compiler_request.v1''"
definition MODEL_CALL_RECOVERY_PAGE_SIZE :: nat where "MODEL_CALL_RECOVERY_PAGE_SIZE = 512"

abbreviation association_invalid :: workflow_store_error where
  "association_invalid \<equiv> WsCode ''model_call_compiler_association_invalid''"

definition uuid_bytes :: "uuid \<Rightarrow> string" where
  "uuid_bytes u = be_bytes 16 (unat u)"

definition expected_call_id :: "workflow_env \<Rightarrow> uuid \<Rightarrow> digest \<Rightarrow> uuid" where
  "expected_call_id env workflow_id fingerprint =
     of_nat (from_be_bytes (take 16 (digest_as_bytes (hash_fields (en_sha256 (we_dispatch env)) COMPILER_REQUEST_DOMAIN
       [uuid_bytes workflow_id, digest_as_bytes fingerprint]))))"

definition compiler_workflow_id ::
  "workflow_env \<Rightarrow> model_call_admission \<Rightarrow> workflow_store_error + uuid option" where
  "compiler_workflow_id env admission =
     (case strip_prefix COMPILER_OWNER_PREFIX (ma_owner_key admission) of None \<Rightarrow> Inr None
      | Some rest \<Rightarrow>
          if length rest \<noteq> 32 \<or> \<not> list_all is_ascii_hexdigit rest then Inr None
          else (case we_parse_uuid env rest of None \<Rightarrow> Inl association_invalid
           | Some workflow_id \<Rightarrow>
               if is_nil workflow_id \<or> rest \<noteq> we_uuid_simple env workflow_id
                  \<or> ma_workflow_id admission \<noteq> None
                  \<or> mi_role (ma_identity admission) \<noteq> RoleCompiler
                  \<or> ma_max_calls admission \<noteq> 1
                  \<or> ma_call_id admission
                     \<noteq> expected_call_id env workflow_id (mi_request_fingerprint (ma_identity admission))
               then Inl association_invalid else Inr (Some workflow_id)))"

fun state_key :: "model_call_state \<Rightarrow> string" where
  "state_key McReserved = ''reserved''"
| "state_key McSubmitted = ''submitted''"
| "state_key McCompleted = ''completed''"
| "state_key McRejected = ''rejected''"
| "state_key McBlocked = ''blocked''"
| "state_key McUnknown = ''unknown''"

abbreviation call_error :: "model_call_error \<Rightarrow> workflow_store_error" where
  "call_error e \<equiv> WsCode (model_call_error_code e)"

definition load_call :: "workflow_db \<Rightarrow> uuid \<Rightarrow> workflow_store_error + model_call_record option" where
  "load_call db call_id =
     (case find (\<lambda>row. kw_call_id row = call_id) (wd_calls db) of None \<Rightarrow> Inr None
      | Some row \<Rightarrow>
         (case call_validate (kw_record row) of Inl e \<Rightarrow> Inl (call_error e)
          | Inr _ \<Rightarrow>
              if mc_call_id (kw_record row) \<noteq> call_id
                 \<or> ma_owner_key (mc_admission (kw_record row)) \<noteq> kw_owner_key row
                 \<or> kw_state row \<noteq> mc_state (kw_record row)
              then Inl mismatch else Inr (Some (kw_record row))))"

definition call_key :: "workflow_env \<Rightarrow> uuid \<Rightarrow> string \<Rightarrow> string" where
  "call_key env call_id state =
     ''model_call:'' @ en_uuid_text (we_dispatch env) call_id @ '':'' @ state"

definition call_payload :: "workflow_env \<Rightarrow> model_call_record \<Rightarrow> int json_value" where
  "call_payload env r =
     (let admission = mc_admission r; identity = ma_identity admission in
      JObject [(''call_id'', json_uuid env (mc_call_id r)), (''owner_key'', JString (ma_owner_key admission)),
        (''workflow_id'', json_option (json_uuid env) (ma_workflow_id admission)),
        (''state'', JString (state_key (mc_state r))),
        (''request_fingerprint'', json_digest (mi_request_fingerprint identity)),
        (''role'', JString (route_role_as_str (mi_role identity))),
        (''calls_used'', json_word (mc_calls_used r))])"

definition reserved_payload :: "workflow_env \<Rightarrow> model_call_record \<Rightarrow> int json_value" where
  "reserved_payload env r =
     (let admission = mc_admission r; identity = ma_identity admission in
      JObject [(''call_id'', json_uuid env (mc_call_id r)), (''owner_key'', JString (ma_owner_key admission)),
        (''workflow_id'', json_option (json_uuid env) (ma_workflow_id admission)),
        (''role'', JString (route_role_as_str (mi_role identity))),
        (''request_fingerprint'', json_digest (mi_request_fingerprint identity)),
        (''calls_used'', json_word (mc_calls_used r))])"

text \<open>\<open>persist\<close> draws its own time; the row is updated whether or not it exists.\<close>

definition persist ::
  "workflow_env \<Rightarrow> uuid \<Rightarrow> instant \<Rightarrow> workflow_db \<Rightarrow> model_call_record \<Rightarrow> string \<Rightarrow> workflow_store_error + workflow_db" where
  "persist env fresh_project now db r kind =
     (case append_event env fresh_project db kind (call_key env (mc_call_id r) (state_key (mc_state r)))
             (call_payload env r) now of
        Inl e \<Rightarrow> Inl e
      | Inr (db1, _, sequence) \<Rightarrow>
          Inr (db1\<lparr>wd_calls := map (\<lambda>row. if kw_call_id row = mc_call_id r
                 then row\<lparr>kw_state := mc_state r, kw_record := r, kw_updated_sequence := sequence\<rparr> else row)
               (wd_calls db1)\<rparr>))"

section \<open>Reservation\<close>

definition load_owner :: "workflow_db \<Rightarrow> spec_identifier \<Rightarrow> call_owner_row option" where
  "load_owner db owner_key = find (\<lambda>row. ow_owner_key row = owner_key) (wd_owners db)"

text \<open>The owner's count so far, and the table with a new owner added, under its foreign key.\<close>

definition claim_owner ::
  "workflow_db \<Rightarrow> model_call_admission \<Rightarrow> workflow_store_error + workflow_db \<times> u32" where
  "claim_owner db admission =
     (case load_owner db (ma_owner_key admission) of
        Some row \<Rightarrow>
          if ow_workflow_id row \<noteq> ma_workflow_id admission \<or> ow_max_calls row \<noteq> ma_max_calls admission
             \<or> ow_deadline_unix_ms row \<noteq> ma_deadline_unix_ms admission
          then Inl (WsCode ''model_call_budget_identity_mismatch'')
          else Inr (db, ow_calls_used row)
      | None \<Rightarrow>
          if \<not> fits_i64 (ma_deadline_unix_ms admission)
             \<or> (case ma_workflow_id admission of None \<Rightarrow> False | Some w \<Rightarrow> w \<notin> ww_workflow_id ` set (wd_workflows db))
          then Inl (WsStore StDatabase)
          else Inr (db\<lparr>wd_owners := wd_owners db @
                 [\<lparr>ow_owner_key = ma_owner_key admission, ow_workflow_id = ma_workflow_id admission,
                   ow_max_calls = ma_max_calls admission, ow_deadline_unix_ms = ma_deadline_unix_ms admission,
                   ow_calls_used = 0\<rparr>]\<rparr>, 0))"

definition following_use :: "u32 \<Rightarrow> model_call_admission \<Rightarrow> u32 option" where
  "following_use used admission =
     (case checked_add used 1 of None \<Rightarrow> None
      | Some n \<Rightarrow> if n \<le> ma_max_calls admission then Some n else None)"

definition charge_workflow_call ::
  "workflow_db \<Rightarrow> model_call_admission \<Rightarrow> u64 \<Rightarrow> nat \<Rightarrow> workflow_store_error + workflow_db" where
  "charge_workflow_call db admission now_ms sequence =
     (case ma_workflow_id admission of None \<Rightarrow> Inr db
      | Some workflow_id \<Rightarrow>
     (case load_existing_workflow db workflow_id of Inl e \<Rightarrow> Inl e | Inr stored \<Rightarrow>
     (let workflow = sg_record stored; budget = wr_budget workflow in
      if \<not> admits_work (wr_phase workflow) \<or> ma_deadline_unix_ms admission > lb_deadline_unix_ms budget
      then Inl (WsCode ''store_workflow_not_running'')
      else if lb_model_requests_remaining budget < 1 then Inl (WsCode ''model_call_limit_exceeded'')
      else (case checked_add (wr_version workflow) 1 of None \<Rightarrow> Inl (WsCode ''workflow_record_invalid'')
       | Some version \<Rightarrow>
           update_workflow db (workflow\<lparr>
             wr_budget := budget\<lparr>lb_model_requests_remaining := lb_model_requests_remaining budget - 1\<rparr>,
             wr_version := version, wr_updated_at_ms := max now_ms (wr_updated_at_ms workflow)\<rparr>)
             (wr_version workflow) sequence))))"

definition set_calls_used :: "spec_identifier \<Rightarrow> u32 \<Rightarrow> workflow_db \<Rightarrow> workflow_db" where
  "set_calls_used owner_key n db = db\<lparr>wd_owners := map (\<lambda>row. if ow_owner_key row = owner_key
     then row\<lparr>ow_calls_used := n\<rparr> else row) (wd_owners db)\<rparr>"

definition insert_call :: "workflow_db \<Rightarrow> model_call_record \<Rightarrow> nat \<Rightarrow> workflow_store_error + workflow_db" where
  "insert_call db r sequence =
     (if mc_call_id r \<in> kw_call_id ` set (wd_calls db)
         \<or> ma_owner_key (mc_admission r) \<notin> ow_owner_key ` set (wd_owners db)
      then Inl (WsStore StDatabase)
      else Inr (db\<lparr>wd_calls := wd_calls db @ [\<lparr>kw_call_id = mc_call_id r,
             kw_owner_key = ma_owner_key (mc_admission r), kw_state = McReserved, kw_record = r,
             kw_updated_sequence = sequence\<rparr>]\<rparr>))"

definition reserve_new_call ::
  "workflow_env \<Rightarrow> uuid \<Rightarrow> instant \<Rightarrow> workflow_db \<Rightarrow> model_call_admission \<Rightarrow>
   workflow_store_error + workflow_db \<times> model_call_record" where
  "reserve_new_call env fresh_project now db admission =
     (case claim_owner db admission of Inl e \<Rightarrow> Inl e | Inr (db1, used) \<Rightarrow>
     (case following_use used admission of None \<Rightarrow> Inl (WsCode ''model_call_limit_exceeded'') | Some following \<Rightarrow>
     (case call_reserved admission following of Inl e \<Rightarrow> Inl (call_error e) | Inr r \<Rightarrow>
     (case append_event env fresh_project db1 ''workflow_model_call_reserved''
             (call_key env (mc_call_id r) ''reserved'') (reserved_payload env r) now of Inl e \<Rightarrow> Inl e
      | Inr (db2, _, sequence) \<Rightarrow>
     (case charge_workflow_call db2 admission (millis now) sequence of Inl e \<Rightarrow> Inl e | Inr db3 \<Rightarrow>
     (case insert_call (set_calls_used (ma_owner_key admission) following db3) r sequence of Inl e \<Rightarrow> Inl e
      | Inr db4 \<Rightarrow> Inr (db4, r)))))))"

definition reserve_model_call ::
  "workflow_env \<Rightarrow> uuid \<Rightarrow> instant \<Rightarrow> workflow_db \<Rightarrow> model_call_admission \<Rightarrow>
   workflow_store_error + workflow_db \<times> model_call_record" where
  "reserve_model_call env fresh_project now db admission =
     (case admission_validate admission of Inl e \<Rightarrow> Inl (call_error e) | Inr _ \<Rightarrow>
      if is_nil (ma_call_id admission) \<or> ma_workflow_id admission = Some 0
      then Inl (WsCode ''model_call_admission_invalid'')
      else (case compiler_workflow_id env admission of Inl e \<Rightarrow> Inl e | Inr compiler_workflow \<Rightarrow>
     (case load_call db (ma_call_id admission) of Inl e \<Rightarrow> Inl e
      | Inr (Some r) \<Rightarrow>
          if \<not> matches_admission r admission then Inl (WsCode ''model_call_identity_mismatch'') else Inr (db, r)
      | Inr None \<Rightarrow>
     (case (case compiler_workflow of None \<Rightarrow> Inr None | Some workflow_id \<Rightarrow> load_workflow db workflow_id) of
        Inl e \<Rightarrow> Inl e
      | Inr (Some _) \<Rightarrow> Inl (WsCode ''model_call_compiler_workflow_prepared'')
      | Inr None \<Rightarrow>
          if millis now \<ge> ma_deadline_unix_ms admission then Inl (WsCode ''model_call_deadline_exceeded'')
          else reserve_new_call env fresh_project now db admission))))"

section \<open>Submission, completion and recovery\<close>

definition load_existing_call :: "workflow_db \<Rightarrow> uuid \<Rightarrow> workflow_store_error + model_call_record" where
  "load_existing_call db call_id =
     (case load_call db call_id of Inl e \<Rightarrow> Inl e | Inr None \<Rightarrow> Inl (WsCode ''model_call_unknown'')
      | Inr (Some r) \<Rightarrow> Inr r)"

definition submit_model_call ::
  "workflow_env \<Rightarrow> uuid \<Rightarrow> instant \<Rightarrow> workflow_db \<Rightarrow> uuid \<Rightarrow> workflow_store_error + workflow_db \<times> model_call_record" where
  "submit_model_call env fresh_project now db call_id =
     (case load_existing_call db call_id of Inl e \<Rightarrow> Inl e | Inr r \<Rightarrow>
      if millis now \<ge> ma_deadline_unix_ms (mc_admission r) then Inl (WsCode ''model_call_deadline_exceeded'')
      else (case mark_submitted r of Inl e \<Rightarrow> Inl (call_error e) | Inr s \<Rightarrow>
     (case persist env fresh_project now db s ''workflow_model_call_submitted'' of Inl e \<Rightarrow> Inl e
      | Inr db1 \<Rightarrow> Inr (db1, s))))"

definition identifier_option :: "string option \<Rightarrow> identifier_error + spec_identifier option" where
  "identifier_option code = (case code of None \<Rightarrow> Inr None | Some c \<Rightarrow> map_sum id Some (spec_identifier_new c))"

definition finish_model_call ::
  "workflow_env \<Rightarrow> uuid \<Rightarrow> instant \<Rightarrow> workflow_db \<Rightarrow> uuid \<Rightarrow> model_call_receipt option \<Rightarrow> string option \<Rightarrow>
   workflow_store_error + workflow_db \<times> model_call_record" where
  "finish_model_call env fresh_project now db call_id receipt error_code =
     (case load_existing_call db call_id of Inl e \<Rightarrow> Inl e | Inr r \<Rightarrow>
     (case identifier_option error_code of Inl _ \<Rightarrow> Inl (WsCode ''model_call_finish_invalid'') | Inr error \<Rightarrow>
      if mc_state r = McCompleted \<or> mc_state r = McRejected \<or> mc_state r = McBlocked \<or> mc_state r = McUnknown
      then (if mc_receipt r = receipt \<and> mc_error_code r = error then Inr (db, r)
            else Inl (WsCode ''model_call_finish_conflict''))
      else (case call_finish r receipt error of Inl e \<Rightarrow> Inl (call_error e) | Inr s \<Rightarrow>
     (case call_validate s of Inl e \<Rightarrow> Inl (call_error e) | Inr _ \<Rightarrow>
     (case persist env fresh_project now db s ''workflow_model_call_finished'' of Inl e \<Rightarrow> Inl e
      | Inr db1 \<Rightarrow> Inr (db1, s))))))"

text \<open>One page of submitted calls after an identifier, in order.\<close>

definition submitted_page :: "workflow_db \<Rightarrow> uuid option \<Rightarrow> uuid list" where
  "submitted_page db after =
     take MODEL_CALL_RECOVERY_PAGE_SIZE (sort (map kw_call_id (filter (\<lambda>row. kw_state row = McSubmitted
       \<and> (case after of None \<Rightarrow> True | Some a \<Rightarrow> kw_call_id row > a)) (wd_calls db))))"

fun recover_page ::
  "workflow_env \<Rightarrow> uuid \<Rightarrow> instant \<Rightarrow> uuid list \<Rightarrow> workflow_db \<Rightarrow> u32 \<Rightarrow> workflow_store_error + workflow_db \<times> u32" where
  "recover_page env fresh_project now [] db recovered = Inr (db, recovered)"
| "recover_page env fresh_project now (call_id # ids) db recovered =
     (case load_existing_call db call_id of Inl e \<Rightarrow> Inl e | Inr r \<Rightarrow>
     (case recover_after_restart r of Inl e \<Rightarrow> Inl (call_error e)
      | Inr (s, changed) \<Rightarrow>
          if \<not> changed then recover_page env fresh_project now ids db recovered
          else (case persist env fresh_project now db s ''workflow_model_call_recovered'' of Inl e \<Rightarrow> Inl e
           | Inr db1 \<Rightarrow>
               (case checked_add recovered 1 of None \<Rightarrow> Inl (WsCode ''model_call_limit_exceeded'')
                | Some n \<Rightarrow> recover_page env fresh_project now ids db1 n))))"

lemma insert_event_rows: "insert_event d e = Inr (d', n) \<Longrightarrow> db_rows d' = db_rows d"
  by (auto simp: insert_event_def split: if_splits)

text \<open>Appending an event changes the log only.\<close>

lemma append_event_Inr:
  assumes "append_event env fp db event_type key payload timestamp = Inr (db1, e, n)"
  shows "\<exists>d. db1 = db\<lparr>wd_dispatch := d\<rparr> \<and> insert_event (wd_dispatch db) e = Inr (d, n)
    \<and> ee_idempotency_key e = key \<and> db_rows d = db_rows (wd_dispatch db)"
  using assms insert_event_rows
  by (auto simp: append_event_def Let_def workflow_draft_def split: if_splits sum.splits prod.splits)

lemma persist_Inr:
  assumes "persist env fp now db r kind = Inr db1"
  obtains d e n where "insert_event (wd_dispatch db) e = Inr (d, n)"
    "ee_idempotency_key e = call_key env (mc_call_id r) (state_key (mc_state r))" "db_rows d = db_rows (wd_dispatch db)"
    "db1 = db\<lparr>wd_dispatch := d, wd_calls := map (\<lambda>row. if kw_call_id row = mc_call_id r
        then row\<lparr>kw_state := mc_state r, kw_record := r, kw_updated_sequence := n\<rparr> else row) (wd_calls db)\<rparr>"
proof -
  obtain db0 e n where a: "append_event env fp db kind (call_key env (mc_call_id r) (state_key (mc_state r)))
      (call_payload env r) now = Inr (db0, e, n)"
    and db1: "db1 = db0\<lparr>wd_calls := map (\<lambda>row. if kw_call_id row = mc_call_id r
        then row\<lparr>kw_state := mc_state r, kw_record := r, kw_updated_sequence := n\<rparr> else row) (wd_calls db0)\<rparr>"
    using assms by (auto simp: persist_def split: sum.splits prod.splits)
  from append_event_Inr [OF a] obtain d where d: "db0 = db\<lparr>wd_dispatch := d\<rparr>"
    "insert_event (wd_dispatch db) e = Inr (d, n)"
    "ee_idempotency_key e = call_key env (mc_call_id r) (state_key (mc_state r))" "db_rows d = db_rows (wd_dispatch db)"
    by blast
  show thesis using db1 by (intro that [OF d(2-4)]) (simp add: d(1))
qed

lemma persist_ids: "persist env fp now db r kind = Inr db1 \<Longrightarrow> map kw_call_id (wd_calls db1) = map kw_call_id (wd_calls db)"
  by (erule persist_Inr) auto

lemma recover_page_ids:
  "recover_page env fp now ids db n = Inr (db1, m) \<Longrightarrow> map kw_call_id (wd_calls db1) = map kw_call_id (wd_calls db)"
proof (induction ids arbitrary: db n)
  case (Cons i ids)
  then show ?case
    by (fastforce split: sum.splits option.splits if_splits prod.splits dest: persist_ids)
qed simp

lemma submitted_page_above:
  assumes "i \<in> set (submitted_page db after)"
  shows "i \<in> set (map kw_call_id (wd_calls db)) \<and> (case after of None \<Rightarrow> True | Some a \<Rightarrow> i > a)"
  using assms by (auto simp: submitted_page_def dest!: in_set_takeD split: option.splits)

text \<open>The loop over the pages; each page ends at a later identifier.\<close>

function recover_calls_from ::
  "workflow_env \<Rightarrow> uuid \<Rightarrow> instant \<Rightarrow> uuid option \<Rightarrow> workflow_db \<Rightarrow> u32 \<Rightarrow> workflow_store_error + workflow_db \<times> u32" where
  "recover_calls_from env fresh_project now after db recovered =
     (let ids = submitted_page db after in
      if ids = [] then Inr (db, recovered)
      else (case recover_page env fresh_project now ids db recovered of Inl e \<Rightarrow> Inl e
       | Inr (db1, n) \<Rightarrow> recover_calls_from env fresh_project now (Some (last ids)) db1 n))"
  by pat_completeness auto
termination
proof (relation "measure (\<lambda>(_, _, _, after, db, _).
    length (filter (\<lambda>i. case after of None \<Rightarrow> True | Some a \<Rightarrow> i > a) (map kw_call_id (wd_calls db))))", goal_cases)
  case (2 env fp now after db recovered ids p db1 n)
  let ?P = "\<lambda>i. case after of None \<Rightarrow> True | Some a \<Rightarrow> i > a"
  have ids: "map kw_call_id (wd_calls db1) = map kw_call_id (wd_calls db)" using 2 by (auto dest: recover_page_ids)
  have l: "last ids \<in> set (map kw_call_id (wd_calls db))" "?P (last ids)"
    using submitted_page_above [of "last ids" db after] 2(1,2) by auto
  have "length (filter (\<lambda>i. i > last ids) xs) < length (filter ?P xs)" if "last ids \<in> set xs" for xs
    using that l(2)
  proof (induction xs)
    case (Cons x xs)
    have le: "length (filter (\<lambda>i. i > last ids) xs) \<le> length (filter ?P xs)"
      using l(2) by (induction xs) (auto split: option.splits)
    show ?case
    proof (cases "x = last ids")
      case True
      then show ?thesis using le Cons.prems(2) by simp
    next
      case False
      then have "length (filter (\<lambda>i. i > last ids) xs) < length (filter ?P xs)" using Cons by simp
      then show ?thesis using Cons.prems(2) by (auto split: option.splits)
    qed
  qed simp
  from this [OF l(1)] show ?case by (simp only: in_measure prod.case option.case ids)
qed simp

declare recover_calls_from.simps [simp del]

definition recover_model_calls ::
  "workflow_env \<Rightarrow> uuid \<Rightarrow> instant \<Rightarrow> workflow_db \<Rightarrow> workflow_store_error + workflow_db \<times> u32" where
  "recover_model_calls env fresh_project now db = recover_calls_from env fresh_project now None db 0"

section \<open>Compiler calls\<close>

record compiler_association =
  ca_workflow_id :: uuid
  ca_call :: model_call_record
  ca_remaining_model_requests :: u32

definition charge_compiler_for_prepare ::
  "workflow_env \<Rightarrow> workflow_db \<Rightarrow> workflow_record \<Rightarrow>
   workflow_store_error + workflow_record \<times> compiler_association option" where
  "charge_compiler_for_prepare env db r =
     (let owner_key = COMPILER_OWNER_PREFIX @ we_uuid_simple env (wr_workflow_id r) in
     (case load_owner db owner_key of None \<Rightarrow> Inr (r, None)
      | Some owner \<Rightarrow>
          if ow_workflow_id owner \<noteq> None \<or> ow_max_calls owner \<noteq> 1 \<or> ow_calls_used owner \<noteq> 1
          then Inl association_invalid
          else (case map kw_call_id (filter (\<lambda>row. kw_owner_key row = owner_key) (wd_calls db)) of
                  [call_id] \<Rightarrow>
     (case load_call db call_id of Inl e \<Rightarrow> Inl e | Inr None \<Rightarrow> Inl association_invalid
      | Inr (Some call) \<Rightarrow>
     (case compiler_workflow_id env (mc_admission call) of Inl e \<Rightarrow> Inl e | Inr associated \<Rightarrow>
      if associated \<noteq> Some (wr_workflow_id r) \<or> ma_owner_key (mc_admission call) \<noteq> owner_key
         \<or> mc_calls_used call \<noteq> ow_calls_used owner
         \<or> ma_deadline_unix_ms (mc_admission call) \<noteq> ow_deadline_unix_ms owner
      then Inl association_invalid
      else if mc_state call = McReserved \<or> mc_state call = McSubmitted
      then Inl (WsCode ''model_call_compiler_pending'')
      else (let remaining = lb_model_requests_remaining (wr_budget r) in
        if remaining < ow_calls_used owner then Inl (WsCode ''model_call_limit_exceeded'')
        else (let left = remaining - ow_calls_used owner in
          Inr (r\<lparr>wr_budget := (wr_budget r)\<lparr>lb_model_requests_remaining := left\<rparr>\<rparr>,
               Some \<lparr>ca_workflow_id = wr_workflow_id r, ca_call = call, ca_remaining_model_requests = left\<rparr>)))))
                | _ \<Rightarrow> Inl association_invalid)))"

definition associate_prepared_compiler ::
  "workflow_env \<Rightarrow> uuid \<Rightarrow> workflow_db \<Rightarrow> compiler_association \<Rightarrow> instant \<Rightarrow> workflow_store_error + workflow_db" where
  "associate_prepared_compiler env fresh_project db association timestamp =
     (let call = ca_call association; admission = mc_admission call;
          hit = (\<lambda>row. ow_owner_key row = ma_owner_key admission \<and> ow_workflow_id row = None \<and> ow_max_calls row = 1
                   \<and> ow_calls_used row = 1 \<and> ow_deadline_unix_ms row = ma_deadline_unix_ms admission)
      in if \<not> fits_i64 (ma_deadline_unix_ms admission)
            \<or> (list_ex hit (wd_owners db) \<and> ca_workflow_id association \<notin> ww_workflow_id ` set (wd_workflows db))
         then Inl (WsStore StDatabase)
         else if length (filter hit (wd_owners db)) \<noteq> 1 then Inl association_invalid
         else (case append_event env fresh_project
                 (db\<lparr>wd_owners := map (\<lambda>row. if hit row then row\<lparr>ow_workflow_id := Some (ca_workflow_id association)\<rparr>
                     else row) (wd_owners db)\<rparr>)
                 ''workflow_compiler_call_associated''
                 (''workflow_compiler_call:'' @ en_uuid_text (we_dispatch env) (ca_workflow_id association) @ '':''
                   @ en_uuid_text (we_dispatch env) (mc_call_id call))
                 (JObject [(''workflow_id'', json_uuid env (ca_workflow_id association)),
                    (''call_id'', json_uuid env (mc_call_id call)), (''owner_key'', JString (ma_owner_key admission)),
                    (''state'', JString (state_key (mc_state call))),
                    (''request_fingerprint'', json_digest (mi_request_fingerprint (ma_identity admission))),
                    (''charged_model_requests'', json_word (mc_calls_used call)),
                    (''model_requests_remaining'', json_word (ca_remaining_model_requests association))]) timestamp of
             Inl e \<Rightarrow> Inl e | Inr (db1, _) \<Rightarrow> Inr db1))"

end
