(* ===== verification/Workflow_Store.thy ===== *)
theory Workflow_Store
  imports Model_Calls
begin

text \<open>
  The writer transactions of \<open>crates/vibemux_store/src/workflow.rs\<close> over workflows, contracts, authorities, slots,
  leases and attempts: preparing and moving a workflow, new contract generations, binding an execution
  authority, observing slots, acquiring and changing leases, admitting an attempt through the dispatch table, and the
  reconciliation at start-up. A transaction that returns an error leaves the database unchanged. The check of a
  supervisor's action in \<open>supervisor_commands.rs\<close> is the argument \<open>check_dispatch\<close> of an admission.
\<close>

section \<open>Workflows\<close>

record workflow_commit =
  wc_record :: workflow_record
  wc_event :: "event_envelope option"
  wc_sequence :: nat

definition uuid_key :: "workflow_env \<Rightarrow> uuid \<Rightarrow> string" where
  "uuid_key env u = en_uuid_text (we_dispatch env) u"

definition contract_matches :: "workflow_record \<Rightarrow> contract_artifact list \<Rightarrow> workflow_task \<Rightarrow> bool" where
  "contract_matches r contracts task =
     (case filter (\<lambda>c. ct_contract_id c = wt_contract_id task) contracts of
        [c] \<Rightarrow> ct_task_key c = wt_task_key task \<and> ct_workflow_key c = wr_workflow_key r
               \<and> ct_contract_version c = wt_contract_version task \<and> ct_base_commit c = wr_base_commit r
      | _ \<Rightarrow> False)"

fun content_store_json :: "content_store_mode \<Rightarrow> int json_value" where
  "content_store_json StoreDisabled = JObject [(''mode'', JString ''disabled'')]"
| "content_store_json (StoreEnabled days) = JObject [(''mode'', JString ''enabled''), (''retention_days'', json_word days)]"

fun evidence_class_str :: "evidence_class \<Rightarrow> string" where
  "evidence_class_str Fixture = ''fixture''"
| "evidence_class_str Live = ''live''"

definition prepared_payload :: "workflow_env \<Rightarrow> workflow_record \<Rightarrow> int json_value" where
  "prepared_payload env r =
     JObject [(''workflow_id'', json_uuid env (wr_workflow_id r)), (''mode'', JString (workflow_mode_as_str (wr_mode r))),
       (''evidence_class'', JString (evidence_class_str (wr_evidence_class r))),
       (''task_count'', JNumber (int (length (wr_tasks r)))),
       (''contract_ids'', JArray (map (\<lambda>task. json_digest (wt_contract_id task)) (wr_tasks r))),
       (''policy_digest'', json_digest (wr_policy_digest r)), (''verifier_digest'', json_digest (wr_verifier_digest r)),
       (''content_store'', content_store_json (wr_content_store r))]"

definition prepare_new ::
  "workflow_env \<Rightarrow> uuid \<Rightarrow> workflow_db \<Rightarrow> workflow_record \<Rightarrow> contract_artifact list \<Rightarrow> digest \<Rightarrow> instant \<Rightarrow>
   workflow_store_error + workflow_db \<times> workflow_commit" where
  "prepare_new env fresh_project db r contracts fingerprint timestamp =
     (case charge_compiler_for_prepare env db r of Inl e \<Rightarrow> Inl e | Inr (admitted, association) \<Rightarrow>
     (case append_event env fresh_project db ''workflow_prepared''
             (''workflow_prepared:'' @ uuid_key env (wr_workflow_id r)) (prepared_payload env r) timestamp of
        Inl e \<Rightarrow> Inl e | Inr (db1, event, sequence) \<Rightarrow>
     (case insert_contracts db1 contracts of Inl e \<Rightarrow> Inl e | Inr db2 \<Rightarrow>
     (case insert_workflow db2 admitted fingerprint sequence of Inl e \<Rightarrow> Inl e | Inr db3 \<Rightarrow>
     (case (case association of None \<Rightarrow> Inr db3
            | Some a \<Rightarrow> associate_prepared_compiler env fresh_project db3 a timestamp) of
        Inl e \<Rightarrow> Inl e
      | Inr db4 \<Rightarrow> Inr (db4, \<lparr>wc_record = admitted, wc_event = Some event, wc_sequence = sequence\<rparr>))))))"

definition prepare_workflow ::
  "workflow_env \<Rightarrow> uuid \<Rightarrow> workflow_db \<Rightarrow> workflow_record \<Rightarrow> contract_artifact list \<Rightarrow> instant \<Rightarrow>
   workflow_store_error + workflow_db \<times> workflow_commit" where
  "prepare_workflow env fresh_project db r contracts timestamp =
     (case workflow_validate r of Inl e \<Rightarrow> Inl (WsCode (workflow_record_error_code e)) | Inr _ \<Rightarrow>
      if wr_phase r \<noteq> PhasePrepared \<or> wr_version r \<noteq> 1 then Inl (WsCode ''store_workflow_invalid_admission'')
      else if \<not> list_all (contract_matches r contracts) (wr_tasks r) then Inl (WsCode ''store_workflow_contract_mismatch'')
      else if length contracts \<noteq> length (wr_tasks r) then Inl (WsCode ''store_workflow_contract_mismatch'')
      else (case admission_fingerprint (we_fingerprint env) r of
              Inl e \<Rightarrow> Inl (WsCode (canonical_error_code e)) | Inr fingerprint \<Rightarrow>
     (case load_workflow_by_request db (wr_request_key r) of Inl e \<Rightarrow> Inl e
      | Inr (Some existing) \<Rightarrow>
         (case workflow_fingerprint db (wr_workflow_id (sg_record existing)) of Inl e \<Rightarrow> Inl e
          | Inr stored \<Rightarrow>
              if stored \<noteq> fingerprint then Inl (WsCode ''store_workflow_request_conflict'')
              else Inr (db, \<lparr>wc_record = sg_record existing, wc_event = None, wc_sequence = sg_sequence existing\<rparr>))
      | Inr None \<Rightarrow> prepare_new env fresh_project db r contracts fingerprint timestamp)))"

definition blocked_reason_of :: "workflow_phase \<Rightarrow> string option \<Rightarrow> string option" where
  "blocked_reason_of phase reason_code =
     (case phase of
        PhaseBlocked \<Rightarrow> Some (case reason_code of None \<Rightarrow> ''blocked'' | Some c \<Rightarrow> c)
      | PhaseFailed \<Rightarrow> Some (case reason_code of None \<Rightarrow> ''failed'' | Some c \<Rightarrow> c)
      | _ \<Rightarrow> None)"

definition transition_workflow ::
  "workflow_env \<Rightarrow> uuid \<Rightarrow> workflow_db \<Rightarrow> uuid \<Rightarrow> u64 \<Rightarrow> workflow_phase \<Rightarrow> string option \<Rightarrow> instant \<Rightarrow>
   workflow_store_error + workflow_db \<times> workflow_commit" where
  "transition_workflow env fresh_project db workflow_id expected_version phase reason_code timestamp =
     (if phase = PhaseAccepted then Inl (WsCode ''store_workflow_acceptance_requires_gate'')
      else (case load_existing_workflow db workflow_id of Inl e \<Rightarrow> Inl e | Inr stored \<Rightarrow>
      if wr_version (sg_record stored) \<noteq> expected_version then Inl (WsCode ''store_workflow_version_conflict'')
      else (case (if phase = PhaseCancelled then leases_for db workflow_id else Inr []) of Inl e \<Rightarrow> Inl e | Inr leases \<Rightarrow>
      if list_ex (\<lambda>lease. holds_reservation (lr_state lease)) leases
      then Inl (WsCode ''store_workflow_attempts_unsettled'')
      else (case with_phase (sg_record stored) phase (millis timestamp) of
              Inl e \<Rightarrow> Inl (WsCode (workflow_record_error_code e)) | Inr moved \<Rightarrow>
     (let following = moved\<lparr>wr_blocked_reason := blocked_reason_of phase reason_code\<rparr> in
     (case append_event env fresh_project db ''workflow_phase_changed''
             (''workflow_phase:'' @ uuid_key env workflow_id @ '':'' @ decimal (unat (wr_version following)))
             (JObject [(''workflow_id'', json_uuid env workflow_id),
                (''from_phase'', JString (phase_as_str (wr_phase (sg_record stored)))),
                (''phase'', JString (phase_as_str phase)), (''version'', json_word (wr_version following)),
                (''reason_code'', json_option JString reason_code)]) timestamp of
        Inl e \<Rightarrow> Inl e | Inr (db1, event, sequence) \<Rightarrow>
     (case update_workflow db1 following (wr_version (sg_record stored)) sequence of Inl e \<Rightarrow> Inl e
      | Inr db2 \<Rightarrow> Inr (db2, \<lparr>wc_record = following, wc_event = Some event, wc_sequence = sequence\<rparr>))))))))"

definition contract_successor :: "workflow_record \<Rightarrow> workflow_task \<Rightarrow> contract_artifact \<Rightarrow> bool" where
  "contract_successor r task artifact \<longleftrightarrow>
     ct_previous_contract_id artifact = Some (wt_contract_id task)
     \<and> checked_add (wt_contract_version task) 1 = Some (ct_contract_version artifact)
     \<and> (case ct_semantic_diff artifact of None \<Rightarrow> False | Some diff \<Rightarrow> \<not> semantic_diff_is_empty diff)
     \<and> ct_workflow_key artifact = wr_workflow_key r"

definition add_contract_generation ::
  "workflow_env \<Rightarrow> uuid \<Rightarrow> workflow_db \<Rightarrow> uuid \<Rightarrow> u64 \<Rightarrow> contract_artifact \<Rightarrow> instant \<Rightarrow>
   workflow_store_error + workflow_db \<times> workflow_commit" where
  "add_contract_generation env fresh_project db workflow_id expected_version artifact timestamp =
     (case load_existing_workflow db workflow_id of Inl e \<Rightarrow> Inl e | Inr stored \<Rightarrow>
      let r = sg_record stored in
      if wr_version r \<noteq> expected_version then Inl (WsCode ''store_workflow_version_conflict'')
      else if phase_is_terminal (wr_phase r) then Inl (WsCode ''workflow_invalid_transition'')
      else (case spec_identifier_new (ct_task_key artifact) of Inl e \<Rightarrow> Inl (WsCode (identifier_error_code e))
       | Inr task_key \<Rightarrow>
     (case workflow_task_of r task_key of None \<Rightarrow> Inl (WsCode (workflow_record_error_code RecUnknownTask))
      | Some task \<Rightarrow>
      if \<not> contract_successor r task artifact then Inl (WsCode ''store_workflow_invalid_generation'')
      else (case checked_add (wr_version r) 1 of None \<Rightarrow> Inl (WsCode ''workflow_record_invalid'') | Some version \<Rightarrow>
     (let following = r\<lparr>wr_tasks := update_first (\<lambda>t. wt_task_key t = task_key)
              (\<lambda>t. t\<lparr>wt_contract_id := ct_contract_id artifact, wt_contract_version := ct_contract_version artifact,
                     wt_progress := ProgPending, wt_accepted_candidate := None, wt_failure_code := None\<rparr>) (wr_tasks r),
            wr_version := version, wr_updated_at_ms := max (millis timestamp) (wr_updated_at_ms r)\<rparr>
      in (case append_event env fresh_project db ''workflow_contract_generation''
             (''workflow_generation:'' @ uuid_key env workflow_id @ '':'' @ to_hex (ct_contract_id artifact))
             (JObject [(''workflow_id'', json_uuid env workflow_id), (''task_key'', JString task_key),
                (''previous_contract_id'', json_digest (wt_contract_id task)),
                (''contract_id'', json_digest (ct_contract_id artifact)),
                (''contract_version'', json_word (ct_contract_version artifact)), (''version'', json_word version)])
             timestamp of
        Inl e \<Rightarrow> Inl e | Inr (db1, event, sequence) \<Rightarrow>
     (case insert_contract_if_absent db1 artifact of Inl e \<Rightarrow> Inl e | Inr db2 \<Rightarrow>
     (case update_workflow db2 following (wr_version r) sequence of Inl e \<Rightarrow> Inl e
      | Inr db3 \<Rightarrow> Inr (db3, \<lparr>wc_record = following, wc_event = Some event, wc_sequence = sequence\<rparr>)))))))))"

section \<open>Execution authorities\<close>

definition load_contract_authority ::
  "workflow_db \<Rightarrow> digest \<Rightarrow> workflow_store_error + execution_authority option" where
  "load_contract_authority db contract_id =
     (case find (\<lambda>row. hw_contract_id row = contract_id) (wd_authorities db) of None \<Rightarrow> Inr None
      | Some row \<Rightarrow>
          if ea_schema_version (hw_record row) \<noteq> EXECUTION_AUTHORITY_SCHEMA_VERSION
             \<or> ea_task_spec_digest (hw_record row) \<noteq> hw_task_spec_digest row
          then Inl mismatch else Inr (Some (hw_record row)))"

definition bind_workflow_contract_authority ::
  "workflow_env \<Rightarrow> uuid \<Rightarrow> workflow_db \<Rightarrow> digest \<Rightarrow> task_spec \<Rightarrow> instant \<Rightarrow> workflow_store_error + workflow_db" where
  "bind_workflow_contract_authority env fresh_project db contract_id spec timestamp =
     (case validate_structure spec of Inl _ \<Rightarrow> Inl (WsCode ''store_workflow_authority_invalid'') | Inr _ \<Rightarrow>
     (case authority_from_spec (we_spec_digest env) spec of Inl _ \<Rightarrow> Inl (WsCode ''store_workflow_authority_invalid'')
      | Inr authority \<Rightarrow>
     (case load_contract db contract_id of Inl e \<Rightarrow> Inl e
      | Inr None \<Rightarrow> Inl (WsCode ''store_workflow_stale_contract'')
      | Inr (Some contract) \<Rightarrow>
      if ct_task_spec_digest contract \<noteq> ea_task_spec_digest authority \<or> ct_task_key contract \<noteq> ts_task_key spec
         \<or> ct_workflow_key contract \<noteq> ts_workflow_key spec \<or> ct_contract_version contract \<noteq> ts_contract_version spec
         \<or> ct_base_commit contract \<noteq> ts_base_commit spec
      then Inl (WsCode ''store_workflow_authority_mismatch'')
      else (case load_contract_authority db contract_id of Inl e \<Rightarrow> Inl e
       | Inr (Some existing) \<Rightarrow>
           if existing \<noteq> authority then Inl (WsCode ''store_workflow_authority_conflict'') else Inr db
       | Inr None \<Rightarrow>
     (case append_event env fresh_project db ''workflow_contract_authority_bound''
             (''workflow_contract_authority:'' @ to_hex contract_id)
             (JObject [(''contract_id'', json_digest contract_id),
                (''task_spec_digest'', json_digest (ea_task_spec_digest authority)),
                (''admitted_tools'', JArray (map (\<lambda>t. JString (tool_as_str t)) (ea_admitted_tools authority)))]) timestamp of
        Inl e \<Rightarrow> Inl e
      | Inr (db1, _) \<Rightarrow>
          Inr (db1\<lparr>wd_authorities := wd_authorities db1 @ [\<lparr>hw_contract_id = contract_id,
                 hw_task_spec_digest = ea_task_spec_digest authority, hw_record = authority\<rparr>]\<rparr>))))))"

section \<open>Slots and leases\<close>

fun capability_str :: "slot_capability \<Rightarrow> string" where
  "capability_str StructuredTurn = ''structured_turn''"
| "capability_str WritableWorktree = ''writable_worktree''"
| "capability_str CapNativeTui = ''native_tui''"
| "capability_str ContextExport = ''context_export''"
| "capability_str Cancellation = ''cancellation''"
| "capability_str NativeResume = ''native_resume''"
| "capability_str VerbatimPrompt = ''verbatim_prompt''"
| "capability_str ModelRouting = ''model_routing''"

fun agent_wire_name :: "agent_kind \<Rightarrow> string" where
  "agent_wire_name Claude = ''claude''"
| "agent_wire_name Codex = ''codex''"
| "agent_wire_name OpenCode = ''open_code''"
| "agent_wire_name Copilot = ''copilot''"
| "agent_wire_name Grok = ''grok''"
| "agent_wire_name Qwen = ''qwen''"
| "agent_wire_name Iflow = ''iflow''"
| "agent_wire_name Trae = ''trae''"
| "agent_wire_name Codebuddy = ''codebuddy''"
| "agent_wire_name Kimi = ''kimi''"
| "agent_wire_name Dsh = ''dsh''"

fun interface_mode_str :: "interface_mode \<Rightarrow> string" where
  "interface_mode_str ModeStructured = ''structured''"
| "interface_mode_str ModeNativeTui = ''native_tui''"

fun slot_health_str :: "slot_health \<Rightarrow> string" where
  "slot_health_str HealthIdle = ''idle''"
| "slot_health_str HealthBusy = ''busy''"
| "slot_health_str WaitingForInput = ''waiting_for_input''"
| "slot_health_str WaitingForPermission = ''waiting_for_permission''"
| "slot_health_str Unresponsive = ''unresponsive''"
| "slot_health_str Exited = ''exited''"
| "slot_health_str QuotaUnknown = ''quota_unknown''"
| "slot_health_str Cooldown = ''cooldown''"

definition upsert_workflow_slot ::
  "workflow_env \<Rightarrow> uuid \<Rightarrow> workflow_db \<Rightarrow> slot_facts \<Rightarrow> instant \<Rightarrow>
   workflow_store_error + workflow_db \<times> event_envelope option" where
  "upsert_workflow_slot env fresh_project db slot timestamp =
     (if sf_leased_generation slot \<noteq> None then Inl (WsCode ''store_workflow_slot_lease_not_settable'')
      else (case load_slot db (sf_slot_id slot) of Inl e \<Rightarrow> Inl e | Inr existing \<Rightarrow>
      if map_option fst existing = Some slot then Inr (db, None)
      else (case we_slot_json env slot of None \<Rightarrow> Inl WsJson | Some text \<Rightarrow>
     (let digest = en_sha256 (we_dispatch env) text in
     (case append_event env fresh_project db ''workflow_slot_observed''
             (''workflow_slot:'' @ sf_slot_id slot @ '':'' @ to_hex digest)
             (JObject [(''slot_id'', JString (sf_slot_id slot)), (''harness'', JString (agent_wire_name (sf_harness slot))),
                (''interface_mode'', JString (interface_mode_str (sf_interface_mode slot))),
                (''health'', JString (slot_health_str (sf_health slot))),
                (''capabilities'', JArray (map (\<lambda>c. JString (capability_str (fst c))) (sf_capabilities slot))),
                (''record_sha256'', json_digest digest)]) timestamp of
        Inl e \<Rightarrow> Inl e
      | Inr (db1, event, sequence) \<Rightarrow> Inr (upsert_slot db1 slot sequence, Some event))))))"

text \<open>\<open>workflow_slots\<close>: the slots in the order of their identifiers, each with the generation that holds it.\<close>

definition all_slots :: "workflow_db \<Rightarrow> workflow_store_error + slot_facts list" where
  "all_slots db =
     (let rows = sort_key sw_slot_id (wd_slots db) in
      if list_all (\<lambda>row. sf_slot_id (sw_record row) = sw_slot_id row) rows then Inr (map sw_record rows) else Inl mismatch)"

definition workflow_slots :: "workflow_db \<Rightarrow> workflow_store_error + slot_facts list" where
  "workflow_slots db =
     (case holding_leases db of Inl e \<Rightarrow> Inl e | Inr holding \<Rightarrow>
     (case all_slots db of Inl e \<Rightarrow> Inl e | Inr slots \<Rightarrow>
      Inr (map (\<lambda>slot. slot\<lparr>sf_leased_generation :=
        map_option lr_generation (find (\<lambda>lease. lr_slot_id lease = sf_slot_id slot) holding)\<rparr>) slots)))"

record lease_request =
  lq_lease_id :: uuid
  lq_workflow_id :: uuid
  lq_task_key :: spec_identifier
  lq_slot_id :: spec_identifier
  lq_worktree_key :: digest
  lq_heartbeat_deadline_ms :: u64
  lq_timestamp :: instant

record lease_commit =
  lc_lease :: lease_record
  lc_event :: "event_envelope option"

definition WORKFLOW_STORE_RECORD_SCHEMA_VERSION :: u32 where "WORKFLOW_STORE_RECORD_SCHEMA_VERSION = 1"
definition WORKFLOW_ATTEMPT_SCHEMA_VERSION :: u32 where "WORKFLOW_ATTEMPT_SCHEMA_VERSION = 2"

definition new_lease :: "lease_request \<Rightarrow> u64 \<Rightarrow> lease_record" where
  "new_lease request generation =
     \<lparr>lr_schema_version = WORKFLOW_STORE_RECORD_SCHEMA_VERSION, lr_lease_id = lq_lease_id request,
      lr_workflow_id = lq_workflow_id request, lr_task_key = lq_task_key request, lr_slot_id = lq_slot_id request,
      lr_worktree_key = lq_worktree_key request, lr_generation = generation, lr_state = LeaseActive,
      lr_heartbeat_deadline_ms = lq_heartbeat_deadline_ms request, lr_end_reason = None,
      lr_created_at_ms = millis (lq_timestamp request), lr_updated_at_ms = millis (lq_timestamp request)\<rparr>"

definition lease_matches :: "lease_record \<Rightarrow> lease_request \<Rightarrow> bool" where
  "lease_matches existing request \<longleftrightarrow>
     lr_workflow_id existing = lq_workflow_id request \<and> lr_task_key existing = lq_task_key request
     \<and> lr_slot_id existing = lq_slot_id request \<and> lr_worktree_key existing = lq_worktree_key request"

definition grant_lease ::
  "workflow_env \<Rightarrow> uuid \<Rightarrow> workflow_db \<Rightarrow> lease_request \<Rightarrow> u64 \<Rightarrow> workflow_store_error + workflow_db \<times> lease_commit" where
  "grant_lease env fresh_project db request last_generation =
     (case checked_add last_generation 1 of None \<Rightarrow> Inl (WsCode ''store_workflow_version_conflict'')
      | Some generation \<Rightarrow>
     (let lease = new_lease request generation in
     (case append_event env fresh_project db ''workflow_lease_acquired''
             (''workflow_lease:'' @ uuid_key env (lq_lease_id request) @ '':acquired'')
             (JObject [(''lease_id'', json_uuid env (lq_lease_id request)),
                (''workflow_id'', json_uuid env (lq_workflow_id request)), (''task_key'', JString (lq_task_key request)),
                (''slot_id'', JString (lq_slot_id request)), (''generation'', json_word generation),
                (''worktree_key'', json_digest (lq_worktree_key request))]) (lq_timestamp request) of
        Inl e \<Rightarrow> Inl e | Inr (db1, event, sequence) \<Rightarrow>
     (case bump_slot_generation db1 (lq_slot_id request) last_generation generation of Inl e \<Rightarrow> Inl e | Inr db2 \<Rightarrow>
     (case insert_lease db2 lease sequence of Inl e \<Rightarrow> Inl e
      | Inr db3 \<Rightarrow> Inr (db3, \<lparr>lc_lease = lease, lc_event = Some event\<rparr>))))))"

definition acquire_workflow_lease ::
  "workflow_env \<Rightarrow> uuid \<Rightarrow> workflow_db \<Rightarrow> lease_request \<Rightarrow> workflow_store_error + workflow_db \<times> lease_commit" where
  "acquire_workflow_lease env fresh_project db request =
     (case load_lease db (lq_lease_id request) of Inl e \<Rightarrow> Inl e
      | Inr (Some existing) \<Rightarrow>
          if \<not> lease_matches existing request then Inl (WsCode ''store_workflow_lease_conflict'')
          else Inr (db, \<lparr>lc_lease = existing, lc_event = None\<rparr>)
      | Inr None \<Rightarrow>
     (case load_existing_workflow db (lq_workflow_id request) of Inl e \<Rightarrow> Inl e | Inr workflow \<Rightarrow>
      if \<not> admits_work (wr_phase (sg_record workflow)) then Inl (WsCode ''store_workflow_not_running'')
      else (case workflow_task_of (sg_record workflow) (lq_task_key request) of
              None \<Rightarrow> Inl (WsCode ''workflow_unknown_task'') | Some task \<Rightarrow>
      if wt_progress task = ProgAccepted then Inl (WsCode ''store_workflow_task_settled'')
      else (case load_slot db (lq_slot_id request) of Inl e \<Rightarrow> Inl e
       | Inr None \<Rightarrow> Inl (WsCode ''store_workflow_unknown_slot'')
       | Inr (Some (_, last_generation)) \<Rightarrow>
     (case holder db (\<lambda>row. lw_slot_id row = lq_slot_id request) of Inl e \<Rightarrow> Inl e
      | Inr (Some _) \<Rightarrow> Inl (WsCode ''store_workflow_slot_busy'')
      | Inr None \<Rightarrow>
     (case holder db (\<lambda>row. lw_worktree_key row = lq_worktree_key request) of Inl e \<Rightarrow> Inl e
      | Inr (Some _) \<Rightarrow> Inl (WsCode ''store_workflow_worktree_reserved'')
      | Inr None \<Rightarrow> grant_lease env fresh_project db request last_generation))))))"

text \<open>Whether every attempt under the lease's generation has a terminal dispatch, read from the tables.\<close>

fun attempts_settled :: "workflow_db \<Rightarrow> attempt_record list \<Rightarrow> workflow_store_error + bool" where
  "attempts_settled db [] = Inr True"
| "attempts_settled db (a # as) =
     (case attempt_phase db (at_request_id a) of None \<Rightarrow> Inl mismatch
      | Some phase \<Rightarrow>
     (case attempts_settled db as of Inl e \<Rightarrow> Inl e | Inr settled \<Rightarrow> Inr (dispatch_is_terminal phase \<and> settled)))"

definition current_attempts :: "workflow_db \<Rightarrow> lease_record \<Rightarrow> workflow_store_error + attempt_record list" where
  "current_attempts db lease =
     (case attempts_for_lease db (lr_lease_id lease) of Inl e \<Rightarrow> Inl e
      | Inr attempts \<Rightarrow> Inr (filter (\<lambda>a. at_lease_generation a = lr_generation lease) attempts))"

definition checked_lease_event :: "bool \<Rightarrow> lease_event \<Rightarrow> workflow_store_error + lease_event" where
  "checked_lease_event settled event =
     (case event of
        Revoke generation _ \<Rightarrow> Inr (Revoke generation settled)
      | AttemptSettled _ \<Rightarrow> if \<not> settled then Inl (WsCode ''workflow_lease_attempt_unsettled'') else Inr event
      | Reconciled _ process_gone \<Rightarrow>
          if process_gone \<and> \<not> settled then Inl (WsCode ''workflow_lease_attempt_unsettled'') else Inr event
      | _ \<Rightarrow> Inr event)"

definition changed_lease :: "lease_record \<Rightarrow> lease_view \<Rightarrow> string \<Rightarrow> instant \<Rightarrow> lease_record" where
  "changed_lease lease view reason_code timestamp =
     lease\<lparr>lr_state := lv_state view, lr_heartbeat_deadline_ms := lv_heartbeat_deadline_ms view,
       lr_updated_at_ms := max (millis timestamp) (lr_updated_at_ms lease),
       lr_end_reason := (if \<not> holds_reservation (lv_state view) then Some reason_code else lr_end_reason lease)\<rparr>"

definition change_workflow_lease ::
  "workflow_env \<Rightarrow> uuid \<Rightarrow> workflow_db \<Rightarrow> uuid \<Rightarrow> lease_event \<Rightarrow> u64 \<Rightarrow> string \<Rightarrow> instant \<Rightarrow>
   workflow_store_error + workflow_db \<times> lease_commit" where
  "change_workflow_lease env fresh_project db lease_id event heartbeat_ms reason_code timestamp =
     (case load_lease db lease_id of Inl e \<Rightarrow> Inl e
      | Inr None \<Rightarrow> Inl (WsCode ''store_workflow_unknown_lease'')
      | Inr (Some lease) \<Rightarrow>
     (case current_attempts db lease of Inl e \<Rightarrow> Inl e | Inr attempts \<Rightarrow>
     (case attempts_settled db attempts of Inl e \<Rightarrow> Inl e | Inr settled \<Rightarrow>
     (case checked_lease_event settled event of Inl e \<Rightarrow> Inl e | Inr checked \<Rightarrow>
     (case lease_apply (lease_record_view lease) checked heartbeat_ms of
        Inl e \<Rightarrow> Inl (WsCode (lease_error_code e)) | Inr view \<Rightarrow>
      if view = lease_record_view lease then Inr (db, \<lparr>lc_lease = lease, lc_event = None\<rparr>)
      else (let following = changed_lease lease view reason_code timestamp in
     (case append_event env fresh_project db ''workflow_lease_changed''
             (''workflow_lease:'' @ uuid_key env lease_id @ '':'' @ lease_state_as_str (lr_state following) @ '':''
               @ decimal (unat (lr_heartbeat_deadline_ms following)) @ '':'' @ reason_code)
             (JObject [(''lease_id'', json_uuid env lease_id), (''workflow_id'', json_uuid env (lr_workflow_id lease)),
                (''generation'', json_word (lr_generation lease)),
                (''from_state'', JString (lease_state_as_str (lr_state lease))),
                (''state'', JString (lease_state_as_str (lr_state following))), (''reason_code'', JString reason_code)])
             timestamp of
        Inl e \<Rightarrow> Inl e | Inr (db1, envelope, sequence) \<Rightarrow>
     (case update_lease db1 following (lr_state lease) sequence of Inl e \<Rightarrow> Inl e
      | Inr db2 \<Rightarrow> Inr (db2, \<lparr>lc_lease = following, lc_event = Some envelope\<rparr>)))))))))"

section \<open>Attempts\<close>

record attempt_admission =
  aa_workflow_id :: uuid
  aa_expected_workflow_version :: u64
  aa_lease_id :: uuid
  aa_lease_generation :: u64
  aa_task_key :: spec_identifier
  aa_contract_id :: digest
  aa_purpose :: attempt_purpose
  aa_session_id :: uuid
  aa_execution :: execution_binding
  aa_dispatch :: dispatch_admission

record attempt_commit =
  atc_attempt :: attempt_record
  atc_dispatch :: dispatch_commit
  atc_workflow :: workflow_record
  atc_duplicate :: bool

definition CLAUDE_WRITABLE_PROFILE :: string where "CLAUDE_WRITABLE_PROFILE = ''claude_stream_json_writable_v1''"

definition writable_profile_id :: "native_protocol \<Rightarrow> dispatch_error + string" where
  "writable_profile_id protocol =
     (if protocol = ClaudeStreamJson then Inr CLAUDE_WRITABLE_PROFILE else Inl DeExecutionDisabled)"

definition expected_profile :: "evidence_class \<Rightarrow> agent_kind \<Rightarrow> native_protocol \<Rightarrow> string option" where
  "expected_profile evidence harness protocol =
     (case evidence of
        Fixture \<Rightarrow>
          if harness = Codex \<and> protocol = CodexExec then Some ''codex_fixture_writable_v1''
          else if harness = Claude \<and> protocol = ClaudeStreamJson then Some ''claude_fixture_writable_v1''
          else None
      | Live \<Rightarrow> (case writable_profile_id protocol of Inl _ \<Rightarrow> None | Inr profile \<Rightarrow> Some profile))"

definition launch_grant_mismatch ::
  "attempt_admission \<Rightarrow> workflow_record \<Rightarrow> contract_artifact \<Rightarrow> execution_authority \<Rightarrow> bool" where
  "launch_grant_mismatch admission r contract authority \<longleftrightarrow>
     (let execution = aa_execution admission; dispatch = aa_dispatch admission; route = eb_effective_route execution;
          read_only = (aa_purpose admission = PuAnswer \<or> aa_purpose admission = PuReview)
      in eb_task_spec_digest execution \<noteq> ea_task_spec_digest authority
         \<or> ea_task_spec_digest authority \<noteq> ct_task_spec_digest contract
         \<or> eb_effective_tools execution \<noteq> effective_tools authority read_only
         \<or> eb_route_config_digest execution \<noteq> da_config_sha256 dispatch
         \<or> eb_evidence_class execution \<noteq> wr_evidence_class r
         \<or> ei_config_digest route \<noteq> da_config_sha256 dispatch
         \<or> ei_harness route \<noteq> da_harness dispatch
         \<or> ei_protocol route \<noteq> da_protocol dispatch
         \<or> ei_profile route \<noteq> eb_harness_profile execution
         \<or> eb_harness_profile execution = [])"

definition attempt_matches :: "attempt_record \<Rightarrow> attempt_admission \<Rightarrow> bool" where
  "attempt_matches existing admission \<longleftrightarrow>
     at_workflow_id existing = aa_workflow_id admission \<and> at_lease_id existing = aa_lease_id admission
     \<and> at_lease_generation existing = aa_lease_generation admission \<and> at_task_key existing = aa_task_key admission
     \<and> at_contract_id existing = aa_contract_id admission \<and> at_purpose existing = aa_purpose admission
     \<and> at_session_id existing = aa_session_id admission \<and> at_execution existing = Some (aa_execution admission)"

text \<open>The lease must be active under the claimed generation, for this task and this working directory.\<close>

definition check_attempt_lease :: "workflow_db \<Rightarrow> attempt_admission \<Rightarrow> workflow_store_error + unit" where
  "check_attempt_lease db admission =
     (case load_lease db (aa_lease_id admission) of Inl e \<Rightarrow> Inl e
      | Inr None \<Rightarrow> Inl (WsCode ''store_workflow_unknown_lease'')
      | Inr (Some lease) \<Rightarrow>
          if lr_state lease \<noteq> LeaseActive then Inl (WsCode ''workflow_lease_not_active'')
          else if lr_generation lease \<noteq> aa_lease_generation admission then Inl (WsCode ''workflow_lease_stale_generation'')
          else if lr_workflow_id lease \<noteq> aa_workflow_id admission \<or> lr_task_key lease \<noteq> aa_task_key admission
                  \<or> lr_worktree_key lease \<noteq> da_resource_key (aa_dispatch admission)
          then Inl (WsCode ''store_workflow_lease_mismatch'')
          else Inr ())"

text \<open>The turn charged to the task, and its progress.\<close>

definition start_progress :: "workflow_mode \<Rightarrow> workflow_task \<Rightarrow> workflow_task" where
  "start_progress mode task =
     (if mode = Compare \<and> wt_progress task = ProgCandidateCollected then task
      else task\<lparr>wt_progress := ProgRunning, wt_failure_code := None\<rparr>)"

definition charge_attempt :: "workflow_record \<Rightarrow> attempt_admission \<Rightarrow> workflow_store_error + workflow_record" where
  "charge_attempt r admission =
     (if aa_purpose admission = PuReview then Inr r
      else (case charge_turn r (aa_task_key admission) (aa_purpose admission = PuRepair) of
              Inl e \<Rightarrow> Inl (WsCode (workflow_record_error_code e))
            | Inr paid \<Rightarrow>
                if aa_purpose admission = PuAnswer then Inr paid
                else Inr (paid\<lparr>wr_tasks := update_first (\<lambda>t. wt_task_key t = aa_task_key admission)
                       (start_progress (wr_mode paid)) (wr_tasks paid)\<rparr>)))"

definition new_attempt :: "attempt_admission \<Rightarrow> attempt_record" where
  "new_attempt admission =
     (let dispatch = aa_dispatch admission in
      \<lparr>at_schema_version = WORKFLOW_ATTEMPT_SCHEMA_VERSION, at_request_id = da_request_id dispatch,
       at_workflow_id = aa_workflow_id admission, at_lease_id = aa_lease_id admission,
       at_lease_generation = aa_lease_generation admission, at_task_key = aa_task_key admission,
       at_contract_id = aa_contract_id admission, at_purpose = aa_purpose admission,
       at_session_id = aa_session_id admission, at_rendered_prompt_sha256 = pd_sha256 (da_prompt dispatch),
       at_execution = Some (aa_execution admission), at_created_at_ms = millis (da_timestamp dispatch)\<rparr>)"

definition attempt_payload :: "workflow_env \<Rightarrow> attempt_record \<Rightarrow> u64 \<Rightarrow> int json_value" where
  "attempt_payload env a version =
     JObject [(''workflow_id'', json_uuid env (at_workflow_id a)), (''request_id'', json_uuid env (at_request_id a)),
       (''lease_id'', json_uuid env (at_lease_id a)), (''lease_generation'', json_word (at_lease_generation a)),
       (''task_key'', JString (at_task_key a)), (''contract_id'', json_digest (at_contract_id a)),
       (''purpose'', JString (purpose_as_str (at_purpose a))), (''session_id'', json_uuid env (at_session_id a)),
       (''rendered_prompt_sha256'', json_digest (at_rendered_prompt_sha256 a)), (''version'', json_word version)]"

text \<open>The freshly drawn identifiers of an admission: project, task and run.\<close>

type_synonym fresh_ids = "uuid \<times> uuid \<times> uuid"

definition admit_dispatch_in ::
  "workflow_env \<Rightarrow> fresh_ids \<Rightarrow> workflow_db \<Rightarrow> dispatch_admission \<Rightarrow>
   workflow_store_error + workflow_db \<times> dispatch_commit" where
  "admit_dispatch_in env fresh db admission =
     (case fresh of (project, task, run) \<Rightarrow>
     (case admit_dispatch (we_dispatch env) project task run (wd_dispatch db) admission of
        Inl e \<Rightarrow> Inl (WsStore e) | Inr (d, commit) \<Rightarrow> Inr (db\<lparr>wd_dispatch := d\<rparr>, commit)))"

definition admit_new_attempt ::
  "workflow_env \<Rightarrow> (workflow_db \<Rightarrow> attempt_admission \<Rightarrow> workflow_store_error + unit) \<Rightarrow> fresh_ids \<Rightarrow> workflow_db \<Rightarrow>
   workflow_record \<Rightarrow> attempt_admission \<Rightarrow> workflow_store_error + workflow_db \<times> attempt_commit" where
  "admit_new_attempt env check_dispatch fresh db r admission =
     (let dispatch = aa_dispatch admission in
      if wr_version r \<noteq> aa_expected_workflow_version admission then Inl (WsCode ''store_workflow_version_conflict'')
      else (case check_dispatch db admission of Inl e \<Rightarrow> Inl e | Inr _ \<Rightarrow>
      if \<not> admits_work (wr_phase r) then Inl (WsCode ''store_workflow_not_running'')
      else (case check_attempt_lease db admission of Inl e \<Rightarrow> Inl e | Inr _ \<Rightarrow>
     (case workflow_task_of r (aa_task_key admission) of None \<Rightarrow> Inl (WsCode ''workflow_unknown_task'') | Some task \<Rightarrow>
      if wt_contract_id task \<noteq> aa_contract_id admission then Inl (WsCode ''store_workflow_stale_contract'')
      else (case charge_attempt r admission of Inl e \<Rightarrow> Inl e | Inr paid \<Rightarrow>
     (case checked_add (wr_version paid) 1 of None \<Rightarrow> Inl (WsCode ''workflow_record_invalid'') | Some version \<Rightarrow>
     (let following = paid\<lparr>wr_version := version,
            wr_updated_at_ms := max (millis (da_timestamp dispatch)) (wr_updated_at_ms paid)\<rparr> in
     (case admit_dispatch_in env fresh db dispatch of Inl e \<Rightarrow> Inl e | Inr (db1, commit) \<Rightarrow>
      if hc_event commit = None then Inl (WsCode ''store_workflow_attempt_conflict'')
      else (let attempt = new_attempt admission in
     (case append_event env (fst fresh) db1 ''workflow_attempt_admitted''
             (''workflow_attempt:'' @ uuid_key env (at_request_id attempt)) (attempt_payload env attempt version)
             (da_timestamp dispatch) of Inl e \<Rightarrow> Inl e | Inr (db2, _, sequence) \<Rightarrow>
     (case insert_attempt db2 attempt sequence of Inl e \<Rightarrow> Inl e | Inr db3 \<Rightarrow>
     (case update_workflow db3 following (wr_version r) sequence of Inl e \<Rightarrow> Inl e | Inr db4 \<Rightarrow>
      Inr (db4, \<lparr>atc_attempt = attempt, atc_dispatch = commit, atc_workflow = following, atc_duplicate = False\<rparr>)))))))))))))"

definition admit_workflow_attempt ::
  "workflow_env \<Rightarrow> (workflow_db \<Rightarrow> attempt_admission \<Rightarrow> workflow_store_error + unit) \<Rightarrow> fresh_ids \<Rightarrow> workflow_db \<Rightarrow>
   attempt_admission \<Rightarrow> workflow_store_error + workflow_db \<times> attempt_commit" where
  "admit_workflow_attempt env check_dispatch fresh db admission =
     (let dispatch = aa_dispatch admission; execution = aa_execution admission in
     (case load_existing_workflow db (aa_workflow_id admission) of Inl e \<Rightarrow> Inl e | Inr stored \<Rightarrow>
     (case load_contract db (aa_contract_id admission) of Inl e \<Rightarrow> Inl e
      | Inr None \<Rightarrow> Inl (WsCode ''store_workflow_stale_contract'')
      | Inr (Some contract) \<Rightarrow>
      if da_base_commit dispatch \<noteq> wr_base_commit (sg_record stored)
         \<or> ct_base_commit contract \<noteq> wr_base_commit (sg_record stored)
      then Inl (WsCode ''store_workflow_base_mismatch'')
      else (case load_attempt db (da_request_id dispatch) of Inl e \<Rightarrow> Inl e | Inr previous \<Rightarrow>
      if previous = None \<and> (case workflow_task_of (sg_record stored) (aa_task_key admission) of None \<Rightarrow> False
           | Some task \<Rightarrow> wt_contract_id task \<noteq> aa_contract_id admission)
      then Inl (WsCode ''store_workflow_stale_contract'')
      else (case load_contract_authority db (aa_contract_id admission) of Inl e \<Rightarrow> Inl e
       | Inr None \<Rightarrow> Inl (WsCode ''store_workflow_authority_legacy_unverified'')
       | Inr (Some authority) \<Rightarrow>
      if launch_grant_mismatch admission (sg_record stored) contract authority
      then Inl (WsCode ''store_workflow_launch_grant_mismatch'')
      else if expected_profile (eb_evidence_class execution) (da_harness dispatch) (da_protocol dispatch)
              \<noteq> Some (eb_harness_profile execution)
      then Inl (WsCode ''store_workflow_launch_profile_mismatch'')
      else (case previous of
          Some existing \<Rightarrow>
            if \<not> attempt_matches existing admission then Inl (WsCode ''store_workflow_attempt_conflict'')
            else (case admit_dispatch_in env fresh db dispatch of Inl e \<Rightarrow> Inl e
             | Inr (db1, commit) \<Rightarrow>
                 Inr (db1, \<lparr>atc_attempt = existing, atc_dispatch = commit, atc_workflow = sg_record stored,
                      atc_duplicate = True\<rparr>))
        | None \<Rightarrow> admit_new_attempt env check_dispatch fresh db (sg_record stored) admission))))))"

section \<open>Reconciliation at start-up\<close>

record workflow_recovery =
  wy_quarantined_leases :: "uuid list"
  wy_released_leases :: "uuid list"

text \<open>A missing dispatch row reads as the empty phase, which is not terminal.\<close>

definition attempt_unsettled :: "workflow_db \<Rightarrow> attempt_record \<Rightarrow> bool" where
  "attempt_unsettled db a =
     (case attempt_phase db (at_request_id a) of None \<Rightarrow> True | Some phase \<Rightarrow> \<not> dispatch_is_terminal phase)"

text \<open>Each lease is changed in a transaction of its own; an error stops the loop and keeps the earlier changes.\<close>

fun recover_leases ::
  "workflow_env \<Rightarrow> uuid \<Rightarrow> instant \<Rightarrow> lease_record list \<Rightarrow> workflow_db \<Rightarrow> workflow_recovery \<Rightarrow>
   workflow_db \<times> (workflow_store_error + workflow_recovery)" where
  "recover_leases env fresh_project timestamp [] db recovery = (db, Inr recovery)"
| "recover_leases env fresh_project timestamp (lease # leases) db recovery =
     (case current_attempts db lease of Inl e \<Rightarrow> (db, Inl e)
      | Inr current \<Rightarrow>
          if list_ex (attempt_unsettled db) current
          then (case change_workflow_lease env fresh_project db (lr_lease_id lease)
                  (HeartbeatMissed (saturating_add (lr_heartbeat_deadline_ms lease) 1)) 0 ''daemon_restart'' timestamp of
                  Inl e \<Rightarrow> (db, Inl e)
                | Inr (db1, _) \<Rightarrow> recover_leases env fresh_project timestamp leases db1
                    (recovery\<lparr>wy_quarantined_leases := wy_quarantined_leases recovery @ [lr_lease_id lease]\<rparr>))
          else if current = []
          then (case change_workflow_lease env fresh_project db (lr_lease_id lease)
                  (AttemptSettled (lr_generation lease)) 0 ''recovered_without_attempt'' timestamp of
                  Inl e \<Rightarrow> (db, Inl e)
                | Inr (db1, _) \<Rightarrow> recover_leases env fresh_project timestamp leases db1
                    (recovery\<lparr>wy_released_leases := wy_released_leases recovery @ [lr_lease_id lease]\<rparr>))
          else recover_leases env fresh_project timestamp leases db recovery)"

definition recover_workflows ::
  "workflow_env \<Rightarrow> uuid \<Rightarrow> workflow_db \<Rightarrow> instant \<Rightarrow> workflow_db \<times> (workflow_store_error + workflow_recovery)" where
  "recover_workflows env fresh_project db timestamp =
     (case holding_leases db of Inl e \<Rightarrow> (db, Inl e)
      | Inr holding \<Rightarrow> recover_leases env fresh_project timestamp
          (filter (\<lambda>lease. lr_state lease = LeaseActive) holding) db
          \<lparr>wy_quarantined_leases = [], wy_released_leases = []\<rparr>)"

end
