(* ===== verification/Workflow_Histories.thy ===== *)
theory Workflow_Histories
  imports Workflow_Store Dispatch_Frames
begin

text \<open>
  Histories of the workflow writer. The commands of \<open>Workflow_Store\<close> and \<open>Model_Calls\<close> run in any order,
  interleaved with every command of the dispatch writer on the same database. Most of them are quiet: they leave
  slots, leases, attempts and dispatch rows alone.
\<close>

section \<open>Commands\<close>

datatype workflow_op =
    WoDispatch dispatch_op
  | WoPrepare uuid workflow_record "contract_artifact list" instant
  | WoTransition uuid uuid u64 workflow_phase "string option" instant
  | WoGeneration uuid uuid u64 contract_artifact instant
  | WoAuthority uuid digest task_spec instant
  | WoSlot uuid slot_facts instant
  | WoAcquire uuid lease_request
  | WoChange uuid uuid lease_event u64 string instant
  | WoAttempt fresh_ids attempt_admission
  | WoReconcile uuid instant
  | WoReserve uuid instant model_call_admission
  | WoSubmit uuid instant uuid
  | WoFinish uuid instant uuid "model_call_receipt option" "string option"
  | WoRecoverCalls uuid instant

definition committed :: "'e + workflow_db \<times> 'a \<Rightarrow> 'e + workflow_db" where
  "committed r = (case r of Inl e \<Rightarrow> Inl e | Inr (db, _) \<Rightarrow> Inr db)"

definition workflow_store_step ::
  "workflow_env \<Rightarrow> (workflow_db \<Rightarrow> attempt_admission \<Rightarrow> workflow_store_error + unit) \<Rightarrow> workflow_db \<Rightarrow> workflow_op \<Rightarrow>
   workflow_store_error + workflow_db" where
  "workflow_store_step env check_dispatch db op =
     (case op of
        WoDispatch d \<Rightarrow>
          (case dispatch_step (we_dispatch env) (wd_dispatch db) d of Inl e \<Rightarrow> Inl (WsStore e)
           | Inr d1 \<Rightarrow> Inr (db\<lparr>wd_dispatch := d1\<rparr>))
      | WoPrepare fp r contracts ts \<Rightarrow> committed (prepare_workflow env fp db r contracts ts)
      | WoTransition fp w v phase reason ts \<Rightarrow> committed (transition_workflow env fp db w v phase reason ts)
      | WoGeneration fp w v artifact ts \<Rightarrow> committed (add_contract_generation env fp db w v artifact ts)
      | WoAuthority fp c spec ts \<Rightarrow> bind_workflow_contract_authority env fp db c spec ts
      | WoSlot fp slot ts \<Rightarrow> committed (upsert_workflow_slot env fp db slot ts)
      | WoAcquire fp request \<Rightarrow> committed (acquire_workflow_lease env fp db request)
      | WoChange fp lease_id event heartbeat reason ts \<Rightarrow>
          committed (change_workflow_lease env fp db lease_id event heartbeat reason ts)
      | WoAttempt fresh admission \<Rightarrow> committed (admit_workflow_attempt env check_dispatch fresh db admission)
      | WoReconcile fp ts \<Rightarrow> Inr (fst (recover_workflows env fp db ts))
      | WoReserve fp now admission \<Rightarrow> committed (reserve_model_call env fp now db admission)
      | WoSubmit fp now call_id \<Rightarrow> committed (submit_model_call env fp now db call_id)
      | WoFinish fp now call_id receipt code \<Rightarrow> committed (finish_model_call env fp now db call_id receipt code)
      | WoRecoverCalls fp now \<Rightarrow> committed (recover_model_calls env fp now db))"

definition workflow_db_init :: workflow_db where
  "workflow_db_init = \<lparr>wd_dispatch = \<lparr>db_rows = [], db_events = []\<rparr>, wd_workflows = [], wd_contracts = [],
     wd_authorities = [], wd_slots = [], wd_leases = [], wd_attempts = [], wd_owners = [], wd_calls = []\<rparr>"

lemma committed_Inr [simp]: "committed r = Inr db \<longleftrightarrow> (\<exists>a. r = Inr (db, a))"
  by (auto simp: committed_def split: sum.splits prod.splits)

section \<open>Commands that leave leases and attempts alone\<close>

text \<open>A quiet change keeps slots, leases, attempts and dispatch rows, and the dispatch table sound.\<close>

definition quiet :: "workflow_env \<Rightarrow> workflow_db \<Rightarrow> workflow_db \<Rightarrow> bool" where
  "quiet env db db' \<longleftrightarrow>
     wd_slots db' = wd_slots db \<and> wd_leases db' = wd_leases db \<and> wd_attempts db' = wd_attempts db
     \<and> db_rows (wd_dispatch db') = db_rows (wd_dispatch db)
     \<and> (store_inv (we_dispatch env) (wd_dispatch db) \<longrightarrow> store_inv (we_dispatch env) (wd_dispatch db'))"

lemma quiet_refl [simp]: "quiet env db db"
  by (simp add: quiet_def)

lemma quiet_trans: "quiet env a b \<Longrightarrow> quiet env b c \<Longrightarrow> quiet env a c"
  by (simp add: quiet_def)

lemma quiet_tables [simp]:
  "quiet env db (db'\<lparr>wd_workflows := ws\<rparr>) = quiet env db db'"
  "quiet env db (db'\<lparr>wd_contracts := cs\<rparr>) = quiet env db db'"
  "quiet env db (db'\<lparr>wd_authorities := as\<rparr>) = quiet env db db'"
  "quiet env db (db'\<lparr>wd_owners := os\<rparr>) = quiet env db db'"
  "quiet env db (db'\<lparr>wd_calls := ks\<rparr>) = quiet env db db'"
  by (simp_all add: quiet_def)

lemma other_key: "c \<noteq> CHR ''h'' \<Longrightarrow> c # cs \<noteq> idempotency_key env r u"
  by (simp add: idempotency_key_def)

lemma append_quiet:
  assumes "append_event env fp db t (c # cs) p ts = Inr (db1, e, n)" and "c \<noteq> CHR ''h''"
  shows "quiet env db db1"
proof -
  from append_event_Inr [OF assms(1)] obtain d where d: "db1 = db\<lparr>wd_dispatch := d\<rparr>"
    "insert_event (wd_dispatch db) e = Inr (d, n)" "ee_idempotency_key e = c # cs" "db_rows d = db_rows (wd_dispatch db)"
    by blast
  have "store_inv (we_dispatch env) d" if "store_inv (we_dispatch env) (wd_dispatch db)"
    using insert_other_event_inv [OF that d(2)] other_key [OF assms(2)] d(3) by simp
  then show ?thesis using d(4) by (simp add: quiet_def d(1))
qed

lemma update_workflow_table:
  "update_workflow db r v n = Inr db' \<Longrightarrow> \<exists>ws. db' = db\<lparr>wd_workflows := ws\<rparr>"
  by (auto simp: update_workflow_def Let_def split: sum.splits if_splits)

lemma insert_workflow_table:
  "insert_workflow db r f n = Inr db' \<Longrightarrow> \<exists>ws. db' = db\<lparr>wd_workflows := ws\<rparr>"
  by (auto simp: insert_workflow_def split: if_splits)

lemma insert_contract_table:
  "insert_contract_if_absent db c = Inr db' \<Longrightarrow> \<exists>cs. db' = db\<lparr>wd_contracts := cs\<rparr>"
  by (auto simp: insert_contract_if_absent_def split: sum.splits option.splits if_splits intro: exI [of _ "wd_contracts db"])

lemma insert_contracts_table:
  "insert_contracts db cs = Inr db' \<Longrightarrow> \<exists>ds. db' = db\<lparr>wd_contracts := ds\<rparr>"
proof (induction cs arbitrary: db)
  case Nil
  then show ?case by (auto intro: exI [of _ "wd_contracts db"])
next
  case (Cons c cs)
  then obtain db1 where "insert_contract_if_absent db c = Inr db1" "insert_contracts db1 cs = Inr db'"
    by (auto split: sum.splits)
  then show ?case using Cons.IH [of db1] insert_contract_table [of db c db1] by force
qed

lemma update_workflow_quiet: "update_workflow db r v n = Inr db' \<Longrightarrow> quiet env db db'"
  by (drule update_workflow_table) auto

lemma insert_workflow_quiet: "insert_workflow db r f n = Inr db' \<Longrightarrow> quiet env db db'"
  by (drule insert_workflow_table) auto

lemma insert_contract_quiet: "insert_contract_if_absent db c = Inr db' \<Longrightarrow> quiet env db db'"
  by (drule insert_contract_table) auto

lemma insert_contracts_quiet: "insert_contracts db cs = Inr db' \<Longrightarrow> quiet env db db'"
  by (drule insert_contracts_table) auto

lemma associate_quiet:
  assumes "associate_prepared_compiler env fp db a ts = Inr db'"
  shows "quiet env db db'"
proof -
  obtain os t cs p e n where "append_event env fp (db\<lparr>wd_owners := os\<rparr>) t (CHR ''w'' # cs) p ts = Inr (db', e, n)"
    using assms by (auto simp: associate_prepared_compiler_def Let_def split: if_splits sum.splits prod.splits)
  from append_quiet [OF this] show ?thesis by (simp add: quiet_def)
qed

lemma prepare_new_quiet:
  assumes "prepare_new env fp db r contracts f ts = Inr (db', c)"
  shows "quiet env db db'"
proof -
  obtain admitted assoc where "charge_compiler_for_prepare env db r = Inr (admitted, assoc)"
    using assms by (auto simp: prepare_new_def split: sum.splits)
  note rest = assms [unfolded prepare_new_def this sum.case prod.case]
  then obtain db1 e n where a: "append_event env fp db ''workflow_prepared'' (''workflow_prepared:'' @ uuid_key env (wr_workflow_id r))
      (prepared_payload env r) ts = Inr (db1, e, n)"
    by (auto split: sum.splits)
  note rest = rest [unfolded a sum.case prod.case]
  then obtain db2 where b: "insert_contracts db1 contracts = Inr db2" by (auto split: sum.splits)
  note rest = rest [unfolded b sum.case]
  then obtain db3 where d: "insert_workflow db2 admitted f n = Inr db3" by (auto split: sum.splits)
  have "quiet env db3 db'"
    using rest [unfolded d sum.case] by (auto split: sum.splits option.splits dest: associate_quiet)
  moreover have "quiet env db db1" using a by (auto dest: append_quiet)
  ultimately show ?thesis
    using insert_contracts_quiet [OF b] insert_workflow_quiet [OF d] quiet_trans by metis
qed

lemma prepare_quiet: "prepare_workflow env fp db r contracts ts = Inr (db', c) \<Longrightarrow> quiet env db db'"
  by (auto simp: prepare_workflow_def dest: prepare_new_quiet split: sum.splits option.splits if_splits)

lemma transition_quiet: "transition_workflow env fp db w v phase reason ts = Inr (db', c) \<Longrightarrow> quiet env db db'"
  by (auto simp: transition_workflow_def Let_def split: sum.splits option.splits if_splits prod.splits
      dest!: append_quiet update_workflow_quiet [of _ _ _ _ _ env] intro: quiet_trans)

lemma generation_quiet: "add_contract_generation env fp db w v artifact ts = Inr (db', c) \<Longrightarrow> quiet env db db'"
  by (auto simp: add_contract_generation_def Let_def split: sum.splits option.splits if_splits prod.splits
      dest!: append_quiet update_workflow_quiet [of _ _ _ _ _ env] insert_contract_quiet [of _ _ _ env] intro: quiet_trans)

lemma authority_quiet: "bind_workflow_contract_authority env fp db c spec ts = Inr db' \<Longrightarrow> quiet env db db'"
  by (auto simp: bind_workflow_contract_authority_def split: sum.splits option.splits if_splits prod.splits
      dest!: append_quiet)

lemma persist_quiet: "persist env fp now db r kind = Inr db' \<Longrightarrow> quiet env db db'"
  by (auto simp: persist_def call_key_def split: sum.splits prod.splits dest!: append_quiet)

lemma charge_call_quiet: "charge_workflow_call db adm ms n = Inr db' \<Longrightarrow> quiet env db db'"
  by (auto simp: charge_workflow_call_def Let_def split: option.splits sum.splits if_splits
      dest!: update_workflow_quiet [of _ _ _ _ _ env])

lemma claim_owner_quiet: "claim_owner db adm = Inr (db', n) \<Longrightarrow> quiet env db db'"
  by (auto simp: claim_owner_def split: option.splits if_splits)

lemma insert_call_quiet: "insert_call db r n = Inr db' \<Longrightarrow> quiet env db db'"
  by (auto simp: insert_call_def split: if_splits)

lemma set_calls_used_quiet [simp]: "quiet env db (set_calls_used k n db') = quiet env db db'"
  by (simp add: set_calls_used_def)

lemma reserve_new_quiet:
  assumes "reserve_new_call env fp now db adm = Inr (db', r)"
  shows "quiet env db db'"
proof -
  obtain db1 used following r' where a: "claim_owner db adm = Inr (db1, used)" "following_use used adm = Some following"
    "call_reserved adm following = Inr r'"
    using assms by (auto simp: reserve_new_call_def split: sum.splits option.splits)
  note rest = assms [unfolded reserve_new_call_def a sum.case prod.case option.case]
  then obtain db2 e n where b: "append_event env fp db1 ''workflow_model_call_reserved'' (call_key env (mc_call_id r') ''reserved'')
      (reserved_payload env r') now = Inr (db2, e, n)"
    by (auto split: sum.splits)
  note rest = rest [unfolded b sum.case prod.case]
  then obtain db3 where d: "charge_workflow_call db2 adm (millis now) n = Inr db3" by (auto split: sum.splits)
  note rest = rest [unfolded d sum.case prod.case]
  have "quiet env (set_calls_used (ma_owner_key adm) following db3) db'"
    using rest by (auto split: sum.splits dest: insert_call_quiet)
  then have "quiet env db3 db'" by (simp add: quiet_def set_calls_used_def)
  moreover have "quiet env db1 db2" using b by (auto simp: call_key_def dest: append_quiet)
  ultimately show ?thesis using claim_owner_quiet [OF a(1)] charge_call_quiet [OF d] quiet_trans by metis
qed

lemma reserve_quiet: "reserve_model_call env fp now db adm = Inr (db', r) \<Longrightarrow> quiet env db db'"
  by (auto simp: reserve_model_call_def dest: reserve_new_quiet split: sum.splits option.splits if_splits)

lemma submit_quiet: "submit_model_call env fp now db i = Inr (db', r) \<Longrightarrow> quiet env db db'"
  by (auto simp: submit_model_call_def dest: persist_quiet split: sum.splits if_splits)

lemma finish_quiet: "finish_model_call env fp now db i receipt code = Inr (db', r) \<Longrightarrow> quiet env db db'"
  by (auto simp: finish_model_call_def dest: persist_quiet split: sum.splits if_splits)

lemma recover_page_quiet: "recover_page env fp now ids db n = Inr (db', m) \<Longrightarrow> quiet env db db'"
proof (induction ids arbitrary: db n)
  case (Cons i ids)
  then show ?case
    by (auto split: sum.splits option.splits if_splits prod.splits dest!: persist_quiet intro: quiet_trans)
qed simp

lemma recover_calls_quiet: "recover_calls_from env fp now after db n = Inr (db', m) \<Longrightarrow> quiet env db db'"
proof (induction env fp now after db n rule: recover_calls_from.induct)
  case (1 env fp now after db n)
  show ?case
  proof (cases "submitted_page db after = []")
    case True
    then show ?thesis using "1.prems" by (simp add: recover_calls_from.simps)
  next
    case False
    then obtain db1 k where page: "recover_page env fp now (submitted_page db after) db n = Inr (db1, k)"
      and rest: "recover_calls_from env fp now (Some (last (submitted_page db after))) db1 k = Inr (db', m)"
      using "1.prems" by (auto simp: recover_calls_from.simps [of env fp now after db n] Let_def split: sum.splits)
    from "1.IH" [OF refl False page refl rest] recover_page_quiet [OF page] show ?thesis using quiet_trans by blast
  qed
qed

end
