(* ===== verification/Lease_Histories.thy ===== *)
theory Lease_Histories
  imports Workflow_Histories
begin

text \<open>
  Leases and attempts over histories of the workflow writer, \<open>crates/vibemux_store/src/workflow.rs\<close>. The lemmas
  show that a slot and a working directory have at most one holder at any time, that a slot's generations are never
  reused, and that an attempt whose dispatch has not ended keeps its lease's reservation, whatever happened before.
\<close>

section \<open>The invariant of leases and attempts\<close>

definition one_holder :: "lease_row list \<Rightarrow> bool" where
  "one_holder rows \<longleftrightarrow> (\<forall>a \<in> set rows. \<forall>b \<in> set rows.
     holds_reservation (lw_state a) \<and> holds_reservation (lw_state b)
     \<and> (lw_slot_id a = lw_slot_id b \<or> lw_worktree_key a = lw_worktree_key b) \<longrightarrow> lw_lease_id a = lw_lease_id b)"

definition one_generation :: "lease_row list \<Rightarrow> bool" where
  "one_generation rows \<longleftrightarrow> (\<forall>a \<in> set rows. \<forall>b \<in> set rows.
     lw_slot_id a = lw_slot_id b \<and> lw_generation a = lw_generation b \<longrightarrow> lw_lease_id a = lw_lease_id b)"

definition generations_known :: "slot_row list \<Rightarrow> lease_row list \<Rightarrow> bool" where
  "generations_known slots rows \<longleftrightarrow> (\<forall>a \<in> set rows. lease_row_consistent a
     \<and> (\<exists>s \<in> set slots. sw_slot_id s = lw_slot_id a \<and> lw_generation a \<le> sw_last_generation s))"

text \<open>An attempt belongs to a lease and a dispatch in its working directory; while the dispatch has not ended, the
  lease holds its reservation.\<close>

definition attempt_bound :: "dispatch_db \<Rightarrow> lease_row list \<Rightarrow> attempt_row \<Rightarrow> bool" where
  "attempt_bound d leases a \<longleftrightarrow> attempt_row_consistent a
     \<and> (\<exists>l \<in> set leases. \<exists>x \<in> set (db_rows d). lw_lease_id l = aw_lease_id a
          \<and> lw_generation l = at_lease_generation (aw_record a) \<and> row_id x = aw_request_id a
          \<and> dr_resource_key (sx_record x) = lw_worktree_key l
          \<and> (\<not> dispatch_is_terminal (row_phase x) \<longrightarrow> holds_reservation (lw_state l)))"

definition lease_inv :: "workflow_env \<Rightarrow> workflow_db \<Rightarrow> bool" where
  "lease_inv env db \<longleftrightarrow>
     store_inv (we_dispatch env) (wd_dispatch db)
     \<and> distinct (map sw_slot_id (wd_slots db)) \<and> distinct (map lw_lease_id (wd_leases db))
     \<and> one_holder (wd_leases db) \<and> one_generation (wd_leases db)
     \<and> generations_known (wd_slots db) (wd_leases db)
     \<and> distinct (map aw_request_id (wd_attempts db))
     \<and> (\<forall>a \<in> set (wd_attempts db). attempt_bound (wd_dispatch db) (wd_leases db) a)"

lemma quiet_inv:
  assumes "quiet env db db'" and "lease_inv env db"
  shows "lease_inv env db'"
proof -
  have same: "wd_slots db' = wd_slots db" "wd_leases db' = wd_leases db" "wd_attempts db' = wd_attempts db"
    "db_rows (wd_dispatch db') = db_rows (wd_dispatch db)"
    using assms(1) by (auto simp: quiet_def)
  have "store_inv (we_dispatch env) (wd_dispatch db')" using assms by (simp add: quiet_def lease_inv_def)
  then show ?thesis using assms(2) unfolding lease_inv_def attempt_bound_def same by blast
qed

lemma distinct_id: "distinct (map f xs) \<Longrightarrow> x \<in> set xs \<Longrightarrow> y \<in> set xs \<Longrightarrow> f x = f y \<Longrightarrow> x = y"
  by (auto simp: distinct_map dest: inj_onD)

lemma load_lease_row:
  assumes "load_lease db i = Inr (Some lease)"
  obtains row where "row \<in> set (wd_leases db)" "lw_lease_id row = i" "lease_row_consistent row" "lw_record row = lease"
proof -
  obtain rows where rows: "filter (\<lambda>row. lw_lease_id row = i) (wd_leases db) = rows" by blast
  with assms have "list_all lease_row_consistent rows" "first_of (map lw_record rows) = Some lease"
    by (auto simp: load_lease_def query_leases_def Let_def split: if_splits sum.splits)
  then obtain row rest where "rows = row # rest" "lease_row_consistent row" "lw_record row = lease"
    by (cases rows) (auto simp: first_of_def)
  moreover have "row \<in> set (filter (\<lambda>row. lw_lease_id row = i) (wd_leases db))" using rows calculation(1) by simp
  then have "row \<in> set (wd_leases db)" "lw_lease_id row = i" by auto
  ultimately show thesis using that by blast
qed

section \<open>Slots\<close>

lemma upsert_slot_inv:
  assumes "lease_inv env db"
  shows "lease_inv env (upsert_slot db slot n)"
proof -
  let ?up = "\<lambda>row. if sw_slot_id row = sf_slot_id slot then row\<lparr>sw_record := slot, sw_updated_sequence := n\<rparr> else row"
  have slots: "distinct (map sw_slot_id (wd_slots (upsert_slot db slot n)))
      \<and> generations_known (wd_slots (upsert_slot db slot n)) (wd_leases db)"
  proof (cases "sf_slot_id slot \<in> sw_slot_id ` set (wd_slots db)")
    case True
    have "map sw_slot_id (map ?up (wd_slots db)) = map sw_slot_id (wd_slots db)" by auto
    moreover have "\<exists>s \<in> set (map ?up (wd_slots db)). sw_slot_id s = i \<and> g \<le> sw_last_generation s"
      if known: "\<exists>s \<in> set (wd_slots db). sw_slot_id s = i \<and> g \<le> sw_last_generation s" for i g
    proof -
      from known obtain s where "s \<in> set (wd_slots db)" "sw_slot_id s = i" "g \<le> sw_last_generation s" by blast
      then show ?thesis by (intro bexI [of _ "?up s"]) auto
    qed
    ultimately show ?thesis using assms True
      by (simp add: lease_inv_def upsert_slot_def generations_known_def del: map_map)
  next
    case False
    then show ?thesis using assms by (auto simp: lease_inv_def upsert_slot_def generations_known_def)
  qed
  moreover have "wd_leases (upsert_slot db slot n) = wd_leases db" "wd_attempts (upsert_slot db slot n) = wd_attempts db"
    "wd_dispatch (upsert_slot db slot n) = wd_dispatch db"
    by (auto simp: upsert_slot_def)
  ultimately show ?thesis using assms unfolding lease_inv_def by simp
qed

lemma upsert_workflow_slot_inv:
  "lease_inv env db \<Longrightarrow> upsert_workflow_slot env fp db slot ts = Inr (db', e) \<Longrightarrow> lease_inv env db'"
  by (auto simp: upsert_workflow_slot_def Let_def split: if_splits sum.splits option.splits
      intro!: upsert_slot_inv dest!: append_quiet dest: quiet_inv)

section \<open>Acquiring a lease\<close>

lemma bump_slot_Inr:
  assumes "bump_slot_generation db i g h = Inr db'"
  shows "db' = db\<lparr>wd_slots := map (\<lambda>row. if sw_slot_id row = i \<and> sw_last_generation row = g
      then row\<lparr>sw_last_generation := h\<rparr> else row) (wd_slots db)\<rparr>
    \<and> (\<exists>s \<in> set (wd_slots db). sw_slot_id s = i \<and> sw_last_generation s = g)"
proof -
  let ?hit = "\<lambda>row. sw_slot_id row = i \<and> sw_last_generation row = g"
  have "length (filter ?hit (wd_slots db)) = 1" using assms by (auto simp: bump_slot_generation_def Let_def split: if_splits)
  then have "filter ?hit (wd_slots db) \<noteq> []" by auto
  then have "\<exists>s \<in> set (wd_slots db). ?hit s" by (auto simp: filter_empty_conv)
  then show ?thesis using assms by (auto simp: bump_slot_generation_def Let_def split: if_splits)
qed

lemma insert_lease_Inr:
  assumes "insert_lease db lease n = Inr db'"
  obtains new where "db' = db\<lparr>wd_leases := wd_leases db @ [new]\<rparr>" "lw_record new = lease" "lease_row_consistent new"
    "\<forall>row \<in> set (wd_leases db). \<not> lease_conflicts new row"
proof (rule that [of "\<lparr>lw_lease_id = lr_lease_id lease, lw_workflow_id = lr_workflow_id lease, lw_slot_id = lr_slot_id lease,
                 lw_worktree_key = lr_worktree_key lease, lw_generation = lr_generation lease,
                 lw_state = lr_state lease, lw_record = lease, lw_updated_sequence = n\<rparr>"])
qed (use assms in \<open>auto simp: insert_lease_def Let_def lease_row_consistent_def list_ex_iff split: if_splits\<close>)

lemma one_holder_snoc:
  assumes "one_holder rows" and "\<forall>row \<in> set rows. \<not> lease_conflicts new row"
  shows "one_holder (rows @ [new])"
  unfolding one_holder_def
proof (intro ballI impI)
  fix a b :: lease_row
  assume ab: "holds_reservation (lw_state a) \<and> holds_reservation (lw_state b)
     \<and> (lw_slot_id a = lw_slot_id b \<or> lw_worktree_key a = lw_worktree_key b)"
  assume "a \<in> set (rows @ [new])" "b \<in> set (rows @ [new])"
  then consider "a \<in> set rows" "b \<in> set rows" | "a \<in> set rows" "b = new" | "a = new" "b \<in> set rows" | "a = new" "b = new" by auto
  then show "lw_lease_id a = lw_lease_id b"
  proof cases
    case 1
    then show ?thesis using assms(1) ab unfolding one_holder_def by blast
  next
    case 2
    then show ?thesis using assms(2) ab unfolding lease_conflicts_def by auto
  next
    case 3
    then show ?thesis using assms(2) ab unfolding lease_conflicts_def by auto
  qed simp
qed

lemma one_generation_snoc:
  assumes "one_generation rows" and "\<forall>row \<in> set rows. \<not> lease_conflicts new row"
  shows "one_generation (rows @ [new])"
  unfolding one_generation_def
proof (intro ballI impI)
  fix a b :: lease_row
  assume ab: "lw_slot_id a = lw_slot_id b \<and> lw_generation a = lw_generation b"
  assume "a \<in> set (rows @ [new])" "b \<in> set (rows @ [new])"
  then consider "a \<in> set rows" "b \<in> set rows" | "a \<in> set rows" "b = new" | "a = new" "b \<in> set rows" | "a = new" "b = new" by auto
  then show "lw_lease_id a = lw_lease_id b"
  proof cases
    case 1
    then show ?thesis using assms(1) ab unfolding one_generation_def by blast
  next
    case 2
    then show ?thesis using assms(2) ab unfolding lease_conflicts_def by auto
  next
    case 3
    then show ?thesis using assms(2) ab unfolding lease_conflicts_def by auto
  qed simp
qed

lemma granted_lease_inv:
  assumes inv: "lease_inv env db"
    and bump: "bump_slot_generation db (lr_slot_id lease) g (lr_generation lease) = Inr db1"
    and next_gen: "checked_add g 1 = Some (lr_generation lease)"
    and ins: "insert_lease db1 lease n = Inr db2"
  shows "lease_inv env db2"
proof -
  let ?up = "\<lambda>row. if sw_slot_id row = lr_slot_id lease \<and> sw_last_generation row = g
      then row\<lparr>sw_last_generation := lr_generation lease\<rparr> else row"
  let ?slots = "map ?up (wd_slots db)"
  from bump_slot_Inr [OF bump] have db1: "db1 = db\<lparr>wd_slots := ?slots\<rparr>"
    and s: "\<exists>s \<in> set (wd_slots db). sw_slot_id s = lr_slot_id lease \<and> sw_last_generation s = g" by auto
  from ins obtain new where db2: "db2 = db1\<lparr>wd_leases := wd_leases db1 @ [new]\<rparr>" and new: "lw_record new = lease"
    "lease_row_consistent new" "\<forall>row \<in> set (wd_leases db1). \<not> lease_conflicts new row" by (rule insert_lease_Inr)
  have free: "\<not> lease_conflicts new row" if "row \<in> set (wd_leases db)" for row using that new(3) db1 by simp
  have grows: "g \<le> lr_generation lease" using checked_add_less [OF next_gen] by simp
  have known: "\<exists>s \<in> set ?slots. sw_slot_id s = i \<and> h \<le> sw_last_generation s"
    if old: "\<exists>s \<in> set (wd_slots db). sw_slot_id s = i \<and> h \<le> sw_last_generation s" for i h
  proof -
    from old obtain s where "s \<in> set (wd_slots db)" "sw_slot_id s = i" "h \<le> sw_last_generation s" by blast
    then show ?thesis using grows by (intro bexI [of _ "?up s"]) auto
  qed
  have "generations_known ?slots (wd_leases db @ [new])"
  proof -
    from s obtain s where "s \<in> set (wd_slots db)" "sw_slot_id s = lr_slot_id lease" "sw_last_generation s = g" by blast
    then have "\<exists>s \<in> set ?slots. sw_slot_id s = lw_slot_id new \<and> lw_generation new \<le> sw_last_generation s"
      using new(1,2) by (intro bexI [of _ "?up s"]) (auto simp: lease_row_consistent_def)
    then show ?thesis using inv known new(2) unfolding lease_inv_def generations_known_def by auto
  qed
  moreover have "one_holder (wd_leases db @ [new])" "one_generation (wd_leases db @ [new])"
    using inv free one_holder_snoc one_generation_snoc unfolding lease_inv_def by blast+
  moreover have "distinct (map lw_lease_id (wd_leases db @ [new]))"
    using inv free unfolding lease_inv_def lease_conflicts_def by force
  moreover have "map sw_slot_id ?slots = map sw_slot_id (wd_slots db)" by auto
  moreover have "attempt_bound (wd_dispatch db) (wd_leases db @ [new]) a" if "attempt_bound (wd_dispatch db) (wd_leases db) a" for a
    using that unfolding attempt_bound_def by auto
  ultimately show ?thesis
    using inv unfolding lease_inv_def db2 db1 by (simp del: map_map)
qed

lemma acquire_inv:
  assumes inv: "lease_inv env db" and step: "acquire_workflow_lease env fp db request = Inr (db', c)"
  shows "lease_inv env db'"
proof -
  have "lease_inv env db'" if grant: "grant_lease env fp db request g = Inr (db', c)" for g
  proof -
    obtain h where h: "checked_add g 1 = Some h" using grant by (auto simp: grant_lease_def split: option.splits)
    note rest = grant [unfolded grant_lease_def h option.case Let_def]
    from rest obtain t k p db1 e n where a: "append_event env fp db t (CHR ''w'' # k) p (lq_timestamp request) = Inr (db1, e, n)"
      and rest: "(case bump_slot_generation db1 (lq_slot_id request) g h of Inl e \<Rightarrow> Inl e | Inr db2 \<Rightarrow>
        (case insert_lease db2 (new_lease request h) n of Inl e \<Rightarrow> Inl e
         | Inr db3 \<Rightarrow> Inr (db3, \<lparr>lc_lease = new_lease request h, lc_event = Some e\<rparr>))) = Inr (db', c)"
      by (auto split: sum.splits)
    from rest obtain db2 where b: "bump_slot_generation db1 (lq_slot_id request) g h = Inr db2"
      "insert_lease db2 (new_lease request h) n = Inr db'" by (auto split: sum.splits)
    show ?thesis
      using granted_lease_inv [of env db1 "new_lease request h" g db2 n db'] b h quiet_inv [OF append_quiet [OF a] inv]
      by (simp add: new_lease_def)
  qed
  then show ?thesis using step inv
    by (auto simp: acquire_workflow_lease_def split: sum.splits option.splits if_splits)
qed

section \<open>Changing a lease\<close>

lemma lease_inv_map:
  assumes inv: "lease_inv env db"
    and same: "\<And>row. row \<in> set (wd_leases db) \<Longrightarrow> lw_lease_id (f row) = lw_lease_id row \<and> lw_slot_id (f row) = lw_slot_id row
      \<and> lw_worktree_key (f row) = lw_worktree_key row \<and> lw_generation (f row) = lw_generation row
      \<and> lease_row_consistent (f row) \<and> (holds_reservation (lw_state (f row)) \<longrightarrow> holds_reservation (lw_state row))"
    and settled: "\<And>row a x. row \<in> set (wd_leases db) \<Longrightarrow> \<not> holds_reservation (lw_state (f row)) \<Longrightarrow>
      holds_reservation (lw_state row) \<Longrightarrow> a \<in> set (wd_attempts db) \<Longrightarrow> aw_lease_id a = lw_lease_id row \<Longrightarrow>
      x \<in> set (db_rows (wd_dispatch db)) \<Longrightarrow> row_id x = aw_request_id a \<Longrightarrow> dispatch_is_terminal (row_phase x)"
  shows "lease_inv env (db\<lparr>wd_leases := map f (wd_leases db)\<rparr>)"
proof -
  note parts = inv [unfolded lease_inv_def]
  have ids: "map lw_lease_id (map f (wd_leases db)) = map lw_lease_id (wd_leases db)" using same by simp
  have "one_holder (map f (wd_leases db))"
  proof -
    have "one_holder (wd_leases db)" using parts by blast
    then show ?thesis unfolding one_holder_def set_map ball_simps using same by metis
  qed
  moreover have "one_generation (map f (wd_leases db))"
  proof -
    have "one_generation (wd_leases db)" using parts by blast
    then show ?thesis unfolding one_generation_def set_map ball_simps using same by metis
  qed
  moreover have "generations_known (wd_slots db) (map f (wd_leases db))"
    using parts same unfolding generations_known_def by auto
  moreover have "attempt_bound (wd_dispatch db) (map f (wd_leases db)) a" if a: "a \<in> set (wd_attempts db)" for a
  proof -
    have "attempt_bound (wd_dispatch db) (wd_leases db) a" using parts a by blast
    then obtain l x where c: "attempt_row_consistent a" and lx: "l \<in> set (wd_leases db)"
      "x \<in> set (db_rows (wd_dispatch db))" "lw_lease_id l = aw_lease_id a"
      "lw_generation l = at_lease_generation (aw_record a)" "row_id x = aw_request_id a"
      "dr_resource_key (sx_record x) = lw_worktree_key l"
      "\<not> dispatch_is_terminal (row_phase x) \<longrightarrow> holds_reservation (lw_state l)"
      unfolding attempt_bound_def by blast
    have "\<not> dispatch_is_terminal (row_phase x) \<longrightarrow> holds_reservation (lw_state (f l))"
      using settled [of l a x] lx a by auto
    then show ?thesis unfolding attempt_bound_def using c lx same [OF lx(1)]
      by (intro conjI bexI [of _ "f l"] bexI [of _ x]) auto
  qed
  ultimately show ?thesis using parts ids unfolding lease_inv_def by (simp del: map_map)
qed

lemma attempts_settled_True:
  "attempts_settled db as = Inr True \<Longrightarrow> a \<in> set as \<Longrightarrow>
   \<exists>phase. attempt_phase db (at_request_id a) = Some phase \<and> dispatch_is_terminal phase"
  by (induction as) (auto split: option.splits sum.splits)

lemma attempt_phase_row:
  "store_inv (we_dispatch env) (wd_dispatch db) \<Longrightarrow> x \<in> set (db_rows (wd_dispatch db)) \<Longrightarrow>
   attempt_phase db (row_id x) = Some (row_phase x)"
  by (simp add: attempt_phase_def find_row)

text \<open>All attempts of a lease are attempts of its one generation.\<close>

lemma current_attempts_all:
  assumes inv: "lease_inv env db" and lease: "load_lease db i = Inr (Some lease)"
    and current: "current_attempts db lease = Inr as" and a: "a \<in> set (wd_attempts db)" "aw_lease_id a = i"
  shows "aw_record a \<in> set as"
proof -
  obtain row where row: "row \<in> set (wd_leases db)" "lw_lease_id row = i" "lease_row_consistent row" "lw_record row = lease"
    using load_lease_row [OF lease] .
  have "attempt_bound (wd_dispatch db) (wd_leases db) a" using inv a(1) unfolding lease_inv_def by blast
  then obtain l where l: "l \<in> set (wd_leases db)" "lw_lease_id l = aw_lease_id a"
    "lw_generation l = at_lease_generation (aw_record a)" unfolding attempt_bound_def by blast
  have "l = row" using distinct_id [of lw_lease_id "wd_leases db" l row] inv l row a(2) unfolding lease_inv_def by simp
  then have "at_lease_generation (aw_record a) = lr_generation lease" "lr_lease_id lease = i"
    using l(3) row by (simp_all add: lease_row_consistent_def)
  then show ?thesis using current a
    by (auto simp: current_attempts_def attempts_for_lease_def query_attempts_def Let_def split: if_splits)
qed

lemma checked_lease_event_ends:
  "checked_lease_event settled ev = Inr c \<Longrightarrow> ends_reservation g c \<Longrightarrow> settled"
  by (cases ev) (auto simp: checked_lease_event_def split: if_splits)

lemma update_lease_Inr:
  assumes "update_lease db lease st n = Inr db'"
  shows "db' = db\<lparr>wd_leases := map (\<lambda>row. if lw_lease_id row = lr_lease_id lease \<and> lw_state row = st
      \<and> lw_generation row = lr_generation lease
      then row\<lparr>lw_state := lr_state lease, lw_record := lease, lw_updated_sequence := n\<rparr> else row) (wd_leases db)\<rparr>"
  using assms by (auto simp: update_lease_def Let_def split: if_splits)

lemma changed_lease_inv:
  assumes inv: "lease_inv env db" and lease: "load_lease db i = Inr (Some lease)"
    and step: "lease_step h (lease_record_view lease) c = Inr view"
    and settled: "ends_reservation (lr_generation lease) c \<Longrightarrow> (\<And>a x. a \<in> set (wd_attempts db) \<Longrightarrow> aw_lease_id a = i \<Longrightarrow>
      x \<in> set (db_rows (wd_dispatch db)) \<Longrightarrow> row_id x = aw_request_id a \<Longrightarrow> dispatch_is_terminal (row_phase x))"
    and update: "update_lease db (changed_lease lease view reason ts) (lr_state lease) n = Inr db'"
  shows "lease_inv env db'"
proof -
  obtain row where row: "row \<in> set (wd_leases db)" "lw_lease_id row = i" "lease_row_consistent row" "lw_record row = lease"
    using load_lease_row [OF lease] .
  have unique: "l = row" if "l \<in> set (wd_leases db)" "lw_lease_id l = i" for l
    using distinct_id [of lw_lease_id "wd_leases db" l row] inv that row unfolding lease_inv_def by simp
  have keeps: "holds_reservation (lr_state lease)"
    "holds_reservation (lv_state view) \<longleftrightarrow> \<not> ends_reservation (lr_generation lease) c"
    using lease_step_holds [OF step] lease_step_end_iff [OF step] by (simp_all add: lease_record_view_def)
  have old: "lease_row_consistent l" if "l \<in> set (wd_leases db)" for l
    using inv that unfolding lease_inv_def generations_known_def by blast
  have i: "lr_lease_id lease = i" using row by (simp add: lease_row_consistent_def)
  show ?thesis unfolding update_lease_Inr [OF update]
  proof (rule lease_inv_map [OF inv], goal_cases)
    case (1 l)
    then show ?case
    proof (cases "lw_lease_id l = i")
      case True
      with unique 1 have "l = row" by blast
      then show ?thesis using row keeps by (auto simp: changed_lease_def lease_row_consistent_def)
    next
      case False
      then show ?thesis using i 1 old by (simp add: changed_lease_def)
    qed
  next
    case (2 l a x)
    then have "lw_lease_id l = i" using i by (auto simp: changed_lease_def split: if_splits)
    moreover from this unique 2 have "l = row" by blast
    ultimately have "ends_reservation (lr_generation lease) c"
      using 2 keeps by (auto simp: changed_lease_def split: if_splits)
    then show ?case using settled 2 \<open>lw_lease_id l = i\<close> by simp
  qed
qed

lemma quiet_load_lease: "quiet env db db' \<Longrightarrow> load_lease db' i = load_lease db i"
  by (simp add: quiet_def load_lease_def query_leases_def)

lemma change_inv:
  assumes inv: "lease_inv env db"
    and step: "change_workflow_lease env fp db i ev heartbeat reason ts = Inr (db', commit)"
  shows "lease_inv env db'"
proof -
  obtain lease as settled c view where lease: "load_lease db i = Inr (Some lease)"
    and current: "current_attempts db lease = Inr as" "attempts_settled db as = Inr settled"
    and c: "checked_lease_event settled ev = Inr c"
    and view: "lease_apply (lease_record_view lease) c heartbeat = Inr view"
    using step by (auto simp: change_workflow_lease_def split: sum.splits option.splits)
  note rest = step [unfolded change_workflow_lease_def lease current c view sum.case option.case Let_def]
  show ?thesis
  proof (cases "view = lease_record_view lease")
    case True
    then show ?thesis using rest inv by simp
  next
    case False
    from rest False obtain t k p db1 e n where a: "append_event env fp db t (CHR ''w'' # k) p ts = Inr (db1, e, n)"
      and update: "update_lease db1 (changed_lease lease view reason ts) (lr_state lease) n = Inr db'"
      by (auto split: sum.splits)
    have quiet: "quiet env db db1" using append_quiet [OF a] by simp
    have "dispatch_is_terminal (row_phase x)"
      if e: "ends_reservation (lr_generation lease) c" and a: "a \<in> set (wd_attempts db1)" "aw_lease_id a = i"
        "x \<in> set (db_rows (wd_dispatch db1))" "row_id x = aw_request_id a" for a x
    proof -
      have same: "wd_attempts db1 = wd_attempts db" "db_rows (wd_dispatch db1) = db_rows (wd_dispatch db)"
        using quiet by (simp_all add: quiet_def)
      have "aw_record a \<in> set as" using current_attempts_all [OF inv lease current(1)] a same by simp
      moreover have settled using checked_lease_event_ends [OF c e] .
      ultimately obtain phase where p: "attempt_phase db (at_request_id (aw_record a)) = Some phase" "dispatch_is_terminal phase"
        using attempts_settled_True [of db as] current(2) by auto
      have "attempt_row_consistent a" using inv a(1) same unfolding lease_inv_def attempt_bound_def by auto
      then have "at_request_id (aw_record a) = row_id x" using a(4) by (simp add: attempt_row_consistent_def)
      then show ?thesis using p attempt_phase_row [of env db x] inv a(3) same unfolding lease_inv_def by simp
    qed
    then show ?thesis
      using changed_lease_inv [OF quiet_inv [OF quiet inv], of i lease heartbeat c view reason ts n db']
        quiet_load_lease [OF quiet] lease view update by (auto simp: lease_step_def)
  qed
qed

section \<open>Dispatch commands\<close>

text \<open>No dispatch command brings an ended attempt back.\<close>

lemma terminal_no_move: "table_move p q \<Longrightarrow> \<not> dispatch_is_terminal p"
  by (auto elim!: table_moveE dispatch_apply_cases simp: dispatch_is_terminal_def)

lemma terminal_stays: "table_move\<^sup>*\<^sup>* p q \<Longrightarrow> dispatch_is_terminal p \<Longrightarrow> q = p"
  by (induction rule: rtranclp_induct) (auto dest: terminal_no_move)

lemma dispatch_inv:
  assumes env: "env_ok (we_dispatch env)" and inv: "lease_inv env db"
    and step: "dispatch_step (we_dispatch env) (wd_dispatch db) op = Inr d"
  shows "lease_inv env (db\<lparr>wd_dispatch := d\<rparr>)"
proof -
  have store: "store_inv (we_dispatch env) (wd_dispatch db)" using inv unfolding lease_inv_def by blast
  have store': "store_inv (we_dispatch env) d" using dispatch_step_inv [OF env store step] .
  have "attempt_bound d (wd_leases db) a" if a: "a \<in> set (wd_attempts db)" for a
  proof -
    have "attempt_bound (wd_dispatch db) (wd_leases db) a" using inv a unfolding lease_inv_def by blast
    then obtain l x where c: "attempt_row_consistent a" and lx: "l \<in> set (wd_leases db)"
      "x \<in> set (db_rows (wd_dispatch db))" "lw_lease_id l = aw_lease_id a"
      "lw_generation l = at_lease_generation (aw_record a)" "row_id x = aw_request_id a"
      "dr_resource_key (sx_record x) = lw_worktree_key l"
      "\<not> dispatch_is_terminal (row_phase x) \<longrightarrow> holds_reservation (lw_state l)"
      unfolding attempt_bound_def by blast
    from dispatch_step_keeps [OF env store step] lx(2) obtain y where y: "y \<in> set (db_rows d)" "same_attempt x y"
      unfolding keeps_def by blast
    have phases: "abs_phases (wd_dispatch db) (row_id x) = Some (row_phase x)" "abs_phases d (row_id x) = Some (row_phase y)"
      using abs_phases_row [OF store lx(2)] abs_phases_row [OF store' y(1)] y(2) by (simp_all add: same_attempt_def)
    from dispatch_step_moves [OF env store step phases(1)] phases(2) have "table_move\<^sup>*\<^sup>* (row_phase x) (row_phase y)" by simp
    then have "\<not> dispatch_is_terminal (row_phase y) \<longrightarrow> holds_reservation (lw_state l)"
      using lx(7) terminal_stays by metis
    then show ?thesis unfolding attempt_bound_def using c lx y
      by (intro conjI bexI [of _ l] bexI [of _ y]) (auto simp: same_attempt_def)
  qed
  then show ?thesis using inv store' unfolding lease_inv_def by simp
qed

section \<open>Attempts\<close>

lemma admit_dispatch_in_inv:
  assumes env: "env_ok (we_dispatch env)" and inv: "lease_inv env db"
    and step: "admit_dispatch_in env fresh db adm = Inr (db1, c)"
  shows "lease_inv env db1 \<and> wd_leases db1 = wd_leases db \<and> (hc_event c \<noteq> None \<longrightarrow>
    (\<exists>x \<in> set (db_rows (wd_dispatch db1)). row_id x = da_request_id adm \<and> dr_resource_key (sx_record x) = da_resource_key adm))"
proof -
  obtain p t r where f: "fresh = (p, t, r)" by (cases fresh)
  from step obtain d where d: "admit_dispatch (we_dispatch env) p t r (wd_dispatch db) adm = Inr (d, c)" "db1 = db\<lparr>wd_dispatch := d\<rparr>"
    by (auto simp: admit_dispatch_in_def f split: sum.splits)
  from d(1) have "dispatch_step (we_dispatch env) (wd_dispatch db) (OpAdmit p t r adm) = Inr d" by (simp add: dispatch_step_def)
  from dispatch_inv [OF env inv this] have "lease_inv env db1" by (simp add: d(2))
  then show ?thesis using admit_dispatch_fresh [OF d(1)] d(2) by auto
qed

lemma check_attempt_lease_row:
  assumes "check_attempt_lease db adm = Inr u"
  obtains l where "l \<in> set (wd_leases db)" "lw_lease_id l = aa_lease_id adm" "lw_state l = LeaseActive"
    "lw_generation l = aa_lease_generation adm" "lw_worktree_key l = da_resource_key (aa_dispatch adm)"
proof -
  obtain lease where lease: "load_lease db (aa_lease_id adm) = Inr (Some lease)" "lr_state lease = LeaseActive"
    "lr_generation lease = aa_lease_generation adm" "lr_worktree_key lease = da_resource_key (aa_dispatch adm)"
    using assms by (auto simp: check_attempt_lease_def split: sum.splits option.splits if_splits)
  obtain l where "l \<in> set (wd_leases db)" "lw_lease_id l = aa_lease_id adm" "lease_row_consistent l" "lw_record l = lease"
    using load_lease_row [OF lease(1)] .
  then show thesis using lease by (intro that [of l]) (auto simp: lease_row_consistent_def)
qed

lemma insert_attempt_inv:
  assumes inv: "lease_inv env db" and ins: "insert_attempt db a n = Inr db'"
    and l: "l \<in> set (wd_leases db)" "lw_lease_id l = at_lease_id a" "holds_reservation (lw_state l)"
      "lw_generation l = at_lease_generation a"
    and x: "x \<in> set (db_rows (wd_dispatch db))" "row_id x = at_request_id a" "dr_resource_key (sx_record x) = lw_worktree_key l"
  shows "lease_inv env db'"
proof -
  let ?new = "\<lparr>aw_request_id = at_request_id a, aw_workflow_id = at_workflow_id a,
          aw_lease_id = at_lease_id a, aw_record = a, aw_created_sequence = n\<rparr>"
  have db': "db' = db\<lparr>wd_attempts := wd_attempts db @ [?new]\<rparr>"
    "at_request_id a \<notin> aw_request_id ` set (wd_attempts db)"
    using ins by (auto simp: insert_attempt_def split: if_splits)
  have "attempt_bound (wd_dispatch db) (wd_leases db) ?new"
    unfolding attempt_bound_def using l x
    by (intro conjI bexI [of _ l] bexI [of _ x]) (auto simp: attempt_row_consistent_def)
  then show ?thesis using inv db'(2) unfolding lease_inv_def db'(1) by auto
qed

lemma admit_new_attempt_inv:
  assumes env: "env_ok (we_dispatch env)" and inv: "lease_inv env db"
    and step: "admit_new_attempt env check fresh db r adm = Inr (db', c)"
  shows "lease_inv env db'"
proof -
  obtain u w task paid version where u: "check db adm = Inr u" and w: "check_attempt_lease db adm = Inr w"
    and more: "workflow_task_of r (aa_task_key adm) = Some task" "charge_attempt r adm = Inr paid"
      "checked_add (wr_version paid) 1 = Some version"
    using step by (auto simp: admit_new_attempt_def Let_def split: sum.splits option.splits if_splits)
  note rest = step [unfolded admit_new_attempt_def Let_def u w more sum.case option.case]
  then obtain db1 commit where d: "admit_dispatch_in env fresh db (aa_dispatch adm) = Inr (db1, commit)"
    by (auto split: sum.splits if_splits)
  note rest = rest [unfolded d sum.case prod.case]
  then obtain event where "hc_event commit = Some event" by (auto split: if_splits)
  then obtain t k p ts db2 e n db3 following where a: "append_event env (fst fresh) db1 t (CHR ''w'' # k) p ts = Inr (db2, e, n)"
    and i: "insert_attempt db2 (new_attempt adm) n = Inr db3"
    and up: "update_workflow db3 following (wr_version r) n = Inr db'"
    using rest by (auto split: sum.splits if_splits prod.splits)
  have db1: "lease_inv env db1" "wd_leases db1 = wd_leases db"
    and "\<exists>x \<in> set (db_rows (wd_dispatch db1)). row_id x = da_request_id (aa_dispatch adm)
      \<and> dr_resource_key (sx_record x) = da_resource_key (aa_dispatch adm)"
    using admit_dispatch_in_inv [OF env inv d] \<open>hc_event commit = Some event\<close> by auto
  then obtain x where x: "x \<in> set (db_rows (wd_dispatch db1))" "row_id x = da_request_id (aa_dispatch adm)"
    "dr_resource_key (sx_record x) = da_resource_key (aa_dispatch adm)" by blast
  obtain l where l: "l \<in> set (wd_leases db)" "lw_lease_id l = aa_lease_id adm" "lw_state l = LeaseActive"
    "lw_generation l = aa_lease_generation adm" "lw_worktree_key l = da_resource_key (aa_dispatch adm)"
    using check_attempt_lease_row [OF w] .
  have quiet: "quiet env db1 db2" using append_quiet [OF a] by simp
  then have same: "wd_leases db2 = wd_leases db" "db_rows (wd_dispatch db2) = db_rows (wd_dispatch db1)"
    using db1(2) by (simp_all add: quiet_def)
  have "lease_inv env db3"
    by (rule insert_attempt_inv [OF quiet_inv [OF quiet db1(1)] i, of l x])
      (use l x same in \<open>simp_all add: new_attempt_def Let_def holds_reservation_def\<close>)
  then show ?thesis using quiet_inv update_workflow_quiet [OF up] by blast
qed

lemma admit_attempt_inv:
  assumes env: "env_ok (we_dispatch env)" and inv: "lease_inv env db"
    and step: "admit_workflow_attempt env check fresh db adm = Inr (db', c)"
  shows "lease_inv env db'"
proof -
  have "lease_inv env db1" if "admit_dispatch_in env fresh db (aa_dispatch adm) = Inr (db1, k)" for db1 k
    using admit_dispatch_in_inv [OF env inv that] by blast
  moreover have "lease_inv env db'" if "admit_new_attempt env check fresh db r adm = Inr (db', c)" for r
    using admit_new_attempt_inv [OF env inv that] .
  ultimately show ?thesis using step
    by (auto simp: admit_workflow_attempt_def Let_def split: sum.splits option.splits if_splits)
qed

section \<open>Reconciliation\<close>

lemma recover_leases_inv:
  "lease_inv env db \<Longrightarrow> lease_inv env (fst (recover_leases env fp ts leases db y))"
proof (induction leases arbitrary: db y)
  case (Cons l ls)
  then show ?case by (auto split: sum.splits dest!: change_inv [OF Cons.prems])
qed simp

lemma workflow_store_step_inv:
  assumes env: "env_ok (we_dispatch env)" and inv: "lease_inv env db"
    and step: "workflow_store_step env check db op = Inr db'"
  shows "lease_inv env db'"
proof (cases op)
  case (WoDispatch d)
  then show ?thesis using step dispatch_inv [OF env inv] by (auto simp: workflow_store_step_def split: sum.splits)
next
  case (WoSlot fp slot ts)
  then show ?thesis using step upsert_workflow_slot_inv [OF inv] by (auto simp: workflow_store_step_def)
next
  case (WoAcquire fp request)
  then show ?thesis using step acquire_inv [OF inv] by (auto simp: workflow_store_step_def)
next
  case (WoChange fp i ev h reason ts)
  then show ?thesis using step change_inv [OF inv] by (auto simp: workflow_store_step_def)
next
  case (WoAttempt fresh adm)
  then obtain c where "admit_workflow_attempt env check fresh db adm = Inr (db', c)"
    using step by (auto simp: workflow_store_step_def)
  then show ?thesis by (rule admit_attempt_inv [OF env inv])
next
  case (WoReconcile fp ts)
  then show ?thesis using step inv recover_leases_inv [OF inv]
    by (auto simp: workflow_store_step_def recover_workflows_def split: sum.splits)
qed (use step quiet_inv [OF _ inv] in \<open>auto simp: workflow_store_step_def recover_model_calls_def
      dest: prepare_quiet transition_quiet generation_quiet authority_quiet reserve_quiet submit_quiet finish_quiet
        recover_calls_quiet\<close>)

interpretation lease_tables: guarded_reducer "workflow_store_step env check"
    "\<lambda>db. env_ok (we_dispatch env) \<and> lease_inv env db" for env check
  by unfold_locales (auto intro: workflow_store_step_inv)

section \<open>Exclusive leases\<close>

lemma workflow_db_init_inv [simp]: "lease_inv env workflow_db_init"
  by (simp add: lease_inv_def workflow_db_init_def store_inv_def keys_logged_def unique_active_def one_holder_def
      one_generation_def generations_known_def)

lemma lease_inv_run:
  "env_ok (we_dispatch env) \<Longrightarrow> lease_inv env (run_events (workflow_store_step env check) workflow_db_init ops)"
  using lease_tables.run_inv [of env workflow_db_init check ops] by simp

text \<open>An attempt that has not ended runs under the one lease that holds its working directory, and is the only
  such attempt there.\<close>

lemma unsettled_attempt_lease:
  assumes inv: "lease_inv env db" and a: "a \<in> set (wd_attempts db)" and p: "attempt_phase db (aw_request_id a) = Some p"
    and live: "\<not> dispatch_is_terminal p"
  obtains l x where "l \<in> set (wd_leases db)" "lw_lease_id l = aw_lease_id a" "holds_reservation (lw_state l)"
    "lw_generation l = at_lease_generation (aw_record a)" "x \<in> set (db_rows (wd_dispatch db))"
    "row_id x = aw_request_id a" "dr_resource_key (sx_record x) = lw_worktree_key l" "active_phase (row_phase x)"
proof -
  have "attempt_bound (wd_dispatch db) (wd_leases db) a" using inv a unfolding lease_inv_def by blast
  then obtain l x where lx: "l \<in> set (wd_leases db)" "x \<in> set (db_rows (wd_dispatch db))" "lw_lease_id l = aw_lease_id a"
      "lw_generation l = at_lease_generation (aw_record a)" "row_id x = aw_request_id a"
      "dr_resource_key (sx_record x) = lw_worktree_key l"
      "\<not> dispatch_is_terminal (row_phase x) \<longrightarrow> holds_reservation (lw_state l)"
    unfolding attempt_bound_def by blast
  moreover have "row_phase x = p" using attempt_phase_row [of env db x] inv lx p unfolding lease_inv_def by simp
  ultimately show thesis using that live by (simp add: active_iff dispatch_holds_reservation_def)
qed

lemma unsettled_attempt_unique:
  assumes inv: "lease_inv env db" and a: "a \<in> set (wd_attempts db)" "attempt_phase db (aw_request_id a) = Some p"
    "\<not> dispatch_is_terminal p" and b: "b \<in> set (wd_attempts db)" "attempt_phase db (aw_request_id b) = Some q"
    "\<not> dispatch_is_terminal q" and same: "aw_lease_id a = aw_lease_id b"
  shows "a = b"
proof -
  obtain l x where l: "l \<in> set (wd_leases db)" "lw_lease_id l = aw_lease_id a" "x \<in> set (db_rows (wd_dispatch db))"
    "row_id x = aw_request_id a" "dr_resource_key (sx_record x) = lw_worktree_key l" "active_phase (row_phase x)"
    using unsettled_attempt_lease [OF inv a] by metis
  obtain m y where m: "m \<in> set (wd_leases db)" "lw_lease_id m = aw_lease_id b" "y \<in> set (db_rows (wd_dispatch db))"
    "row_id y = aw_request_id b" "dr_resource_key (sx_record y) = lw_worktree_key m" "active_phase (row_phase y)"
    using unsettled_attempt_lease [OF inv b] by metis
  have "l = m" using distinct_id [of lw_lease_id "wd_leases db" l m] l m same inv unfolding lease_inv_def by simp
  moreover have "unique_active (wd_dispatch db)" using inv unfolding lease_inv_def store_inv_def by blast
  ultimately have "row_id x = row_id y" using l m unfolding unique_active_def by metis
  then show ?thesis
    using distinct_id [of aw_request_id "wd_attempts db" a b] l m a b inv unfolding lease_inv_def by simp
qed

text \<open>C4. Over any interleaving of workflow, lease, attempt, model-call, recovery and dispatch commands from an
  empty store: a slot and a working directory never have two leases that hold a reservation; no two leases of a slot
  share a generation, and none is above the slot's counter; an attempt whose dispatch has not ended belongs to a
  lease that still holds its reservation, with the attempt's generation and the dispatch's working directory; and a
  lease has at most one such attempt.\<close>

theorem lease_histories_exclusive:
  assumes "env_ok (we_dispatch env)"
    and db: "db = run_events (workflow_store_step env check) workflow_db_init ops"
  shows "(\<forall>a \<in> set (wd_leases db). \<forall>b \<in> set (wd_leases db).
      (holds_reservation (lw_state a) \<and> holds_reservation (lw_state b)
         \<and> (lw_slot_id a = lw_slot_id b \<or> lw_worktree_key a = lw_worktree_key b)
       \<or> lw_slot_id a = lw_slot_id b \<and> lw_generation a = lw_generation b) \<longrightarrow> a = b)
    \<and> (\<forall>l \<in> set (wd_leases db). \<exists>s \<in> set (wd_slots db). sw_slot_id s = lw_slot_id l
         \<and> lw_generation l \<le> sw_last_generation s)
    \<and> (\<forall>a \<in> set (wd_attempts db). \<exists>l \<in> set (wd_leases db). \<exists>x \<in> set (db_rows (wd_dispatch db)).
         lw_lease_id l = aw_lease_id a \<and> lw_generation l = at_lease_generation (aw_record a)
         \<and> row_id x = aw_request_id a \<and> dr_resource_key (sx_record x) = lw_worktree_key l
         \<and> (dispatch_is_terminal (row_phase x) \<or> holds_reservation (lw_state l)))
    \<and> (\<forall>a \<in> set (wd_attempts db). \<forall>b \<in> set (wd_attempts db).
         aw_lease_id a = aw_lease_id b \<and> attempt_unsettled db (aw_record a) \<and> attempt_unsettled db (aw_record b)
         \<longrightarrow> a = b)"
proof -
  have inv: "lease_inv env db" unfolding db using lease_inv_run [OF assms(1)] .
  note parts = inv [unfolded lease_inv_def one_holder_def one_generation_def generations_known_def]
  have phase: "\<exists>p. attempt_phase db (aw_request_id a) = Some p \<and> at_request_id (aw_record a) = aw_request_id a"
    if "a \<in> set (wd_attempts db)" for a
  proof -
    have "attempt_bound (wd_dispatch db) (wd_leases db) a" using parts that by blast
    then obtain x where "x \<in> set (db_rows (wd_dispatch db))" "row_id x = aw_request_id a" "attempt_row_consistent a"
      unfolding attempt_bound_def by blast
    then show ?thesis using attempt_phase_row [of env db x] parts by (auto simp: attempt_row_consistent_def)
  qed
  have "a = b" if "a \<in> set (wd_leases db)" "b \<in> set (wd_leases db)" "lw_lease_id a = lw_lease_id b" for a b
    using distinct_id [of lw_lease_id "wd_leases db" a b] parts that by blast
  then have "(\<forall>a \<in> set (wd_leases db). \<forall>b \<in> set (wd_leases db).
      (holds_reservation (lw_state a) \<and> holds_reservation (lw_state b)
         \<and> (lw_slot_id a = lw_slot_id b \<or> lw_worktree_key a = lw_worktree_key b)
       \<or> lw_slot_id a = lw_slot_id b \<and> lw_generation a = lw_generation b) \<longrightarrow> a = b)"
    using parts by blast
  moreover have "\<forall>a \<in> set (wd_attempts db). \<forall>b \<in> set (wd_attempts db).
      aw_lease_id a = aw_lease_id b \<and> attempt_unsettled db (aw_record a) \<and> attempt_unsettled db (aw_record b) \<longrightarrow> a = b"
  proof (intro ballI impI)
    fix a b
    assume a: "a \<in> set (wd_attempts db)" and b: "b \<in> set (wd_attempts db)"
      and ab: "aw_lease_id a = aw_lease_id b \<and> attempt_unsettled db (aw_record a) \<and> attempt_unsettled db (aw_record b)"
    from phase [OF a] phase [OF b] ab unsettled_attempt_unique [OF inv a _ _ b] show "a = b"
      by (auto simp: attempt_unsettled_def)
  qed
  moreover have "\<forall>a \<in> set (wd_attempts db). \<exists>l \<in> set (wd_leases db). \<exists>x \<in> set (db_rows (wd_dispatch db)).
      lw_lease_id l = aw_lease_id a \<and> lw_generation l = at_lease_generation (aw_record a)
      \<and> row_id x = aw_request_id a \<and> dr_resource_key (sx_record x) = lw_worktree_key l
      \<and> (dispatch_is_terminal (row_phase x) \<or> holds_reservation (lw_state l))"
    using parts unfolding attempt_bound_def by blast
  ultimately show ?thesis using parts by blast
qed

subsection \<open>An instance\<close>

definition example_workflow_env :: workflow_env where
  "example_workflow_env = \<lparr>we_dispatch = example_env, we_payload_ok = (\<lambda>_. True), we_uuid_simple = (\<lambda>_. ''''),
     we_parse_uuid = (\<lambda>_. None), we_slot_json = (\<lambda>_. Some ''''), we_spec_digest = (\<lambda>_. Inr 1),
     we_fingerprint = (\<lambda>_. Inr 1)\<rparr>"

definition example_slot :: slot_facts where
  "example_slot = \<lparr>sf_slot_id = ''s'', sf_harness = Claude, sf_interface_mode = ModeStructured, sf_capabilities = [],
     sf_health = HealthIdle, sf_route_role = None, sf_cooldown_until_ms = None, sf_leased_generation = None,
     sf_budget = BudgetUnknown\<rparr>"

definition example_contract :: contract_artifact where
  "example_contract = \<lparr>ct_schema_version = 1, ct_contract_id = 1, ct_workflow_key = ''flow'', ct_task_key = ''a'',
     ct_contract_version = 1, ct_task_spec_digest = 1, ct_policy_digest = 2, ct_template_digest = 1,
     ct_template_version = ''v1'', ct_harness_profile = ''p'', ct_route_transformation = RtNone,
     ct_context_bundle_digests = [], ct_base_commit = replicate 40 (CHR ''a''), ct_rendered_prompt_digest = 1,
     ct_rendered_prompt_bytes = 1, ct_previous_contract_id = None, ct_semantic_diff = None\<rparr>"

definition example_lease :: "uuid \<Rightarrow> digest \<Rightarrow> lease_request" where
  "example_lease i k = \<lparr>lq_lease_id = i, lq_workflow_id = 1, lq_task_key = ''a'', lq_slot_id = ''s'', lq_worktree_key = k,
     lq_heartbeat_deadline_ms = 50, lq_timestamp = 10\<rparr>"

lemma example_workflow_env_simps [simp]: "we_dispatch example_workflow_env = example_env"
  "we_payload_ok example_workflow_env p" "we_slot_json example_workflow_env x = Some []"
  "we_fingerprint example_workflow_env f = Inr 1"
  by (simp_all add: example_workflow_env_def)

definition example_prepared :: workflow_record where
  "example_prepared = sample_workflow\<lparr>wr_phase := PhasePrepared, wr_version := 1\<rparr>"

lemma example_prepared_valid [simp]: "workflow_validate example_prepared = Inr ()"
  "workflow_validate (example_prepared\<lparr>wr_phase := p, wr_version := 2, wr_updated_at_ms := m, wr_blocked_reason := b\<rparr>) = Inr ()"
  using sample_workflow_valid by (simp_all add: workflow_validate_def example_prepared_def Let_def split: if_splits)

lemma example_prepared_fields [simp]: "wr_phase example_prepared = PhasePrepared" "wr_version example_prepared = 1"
  "wr_workflow_id example_prepared = 1" "wr_request_key example_prepared = ''req''" "wr_tasks example_prepared = [sample_task]"
  "wr_workflow_key example_prepared = ''flow''" "wr_base_commit example_prepared = replicate 40 (CHR ''a'')"
  by (simp_all add: example_prepared_def sample_workflow_def)

lemma example_contract_fields [simp]: "ct_contract_id example_contract = 1" "ct_task_key example_contract = ''a''"
  "ct_workflow_key example_contract = ''flow''" "ct_contract_version example_contract = 1"
  "ct_base_commit example_contract = replicate 40 (CHR ''a'')"
  by (simp_all add: example_contract_def)

definition example_step :: "workflow_db \<Rightarrow> workflow_op \<Rightarrow> workflow_store_error + workflow_db" where
  "example_step = workflow_store_step example_workflow_env (\<lambda>_ _. Inr ())"

definition example_history :: "workflow_op list" where
  "example_history =
     [WoSlot 9 example_slot 1, WoPrepare 9 example_prepared [example_contract] 2, WoTransition 9 1 1 PhaseRunning None 3,
      WoAcquire 9 (example_lease 31 7), WoAcquire 9 (example_lease 32 8)]"

lemmas store_defs = append_event_def insert_event_def workflow_draft_def Let_def committed_def

lemma example_slot_stored: "\<exists>e1 k1. example_step workflow_db_init (WoSlot 9 example_slot 1) =
    Inr (workflow_db_init\<lparr>wd_dispatch := \<lparr>db_rows = [], db_events = [e1]\<rparr>,
      wd_slots := [\<lparr>sw_slot_id = ''s'', sw_record = example_slot, sw_last_generation = 0, sw_updated_sequence = 1\<rparr>]\<rparr>)
    \<and> ee_idempotency_key e1 = ''workflow_slot:'' @ k1"
  by (simp add: example_step_def workflow_store_step_def workflow_db_init_def upsert_workflow_slot_def load_slot_def
      store_defs upsert_slot_def example_slot_def)

definition example_run_db :: "event_envelope list \<Rightarrow> workflow_record \<Rightarrow> nat \<Rightarrow> workflow_db" where
  "example_run_db es r n = workflow_db_init\<lparr>wd_dispatch := \<lparr>db_rows = [], db_events = es\<rparr>,
     wd_slots := [\<lparr>sw_slot_id = ''s'', sw_record = example_slot, sw_last_generation = 0, sw_updated_sequence = 1\<rparr>],
     wd_contracts := [(1, example_contract)],
     wd_workflows := [\<lparr>ww_workflow_id = 1, ww_request_key = ''req'', ww_fingerprint = 1, ww_phase = wr_phase r,
       ww_version = wr_version r, ww_record = r, ww_updated_sequence = n\<rparr>]\<rparr>"

lemma example_workflow_prepared:
  assumes "ee_idempotency_key e1 = ''workflow_slot:'' @ k1"
  shows "\<exists>e2 k2. example_step (workflow_db_init\<lparr>wd_dispatch := \<lparr>db_rows = [], db_events = [e1]\<rparr>,
      wd_slots := [\<lparr>sw_slot_id = ''s'', sw_record = example_slot, sw_last_generation = 0, sw_updated_sequence = 1\<rparr>]\<rparr>)
      (WoPrepare 9 example_prepared [example_contract] 2) = Inr (example_run_db [e1, e2] example_prepared 2)
    \<and> ee_idempotency_key e2 = ''workflow_prepared:'' @ k2"
  using assms
  by (simp add: example_step_def workflow_store_step_def workflow_db_init_def prepare_workflow_def prepare_new_def
      contract_matches_def admission_fingerprint_def load_workflow_by_request_def load_workflow_where_def
      charge_compiler_for_prepare_def load_owner_def insert_contract_if_absent_def load_contract_def insert_workflow_def
      fits_i64_def store_defs example_run_db_def sample_task_def)

lemma example_workflow_running:
  assumes "ee_idempotency_key e1 = ''workflow_slot:'' @ k1" "ee_idempotency_key e2 = ''workflow_prepared:'' @ k2"
  shows "\<exists>e3 k3. example_step (example_run_db [e1, e2] example_prepared 2) (WoTransition 9 1 1 PhaseRunning None 3)
      = Inr (example_run_db [e1, e2, e3] (example_prepared\<lparr>wr_phase := PhaseRunning, wr_version := 2,
          wr_updated_at_ms := max (millis 3) (wr_updated_at_ms example_prepared), wr_blocked_reason := None\<rparr>) 3)
    \<and> ee_idempotency_key e3 = ''workflow_phase:'' @ k3"
  using assms
  by (simp add: example_step_def workflow_store_step_def workflow_db_init_def transition_workflow_def load_existing_workflow_def
      load_workflow_def load_workflow_where_def workflow_row_consistent_def with_phase_def checked_add_def
      blocked_reason_of_def update_workflow_def fits_i64_def store_defs example_run_db_def)

lemma example_leases:
  assumes "ee_idempotency_key e1 = ''workflow_slot:'' @ k1" "ee_idempotency_key e2 = ''workflow_prepared:'' @ k2"
    "ee_idempotency_key e3 = ''workflow_phase:'' @ k3"
    and r: "wr_phase r = PhaseRunning" "wr_version r = 2" "wr_workflow_id r = 1" "wr_request_key r = ''req''"
      "wr_tasks r = [sample_task]" "workflow_validate r = Inr ()"
  shows "\<exists>db. example_step (example_run_db [e1, e2, e3] r 3) (WoAcquire 9 (example_lease 31 7)) = Inr db
    \<and> map lw_record (wd_leases db) = [new_lease (example_lease 31 7) 1]
    \<and> example_step db (WoAcquire 9 (example_lease 32 8)) = Inl (WsCode ''store_workflow_slot_busy'')"
  using assms
  by (simp add: example_step_def workflow_store_step_def workflow_db_init_def acquire_workflow_lease_def grant_lease_def
      load_lease_def query_leases_def holder_def first_of_def load_slot_def bump_slot_generation_def insert_lease_def
      load_existing_workflow_def load_workflow_def load_workflow_where_def workflow_row_consistent_def checked_add_def
      admits_work_def workflow_task_of_def new_lease_def holds_reservation_def lease_row_consistent_def
      example_lease_def example_slot_def fits_i64_def store_defs example_run_db_def sample_task_def)

theorem lease_histories_exclusive_witness:
  "\<exists>db. db = run_events example_step workflow_db_init example_history
    \<and> map lw_record (wd_leases db) = [new_lease (example_lease 31 7) 1]
    \<and> (\<forall>l \<in> set (wd_leases db). \<exists>s \<in> set (wd_slots db). sw_slot_id s = lw_slot_id l
         \<and> lw_generation l \<le> sw_last_generation s)"
proof -
  obtain e1 k1 where 1: "example_step workflow_db_init (WoSlot 9 example_slot 1) =
      Inr (workflow_db_init\<lparr>wd_dispatch := \<lparr>db_rows = [], db_events = [e1]\<rparr>,
        wd_slots := [\<lparr>sw_slot_id = ''s'', sw_record = example_slot, sw_last_generation = 0, sw_updated_sequence = 1\<rparr>]\<rparr>)"
    "ee_idempotency_key e1 = ''workflow_slot:'' @ k1"
    using example_slot_stored by blast
  obtain e2 k2 where 2: "example_step (workflow_db_init\<lparr>wd_dispatch := \<lparr>db_rows = [], db_events = [e1]\<rparr>,
      wd_slots := [\<lparr>sw_slot_id = ''s'', sw_record = example_slot, sw_last_generation = 0, sw_updated_sequence = 1\<rparr>]\<rparr>)
      (WoPrepare 9 example_prepared [example_contract] 2) = Inr (example_run_db [e1, e2] example_prepared 2)"
    "ee_idempotency_key e2 = ''workflow_prepared:'' @ k2"
    using example_workflow_prepared [OF 1(2)] by blast
  let ?r = "example_prepared\<lparr>wr_phase := PhaseRunning, wr_version := 2,
    wr_updated_at_ms := max (millis 3) (wr_updated_at_ms example_prepared), wr_blocked_reason := None\<rparr>"
  obtain e3 k3 where 3: "example_step (example_run_db [e1, e2] example_prepared 2) (WoTransition 9 1 1 PhaseRunning None 3)
      = Inr (example_run_db [e1, e2, e3] ?r 3)" "ee_idempotency_key e3 = ''workflow_phase:'' @ k3"
    using example_workflow_running [OF 1(2) 2(2)] by blast
  obtain db where 4: "example_step (example_run_db [e1, e2, e3] ?r 3) (WoAcquire 9 (example_lease 31 7)) = Inr db"
    "map lw_record (wd_leases db) = [new_lease (example_lease 31 7) 1]"
    "example_step db (WoAcquire 9 (example_lease 32 8)) = Inl (WsCode ''store_workflow_slot_busy'')"
    using example_leases [OF 1(2) 2(2) 3(2), of ?r] by auto
  have run: "run_events example_step workflow_db_init example_history = db"
    unfolding example_history_def by (simp add: 1(1) 2(1) 3(1) 4(1,3) del: One_nat_def)
  have env: "env_ok (we_dispatch example_workflow_env)" using example_env_ok by simp
  have "\<forall>l \<in> set (wd_leases db). \<exists>s \<in> set (wd_slots db). sw_slot_id s = lw_slot_id l \<and> lw_generation l \<le> sw_last_generation s"
    using lease_histories_exclusive [OF env run [unfolded example_step_def, symmetric]] by (elim conjE)
  with run [symmetric] 4(2) show ?thesis by (intro exI [of _ db] conjI)
qed

end
