(* ===== verification/Call_Ledger.thy ===== *)
theory Call_Ledger
  imports Workflow_Histories
begin

text \<open>
  The ledger of model calls over histories of the workflow writer,
  \<open>crates/vibemux_store/src/workflow/model_calls.rs\<close>. Every reserved call has a number of its own under its owner, an
  owner never uses more calls than it declared, and what a workflow's owners have used and what its budget still
  holds always add up to what was admitted. A call is submitted at most once, and after recovery no call is left
  submitted.
\<close>

section \<open>The invariant\<close>

definition workflow_ids :: "workflow_db \<Rightarrow> uuid list" where
  "workflow_ids db = map ww_workflow_id (wd_workflows db)"

definition budgets :: "workflow_db \<Rightarrow> (uuid \<times> u32) list" where
  "budgets db = map (\<lambda>row. (ww_workflow_id row, lb_model_requests_remaining (wr_budget (ww_record row)))) (wd_workflows db)"

definition owner_uses :: "workflow_db \<Rightarrow> spec_identifier \<Rightarrow> nat list" where
  "owner_uses db key = map (\<lambda>k. unat (mc_calls_used (kw_record k))) (filter (\<lambda>k. kw_owner_key k = key) (wd_calls db))"

text \<open>What a workflow has left and what its owners have used.\<close>

definition model_budget :: "workflow_db \<Rightarrow> uuid \<Rightarrow> nat" where
  "model_budget db w =
     sum_list (map (\<lambda>p. if fst p = w then unat (snd p) else 0) (budgets db))
     + sum_list (map (\<lambda>ow. if ow_workflow_id ow = Some w then unat (ow_calls_used ow) else 0) (wd_owners db))"

definition owner_ok :: "workflow_db \<Rightarrow> call_owner_row \<Rightarrow> bool" where
  "owner_ok db ow \<longleftrightarrow> owner_uses db (ow_owner_key ow) = [1..<Suc (unat (ow_calls_used ow))]
     \<and> ow_calls_used ow \<le> ow_max_calls ow \<and> ow_max_calls ow \<le> MAX_MODEL_CALLS_PER_OWNER
     \<and> (case ow_workflow_id ow of None \<Rightarrow> True | Some w \<Rightarrow> w \<in> set (workflow_ids db))"

definition call_row_ok :: "workflow_db \<Rightarrow> call_row \<Rightarrow> bool" where
  "call_row_ok db k \<longleftrightarrow> mc_call_id (kw_record k) = kw_call_id k \<and> ma_owner_key (mc_admission (kw_record k)) = kw_owner_key k
     \<and> kw_state k = mc_state (kw_record k) \<and> call_validate (kw_record k) = Inr ()
     \<and> kw_owner_key k \<in> ow_owner_key ` set (wd_owners db)"

definition ledger_inv :: "workflow_db \<Rightarrow> bool" where
  "ledger_inv db \<longleftrightarrow> distinct (workflow_ids db) \<and> distinct (map ow_owner_key (wd_owners db))
     \<and> distinct (map kw_call_id (wd_calls db))
     \<and> (\<forall>ow \<in> set (wd_owners db). owner_ok db ow) \<and> (\<forall>k \<in> set (wd_calls db). call_row_ok db k)"

text \<open>A call only moves forward: its identity stays, a settled record is final, and it is never reserved again.\<close>

definition call_later :: "model_call_record \<Rightarrow> model_call_record \<Rightarrow> bool" where
  "call_later r s \<longleftrightarrow> same_call r s \<and> (is_settled (mc_state r) \<longrightarrow> s = r)
     \<and> (mc_state r \<noteq> McReserved \<longrightarrow> mc_state s \<noteq> McReserved)"

definition calls_later :: "workflow_db \<Rightarrow> workflow_db \<Rightarrow> bool" where
  "calls_later db db' \<longleftrightarrow> (\<forall>k \<in> set (wd_calls db). \<exists>k' \<in> set (wd_calls db'). kw_call_id k' = kw_call_id k
     \<and> call_later (kw_record k) (kw_record k'))"

definition conserved :: "workflow_db \<Rightarrow> workflow_db \<Rightarrow> bool" where
  "conserved db db' \<longleftrightarrow> (\<forall>w \<in> set (workflow_ids db). w \<in> set (workflow_ids db') \<and> model_budget db' w = model_budget db w)"

definition ledger_move :: "workflow_db \<Rightarrow> workflow_db \<Rightarrow> bool" where
  "ledger_move db db' \<longleftrightarrow> (ledger_inv db \<longrightarrow> ledger_inv db' \<and> calls_later db db' \<and> conserved db db')"

lemma call_later_refl [simp]: "call_later r r"
  by (simp add: call_later_def same_call_def)

lemma call_later_trans: "call_later a b \<Longrightarrow> call_later b c \<Longrightarrow> call_later a c"
  by (auto simp: call_later_def same_call_def)

lemma calls_later_refl [simp]: "calls_later db db"
  by (auto simp: calls_later_def)

lemma calls_later_trans: "calls_later a b \<Longrightarrow> calls_later b c \<Longrightarrow> calls_later a c"
  unfolding calls_later_def by (metis call_later_trans)

lemma ledger_move_refl [simp]: "ledger_move db db"
  by (simp add: ledger_move_def conserved_def)

lemma ledger_move_trans: "ledger_move a b \<Longrightarrow> ledger_move b c \<Longrightarrow> ledger_move a c"
  unfolding ledger_move_def conserved_def by (auto intro: calls_later_trans)

lemma budget_ids: "map fst (budgets db) = workflow_ids db"
  by (simp add: budgets_def workflow_ids_def comp_def)

section \<open>Commands that leave the ledger alone\<close>

definition calm :: "workflow_db \<Rightarrow> workflow_db \<Rightarrow> bool" where
  "calm db db' \<longleftrightarrow> wd_calls db' = wd_calls db \<and> wd_owners db' = wd_owners db
     \<and> (distinct (workflow_ids db) \<longrightarrow> budgets db' = budgets db)"

lemma calm_refl [simp]: "calm db db"
  by (simp add: calm_def)

lemma calm_trans: "calm a b \<Longrightarrow> calm b c \<Longrightarrow> calm a c"
  by (auto simp: calm_def) (metis budget_ids)

lemma calm_move:
  assumes "calm db db'"
  shows "ledger_move db db'"
  unfolding ledger_move_def
proof (intro impI)
  assume inv: "ledger_inv db"
  with assms have same: "wd_calls db' = wd_calls db" "wd_owners db' = wd_owners db" "budgets db' = budgets db"
    by (simp_all add: calm_def ledger_inv_def)
  then have ids: "workflow_ids db' = workflow_ids db" by (metis budget_ids)
  have "ledger_inv db'"
    using inv unfolding ledger_inv_def owner_ok_def call_row_ok_def owner_uses_def same ids .
  then show "ledger_inv db' \<and> calls_later db db' \<and> conserved db db'"
    by (simp add: calls_later_def conserved_def model_budget_def same ids) (metis call_later_refl)
qed

lemma calm_tables [simp]:
  "calm db (db'\<lparr>wd_dispatch := d\<rparr>) = calm db db'"
  "calm db (db'\<lparr>wd_contracts := cs\<rparr>) = calm db db'"
  "calm db (db'\<lparr>wd_authorities := as\<rparr>) = calm db db'"
  "calm db (db'\<lparr>wd_slots := ss\<rparr>) = calm db db'"
  "calm db (db'\<lparr>wd_leases := ls\<rparr>) = calm db db'"
  "calm db (db'\<lparr>wd_attempts := ts\<rparr>) = calm db db'"
  by (simp_all add: calm_def budgets_def)

lemma append_calm: "append_event env fp db t k p ts = Inr (db1, e, n) \<Longrightarrow> calm db db1"
  by (auto dest: append_event_Inr)

lemma update_workflow_budgets:
  assumes "update_workflow db r v n = Inr db'" and "distinct (workflow_ids db)"
  shows "wd_calls db' = wd_calls db \<and> wd_owners db' = wd_owners db
    \<and> budgets db' = map (\<lambda>p. if fst p = wr_workflow_id r
        then (fst p, lb_model_requests_remaining (wr_budget r)) else p) (budgets db)
    \<and> wr_workflow_id r \<in> set (workflow_ids db)"
proof -
  let ?hit = "\<lambda>row. ww_workflow_id row = wr_workflow_id r \<and> ww_version row = v"
  have one: "length (filter ?hit (wd_workflows db)) = 1" and db': "db' = db\<lparr>wd_workflows := map (\<lambda>row. if ?hit row
      then row\<lparr>ww_phase := wr_phase r, ww_version := wr_version r, ww_record := r, ww_updated_sequence := n\<rparr>
      else row) (wd_workflows db)\<rparr>"
    using assms(1) by (auto simp: update_workflow_def Let_def split: sum.splits if_splits)
  from one have "filter ?hit (wd_workflows db) \<noteq> []" by auto
  then obtain row where row: "row \<in> set (wd_workflows db)" "?hit row" by (auto simp: filter_empty_conv)
  have "?hit x" if "x \<in> set (wd_workflows db)" "ww_workflow_id x = wr_workflow_id r" for x
    using that row assms(2) inj_onD [of ww_workflow_id "set (wd_workflows db)" x row] by (auto simp: workflow_ids_def distinct_map)
  then have "budgets db' = map (\<lambda>p. if fst p = wr_workflow_id r
      then (fst p, lb_model_requests_remaining (wr_budget r)) else p) (budgets db)"
    unfolding db' budgets_def by auto
  moreover have "wd_calls db' = wd_calls db" "wd_owners db' = wd_owners db" by (simp_all add: db')
  moreover have "wr_workflow_id r \<in> set (workflow_ids db)" using row by (simp add: workflow_ids_def) (metis image_eqI)
  ultimately show ?thesis by blast
qed

lemma load_existing_workflow_row:
  assumes "load_existing_workflow db w = Inr stored"
  shows "wr_workflow_id (sg_record stored) = w
    \<and> (w, lb_model_requests_remaining (wr_budget (sg_record stored))) \<in> set (budgets db)"
proof -
  obtain row where "find (\<lambda>row. ww_workflow_id row = w) (wd_workflows db) = Some row" "workflow_row_consistent row"
    "sg_record stored = ww_record row"
    using assms by (auto simp: load_existing_workflow_def load_workflow_def load_workflow_where_def
        split: sum.splits option.splits if_splits)
  then show ?thesis
    by (force simp: workflow_row_consistent_def budgets_def dest!: find_Some_filter)
qed

lemma same_budget:
  "distinct (map fst xs) \<Longrightarrow> (w, b) \<in> set xs \<Longrightarrow> map (\<lambda>p. if fst p = w then (fst p, b) else p) xs = xs"
proof (induction xs)
  case (Cons x xs)
  then show ?case
  proof (cases "x = (w, b)")
    case True
    then have "w \<notin> fst ` set xs" using Cons.prems by simp
    then show ?thesis using True by (force intro!: map_idI)
  next
    case False
    with Cons have "(w, b) \<in> set xs" by auto
    with Cons show ?thesis by (auto simp: image_iff)
  qed
qed simp

lemma update_workflow_calm:
  assumes "update_workflow db1 r v n = Inr db'" and "load_existing_workflow db w = Inr stored" and "calm db db1"
    and "wr_workflow_id r = wr_workflow_id (sg_record stored)"
    and "lb_model_requests_remaining (wr_budget r) = lb_model_requests_remaining (wr_budget (sg_record stored))"
  shows "calm db db'"
proof -
  have "budgets db' = budgets db" if d: "distinct (workflow_ids db)"
  proof -
    have b: "budgets db1 = budgets db" using assms(3) d by (simp add: calm_def)
    then have "distinct (workflow_ids db1)" using d by (metis budget_ids)
    note u = update_workflow_budgets [OF assms(1) this]
    have "wr_workflow_id r = w" "(w, lb_model_requests_remaining (wr_budget r)) \<in> set (budgets db)"
      using load_existing_workflow_row [OF assms(2)] assms(4,5) by simp_all
    then show ?thesis using u same_budget [of "budgets db" w] d by (simp add: b budget_ids)
  qed
  moreover have "wd_calls db' = wd_calls db \<and> wd_owners db' = wd_owners db"
    using assms(3) update_workflow_table [OF assms(1)] by (auto simp: calm_def)
  ultimately show ?thesis by (simp add: calm_def)
qed

lemma with_phase_budget: "with_phase r p t = Inr s \<Longrightarrow> wr_workflow_id s = wr_workflow_id r \<and> wr_budget s = wr_budget r"
  by (auto simp: with_phase_def split: if_splits option.splits)

lemma transition_calm:
  assumes "transition_workflow env fp db w v phase reason ts = Inr (db', c)"
  shows "calm db db'"
proof -
  obtain stored leases moved t k p db1 e n where stored: "load_existing_workflow db w = Inr stored"
    and moved: "with_phase (sg_record stored) phase (millis ts) = Inr moved"
    and a: "append_event env fp db t k p ts = Inr (db1, e, n)"
    and u: "update_workflow db1 (moved\<lparr>wr_blocked_reason := blocked_reason_of phase reason\<rparr>)
        (wr_version (sg_record stored)) n = Inr db'"
    using assms by (auto simp: transition_workflow_def Let_def split: sum.splits if_splits prod.splits)
  show ?thesis
    by (rule update_workflow_calm [OF u stored append_calm [OF a]]) (use with_phase_budget [OF moved] in simp_all)
qed

lemma insert_contract_calm: "insert_contract_if_absent db c = Inr db' \<Longrightarrow> calm db db'"
  by (drule insert_contract_table) auto

lemma generation_calm:
  assumes "add_contract_generation env fp db w v artifact ts = Inr (db', c)"
  shows "calm db db'"
proof -
  obtain stored t k p db1 db2 e n f g h where stored: "load_existing_workflow db w = Inr stored"
    and a: "append_event env fp db t k p ts = Inr (db1, e, n)" and i: "insert_contract_if_absent db1 artifact = Inr db2"
    and u: "update_workflow db2 ((sg_record stored)\<lparr>wr_tasks := f, wr_version := g, wr_updated_at_ms := h\<rparr>)
        (wr_version (sg_record stored)) n = Inr db'"
    using assms by (auto simp: add_contract_generation_def Let_def split: sum.splits option.splits if_splits prod.splits)
  show ?thesis
    by (rule update_workflow_calm [OF u stored calm_trans [OF append_calm [OF a] insert_contract_calm [OF i]]]) simp_all
qed

lemma authority_calm: "bind_workflow_contract_authority env fp db c spec ts = Inr db' \<Longrightarrow> calm db db'"
  by (auto simp: bind_workflow_contract_authority_def split: sum.splits option.splits if_splits prod.splits dest!: append_calm)

lemma slot_calm: "upsert_workflow_slot env fp db slot ts = Inr (db', e) \<Longrightarrow> calm db db'"
  by (auto simp: upsert_workflow_slot_def upsert_slot_def Let_def split: if_splits sum.splits option.splits dest!: append_calm)

lemma acquire_calm: "acquire_workflow_lease env fp db request = Inr (db', c) \<Longrightarrow> calm db db'"
  by (auto simp: acquire_workflow_lease_def grant_lease_def bump_slot_generation_def insert_lease_def Let_def
      split: sum.splits option.splits if_splits prod.splits dest!: append_calm)

lemma change_calm: "change_workflow_lease env fp db i ev h reason ts = Inr (db', c) \<Longrightarrow> calm db db'"
  by (auto simp: change_workflow_lease_def update_lease_def Let_def
      split: sum.splits option.splits if_splits prod.splits dest!: append_calm)

lemma recover_leases_calm: "calm db (fst (recover_leases env fp ts leases db y))"
proof (induction leases arbitrary: db y)
  case (Cons l ls)
  then show ?case by (auto split: sum.splits dest!: change_calm intro: calm_trans)
qed simp

lemma charge_attempt_budget: "charge_attempt r adm = Inr s \<Longrightarrow> wr_workflow_id s = wr_workflow_id r \<and> wr_budget s = wr_budget r"
  by (auto simp: charge_attempt_def charge_turn_def Let_def split: if_splits sum.splits option.splits)

lemma admit_dispatch_calm: "admit_dispatch_in env fresh db adm = Inr (db', c) \<Longrightarrow> calm db db'"
  by (auto simp: admit_dispatch_in_def split: sum.splits prod.splits)

lemma admit_new_attempt_calm:
  assumes stored: "load_existing_workflow db w = Inr stored"
    and step: "admit_new_attempt env check fresh db (sg_record stored) adm = Inr (db', c)"
  shows "calm db db'"
proof -
  obtain u z task paid version where u: "check db adm = Inr u" and z: "check_attempt_lease db adm = Inr z"
    and task: "workflow_task_of (sg_record stored) (aa_task_key adm) = Some task"
    and paid: "charge_attempt (sg_record stored) adm = Inr paid" and version: "checked_add (wr_version paid) 1 = Some version"
    using step by (auto simp: admit_new_attempt_def Let_def split: sum.splits option.splits if_splits)
  note rest = step [unfolded admit_new_attempt_def Let_def u z task paid version sum.case option.case]
  then obtain db1 commit where d: "admit_dispatch_in env fresh db (aa_dispatch adm) = Inr (db1, commit)"
    by (auto split: sum.splits if_splits)
  note rest = rest [unfolded d sum.case prod.case]
  then obtain t k p ts db2 e n db3 m where a: "append_event env (fst fresh) db1 t k p ts = Inr (db2, e, n)"
    and i: "insert_attempt db2 (new_attempt adm) n = Inr db3"
    and up: "update_workflow db3 (paid\<lparr>wr_version := version, wr_updated_at_ms := m\<rparr>) (wr_version (sg_record stored)) n = Inr db'"
    by (auto split: sum.splits if_splits prod.splits)
  have "calm db2 db3" using i by (auto simp: insert_attempt_def split: if_splits)
  then have "calm db db3" using admit_dispatch_calm [OF d] append_calm [OF a] calm_trans by blast
  then show ?thesis
    by (rule update_workflow_calm [OF up stored]) (use charge_attempt_budget [OF paid] in simp_all)
qed

lemma attempt_calm:
  assumes step: "admit_workflow_attempt env check fresh db adm = Inr (db', c)"
  shows "calm db db'"
proof -
  obtain stored where stored: "load_existing_workflow db (aa_workflow_id adm) = Inr stored"
    using step by (auto simp: admit_workflow_attempt_def Let_def split: sum.splits)
  have "calm db db1" if "admit_dispatch_in env fresh db (aa_dispatch adm) = Inr (db1, k)" for db1 k
    using admit_dispatch_calm [OF that] .
  moreover have "calm db db'" if "admit_new_attempt env check fresh db (sg_record stored) adm = Inr (db', c)"
    using admit_new_attempt_calm [OF stored that] .
  ultimately show ?thesis using step stored
    by (auto simp: admit_workflow_attempt_def Let_def split: sum.splits option.splits if_splits)
qed

section \<open>Moving a call\<close>

lemma load_existing_call_row:
  assumes "load_existing_call db i = Inr r"
  shows "mc_call_id r = i \<and> call_validate r = Inr () \<and> (\<exists>k \<in> set (wd_calls db). kw_call_id k = i \<and> kw_record k = r)"
proof -
  obtain row where "find (\<lambda>row. kw_call_id row = i) (wd_calls db) = Some row" "kw_record row = r"
    "mc_call_id r = i" "call_validate r = Inr ()"
    using assms by (auto simp: load_existing_call_def load_call_def split: sum.splits option.splits if_splits)
  then show ?thesis by (auto dest!: find_Some_filter)
qed

lemma ledger_map_calls:
  assumes inv: "ledger_inv db"
    and f: "\<And>k. k \<in> set (wd_calls db) \<Longrightarrow> kw_call_id (f k) = kw_call_id k \<and> kw_owner_key (f k) = kw_owner_key k
      \<and> kw_state (f k) = mc_state (kw_record (f k)) \<and> call_validate (kw_record (f k)) = Inr ()
      \<and> call_later (kw_record k) (kw_record (f k))"
  shows "ledger_inv (db\<lparr>wd_calls := map f (wd_calls db)\<rparr>)
    \<and> calls_later db (db\<lparr>wd_calls := map f (wd_calls db)\<rparr>) \<and> conserved db (db\<lparr>wd_calls := map f (wd_calls db)\<rparr>)"
proof -
  let ?db = "db\<lparr>wd_calls := map f (wd_calls db)\<rparr>"
  have ids: "map kw_call_id (map f (wd_calls db)) = map kw_call_id (wd_calls db)" using f by simp
  have uses: "owner_uses ?db key = owner_uses db key" for key
  proof -
    have "map (\<lambda>k. unat (mc_calls_used (kw_record k))) (filter (\<lambda>k. kw_owner_key k = key) (map f ks))
        = map (\<lambda>k. unat (mc_calls_used (kw_record k))) (filter (\<lambda>k. kw_owner_key k = key) ks)"
      if "set ks \<subseteq> set (wd_calls db)" for ks
      using that f by (induction ks) (auto simp: call_later_def same_call_def)
    then show ?thesis by (simp add: owner_uses_def)
  qed
  have same: "workflow_ids ?db = workflow_ids db" "wd_owners ?db = wd_owners db" "model_budget ?db w = model_budget db w" for w
    by (simp_all add: workflow_ids_def model_budget_def budgets_def)
  have "owner_ok ?db ow = owner_ok db ow" for ow unfolding owner_ok_def uses same ..
  moreover have "call_row_ok ?db (f k)" if "k \<in> set (wd_calls db)" for k
  proof -
    have "same_call (kw_record k) (kw_record (f k))" "call_row_ok db k"
      using f [OF that] inv that by (simp_all add: call_later_def ledger_inv_def)
    then show ?thesis using f [OF that] by (simp add: call_row_ok_def same_call_def)
  qed
  ultimately have "ledger_inv ?db"
    using inv ids unfolding ledger_inv_def same by (simp del: map_map)
  moreover have "calls_later db ?db" using f by (auto simp: calls_later_def)
  moreover have "conserved db ?db" by (simp add: conserved_def same)
  ultimately show ?thesis by blast
qed

lemma persist_move:
  assumes load: "load_existing_call db i = Inr r" and later: "call_later r s" and valid: "call_validate s = Inr ()"
    and p: "persist env fp now db s kind = Inr db'"
  shows "ledger_move db db'"
  unfolding ledger_move_def
proof (intro impI)
  assume inv: "ledger_inv db"
  obtain d e n where db': "db' = db\<lparr>wd_dispatch := d, wd_calls := map (\<lambda>row. if kw_call_id row = mc_call_id s
        then row\<lparr>kw_state := mc_state s, kw_record := s, kw_updated_sequence := n\<rparr> else row) (wd_calls db)\<rparr>"
    using p by (rule persist_Inr)
  from load_existing_call_row [OF load] obtain k where k: "k \<in> set (wd_calls db)" "kw_call_id k = i" "kw_record k = r"
    and i: "mc_call_id r = i" by blast
  have unique: "kw_record x = r" if "x \<in> set (wd_calls db)" "kw_call_id x = i" for x
    using that k inv inj_onD [of kw_call_id "set (wd_calls db)" x k] by (auto simp: ledger_inv_def distinct_map)
  have s: "mc_call_id s = i" using later i by (simp add: call_later_def same_call_def)
  let ?db = "db\<lparr>wd_dispatch := d\<rparr>"
  have db: "ledger_move db ?db" by (rule calm_move) simp
  have "ledger_move ?db db'"
    unfolding ledger_move_def
  proof (intro impI)
    assume "ledger_inv ?db"
    let ?f = "\<lambda>row. if kw_call_id row = mc_call_id s
        then row\<lparr>kw_state := mc_state s, kw_record := s, kw_updated_sequence := n\<rparr> else row"
    have "kw_call_id (?f k) = kw_call_id k \<and> kw_owner_key (?f k) = kw_owner_key k
      \<and> kw_state (?f k) = mc_state (kw_record (?f k)) \<and> call_validate (kw_record (?f k)) = Inr ()
      \<and> call_later (kw_record k) (kw_record (?f k))" if k: "k \<in> set (wd_calls ?db)" for k
    proof (cases "kw_call_id k = i")
      case True
      then show ?thesis using unique k s later valid by simp
    next
      case False
      have "call_row_ok db k" using inv k by (simp add: ledger_inv_def)
      then show ?thesis using False s by (simp add: call_row_ok_def)
    qed
    from ledger_map_calls [OF \<open>ledger_inv ?db\<close> this]
    show "ledger_inv db' \<and> calls_later ?db db' \<and> conserved ?db db'" by (simp add: db')
  qed
  with db have "ledger_move db db'" by (rule ledger_move_trans)
  then show "ledger_inv db' \<and> calls_later db db' \<and> conserved db db'" using inv by (simp add: ledger_move_def)
qed

lemma submit_move: 
  assumes "submit_model_call env fp now db i = Inr (db', r)"
  shows "ledger_move db db'"
proof -
  obtain q where q: "load_existing_call db i = Inr q" "mark_submitted q = Inr r"
    "persist env fp now db r ''workflow_model_call_submitted'' = Inr db'"
    using assms by (auto simp: submit_model_call_def split: sum.splits if_splits)
  with mark_submitted_Inr [OF q(2)] load_existing_call_row [OF q(1)] show ?thesis
    by (intro persist_move [OF q(1) _ _ q(3)]) (auto simp: call_later_def is_settled_def)
qed

lemma finish_move:
  assumes "finish_model_call env fp now db i receipt code = Inr (db', r)"
  shows "ledger_move db db'"
proof -
  obtain q error where q: "load_existing_call db i = Inr q" "identifier_option code = Inr error"
    using assms by (auto simp: finish_model_call_def split: sum.splits)
  note rest = assms [unfolded finish_model_call_def q sum.case]
  show ?thesis
  proof (cases "is_settled (mc_state q)")
    case True
    then show ?thesis using rest by (cases "mc_state q") (auto simp: is_settled_def split: if_splits)
  next
    case False
    then obtain u where f: "call_finish q receipt error = Inr r" "call_validate r = Inr u"
      "persist env fp now db r ''workflow_model_call_finished'' = Inr db'"
      using rest by (cases "mc_state q") (auto simp: is_settled_def split: sum.splits)
    from call_finish_Inr [OF f(1)] load_existing_call_row [OF q(1)] show ?thesis
      by (intro persist_move [OF q(1) _ _ f(3)]) (auto simp: call_later_def is_settled_def)
  qed
qed

lemma recover_page_move: "recover_page env fp now ids db n = Inr (db', m) \<Longrightarrow> ledger_move db db'"
proof (induction ids arbitrary: db n)
  case (Cons i ids)
  obtain r s ch where r: "load_existing_call db i = Inr r" and s: "recover_after_restart r = Inr (s, ch)"
    using Cons.prems by (auto split: sum.splits)
  show ?case
  proof (cases ch)
    case False
    then show ?thesis using Cons r s by simp
  next
    case True
    then obtain db1 n1 where p: "persist env fp now db s ''workflow_model_call_recovered'' = Inr db1"
      "recover_page env fp now ids db1 n1 = Inr (db', m)"
      using Cons.prems r s by (auto split: sum.splits option.splits)
    have "ledger_move db db1"
      using recover_after_restart_Inr [OF s] load_existing_call_row [OF r] True
      by (intro persist_move [OF r _ _ p(1)]) (auto simp: call_later_def is_settled_def)
    then show ?thesis using Cons.IH [OF p(2)] ledger_move_trans by blast
  qed
qed simp

lemma recover_calls_move: "recover_calls_from env fp now after db n = Inr (db', m) \<Longrightarrow> ledger_move db db'"
proof (induction env fp now after db n rule: recover_calls_from.induct)
  case (1 env fp now after db n)
  show ?case
  proof (cases "submitted_page db after = []")
    case True
    then show ?thesis using "1.prems" by (simp add: recover_calls_from.simps)
  next
    case False
    then obtain db1 k where page: "recover_page env fp now (submitted_page db after) db n = Inr (db1, k)"
      and rest: "recover_calls_from env fp now (Some (last (submitted_page db after))) db1 k = Inr (db', m)"
      using "1.prems" by (auto simp: recover_calls_from.simps [of env fp now after db n] Let_def split: sum.splits)
    from "1.IH" [OF refl False page refl rest] recover_page_move [OF page] show ?thesis using ledger_move_trans by blast
  qed
qed

section \<open>Reserving a call\<close>

lemma sum_list_update_key:
  fixes g :: "'a \<Rightarrow> nat"
  shows "distinct (map key xs) \<Longrightarrow> x \<in> set xs \<Longrightarrow>
    sum_list (map g (map (\<lambda>y. if key y = key x then u y else y) xs)) + g x = sum_list (map g xs) + g (u x)"
proof (induction xs)
  case (Cons y ys)
  show ?case
  proof (cases "y = x")
    case True
    then have "key x \<notin> key ` set ys" using Cons.prems by simp
    then have "map (\<lambda>y. if key y = key x then u y else y) ys = ys"
      by (intro map_idI) (simp, metis image_eqI)
    then show ?thesis using True by simp
  next
    case False
    then have "x \<in> set ys" "key y \<noteq> key x" using Cons.prems by auto
    then show ?thesis using Cons by simp
  qed
qed simp

lemma owner_map_ok:
  "wd_owners db' = map f (wd_owners db) \<Longrightarrow> (\<And>row. row \<in> set (wd_owners db) \<Longrightarrow> owner_ok db' (f row)) \<Longrightarrow>
   \<forall>ow \<in> set (wd_owners db'). owner_ok db' ow"
  by auto

lemma claim_owner_move:
  assumes claim: "claim_owner db adm = Inr (db1, used)" and valid: "admission_validate adm = Inr ()" and inv: "ledger_inv db"
  shows "ledger_inv db1 \<and> calls_later db db1 \<and> conserved db db1
    \<and> (\<exists>ow \<in> set (wd_owners db1). ow_owner_key ow = ma_owner_key adm \<and> ow_workflow_id ow = ma_workflow_id adm
        \<and> ow_max_calls ow = ma_max_calls adm \<and> ow_calls_used ow = used)"
proof (cases "load_owner db (ma_owner_key adm)")
  case (Some row)
  then have "row \<in> set (wd_owners db)" "ow_owner_key row = ma_owner_key adm"
    by (auto simp: load_owner_def dest!: find_Some_filter)
  then show ?thesis using claim inv Some by (auto simp: claim_owner_def conserved_def split: if_splits)
next
  case None
  let ?new = "\<lparr>ow_owner_key = ma_owner_key adm, ow_workflow_id = ma_workflow_id adm,
      ow_max_calls = ma_max_calls adm, ow_deadline_unix_ms = ma_deadline_unix_ms adm, ow_calls_used = 0\<rparr>"
  have db1: "db1 = db\<lparr>wd_owners := wd_owners db @ [?new]\<rparr>" "used = 0"
    and fk: "\<And>w. ma_workflow_id adm = Some w \<Longrightarrow> w \<in> set (workflow_ids db)"
    using claim None by (auto simp: claim_owner_def workflow_ids_def split: if_splits option.splits)
  have new: "ma_owner_key adm \<notin> ow_owner_key ` set (wd_owners db)"
    using None by (auto simp: load_owner_def find_None_iff)
  have no_calls: "owner_uses db (ma_owner_key adm) = []"
    using inv new unfolding owner_uses_def ledger_inv_def call_row_ok_def by (simp add: filter_empty_conv) metis
  have same: "owner_uses db1 = owner_uses db" "workflow_ids db1 = workflow_ids db" "wd_calls db1 = wd_calls db"
    by (simp_all add: db1 owner_uses_def workflow_ids_def fun_eq_iff)
  have max: "ma_max_calls adm \<le> MAX_MODEL_CALLS_PER_OWNER"
    using valid by (auto simp: admission_validate_def Let_def split: if_splits)
  have "owner_ok db1 ow" if "ow \<in> set (wd_owners db1)" for ow
  proof (cases "ow = ?new")
    case True
    then show ?thesis using max fk no_calls unfolding owner_ok_def same by (auto split: option.splits)
  next
    case False
    then have "owner_ok db ow" using that inv by (auto simp: db1 ledger_inv_def)
    then show ?thesis unfolding owner_ok_def same .
  qed
  moreover have "call_row_ok db1 k" if "k \<in> set (wd_calls db1)" for k
    using that inv by (auto simp: db1 ledger_inv_def call_row_ok_def)
  ultimately have "ledger_inv db1"
    using inv new unfolding ledger_inv_def same by (simp add: db1(1))
  moreover have "conserved db db1" by (simp add: conserved_def model_budget_def budgets_def db1(1) workflow_ids_def)
  moreover have "calls_later db db1" by (auto simp: calls_later_def same)
  ultimately show ?thesis using db1 by auto
qed

lemma charge_workflow_call_budgets:
  assumes "charge_workflow_call db adm ms n = Inr db'" and "distinct (workflow_ids db)"
  shows "wd_calls db' = wd_calls db \<and> wd_owners db' = wd_owners db
    \<and> (case ma_workflow_id adm of None \<Rightarrow> budgets db' = budgets db
       | Some w \<Rightarrow> \<exists>b. (w, b) \<in> set (budgets db) \<and> b \<noteq> 0
           \<and> budgets db' = map (\<lambda>p. if fst p = w then (fst p, b - 1) else p) (budgets db))"
proof (cases "ma_workflow_id adm")
  case None
  then show ?thesis using assms by (simp add: charge_workflow_call_def)
next
  case (Some w)
  then obtain stored r v where stored: "load_existing_workflow db w = Inr stored"
    and b: "lb_model_requests_remaining (wr_budget (sg_record stored)) \<noteq> 0"
    and u: "update_workflow db r v n = Inr db'" "wr_workflow_id r = wr_workflow_id (sg_record stored)"
      "lb_model_requests_remaining (wr_budget r) = lb_model_requests_remaining (wr_budget (sg_record stored)) - 1"
    using assms(1) by (auto simp: charge_workflow_call_def Let_def not_less split: sum.splits option.splits if_splits)
  then show ?thesis
    using Some update_workflow_budgets [OF u(1) assms(2)] load_existing_workflow_row [OF stored] by auto
qed

lemma charged_budget:
  assumes "distinct (map fst (budgets db))" and "(w, b) \<in> set (budgets db)" and "b \<noteq> 0"
  shows "sum_list (map (\<lambda>p. if fst p = v then unat (snd p) else 0)
      (map (\<lambda>p. if fst p = w then (fst p, b - 1) else p) (budgets db))) + (if v = w then 1 else 0)
    = sum_list (map (\<lambda>p. if fst p = v then unat (snd p) else 0) (budgets db))"
proof -
  have b: "unat b = Suc (unat (b - 1))" using assms(3) unat_minus_one [of b] by (simp add: unat_gt_0)
  from sum_list_update_key [OF assms(1,2), of "\<lambda>p. if fst p = v then unat (snd p) else 0" "\<lambda>p. (fst p, b - 1)"] b
  show ?thesis by auto
qed

text \<open>The number is taken, the workflow charged and the call written in one transaction.\<close>

lemma booked_call_move:
  assumes inv: "ledger_inv db" and ow: "ow \<in> set (wd_owners db)" "ow_owner_key ow = ma_owner_key adm"
      "ow_workflow_id ow = ma_workflow_id adm" "ow_max_calls ow = ma_max_calls adm" "ow_calls_used ow = used"
    and following: "following_use used adm = Some following"
    and r: "call_validate r = Inr ()" "mc_state r = McReserved" "mc_calls_used r = following" "mc_admission r = adm"
    and charge: "charge_workflow_call db adm ms n = Inr db1"
    and ins: "insert_call (set_calls_used (ma_owner_key adm) following db1) r n = Inr db2"
  shows "ledger_inv db2 \<and> calls_later db db2 \<and> conserved db db2"
proof -
  let ?key = "ma_owner_key adm"
  let ?up = "\<lambda>row. if ow_owner_key row = ow_owner_key ow then row\<lparr>ow_calls_used := following\<rparr> else row"
  let ?new = "\<lparr>kw_call_id = mc_call_id r, kw_owner_key = ?key, kw_state = McReserved, kw_record = r, kw_updated_sequence = n\<rparr>"
  have ids: "distinct (workflow_ids db)" "distinct (map ow_owner_key (wd_owners db))" using inv by (auto simp: ledger_inv_def)
  note c = charge_workflow_call_budgets [OF charge ids(1)]
  have db2: "wd_calls db2 = wd_calls db @ [?new]" "wd_owners db2 = map ?up (wd_owners db)" "budgets db2 = budgets db1"
    "mc_call_id r \<notin> kw_call_id ` set (wd_calls db)" "workflow_ids db2 = workflow_ids db1"
  proof -
    have e: "db2 = (set_calls_used ?key following db1)\<lparr>wd_calls := wd_calls db1 @ [?new]\<rparr>"
      "mc_call_id r \<notin> kw_call_id ` set (wd_calls db1)"
      using ins r(4) by (auto simp: insert_call_def set_calls_used_def split: if_splits)
    show "wd_calls db2 = wd_calls db @ [?new]" "wd_owners db2 = map ?up (wd_owners db)" "budgets db2 = budgets db1"
      "mc_call_id r \<notin> kw_call_id ` set (wd_calls db)" "workflow_ids db2 = workflow_ids db1"
      using c e(2) by (simp_all add: e(1) set_calls_used_def budgets_def workflow_ids_def ow(2))
  qed
  have wids: "workflow_ids db1 = workflow_ids db"
    using c budget_ids [of db] budget_ids [of db1] by (force split: option.splits simp: comp_def if_distrib cong: if_cong)
  note wids2 = db2(5) [unfolded wids]
  have n: "unat following = Suc (unat used)" "following \<le> ma_max_calls adm"
    using following checked_add_Some [of used 1 following] by (auto simp: following_use_def split: option.splits if_splits)
  have uses: "owner_uses db2 key = owner_uses db key @ (if key = ?key then [unat following] else [])" for key
    by (auto simp: owner_uses_def db2(1) r(3))
  have up_ok: "owner_ok db2 (?up row)" if row: "row \<in> set (wd_owners db)" for row
  proof -
    have ok: "owner_ok db row" using inv row by (simp add: ledger_inv_def)
    show ?thesis
    proof (cases "row = ow")
      case True
      then show ?thesis using ok n ow unfolding owner_ok_def uses wids2 by simp
    next
      case False
      then have "ow_owner_key row \<noteq> ow_owner_key ow"
        using row ow(1) ids(2) inj_onD [of ow_owner_key "set (wd_owners db)" row ow] by (auto simp: distinct_map)
      then show ?thesis using ok ow(2) unfolding owner_ok_def uses wids2 by simp
    qed
  qed
  have keys: "map ow_owner_key (map ?up (wd_owners db)) = map ow_owner_key (wd_owners db)" by auto
  then have keyset: "ow_owner_key ` set (wd_owners db2) = ow_owner_key ` set (wd_owners db)"
    unfolding db2(2) list.set_map [symmetric] by (rule arg_cong)
  have calls_ok: "call_row_ok db2 k" if "k \<in> set (wd_calls db2)" for k
  proof (cases "k = ?new")
    case True
    have "mc_call_id r = ma_call_id adm" using r(1,4) by (auto simp: call_validate_def result_simps)
    moreover have "ma_owner_key adm \<in> ow_owner_key ` set (wd_owners db)" using ow(1,2) by (metis imageI)
    ultimately show ?thesis using True r by (simp add: call_row_ok_def keyset)
  next
    case False
    then have "call_row_ok db k" using that inv by (simp add: db2(1) ledger_inv_def)
    then show ?thesis by (simp add: call_row_ok_def keyset)
  qed
  have "distinct (map kw_call_id (wd_calls db2))" using inv db2(4) by (simp add: db2(1) ledger_inv_def)
  moreover have "distinct (map ow_owner_key (wd_owners db2))" by (simp only: db2(2) keys ids(2))
  ultimately have "ledger_inv db2"
    using ids(1) calls_ok owner_map_ok [OF db2(2) up_ok] unfolding ledger_inv_def wids2 by blast
  moreover have "calls_later db db2" by (auto simp: calls_later_def db2(1))
  moreover have "model_budget db2 w = model_budget db w" for w
  proof -
    let ?g = "\<lambda>row. if ow_workflow_id row = Some w then unat (ow_calls_used row) else 0"
    have owners: "sum_list (map ?g (map ?up (wd_owners db))) = sum_list (map ?g (wd_owners db))
        + (if ma_workflow_id adm = Some w then 1 else 0)"
      using sum_list_update_key [OF ids(2) ow(1), of ?g "\<lambda>row. row\<lparr>ow_calls_used := following\<rparr>"] ow n by auto
    show ?thesis
    proof (cases "ma_workflow_id adm")
      case None
      then show ?thesis using c owners by (simp add: model_budget_def db2(2,3) del: map_map)
    next
      case (Some v)
      then obtain b where b: "(v, b) \<in> set (budgets db)" "b \<noteq> 0"
        "budgets db1 = map (\<lambda>p. if fst p = v then (fst p, b - 1) else p) (budgets db)" using c by auto
      show ?thesis
        using charged_budget [of db v b w] b ids(1) owners Some
        by (auto simp: model_budget_def db2(2,3) budget_ids simp del: map_map)
    qed
  qed
  ultimately show ?thesis by (simp add: conserved_def db2(5) wids)
qed

lemma reserve_new_move:
  assumes step: "reserve_new_call env fp now db adm = Inr (db', r)" and "\<not> is_nil (ma_call_id adm)"
  shows "ledger_move db db'"
  unfolding ledger_move_def
proof (intro impI)
  assume inv: "ledger_inv db"
  obtain db1 used following r' where a: "claim_owner db adm = Inr (db1, used)" "following_use used adm = Some following"
    "call_reserved adm following = Inr r'"
    using step by (auto simp: reserve_new_call_def split: sum.splits option.splits)
  note rest = step [unfolded reserve_new_call_def a sum.case prod.case option.case]
  then obtain db2 e n where b: "append_event env fp db1 ''workflow_model_call_reserved'' (call_key env (mc_call_id r') ''reserved'')
      (reserved_payload env r') now = Inr (db2, e, n)"
    by (auto split: sum.splits)
  note rest = rest [unfolded b sum.case prod.case]
  then obtain db3 where d: "charge_workflow_call db2 adm (millis now) n = Inr db3"
    "insert_call (set_calls_used (ma_owner_key adm) following db3) r' n = Inr db'" by (auto split: sum.splits)
  have valid: "admission_validate adm = Inr ()" using a(3) by (auto simp: call_reserved_def result_simps)
  note claimed = claim_owner_move [OF a(1) valid inv]
  then obtain ow where ow: "ow \<in> set (wd_owners db1)" "ow_owner_key ow = ma_owner_key adm" "ow_workflow_id ow = ma_workflow_id adm"
    "ow_max_calls ow = ma_max_calls adm" "ow_calls_used ow = used" by blast
  have calm: "calm db1 db2" using append_calm [OF b] .
  have moved: "ledger_inv db2 \<and> calls_later db1 db2 \<and> conserved db1 db2"
    using calm_move [OF calm] claimed by (simp add: ledger_move_def)
  have "ledger_inv db' \<and> calls_later db2 db' \<and> conserved db2 db'"
    using call_reserved_Inr [OF a(3) assms(2)] moved ow calm
    by (intro booked_call_move [OF _ _ ow(2-5) a(2) _ _ _ _ d]) (auto simp: calm_def)
  then show "ledger_inv db' \<and> calls_later db db' \<and> conserved db db'"
    using claimed moved by (auto simp: conserved_def intro: calls_later_trans)
qed

lemma reserve_move: "reserve_model_call env fp now db adm = Inr (db', r) \<Longrightarrow> ledger_move db db'"
  by (auto simp: reserve_model_call_def dest: reserve_new_move split: sum.splits option.splits if_splits)

section \<open>Preparing a workflow\<close>

lemma insert_contracts_calm: "insert_contracts db cs = Inr db' \<Longrightarrow> calm db db'"
  by (drule insert_contracts_table) auto

lemma insert_workflow_Inr:
  "insert_workflow db r f n = Inr db' \<Longrightarrow> wd_calls db' = wd_calls db \<and> wd_owners db' = wd_owners db
    \<and> budgets db' = budgets db @ [(wr_workflow_id r, lb_model_requests_remaining (wr_budget r))]
    \<and> wr_workflow_id r \<notin> set (workflow_ids db)"
  by (auto simp: insert_workflow_def budgets_def workflow_ids_def split: if_splits)

text \<open>A new workflow has the budget it was admitted with, and no owner yet.\<close>

lemma insert_workflow_move:
  assumes ins: "insert_workflow db r f n = Inr db'" and inv: "ledger_inv db"
  shows "ledger_inv db' \<and> calls_later db db' \<and> conserved db db'
    \<and> model_budget db' (wr_workflow_id r) = unat (lb_model_requests_remaining (wr_budget r))
    \<and> (\<forall>ow \<in> set (wd_owners db'). ow_workflow_id ow \<noteq> Some (wr_workflow_id r))"
proof -
  note i = insert_workflow_Inr [OF ins]
  have ids: "workflow_ids db' = workflow_ids db @ [wr_workflow_id r]" using i by (simp add: budget_ids [symmetric])
  have uses: "owner_uses db' = owner_uses db" using i by (simp add: owner_uses_def fun_eq_iff)
  have "owner_ok db' ow" if "ow \<in> set (wd_owners db)" for ow
    using inv that unfolding ledger_inv_def owner_ok_def uses ids by (auto split: option.splits)
  moreover have "call_row_ok db' k = call_row_ok db k" for k using i by (simp add: call_row_ok_def)
  ultimately have "ledger_inv db'" using inv i unfolding ledger_inv_def ids by simp
  moreover have free: "ow_workflow_id ow \<noteq> Some (wr_workflow_id r)" if "ow \<in> set (wd_owners db)" for ow
    using inv that i by (auto simp: ledger_inv_def owner_ok_def)
  moreover have "model_budget db' w = model_budget db w" if "w \<in> set (workflow_ids db)" for w
    using that i by (auto simp: model_budget_def)
  moreover have "model_budget db' (wr_workflow_id r) = unat (lb_model_requests_remaining (wr_budget r))"
  proof -
    have z: "sum_list (map (\<lambda>p. if fst p = wr_workflow_id r then unat (snd p) else 0) (budgets db)) = 0"
    proof -
      have "fst p \<noteq> wr_workflow_id r" if "p \<in> set (budgets db)" for p
        using that i budget_ids [of db] by (metis imageI list.set_map)
      then show ?thesis by (simp add: sum_list_eq_0_iff)
    qed
    have y: "sum_list (map (\<lambda>ow. if ow_workflow_id ow = Some (wr_workflow_id r) then unat (ow_calls_used ow) else 0)
        (wd_owners db)) = 0"
      using free by (auto simp: sum_list_eq_0_iff)
    have "budgets db' = budgets db @ [(wr_workflow_id r, lb_model_requests_remaining (wr_budget r))]" "wd_owners db' = wd_owners db"
      using i by blast+
    then show ?thesis by (simp add: model_budget_def z y del: sum_list_eq_0_iff)
  qed
  moreover have "calls_later db db'" using i by (auto simp: calls_later_def)
  ultimately show ?thesis using i by (simp add: conserved_def ids)
qed

lemma ledger_set_workflow:
  assumes inv: "ledger_inv db" and w: "w \<in> set (workflow_ids db)" and one: "length (filter hit (wd_owners db)) = 1"
    and hit: "\<And>row. hit row \<Longrightarrow> ow_workflow_id row = None \<and> ow_calls_used row = 1"
    and free: "\<forall>ow \<in> set (wd_owners db). ow_workflow_id ow \<noteq> Some w"
  defines "db' \<equiv> db\<lparr>wd_owners := map (\<lambda>row. if hit row then row\<lparr>ow_workflow_id := Some w\<rparr> else row) (wd_owners db)\<rparr>"
  shows "ledger_inv db' \<and> calls_later db db' \<and> workflow_ids db' = workflow_ids db
    \<and> model_budget db' w = model_budget db w + 1 \<and> (\<forall>v. v \<noteq> w \<longrightarrow> model_budget db' v = model_budget db v)"
proof -
  let ?up = "\<lambda>row. if hit row then row\<lparr>ow_workflow_id := Some w\<rparr> else row"
  let ?g = "\<lambda>v ow. if ow_workflow_id ow = Some v then unat (ow_calls_used ow) else 0"
  have same: "workflow_ids db' = workflow_ids db" "budgets db' = budgets db" "owner_uses db' = owner_uses db"
    by (simp_all add: db'_def workflow_ids_def budgets_def owner_uses_def fun_eq_iff)
  have keys: "map ow_owner_key (map ?up (wd_owners db)) = map ow_owner_key (wd_owners db)" by auto
  have owners: "wd_owners db' = map ?up (wd_owners db)" "wd_calls db' = wd_calls db" by (simp_all add: db'_def)
  have "\<forall>ow \<in> set (wd_owners db'). owner_ok db' ow"
  proof (rule owner_map_ok [OF owners(1)])
    fix row
    assume "row \<in> set (wd_owners db)"
    then have "owner_ok db row" using inv by (simp add: ledger_inv_def)
    then show "owner_ok db' (?up row)" using w unfolding owner_ok_def same by simp
  qed
  moreover have "ow_owner_key ` set (map ?up (wd_owners db)) = ow_owner_key ` set (wd_owners db)"
    using keys unfolding list.set_map [of ow_owner_key, symmetric] by (rule arg_cong)
  then have "call_row_ok db' k = call_row_ok db k" for k by (simp add: call_row_ok_def db'_def del: list.set_map)
  ultimately have "ledger_inv db'"
    using inv keys unfolding ledger_inv_def same by (simp add: owners del: map_map list.set_map)
  moreover have other: "sum_list (map (?g v) (map ?up (wd_owners db))) = sum_list (map (?g v) (wd_owners db))" if "v \<noteq> w" for v
  proof -
    have "?g v (?up row) = ?g v row" for row using hit [of row] that by auto
    then show ?thesis by (simp add: comp_def)
  qed
  moreover have "sum_list (map (?g w) (map ?up (wd_owners db))) = sum_list (map (?g w) (wd_owners db)) + 1"
  proof -
    have "?g w (?up row) = ?g w row + (if hit row then 1 else 0)" if "row \<in> set (wd_owners db)" for row
      using hit [of row] free that by auto
    then have "map (?g w) (map ?up (wd_owners db)) = map (\<lambda>row. ?g w row + (if hit row then 1 else 0)) (wd_owners db)" by simp
    moreover have "sum_list (map (\<lambda>row. if hit row then 1 else (0::nat)) xs) = length (filter hit xs)" for xs
      by (induction xs) auto
    ultimately show ?thesis using one by (simp add: sum_list_addf del: map_map)
  qed
  ultimately show ?thesis
    by (auto simp: calls_later_def db'_def model_budget_def budgets_def workflow_ids_def simp del: map_map)
qed

lemma charge_compiler_None: "charge_compiler_for_prepare env db r = Inr (s, None) \<Longrightarrow> s = r"
  by (auto simp: charge_compiler_for_prepare_def Let_def split: option.splits if_splits list.splits sum.splits)

lemma charge_compiler_Some:
  assumes "charge_compiler_for_prepare env db r = Inr (s, Some a)"
  shows "wr_workflow_id s = wr_workflow_id r \<and> ca_workflow_id a = wr_workflow_id r
    \<and> unat (lb_model_requests_remaining (wr_budget r)) = Suc (unat (lb_model_requests_remaining (wr_budget s)))"
proof -
  obtain ow where ow: "load_owner db (COMPILER_OWNER_PREFIX @ we_uuid_simple env (wr_workflow_id r)) = Some ow"
    using assms by (auto simp: charge_compiler_for_prepare_def Let_def split: option.splits)
  note rest = assms [unfolded charge_compiler_for_prepare_def Let_def ow option.case]
  have one: "ow_calls_used ow = 1" using rest by (auto split: if_splits)
  then have left: "lb_model_requests_remaining (wr_budget r) \<noteq> 0"
    "s = r\<lparr>wr_budget := (wr_budget r)\<lparr>lb_model_requests_remaining := lb_model_requests_remaining (wr_budget r) - 1\<rparr>\<rparr>"
    "ca_workflow_id a = wr_workflow_id r"
    using rest by (auto split: if_splits list.splits sum.splits option.splits)
  then show ?thesis using unat_minus_one [of "lb_model_requests_remaining (wr_budget r)"] by (simp add: unat_gt_0)
qed

lemma calm_same: "calm db db' \<Longrightarrow> ledger_inv db \<Longrightarrow> budgets db' = budgets db \<and> wd_owners db' = wd_owners db"
  by (simp add: calm_def ledger_inv_def)

lemma calm_moved: "calm db db' \<Longrightarrow> ledger_inv db \<Longrightarrow> ledger_inv db' \<and> calls_later db db' \<and> conserved db db'"
  using calm_move by (simp add: ledger_move_def)

lemma associate_move:
  assumes step: "associate_prepared_compiler env fp db a ts = Inr db'" and inv: "ledger_inv db"
    and w: "ca_workflow_id a \<in> set (workflow_ids db)" and free: "\<forall>ow \<in> set (wd_owners db). ow_workflow_id ow \<noteq> Some (ca_workflow_id a)"
  shows "ledger_inv db' \<and> calls_later db db' \<and> workflow_ids db' = workflow_ids db
    \<and> model_budget db' (ca_workflow_id a) = model_budget db (ca_workflow_id a) + 1
    \<and> (\<forall>v. v \<noteq> ca_workflow_id a \<longrightarrow> model_budget db' v = model_budget db v)"
proof -
  let ?adm = "mc_admission (ca_call a)"
  let ?hit = "\<lambda>row. ow_owner_key row = ma_owner_key ?adm \<and> ow_workflow_id row = None \<and> ow_max_calls row = 1
      \<and> ow_calls_used row = 1 \<and> ow_deadline_unix_ms row = ma_deadline_unix_ms ?adm"
  let ?db = "db\<lparr>wd_owners := map (\<lambda>row. if ?hit row then row\<lparr>ow_workflow_id := Some (ca_workflow_id a)\<rparr> else row) (wd_owners db)\<rparr>"
  define mid where "mid = ?db"
  obtain t k p e n where one: "length (filter ?hit (wd_owners db)) = 1" and app: "append_event env fp ?db t k p ts = Inr (db', e, n)"
    using step by (auto simp: associate_prepared_compiler_def Let_def split: if_splits sum.splits prod.splits)
  have set: "ledger_inv mid \<and> calls_later db mid \<and> workflow_ids mid = workflow_ids db
    \<and> model_budget mid (ca_workflow_id a) = model_budget db (ca_workflow_id a) + 1
    \<and> (\<forall>v. v \<noteq> ca_workflow_id a \<longrightarrow> model_budget mid v = model_budget db v)"
    unfolding mid_def using ledger_set_workflow [OF inv w one _ free] by simp
  have calm: "calm mid db'" using append_calm [OF app] by (simp only: mid_def)
  have b: "budgets db' = budgets mid" "wd_owners db' = wd_owners mid" using calm_same [OF calm] set by blast+
  have moved: "ledger_inv db' \<and> calls_later mid db'" using calm_moved [OF calm] set by blast
  have ids: "workflow_ids db' = workflow_ids mid" using b(1) by (simp add: budget_ids [symmetric])
  have "model_budget db' v = model_budget mid v" for v unfolding model_budget_def b ..
  then show ?thesis using set moved calls_later_trans [of db mid db'] ids by simp
qed

lemma prepare_new_move:
  assumes step: "prepare_new env fp db r contracts f ts = Inr (db', c)" and inv: "ledger_inv db"
  shows "ledger_inv db' \<and> calls_later db db' \<and> conserved db db' \<and> wr_workflow_id r \<in> set (workflow_ids db')
    \<and> model_budget db' (wr_workflow_id r) = unat (lb_model_requests_remaining (wr_budget r))"
proof -
  obtain s assoc where s: "charge_compiler_for_prepare env db r = Inr (s, assoc)"
    using step by (auto simp: prepare_new_def split: sum.splits)
  note rest = step [unfolded prepare_new_def s sum.case prod.case]
  then obtain db1 e n where a: "append_event env fp db ''workflow_prepared'' (''workflow_prepared:'' @ uuid_key env (wr_workflow_id r))
      (prepared_payload env r) ts = Inr (db1, e, n)" by (auto split: sum.splits)
  note rest = rest [unfolded a sum.case prod.case]
  then obtain db2 where b: "insert_contracts db1 contracts = Inr db2" by (auto split: sum.splits)
  note rest = rest [unfolded b sum.case]
  then obtain db3 where d: "insert_workflow db2 s f n = Inr db3" by (auto split: sum.splits)
  note rest = rest [unfolded d sum.case]
  have "ledger_move db db2" by (rule calm_move) (rule calm_trans [OF append_calm [OF a] insert_contracts_calm [OF b]])
  then have db2: "ledger_inv db2 \<and> calls_later db db2 \<and> conserved db db2" using inv by (simp add: ledger_move_def)
  note ins = insert_workflow_move [OF d conjunct1 [OF db2]]
  have ids3: "set (workflow_ids db3) = insert (wr_workflow_id s) (set (workflow_ids db2))" and new: "wr_workflow_id s \<notin> set (workflow_ids db2)"
    using insert_workflow_Inr [OF d] by (simp_all add: budget_ids [symmetric])
  have old: "w \<noteq> wr_workflow_id s" if "w \<in> set (workflow_ids db)" for w using that db2 new by (auto simp: conserved_def)
  show ?thesis
  proof (cases assoc)
    case None
    then have "s = r" "db' = db3" using charge_compiler_None s rest by auto
    then show ?thesis using ins db2 ids3 by (auto simp: conserved_def intro: calls_later_trans)
  next
    case (Some x)
    note ch = charge_compiler_Some [OF s [unfolded Some]]
    have as: "associate_prepared_compiler env fp db3 x ts = Inr db'" using rest Some by (auto split: sum.splits)
    have eq: "ca_workflow_id x = wr_workflow_id s" using ch by simp
    have m: "ledger_inv db' \<and> calls_later db3 db' \<and> workflow_ids db' = workflow_ids db3
      \<and> model_budget db' (wr_workflow_id s) = model_budget db3 (wr_workflow_id s) + 1
      \<and> (\<forall>v. v \<noteq> wr_workflow_id s \<longrightarrow> model_budget db' v = model_budget db3 v)"
      using associate_move [OF as, unfolded eq] ins ids3 by blast
    have "conserved db db'"
      using m ins db2 old ids3 unfolding conserved_def by auto
    moreover have "calls_later db db'" using m ins db2 calls_later_trans by blast
    ultimately show ?thesis using m ins ids3 ch by simp
  qed
qed

lemma prepare_move:
  assumes "prepare_workflow env fp db r contracts ts = Inr (db', c)"
  shows "ledger_move db db'"
    and "ledger_inv db \<Longrightarrow> wc_event c \<noteq> None \<Longrightarrow>
      model_budget db' (wr_workflow_id r) = unat (lb_model_requests_remaining (wr_budget r))"
  using assms prepare_new_move
  by (auto simp: prepare_workflow_def ledger_move_def conserved_def split: sum.splits option.splits if_splits)

lemma workflow_store_step_move:
  assumes step: "workflow_store_step env check db op = Inr db'"
  shows "ledger_move db db'"
proof (cases op)
  case (WoReconcile fp ts)
  then show ?thesis using step recover_leases_calm
    by (auto simp: workflow_store_step_def recover_workflows_def intro: calm_move split: sum.splits)
next
  case (WoAttempt fresh adm)
  then obtain c where "admit_workflow_attempt env check fresh db adm = Inr (db', c)"
    using step by (auto simp: workflow_store_step_def)
  then show ?thesis by (intro calm_move attempt_calm)
next
  case (WoDispatch d)
  then show ?thesis using step by (auto simp: workflow_store_step_def intro: calm_move split: sum.splits)
qed (use step in \<open>auto simp: workflow_store_step_def recover_model_calls_def
      dest: prepare_move(1) transition_calm generation_calm authority_calm slot_calm acquire_calm change_calm
        reserve_move submit_move finish_move recover_calls_move intro: calm_move\<close>)

interpretation call_ledger: guarded_reducer "workflow_store_step env check" ledger_inv for env check
  by unfold_locales (use workflow_store_step_move in \<open>auto simp: ledger_move_def\<close>)

lemma workflow_db_init_ledger [simp]: "ledger_inv workflow_db_init"
  by (simp add: ledger_inv_def workflow_db_init_def workflow_ids_def)

lemma ledger_run: "ledger_inv (run_events (workflow_store_step env check) workflow_db_init ops)"
  by (rule call_ledger.run_inv) simp

lemma ledger_run_move:
  "ledger_move db (run_events (workflow_store_step env check) db ops)"
proof (induction ops arbitrary: db)
  case (Cons op ops)
  then show ?case by (auto split: sum.splits intro: ledger_move_trans workflow_store_step_move)
qed simp

section \<open>A call is submitted once\<close>

fun submits :: "uuid \<Rightarrow> workflow_op \<Rightarrow> bool" where
  "submits i (WoSubmit fp now j) = (i = j)"
| "submits i _ = False"

definition past_reserved :: "uuid \<Rightarrow> workflow_db \<Rightarrow> bool" where
  "past_reserved i db \<longleftrightarrow> (\<exists>k \<in> set (wd_calls db). kw_call_id k = i \<and> mc_state (kw_record k) \<noteq> McReserved)"

lemma past_reserved_later: "calls_later db db' \<Longrightarrow> past_reserved i db \<Longrightarrow> past_reserved i db'"
  unfolding calls_later_def past_reserved_def call_later_def by metis

lemma submit_moves_on:
  assumes inv: "ledger_inv db" and step: "submit_model_call env fp now db i = Inr (db', r)"
  shows "\<not> past_reserved i db \<and> past_reserved i db'"
proof -
  obtain q where q: "load_existing_call db i = Inr q" "mark_submitted q = Inr r"
    "persist env fp now db r ''workflow_model_call_submitted'' = Inr db'"
    using step by (auto simp: submit_model_call_def split: sum.splits if_splits)
  from load_existing_call_row [OF q(1)] obtain k where k: "k \<in> set (wd_calls db)" "kw_call_id k = i" "kw_record k = q"
    and i: "mc_call_id q = i" by blast
  note m = mark_submitted_Inr [OF q(2)]
  have "kw_record x = q" if "x \<in> set (wd_calls db)" "kw_call_id x = i" for x
    using that k inv inj_onD [of kw_call_id "set (wd_calls db)" x k] by (auto simp: ledger_inv_def distinct_map)
  then have "\<not> past_reserved i db" using m by (auto simp: past_reserved_def)
  moreover have "past_reserved i db'"
  proof -
    obtain d n where db': "db' = db\<lparr>wd_dispatch := d, wd_calls := map (\<lambda>row. if kw_call_id row = mc_call_id r
        then row\<lparr>kw_state := mc_state r, kw_record := r, kw_updated_sequence := n\<rparr> else row) (wd_calls db)\<rparr>"
      using q(3) by (rule persist_Inr)
    have "mc_call_id r = i" using m i by (simp add: same_call_def)
    then have "k\<lparr>kw_state := mc_state r, kw_record := r, kw_updated_sequence := n\<rparr> \<in> set (wd_calls db')"
      using k by (force simp: db')
    then show ?thesis unfolding past_reserved_def by (rule bexI [rotated]) (use m k(2) in simp)
  qed
  ultimately show ?thesis by blast
qed

lemma submits_step:
  assumes inv: "ledger_inv db" and step: "workflow_store_step env check db op = Inr db'" and "submits i op"
  shows "\<not> past_reserved i db \<and> past_reserved i db'"
  using assms submit_moves_on [OF inv] by (cases op) (auto simp: workflow_store_step_def)

lemma no_more_submits:
  "ledger_inv db \<Longrightarrow> past_reserved i db \<Longrightarrow> filter (submits i) (accepted_events (workflow_store_step env check) db ops) = []"
proof (induction ops arbitrary: db)
  case (Cons op ops)
  show ?case
  proof (cases "workflow_store_step env check db op")
    case (Inl e)
    then show ?thesis using Cons by simp
  next
    case (Inr db')
    have "ledger_inv db' \<and> calls_later db db'" using workflow_store_step_move [OF Inr] Cons.prems by (simp add: ledger_move_def)
    moreover have "\<not> submits i op" using submits_step [OF Cons.prems(1) Inr] Cons.prems(2) by blast
    ultimately show ?thesis using Cons.IH [of db'] Cons.prems(2) Inr past_reserved_later [of db db' i] by simp
  qed
qed simp

lemma submitted_at_most_once:
  "ledger_inv db \<Longrightarrow> length (filter (submits i) (accepted_events (workflow_store_step env check) db ops)) \<le> 1"
proof (induction ops arbitrary: db)
  case (Cons op ops)
  show ?case
  proof (cases "workflow_store_step env check db op")
    case (Inl e)
    then show ?thesis using Cons by simp
  next
    case (Inr db')
    have "ledger_inv db'" using workflow_store_step_move [OF Inr] Cons.prems by (simp add: ledger_move_def)
    then show ?thesis
      using Cons.IH [of db'] Inr submits_step [OF Cons.prems Inr, of i] no_more_submits [of db' i env check ops]
      by (cases "submits i op") auto
  qed
qed simp

section \<open>Recovery of submitted calls\<close>

definition recovered_call :: "model_call_record \<Rightarrow> model_call_record" where
  "recovered_call r = (if mc_state r = McSubmitted
     then r\<lparr>mc_state := McUnknown, mc_error_code := Some ''model_call_outcome_unknown''\<rparr> else r)"

lemma recover_after_restart_is: "recover_after_restart r = Inr (recovered_call r, mc_state r = McSubmitted)"
  by (simp add: recover_after_restart_def recovered_call_def outcome_unknown_identifier)

lemma recovered_call_id [simp]: "mc_call_id (recovered_call r) = mc_call_id r"
  by (simp add: recovered_call_def)

lemma recover_page_records:
  "ledger_inv db \<Longrightarrow> recover_page env fp now ids db n = Inr (db', m) \<Longrightarrow>
   map kw_record (wd_calls db') = map (\<lambda>k. if kw_call_id k \<in> set ids then recovered_call (kw_record k) else kw_record k) (wd_calls db)"
proof (induction ids arbitrary: db n)
  case (Cons i ids)
  obtain r where r: "load_existing_call db i = Inr r" using Cons.prems by (auto split: sum.splits)
  from load_existing_call_row [OF r] obtain k where k: "k \<in> set (wd_calls db)" "kw_call_id k = i" "kw_record k = r"
    and i: "mc_call_id r = i" by blast
  have unique: "kw_record x = r" if "x \<in> set (wd_calls db)" "kw_call_id x = i" for x
    using that k Cons.prems(1) inj_onD [of kw_call_id "set (wd_calls db)" x k] by (auto simp: ledger_inv_def distinct_map)
  show ?case
  proof (cases "mc_state r = McSubmitted")
    case False
    then have "recovered_call r = r" by (simp add: recovered_call_def)
    moreover have "recover_page env fp now ids db n = Inr (db', m)"
      using Cons.prems(2) r False by (simp add: recover_after_restart_is)
    ultimately show ?thesis using Cons.IH [OF Cons.prems(1)] unique by (auto intro!: map_cong)
  next
    case True
    then obtain db1 n1 where p: "persist env fp now db (recovered_call r) ''workflow_model_call_recovered'' = Inr db1"
      "recover_page env fp now ids db1 n1 = Inr (db', m)"
      using Cons.prems(2) r by (auto simp: recover_after_restart_is split: sum.splits option.splits)
    obtain d q where db1: "db1 = db\<lparr>wd_dispatch := d, wd_calls := map (\<lambda>row. if kw_call_id row = mc_call_id (recovered_call r)
        then row\<lparr>kw_state := mc_state (recovered_call r), kw_record := recovered_call r, kw_updated_sequence := q\<rparr> else row) (wd_calls db)\<rparr>"
      using p(1) by (rule persist_Inr)
    have "ledger_move db db1"
      using recover_after_restart_Inr [OF recover_after_restart_is] load_existing_call_row [OF r] True
      by (intro persist_move [OF r _ _ p(1)]) (auto simp: call_later_def is_settled_def)
    then have inv: "ledger_inv db1" using Cons.prems(1) by (simp add: ledger_move_def)
    have twice: "recovered_call (recovered_call x) = recovered_call x" for x by (simp add: recovered_call_def)
    show ?thesis unfolding Cons.IH [OF inv p(2)]
      using unique i twice by (auto simp: db1)
  qed
qed simp

lemma take_last_le:
  assumes "sorted xs" and "x \<in> set xs" and "take n xs \<noteq> []" and "x \<le> last (take n xs)"
  shows "x \<in> set (take n xs)"
proof (rule ccontr)
  assume "x \<notin> set (take n xs)"
  moreover have "x \<in> set (take n xs) \<or> x \<in> set (drop n xs)" using assms(2) by (metis Un_iff append_take_drop_id set_append)
  ultimately have "x \<in> set (drop n xs)" by blast
  moreover have "last (take n xs) \<in> set (take n xs)" using assms(3) by simp
  moreover have "sorted (take n xs @ drop n xs)" using assms(1) by simp
  ultimately have "last (take n xs) \<le> x" unfolding sorted_append by blast
  then show False using assms(4) \<open>last (take n xs) \<in> set (take n xs)\<close> \<open>x \<notin> set (take n xs)\<close> by simp
qed

lemma sorted_le_last: "sorted xs \<Longrightarrow> x \<in> set xs \<Longrightarrow> x \<le> last xs"
  by (induction xs) auto

abbreviation above :: "uuid option \<Rightarrow> uuid \<Rightarrow> bool" where
  "above after i \<equiv> (case after of None \<Rightarrow> True | Some a \<Rightarrow> i > a)"

lemma submitted_page_complete:
  assumes "k \<in> set (wd_calls db)" and "kw_state k = McSubmitted" and "above after (kw_call_id k)"
    and "submitted_page db after \<noteq> []" and "kw_call_id k \<le> last (submitted_page db after)"
  shows "kw_call_id k \<in> set (submitted_page db after)"
  using assms unfolding submitted_page_def by (intro take_last_le) auto

lemma submitted_page_Nil:
  assumes "submitted_page db after = []" and "k \<in> set (wd_calls db)" and "above after (kw_call_id k)"
  shows "kw_state k \<noteq> McSubmitted"
proof -
  let ?ids = "map kw_call_id (filter (\<lambda>row. kw_state row = McSubmitted \<and> above after (kw_call_id row)) (wd_calls db))"
  have "sort ?ids = []" using assms(1) by (simp add: submitted_page_def MODEL_CALL_RECOVERY_PAGE_SIZE_def)
  then have "set (sort ?ids) = {}" by (simp only: list.set)
  then have "set ?ids = {}" by (simp only: set_sort)
  then show ?thesis using assms(2,3) by (simp add: image_iff) blast
qed

lemma recover_calls_records:
  "ledger_inv db \<Longrightarrow> recover_calls_from env fp now after db n = Inr (db', m) \<Longrightarrow>
   map kw_record (wd_calls db') = map (\<lambda>k. if above after (kw_call_id k) then recovered_call (kw_record k) else kw_record k) (wd_calls db)"
proof (induction env fp now after db n rule: recover_calls_from.induct)
  case (1 env fp now after db n)
  let ?P = "submitted_page db after"
  have state: "kw_state k = mc_state (kw_record k)" if "k \<in> set (wd_calls db)" for k
    using that "1.prems"(1) by (simp add: ledger_inv_def call_row_ok_def)
  show ?case
  proof (cases "?P = []")
    case True
    then have "db' = db" using "1.prems"(2) by (simp add: recover_calls_from.simps)
    moreover have "recovered_call (kw_record k) = kw_record k" if "k \<in> set (wd_calls db)" "above after (kw_call_id k)" for k
      using submitted_page_Nil [OF True that] state [OF that(1)] by (simp add: recovered_call_def)
    ultimately show ?thesis by auto
  next
    case False
    then obtain db1 k where page: "recover_page env fp now ?P db n = Inr (db1, k)"
      and rest: "recover_calls_from env fp now (Some (last ?P)) db1 k = Inr (db', m)"
      using "1.prems" by (auto simp: recover_calls_from.simps [of env fp now after db n] Let_def split: sum.splits)
    have inv: "ledger_inv db1" using recover_page_move [OF page] "1.prems"(1) by (simp add: ledger_move_def)
    have ids: "map kw_call_id (wd_calls db1) = map kw_call_id (wd_calls db)" using recover_page_ids [OF page] .
    have last: "above after (last ?P)" using submitted_page_above [of "last ?P" db after] False by simp
    have le: "i \<le> last ?P" if "i \<in> set ?P" for i
      using that sorted_le_last [of ?P i] by (simp add: submitted_page_def)
    have one: "(if last ?P < kw_call_id x then recovered_call (if kw_call_id x \<in> set ?P then recovered_call (kw_record x) else kw_record x)
        else if kw_call_id x \<in> set ?P then recovered_call (kw_record x) else kw_record x)
      = (if above after (kw_call_id x) then recovered_call (kw_record x) else kw_record x)" if x: "x \<in> set (wd_calls db)" for x
    proof -
      consider "last ?P < kw_call_id x" | "\<not> last ?P < kw_call_id x" "kw_call_id x \<in> set ?P"
        | "\<not> last ?P < kw_call_id x" "kw_call_id x \<notin> set ?P" by blast
      then show ?thesis
      proof cases
        case 1
        then have "above after (kw_call_id x)" using last by (cases after) auto
        then show ?thesis using 1 le [of "kw_call_id x"] by auto
      next
        case 2
        then show ?thesis using submitted_page_above [OF 2(2)] by simp
      next
        case 3
        have "kw_state x \<noteq> McSubmitted" if "above after (kw_call_id x)"
          using submitted_page_complete [OF x _ that False] 3 by (auto simp: not_less)
        then show ?thesis using 3 state [OF x] by (simp add: recovered_call_def)
      qed
    qed
    have "map kw_record (wd_calls db') = map (\<lambda>(i, r). if last ?P < i then recovered_call r else r)
        (zip (map kw_call_id (wd_calls db1)) (map kw_record (wd_calls db1)))"
      using "1.IH" [OF refl False page refl inv rest] by (simp add: zip_map_map zip_same_conv_map split_def comp_def)
    also have "\<dots> = map (\<lambda>k. if above after (kw_call_id k) then recovered_call (kw_record k) else kw_record k) (wd_calls db)"
      unfolding ids recover_page_records [OF "1.prems"(1) page]
      by (simp only: zip_map_map zip_same_conv_map map_map comp_def prod.case) (intro map_cong refl, erule one)
    finally show ?thesis .
  qed
qed

section \<open>The ledger over histories\<close>

lemma load_call_row:
  assumes "ledger_inv db" and "k \<in> set (wd_calls db)"
  shows "load_call db (kw_call_id k) = Inr (Some (kw_record k))"
proof -
  have ok: "call_row_ok db k" using assms by (simp add: ledger_inv_def)
  obtain y where y: "find (\<lambda>row. kw_call_id row = kw_call_id k) (wd_calls db) = Some y"
    using find_SomeI [of k "wd_calls db" "\<lambda>row. kw_call_id row = kw_call_id k"] assms(2) by auto
  have "y = k"
    using find_Some_filter [OF y] assms inj_onD [of kw_call_id "set (wd_calls db)" y k] by (auto simp: ledger_inv_def distinct_map)
  then show ?thesis using y ok by (simp add: load_call_def call_row_ok_def)
qed


text \<open>C6. A model call is submitted at most once in any history, however often submission is tried and whatever
  recovery ran in between; and recovery closes exactly the submitted calls, as unknown outcomes, and leaves every
  other call as it was.\<close>

theorem model_call_submitted_once:
  assumes "db = run_events (workflow_store_step env check) workflow_db_init ops"
  shows "length (filter (submits i) (accepted_events (workflow_store_step env check) workflow_db_init ops)) \<le> 1
    \<and> (\<forall>fp now db' n. recover_model_calls env fp now db = Inr (db', n) \<longrightarrow>
        map kw_record (wd_calls db') = map (\<lambda>k. recovered_call (kw_record k)) (wd_calls db)
        \<and> (\<forall>k \<in> set (wd_calls db'). kw_state k = mc_state (kw_record k) \<and> kw_state k \<noteq> McSubmitted))"
proof (intro conjI allI impI)
  show "length (filter (submits i) (accepted_events (workflow_store_step env check) workflow_db_init ops)) \<le> 1"
    by (rule submitted_at_most_once) simp
next
  fix fp now db' n
  assume "recover_model_calls env fp now db = Inr (db', n)"
  then have rec: "recover_calls_from env fp now None db 0 = Inr (db', n)" by (simp add: recover_model_calls_def)
  have inv: "ledger_inv db" unfolding assms by (rule ledger_run)
  show records: "map kw_record (wd_calls db') = map (\<lambda>k. recovered_call (kw_record k)) (wd_calls db)"
    using recover_calls_records [OF inv rec] by simp
  have inv': "ledger_inv db'" using recover_calls_move [OF rec] inv by (simp add: ledger_move_def)
  show "\<forall>k \<in> set (wd_calls db'). kw_state k = mc_state (kw_record k) \<and> kw_state k \<noteq> McSubmitted"
  proof
    fix k
    assume k: "k \<in> set (wd_calls db')"
    then have "kw_record k \<in> set (map (\<lambda>k. recovered_call (kw_record k)) (wd_calls db))" unfolding records [symmetric] by simp
    then have "mc_state (kw_record k) \<noteq> McSubmitted" by (auto simp: recovered_call_def)
    then show "kw_state k = mc_state (kw_record k) \<and> kw_state k \<noteq> McSubmitted"
      using inv' k by (simp add: ledger_inv_def call_row_ok_def)
  qed
qed

section \<open>An instance\<close>

definition ledger_env :: workflow_env where
  "ledger_env = \<lparr>we_dispatch = \<lparr>en_sha256 = (\<lambda>_. 9), en_uuid_text = (\<lambda>u. be_bytes 16 (unat u)), en_detected = (\<lambda>_. True)\<rparr>,
     we_payload_ok = (\<lambda>_. True), we_uuid_simple = (\<lambda>_. ''''), we_parse_uuid = (\<lambda>_. None),
     we_slot_json = (\<lambda>_. Some ''''), we_spec_digest = (\<lambda>_. Inr 1), we_fingerprint = (\<lambda>_. Inr 1)\<rparr>"

definition ledger_identity :: model_call_identity where
  "ledger_identity = \<lparr>mi_request_sha256 = 1, mi_request_fingerprint = 2, mi_config_sha256 = 3, mi_observation_digest = None,
     mi_role = RoleCompiler, mi_requested_alias = ''m'', mi_protocol = OpenaiChatCompletions, mi_max_output_tokens = 100,
     mi_timeout_ms = 5000\<rparr>"

definition ledger_admission :: model_call_admission where
  "ledger_admission = \<lparr>ma_call_id = 5, ma_owner_key = ''o'', ma_workflow_id = None, ma_identity = ledger_identity,
     ma_deadline_unix_ms = 100, ma_max_calls = 2\<rparr>"

definition ledger_record :: model_call_record where
  "ledger_record = \<lparr>mc_call_id = 5, mc_admission = ledger_admission, mc_state = McReserved, mc_calls_used = 1,
     mc_receipt = None, mc_error_code = None\<rparr>"

definition ledger_db :: "event_envelope list \<Rightarrow> model_call_record \<Rightarrow> nat \<Rightarrow> workflow_db" where
  "ledger_db es r n = workflow_db_init\<lparr>wd_dispatch := \<lparr>db_rows = [], db_events = es\<rparr>,
     wd_owners := [\<lparr>ow_owner_key = ''o'', ow_workflow_id = None, ow_max_calls = 2, ow_deadline_unix_ms = 100, ow_calls_used = 1\<rparr>],
     wd_calls := [\<lparr>kw_call_id = 5, kw_owner_key = ''o'', kw_state = mc_state r, kw_record = r, kw_updated_sequence = n\<rparr>]\<rparr>"

abbreviation ledger_step :: "workflow_db \<Rightarrow> workflow_op \<Rightarrow> workflow_store_error + workflow_db" where
  "ledger_step \<equiv> workflow_store_step ledger_env (\<lambda>_ _. Inr ())"

lemma ledger_env_simps [simp]: "we_payload_ok ledger_env p"
  by (simp add: ledger_env_def)

lemma ledger_admission_valid [simp]: "admission_validate ledger_admission = Inr ()"
  by (simp add: admission_validate_def ledger_admission_def ledger_identity_def adapter_supported_def MAX_ALIAS_BYTES_def
      MAX_OUTPUT_TOKENS_def MIN_TIMEOUT_MS_def MAX_TIMEOUT_MS_def MAX_MODEL_CALLS_PER_OWNER_def
      rust_simps)

lemma ledger_admission_fields [simp]: "ma_call_id ledger_admission = 5" "ma_owner_key ledger_admission = ''o''"
  "ma_workflow_id ledger_admission = None" "ma_deadline_unix_ms ledger_admission = 100" "ma_max_calls ledger_admission = 2"
  by (simp_all add: ledger_admission_def)

lemma ledger_record_fields [simp]: "mc_call_id ledger_record = 5" "mc_admission ledger_record = ledger_admission"
  "mc_state ledger_record = McReserved" "mc_calls_used ledger_record = 1"
  by (simp_all add: ledger_record_def)

lemma ledger_record_valid [simp]: "call_validate ledger_record = Inr ()"
  "call_validate (ledger_record\<lparr>mc_state := McSubmitted\<rparr>) = Inr ()"
  by (simp_all add: call_validate_def ledger_record_def call_limit_bad_def valid_terminal_def)

lemma ledger_reserved: "\<exists>e1. ledger_step workflow_db_init (WoReserve 9 0 ledger_admission) = Inr (ledger_db [e1] ledger_record 1)
    \<and> ee_idempotency_key e1 = call_key ledger_env 5 ''reserved''"
  by (simp add: workflow_store_step_def workflow_db_init_def reserve_model_call_def reserve_new_call_def committed_def
      compiler_workflow_id_def strip_prefix_def COMPILER_OWNER_PREFIX_def load_call_def claim_owner_def load_owner_def
      following_use_def checked_add_def call_reserved_def call_limit_bad_def append_event_def insert_event_def
      workflow_draft_def Let_def charge_workflow_call_def set_calls_used_def insert_call_def ledger_db_def
      ledger_record_def fits_i64_def millis_def)

lemma ledger_submitted:
  assumes "ee_idempotency_key e1 = call_key ledger_env 5 ''reserved''"
  shows "\<exists>e2. ledger_step (ledger_db [e1] ledger_record 1) (WoSubmit 9 0 5)
      = Inr (ledger_db [e1, e2] (ledger_record\<lparr>mc_state := McSubmitted\<rparr>) 2)"
  using assms
  by (simp add: workflow_store_step_def workflow_db_init_def submit_model_call_def load_existing_call_def load_call_def
      mark_submitted_def persist_def committed_def append_event_def insert_event_def workflow_draft_def Let_def
      ledger_db_def call_key_def millis_def)

lemma ledger_resubmit:
  "ledger_step (ledger_db es (ledger_record\<lparr>mc_state := McSubmitted\<rparr>) n) (WoSubmit 9 0 5)
    = Inl (WsCode ''model_call_not_reservable'')"
  by (simp add: workflow_store_step_def workflow_db_init_def submit_model_call_def load_existing_call_def load_call_def
      mark_submitted_def committed_def ledger_db_def millis_def)

definition ledger_history :: "workflow_op list" where
  "ledger_history = [WoReserve 9 0 ledger_admission, WoSubmit 9 0 5, WoSubmit 9 0 5]"

lemma ledger_history_run: "\<exists>es. run_events ledger_step workflow_db_init ledger_history
    = ledger_db es (ledger_record\<lparr>mc_state := McSubmitted\<rparr>) 2"
proof -
  obtain e1 where 1: "ledger_step workflow_db_init (WoReserve 9 0 ledger_admission) = Inr (ledger_db [e1] ledger_record 1)"
    "ee_idempotency_key e1 = call_key ledger_env 5 ''reserved''" using ledger_reserved by blast
  obtain e2 where 2: "ledger_step (ledger_db [e1] ledger_record 1) (WoSubmit 9 0 5)
      = Inr (ledger_db [e1, e2] (ledger_record\<lparr>mc_state := McSubmitted\<rparr>) 2)" using ledger_submitted [OF 1(2)] by blast
  show ?thesis unfolding ledger_history_def
    by (rule exI [of _ "[e1, e2]"]) (simp add: 1(1) 2 ledger_resubmit del: One_nat_def)
qed


theorem model_call_submitted_once_witness:
  "\<exists>db. db = run_events ledger_step workflow_db_init ledger_history \<and> map kw_state (wd_calls db) = [McSubmitted]
    \<and> length (filter (submits 5) (accepted_events ledger_step workflow_db_init ledger_history)) \<le> 1
    \<and> length (filter (submits 5) ledger_history) = 2
    \<and> (\<forall>db' n. recover_model_calls ledger_env 9 0 db = Inr (db', n) \<longrightarrow> map (mc_state \<circ> kw_record) (wd_calls db') = [McUnknown])"
proof -
  obtain es where run: "run_events ledger_step workflow_db_init ledger_history
      = ledger_db es (ledger_record\<lparr>mc_state := McSubmitted\<rparr>) 2" using ledger_history_run by blast
  let ?db = "ledger_db es (ledger_record\<lparr>mc_state := McSubmitted\<rparr>) 2"
  note once = model_call_submitted_once [OF run [symmetric], of 5]
  have "map (mc_state \<circ> kw_record) (wd_calls db') = [McUnknown]" if "recover_model_calls ledger_env 9 0 ?db = Inr (db', n)" for db' n
  proof -
    have "map kw_record (wd_calls db') = [recovered_call (ledger_record\<lparr>mc_state := McSubmitted\<rparr>)]"
      using once [THEN conjunct2] that by (auto simp: ledger_db_def)
    then have "map mc_state (map kw_record (wd_calls db')) = [McUnknown]" by (simp add: recovered_call_def)
    then show ?thesis by simp
  qed
  moreover have "map kw_state (wd_calls ?db) = [McSubmitted]" by (simp add: ledger_db_def)
  moreover have "length (filter (submits 5) ledger_history) = 2" by (simp add: ledger_history_def)
  ultimately show ?thesis using run [symmetric] once [THEN conjunct1] by (intro exI [of _ ?db] conjI allI impI)
qed

end
