(* ===== verification/Optimizer.thy ===== *)
theory Optimizer
  imports Templates Slots
begin

text \<open>
  The bounded prompt optimizer, \<open>crates/vibemux_workflow/src/optimizer.rs\<close>: candidates and their validation,
  the comparison of evaluations, one cycle over candidates and the history of policy versions. The two evaluations of a cycle are closures of the caller: arguments that
  take and return a state of their own. SHA-256 and the digests of a policy and of a dataset are parameters.

  The lemmas show that a candidate changes only the wording of optimizable blocks, that a promoted candidate
  improved on the baseline, is beaten by no other candidate and held on the holdout, which is consulted at most
  once, and that the history of versions is a stack.
\<close>

section \<open>Policies and candidates\<close>

definition OPTIMIZABLE_POLICY_DOMAIN :: string where
  "OPTIMIZABLE_POLICY_DOMAIN = ''vibemux.workflow.optimizable_policy.v1''"
definition MIN_SUMMARY_BUDGET_BYTES :: u32 where "MIN_SUMMARY_BUDGET_BYTES = 512"
definition MAX_RANKING_WEIGHT :: u32 where "MAX_RANKING_WEIGHT = 100"

datatype decomposition_hint = InterfaceFirst | TestsBeforeImplementation | SmallestChangeFirst | AskBeforeAssuming

record optimizable_policy =
  oy_template_overrides :: "(string \<times> wording) list"
  oy_retrieval_order :: "context_source_kind list"
  oy_summary_budget_bytes :: u32
  oy_decomposition_hints :: "decomposition_hint list"
  oy_ranking_weights :: ranking_weights

definition baseline_policy :: optimizable_policy where
  "baseline_policy = \<lparr>oy_template_overrides = [],
     oy_retrieval_order = [CsVerifierReceipts, CsCandidateSnapshot, CsWorkerClaims],
     oy_summary_budget_bytes = 8192, oy_decomposition_hints = [], oy_ranking_weights = RANKING_BASELINE\<rparr>"

datatype optimizer_rejection = OrForbiddenField | OrForbiddenTemplateChange | OrUnsupportedParameter | OrInvalidValue
  | OrEmptyDiff | OrDatasetMismatch | OrPolicyMismatch | OrHardGateFailure | OrNoImprovement | OrHoldoutRegression
  | OrHoldoutContaminated | OrBudgetExhausted | OrInvalidHistory

fun optimizer_rejection_code :: "optimizer_rejection \<Rightarrow> string" where
  "optimizer_rejection_code OrForbiddenField = ''optimizer_forbidden_field''"
| "optimizer_rejection_code OrForbiddenTemplateChange = ''optimizer_forbidden_template_change''"
| "optimizer_rejection_code OrUnsupportedParameter = ''optimizer_parameter_unsupported''"
| "optimizer_rejection_code OrInvalidValue = ''optimizer_invalid_value''"
| "optimizer_rejection_code OrEmptyDiff = ''optimizer_empty_diff''"
| "optimizer_rejection_code OrDatasetMismatch = ''optimizer_dataset_mismatch''"
| "optimizer_rejection_code OrPolicyMismatch = ''optimizer_policy_mismatch''"
| "optimizer_rejection_code OrHardGateFailure = ''optimizer_hard_gate_failure''"
| "optimizer_rejection_code OrNoImprovement = ''optimizer_no_improvement''"
| "optimizer_rejection_code OrHoldoutRegression = ''optimizer_holdout_regression''"
| "optimizer_rejection_code OrHoldoutContaminated = ''optimizer_holdout_contaminated''"
| "optimizer_rejection_code OrBudgetExhausted = ''optimizer_budget_exhausted''"
| "optimizer_rejection_code OrInvalidHistory = ''optimizer_invalid_history''"

fun template_rejection :: "template_error \<Rightarrow> optimizer_rejection" where
  "template_rejection ForbiddenOverride = OrForbiddenTemplateChange"
| "template_rejection UnknownTemplate = OrForbiddenTemplateChange"
| "template_rejection InvalidOverride = OrInvalidValue"

fun check_template_overrides ::
  "(string \<Rightarrow> digest) \<Rightarrow> (string \<times> wording) list \<Rightarrow> optimizer_rejection + unit" where
  "check_template_overrides sha256 [] = Inr ()"
| "check_template_overrides sha256 ((template_version, overrides) # rest) =
     (case spec_identifier_new template_version of Inl _ \<Rightarrow> Inl OrForbiddenTemplateChange | Inr version \<Rightarrow>
     (case resolve_template sha256 version overrides of Inl e \<Rightarrow> Inl (template_rejection e)
      | Inr _ \<Rightarrow> check_template_overrides sha256 rest))"

text \<open>Sorting and removing duplicates shortens the retrieval order iff it names a source twice.\<close>

definition policy_validate :: "(string \<Rightarrow> digest) \<Rightarrow> optimizable_policy \<Rightarrow> optimizer_rejection + unit" where
  "policy_validate sha256 self =
     (case check_template_overrides sha256 (oy_template_overrides self) of Inl e \<Rightarrow> Inl e | Inr _ \<Rightarrow>
      if \<not> distinct (oy_retrieval_order self) \<or> oy_retrieval_order self = [] then Inl OrInvalidValue
      else if \<not> (MIN_SUMMARY_BUDGET_BYTES \<le> oy_summary_budget_bytes self
                \<and> oy_summary_budget_bytes self \<le> MAX_CONTEXT_BUNDLE_BYTES) then Inl OrInvalidValue
      else if list_ex (\<lambda>weight. weight > MAX_RANKING_WEIGHT)
                [rw_known_budget (oy_ranking_weights self), rw_live_evidence (oy_ranking_weights self),
                 rw_native_resume (oy_ranking_weights self)] then Inl OrInvalidValue
      else Inr ())"

definition validate_operational :: "(string \<Rightarrow> digest) \<Rightarrow> optimizable_policy \<Rightarrow> optimizer_rejection + unit" where
  "validate_operational sha256 self =
     (case policy_validate sha256 self of Inl e \<Rightarrow> Inl e | Inr _ \<Rightarrow>
      if oy_retrieval_order self \<noteq> oy_retrieval_order baseline_policy
         \<or> oy_summary_budget_bytes self \<noteq> oy_summary_budget_bytes baseline_policy
         \<or> oy_decomposition_hints self \<noteq> oy_decomposition_hints baseline_policy
         \<or> oy_ranking_weights self \<noteq> RANKING_BASELINE
      then Inl OrUnsupportedParameter else Inr ())"

record 'n policy_change =
  pg_field :: string
  pg_value :: "'n json_value"

record 'n candidate_diff =
  cd_changes :: "'n policy_change list"
  cd_expected_benefit :: string
  cd_possible_regressions :: "string list"

text \<open>\<open>str::split('.')\<close>.\<close>

fun split_dot :: "string \<Rightarrow> string list" where
  "split_dot [] = [[]]"
| "split_dot (c # cs) =
     (if c = CHR ''.'' then [] # split_dot cs
      else (case split_dot cs of [] \<Rightarrow> [[c]] | seg # segs \<Rightarrow> (c # seg) # segs))"

definition insert_wording :: "string \<Rightarrow> string \<Rightarrow> string \<Rightarrow> (string \<times> wording) list \<Rightarrow> (string \<times> wording) list" where
  "insert_wording template block t overrides =
     btree_insert template
       (btree_insert block t (case map_of overrides template of None \<Rightarrow> [] | Some w \<Rightarrow> w)) overrides"

definition unsupported_fields :: "string list list" where
  "unsupported_fields = [[''retrieval_order''], [''summary_budget_bytes''], [''decomposition_hints''],
     [''ranking_weights'', ''known_budget''], [''ranking_weights'', ''live_evidence''],
     [''ranking_weights'', ''native_resume'']]"

text \<open>The two parts of a field path that rewords a template.\<close>

definition wording_field :: "string list \<Rightarrow> (string \<times> string) option" where
  "wording_field parts =
     (case parts of [a, template, block] \<Rightarrow> if a = ''template_overrides'' then Some (template, block) else None
      | _ \<Rightarrow> None)"

fun apply_changes ::
  "'n policy_change list \<Rightarrow> (string \<times> wording) list \<Rightarrow> optimizer_rejection + (string \<times> wording) list" where
  "apply_changes [] overrides = Inr overrides"
| "apply_changes (change # changes) overrides =
     (let parts = split_dot (pg_field change) in
      case wording_field parts of
        Some (template, block) \<Rightarrow>
          (case json_as_str (pg_value change) of None \<Rightarrow> Inl OrInvalidValue
           | Some t \<Rightarrow> apply_changes changes (insert_wording template block t overrides))
      | None \<Rightarrow> if parts \<in> set unsupported_fields then Inl OrUnsupportedParameter else Inl OrForbiddenField)"

definition apply_candidate ::
  "(string \<Rightarrow> digest) \<Rightarrow> optimizable_policy \<Rightarrow> 'n candidate_diff \<Rightarrow> optimizer_rejection + optimizable_policy" where
  "apply_candidate sha256 base diff =
     (if cd_changes diff = [] then Inl OrEmptyDiff
      else (case apply_changes (cd_changes diff) (oy_template_overrides base) of Inl e \<Rightarrow> Inl e | Inr overrides \<Rightarrow>
     (let candidate = base\<lparr>oy_template_overrides := overrides\<rparr> in
      case validate_operational sha256 candidate of Inl e \<Rightarrow> Inl e | Inr _ \<Rightarrow>
      if candidate = base then Inl OrEmptyDiff else Inr candidate)))"

section \<open>Evaluations\<close>

datatype dataset_split = Train | Dev | Holdout

record evaluation_dataset =
  ed_dataset_id :: spec_identifier
  ed_split :: dataset_split
  ed_case_ids :: "spec_identifier list"

record case_result =
  cr_case_id :: spec_identifier
  cr_hard_gates_passed :: bool
  cr_verified_success :: bool
  cr_model_requests :: "u32 option"
  cr_elapsed_ms :: u64

record evaluation_run =
  er_policy_digest :: digest
  er_dataset_digest :: digest
  er_results :: "case_result list"

record evaluation_summary =
  es_cases :: u32
  es_hard_gate_failures :: u32
  es_verified_successes :: u32
  es_model_requests :: "u64 option"
  es_elapsed_ms :: u64

text \<open>\<open>u32::try_from(n).unwrap_or(u32::MAX)\<close>.\<close>

definition u32_or_max :: "nat \<Rightarrow> u32" where
  "u32_or_max n = (if n < 2 ^ 32 then of_nat n else - 1)"

text \<open>\<open>Iterator::sum\<close> of options is the sum if all are known. Sums of words wrap, as in a release build.\<close>

definition sum_known :: "u32 option list \<Rightarrow> u64 option" where
  "sum_known xs = (if None \<in> set xs then None else Some (sum_list (map (\<lambda>x. ucast (the x)) xs)))"

definition summarize ::
  "(optimizable_policy \<Rightarrow> canonical_error + digest) \<Rightarrow> (evaluation_dataset \<Rightarrow> canonical_error + digest) \<Rightarrow>
   evaluation_run \<Rightarrow> evaluation_dataset \<Rightarrow> optimizable_policy \<Rightarrow> optimizer_rejection + evaluation_summary" where
  "summarize policy_digest dataset_digest run dataset policy =
     (case policy_digest policy of Inl _ \<Rightarrow> Inl OrInvalidValue | Inr pd \<Rightarrow>
      if er_policy_digest run \<noteq> pd then Inl OrPolicyMismatch
      else (case dataset_digest dataset of Inl _ \<Rightarrow> Inl OrInvalidValue | Inr dd \<Rightarrow>
      if er_dataset_digest run \<noteq> dd then Inl OrDatasetMismatch
      else if sort (ed_case_ids dataset) \<noteq> sort (map cr_case_id (er_results run)) then Inl OrDatasetMismatch
      else Inr \<lparr>es_cases = u32_or_max (length (er_results run)),
                es_hard_gate_failures = u32_or_max (length (filter (\<lambda>r. \<not> cr_hard_gates_passed r) (er_results run))),
                es_verified_successes =
                  u32_or_max (length (filter (\<lambda>r. cr_verified_success r \<and> cr_hard_gates_passed r) (er_results run))),
                es_model_requests = sum_known (map cr_model_requests (er_results run)),
                es_elapsed_ms = sum_list (map cr_elapsed_ms (er_results run))\<rparr>))"

definition compare_to_baseline ::
  "evaluation_summary \<Rightarrow> evaluation_summary \<Rightarrow> optimizer_rejection + unit" where
  "compare_to_baseline baseline candidate =
     (if es_hard_gate_failures candidate > 0 then Inl OrHardGateFailure
      else if es_verified_successes candidate > es_verified_successes baseline then Inr ()
      else if es_verified_successes candidate = es_verified_successes baseline
           \<and> (case (es_model_requests candidate, es_model_requests baseline) of
                (Some candidate_cost, Some baseline_cost) \<Rightarrow> candidate_cost < baseline_cost
              | _ \<Rightarrow> False)
      then Inr ()
      else Inl OrNoImprovement)"

record holdout_ledger =
  hl_consultations :: u32

definition consult :: "holdout_ledger \<Rightarrow> optimizer_rejection + holdout_ledger" where
  "consult self = (if hl_consultations self > 0 then Inl OrHoldoutContaminated
     else Inr (self\<lparr>hl_consultations := hl_consultations self + 1\<rparr>))"

record optimizer_limits =
  ol_max_candidates :: u32
  ol_max_model_requests :: u32

record candidate_outcome =
  cu_candidate_digest :: "digest option"
  cu_rejection :: "optimizer_rejection option"

record cycle_decision =
  cn_outcomes :: "candidate_outcome list"
  cn_promoted :: "digest option"
  cn_optimization_improved :: bool

record cycle_baseline =
  cb_dev :: evaluation_summary
  cb_holdout :: evaluation_summary

section \<open>A cycle\<close>

type_synonym 's evaluator = "'s \<Rightarrow> optimizable_policy \<Rightarrow> (optimizer_rejection + evaluation_summary) \<times> 's"

definition digest_ok :: "canonical_error + digest \<Rightarrow> digest option" where
  "digest_ok r = (case r of Inl _ \<Rightarrow> None | Inr d \<Rightarrow> Some d)"

definition evaluate_candidate ::
  "(string \<Rightarrow> digest) \<Rightarrow> optimizable_policy \<Rightarrow> evaluation_summary \<Rightarrow> 's evaluator \<Rightarrow> 's \<Rightarrow> 'n candidate_diff \<Rightarrow>
   (optimizer_rejection + optimizable_policy \<times> evaluation_summary) \<times> 's" where
  "evaluate_candidate sha256 base dev evaluate_dev s diff =
     (case apply_candidate sha256 base diff of Inl e \<Rightarrow> (Inl e, s) | Inr candidate \<Rightarrow>
     (case evaluate_dev s candidate of (Inl e, s1) \<Rightarrow> (Inl e, s1) | (Inr summary, s1) \<Rightarrow>
     (case compare_to_baseline dev summary of Inl e \<Rightarrow> (Inl e, s1) | Inr _ \<Rightarrow> (Inr (candidate, summary), s1))))"

definition better_of ::
  "(optimizable_policy \<times> evaluation_summary) option \<Rightarrow> optimizable_policy \<times> evaluation_summary \<Rightarrow>
   optimizable_policy \<times> evaluation_summary" where
  "better_of best found =
     (case best of None \<Rightarrow> found
      | Some current \<Rightarrow> if compare_to_baseline (snd current) (snd found) = Inr () then found else current)"

fun cycle_loop ::
  "(string \<Rightarrow> digest) \<Rightarrow> (optimizable_policy \<Rightarrow> canonical_error + digest) \<Rightarrow> optimizable_policy \<Rightarrow> evaluation_summary \<Rightarrow>
   u32 \<Rightarrow> 's evaluator \<Rightarrow> nat \<Rightarrow> 'n candidate_diff list \<Rightarrow>
   's \<times> candidate_outcome list \<times> (optimizable_policy \<times> evaluation_summary) option \<Rightarrow>
   's \<times> candidate_outcome list \<times> (optimizable_policy \<times> evaluation_summary) option" where
  "cycle_loop sha256 policy_digest base dev max_candidates evaluate_dev index [] (s, outcomes, best) = (s, outcomes, best)"
| "cycle_loop sha256 policy_digest base dev max_candidates evaluate_dev index (diff # diffs) (s, outcomes, best) =
     (if u32_or_max index \<ge> max_candidates
      then cycle_loop sha256 policy_digest base dev max_candidates evaluate_dev (Suc index) diffs
             (s, outcomes @ [\<lparr>cu_candidate_digest = None, cu_rejection = Some OrBudgetExhausted\<rparr>], best)
      else (case evaluate_candidate sha256 base dev evaluate_dev s diff of
        (Inr (candidate, summary), s1) \<Rightarrow>
          cycle_loop sha256 policy_digest base dev max_candidates evaluate_dev (Suc index) diffs
            (s1, outcomes @ [\<lparr>cu_candidate_digest = digest_ok (policy_digest candidate), cu_rejection = None\<rparr>],
             Some (better_of best (candidate, summary)))
      | (Inl rejection, s1) \<Rightarrow>
          cycle_loop sha256 policy_digest base dev max_candidates evaluate_dev (Suc index) diffs
            (s1, outcomes @ [\<lparr>cu_candidate_digest = None, cu_rejection = Some rejection\<rparr>], best)))"

definition try_promote ::
  "(optimizable_policy \<Rightarrow> canonical_error + digest) \<Rightarrow> evaluation_summary \<Rightarrow> 's evaluator \<Rightarrow> holdout_ledger \<Rightarrow> 's \<Rightarrow>
   (optimizable_policy \<times> evaluation_summary) option \<Rightarrow> digest option \<times> holdout_ledger \<times> 's" where
  "try_promote policy_digest baseline_holdout evaluate_holdout ledger s best =
     (case best of None \<Rightarrow> (None, ledger, s)
      | Some (candidate, _) \<Rightarrow>
     (case consult ledger of Inl _ \<Rightarrow> (None, ledger, s)
      | Inr ledger1 \<Rightarrow>
     (case evaluate_holdout s candidate of (Inl _, s1) \<Rightarrow> (None, ledger1, s1)
      | (Inr holdout, s1) \<Rightarrow>
          if es_hard_gate_failures holdout > 0
             \<or> es_verified_successes holdout < es_verified_successes baseline_holdout
          then (None, ledger1, s1)
          else (digest_ok (policy_digest candidate), ledger1, s1))))"

definition run_cycle ::
  "(string \<Rightarrow> digest) \<Rightarrow> (optimizable_policy \<Rightarrow> canonical_error + digest) \<Rightarrow> optimizable_policy \<Rightarrow> cycle_baseline \<Rightarrow>
   'n candidate_diff list \<Rightarrow> optimizer_limits \<Rightarrow> holdout_ledger \<Rightarrow> 's evaluator \<Rightarrow> 's evaluator \<Rightarrow> 's \<Rightarrow>
   cycle_decision \<times> holdout_ledger \<times> 's" where
  "run_cycle sha256 policy_digest base baseline diffs limits ledger evaluate_dev evaluate_holdout s =
     (let (s1, outcomes, best) =
        cycle_loop sha256 policy_digest base (cb_dev baseline) (ol_max_candidates limits) evaluate_dev 0 diffs (s, [], None);
        (promoted, ledger1, s2) = try_promote policy_digest (cb_holdout baseline) evaluate_holdout ledger s1 best
      in (\<lparr>cn_outcomes = outcomes, cn_promoted = promoted, cn_optimization_improved = (promoted \<noteq> None)\<rparr>, ledger1, s2))"

section \<open>Version history\<close>

datatype policy_state = PsActive | PsSuperseded | PsRolledBack

record policy_version =
  pv_version :: u32
  pv_parent :: "u32 option"
  pv_policy_digest :: digest
  pv_state :: policy_state

type_synonym policy_history = "policy_version list"

definition history_active :: "policy_history \<Rightarrow> policy_version option" where
  "history_active self = find (\<lambda>version. pv_state version = PsActive) self"

definition next_policy_version :: "policy_history \<Rightarrow> u32 option" where
  "next_policy_version self = (if self = [] then Some 1 else checked_add (Max (set (map pv_version self))) 1)"

definition promote :: "policy_history \<Rightarrow> digest \<Rightarrow> optimizer_rejection + policy_history \<times> u32" where
  "promote self policy_digest =
     (let parent = map_option pv_version (history_active self) in
      case next_policy_version self of None \<Rightarrow> Inl OrInvalidHistory | Some following \<Rightarrow>
      Inr (map (\<lambda>version. if pv_state version = PsActive then version\<lparr>pv_state := PsSuperseded\<rparr> else version) self
           @ [\<lparr>pv_version = following, pv_parent = parent, pv_policy_digest = policy_digest, pv_state = PsActive\<rparr>],
           following))"

definition rollback :: "policy_history \<Rightarrow> optimizer_rejection + policy_history \<times> u32" where
  "rollback self =
     (case history_active self of None \<Rightarrow> Inl OrInvalidHistory | Some active \<Rightarrow>
     (case pv_parent active of None \<Rightarrow> Inl OrInvalidHistory | Some parent \<Rightarrow>
      Inr (map (\<lambda>version. if pv_version version = pv_version active then version\<lparr>pv_state := PsRolledBack\<rparr>
                else if pv_version version = parent then version\<lparr>pv_state := PsActive\<rparr> else version) self,
           parent)))"

section \<open>What a candidate changes\<close>

text \<open>The block a change rewords and its new text; none if the change is of another kind.\<close>

definition reworded :: "'n policy_change \<Rightarrow> ((string \<times> string) \<times> string) option" where
  "reworded change =
     (case wording_field (split_dot (pg_field change)) of None \<Rightarrow> None
      | Some place \<Rightarrow> map_option (\<lambda>t. (place, t)) (json_as_str (pg_value change)))"

definition wording_wf :: "(string \<times> wording) list \<Rightarrow> bool" where
  "wording_wf m \<longleftrightarrow> btree m \<and> (\<forall>w \<in> snd ` set m. btree w)"

definition wording_at :: "(string \<times> wording) list \<Rightarrow> string \<times> string \<Rightarrow> string option" where
  "wording_at m place = (case map_of m (fst place) of None \<Rightarrow> None | Some w \<Rightarrow> map_of w (snd place))"

lemma values_btree_insert: "snd ` set (btree_insert k v m) \<subseteq> insert v (snd ` set m)"
  by (induction k v m rule: btree_insert.induct) auto

lemma insert_wording_wf:
  assumes "wording_wf m"
  shows "wording_wf (insert_wording template block t m)
    \<and> wording_at (insert_wording template block t m) = (wording_at m)((template, block) \<mapsto> t)"
proof -
  let ?w = "case map_of m template of None \<Rightarrow> [] | Some w \<Rightarrow> w"
  have w: "btree ?w"
    using assms by (force simp: wording_wf_def split: option.splits dest: map_of_SomeD)
  have "btree x" if "x \<in> snd ` set (btree_insert template (btree_insert block t ?w) m)" for x
  proof -
    from that have "x \<in> insert (btree_insert block t ?w) (snd ` set m)"
      by (rule subsetD [OF values_btree_insert])
    then show ?thesis using assms w by (auto simp: wording_wf_def simp del: option.case)
  qed
  then have "wording_wf (insert_wording template block t m)"
    using assms unfolding wording_wf_def insert_wording_def by (intro conjI ballI btree_insert_btree) blast+
  moreover have "wording_at (insert_wording template block t m) place = ((wording_at m)((template, block) \<mapsto> t)) place" for place
    using assms w by (cases place) (auto simp: wording_wf_def insert_wording_def wording_at_def split: option.splits)
  ultimately show ?thesis by blast
qed

lemma apply_changes_Inr:
  "apply_changes changes m = Inr m' \<Longrightarrow> wording_wf m \<Longrightarrow>
   None \<notin> reworded ` set changes \<and> wording_wf m'
   \<and> wording_at m' = wording_at m ++ map_of (rev (map (the \<circ> reworded) changes))"
proof (induction changes arbitrary: m)
  case (Cons change changes)
  obtain template block t where c: "wording_field (split_dot (pg_field change)) = Some (template, block)"
    "json_as_str (pg_value change) = Some t"
    and rest: "apply_changes changes (insert_wording template block t m) = Inr m'"
    using Cons.prems(1) by (auto simp: Let_def split: option.splits prod.splits if_splits)
  have "reworded change = Some ((template, block), t)" by (simp add: reworded_def c)
  with Cons.IH [OF rest] insert_wording_wf [OF Cons.prems(2), of template block t] show ?case
    by (auto simp: map_add_def split: option.splits)
qed simp

lemma reworded_Some:
  "reworded change = Some ((template, block), t) \<longleftrightarrow>
   split_dot (pg_field change) = [''template_overrides'', template, block] \<and> pg_value change = JString t"
  by (cases "pg_value change") (auto simp: reworded_def wording_field_def split: option.splits list.splits if_splits)

lemma check_template_overrides_Inr:
  "check_template_overrides sha256 m = Inr () \<Longrightarrow> (template, w) \<in> set m \<Longrightarrow> \<exists>r. resolve_template sha256 template w = Inr r"
  by (induction sha256 m rule: check_template_overrides.induct)
    (auto simp: spec_identifier_new_def split: sum.splits if_splits)

lemma apply_candidate_Inr:
  assumes "apply_candidate sha256 base diff = Inr c"
  shows "apply_changes (cd_changes diff) (oy_template_overrides base) = Inr (oy_template_overrides c)
    \<and> c = base\<lparr>oy_template_overrides := oy_template_overrides c\<rparr> \<and> c \<noteq> base
    \<and> validate_operational sha256 c = Inr ()"
  using assms by (auto simp: apply_candidate_def Let_def split: if_splits sum.splits)

lemma validate_operational_Inr:
  "validate_operational sha256 c = Inr () \<Longrightarrow> check_template_overrides sha256 (oy_template_overrides c) = Inr ()
   \<and> c = baseline_policy\<lparr>oy_template_overrides := oy_template_overrides c\<rparr>"
  by (auto simp: validate_operational_def policy_validate_def baseline_policy_def split: sum.splits if_splits)

definition example_diff :: "int candidate_diff" where
  "example_diff = \<lparr>cd_changes =
     [\<lparr>pg_field = ''template_overrides.worker_v1.worker_method'', pg_value = JString ''Test first.''\<rparr>],
     cd_expected_benefit = [], cd_possible_regressions = []\<rparr>"

definition reworded_example :: optimizable_policy where
  "reworded_example = baseline_policy\<lparr>oy_template_overrides := [(''worker_v1'', [(''worker_method'', ''Test first.'')])]\<rparr>"

lemma example_accepted: "apply_candidate (\<lambda>_. 0) baseline_policy example_diff = Inr reworded_example"
proof -
  have "\<not> override_bad ''Test first.''" by (simp add: override_bad_def MAX_TEMPLATE_BLOCK_BYTES_def rust_simps)
  then show ?thesis
    by (simp add: apply_candidate_def baseline_policy_def wording_field_def insert_wording_def
        validate_operational_def policy_validate_def spec_identifier_new_def is_snake_case_def MAX_IDENTIFIER_BYTES_def rust_simps
        Sublist.suffix_def sublist_code resolve_template_def
        base_template_of_def base_templates_def WORKER_TEMPLATE_V1_def MIN_SUMMARY_BUDGET_BYTES_def
        MAX_CONTEXT_BUNDLE_BYTES_def MAX_RANKING_WEIGHT_def RANKING_BASELINE_def example_diff_def reworded_example_def)
qed

text \<open>C22. The optimizer changes wording only. An accepted candidate comes from changes that all address one block of a
  template with a text; it differs from its base exactly in those texts, the last change of a block counting, and
  is the baseline in every other parameter. Every text it carries is for an optimizable block of a known template,
  is not blank, within the limit and free of control characters and mentions, and every template resolved
  with it has its immutable blocks unchanged.\<close>

theorem optimizer_changes_wording_only:
  assumes "apply_candidate sha256 base diff = Inr c" and "wording_wf (oy_template_overrides base)"
  shows "(\<forall>change \<in> set (cd_changes diff). \<exists>template block t.
        split_dot (pg_field change) = [''template_overrides'', template, block] \<and> pg_value change = JString t)
    \<and> c \<noteq> base \<and> c = baseline_policy\<lparr>oy_template_overrides := oy_template_overrides c\<rparr>
    \<and> wording_wf (oy_template_overrides c)
    \<and> wording_at (oy_template_overrides c)
        = wording_at (oy_template_overrides base) ++ map_of (rev (map (the \<circ> reworded) (cd_changes diff)))
    \<and> (\<forall>template b t. wording_at (oy_template_overrides c) (template, b) = Some t \<longrightarrow>
        (\<exists>base block. base_template_of template = Some base \<and> block \<in> set (bt_blocks base) \<and> tb_block_id block = b
          \<and> \<not> tb_immutable block \<and> \<not> override_bad t))
    \<and> (\<forall>template w. map_of (oy_template_overrides c) template = Some w \<longrightarrow>
        (\<exists>r. resolve_template sha256 template w = Inr r
          \<and> filter (\<lambda>(_, immutable, _). immutable) (resolved_blocks r)
            = map (\<lambda>block. (tb_block_id block, True, tb_text block)) (filter tb_immutable (bt_blocks (tm_base r)))))"
proof -
  note c = apply_candidate_Inr [OF assms(1)]
  note changes = apply_changes_Inr [OF c [THEN conjunct1] assms(2)]
  note valid = validate_operational_Inr [OF c [THEN conjunct2, THEN conjunct2, THEN conjunct2]]
  have resolved: "\<exists>r. resolve_template sha256 template w = Inr r" if "map_of (oy_template_overrides c) template = Some w" for template w
    using check_template_overrides_Inr [OF valid [THEN conjunct1] map_of_SomeD [OF that]] .
  have "\<exists>template block t. split_dot (pg_field change) = [''template_overrides'', template, block] \<and> pg_value change = JString t"
    if "change \<in> set (cd_changes diff)" for change
  proof -
    have "reworded change \<noteq> None" using changes that by (metis image_eqI)
    then obtain template block t where "reworded change = Some ((template, block), t)" by fast
    then show ?thesis by (auto simp: reworded_Some)
  qed
  moreover have "\<exists>base block. base_template_of template = Some base \<and> block \<in> set (bt_blocks base) \<and> tb_block_id block = b
      \<and> \<not> tb_immutable block \<and> \<not> override_bad t"
    if found: "wording_at (oy_template_overrides c) (template, b) = Some t" for template b t
  proof -
    obtain w where w: "map_of (oy_template_overrides c) template = Some w" "map_of w b = Some t"
      using found by (cases "map_of (oy_template_overrides c) template") (auto simp: wording_at_def)
    then obtain r where "resolve_template sha256 template w = Inr r" using resolved by blast
    then obtain base' where "base_template_of template = Some base'" "check_overrides (bt_blocks base') w = Inr ()"
      using resolve_template_Inr by blast
    then show ?thesis using check_overrides_Inr [OF _ map_of_SomeD [OF w(2)]] by (blast dest: find_Some_filter)
  qed
  ultimately show ?thesis using changes c valid resolved immutable_blocks_kept by blast
qed

theorem optimizer_changes_wording_only_witness:
  "apply_candidate (\<lambda>_. 0) baseline_policy example_diff = Inr reworded_example
    \<and> wording_at (oy_template_overrides reworded_example) = [(''worker_v1'', ''worker_method'') \<mapsto> ''Test first.'']"
proof -
  have "wording_wf (oy_template_overrides baseline_policy)" by (simp add: wording_wf_def baseline_policy_def)
  note changed = optimizer_changes_wording_only [OF example_accepted this]
  have "wording_at (oy_template_overrides reworded_example) = wording_at (oy_template_overrides baseline_policy)
      ++ map_of (rev (map (the \<circ> reworded) (cd_changes example_diff)))"
    using changed by (elim conjE)
  also have "\<dots> = [(''worker_v1'', ''worker_method'') \<mapsto> ''Test first.'']"
    by (simp add: wording_at_def baseline_policy_def reworded_def wording_field_def fun_eq_iff map_add_def
        example_diff_def)
  finally show ?thesis using example_accepted by blast
qed

section \<open>The cycle\<close>

text \<open>An evaluation that answers from a table and logs what it was asked.\<close>

definition logged ::
  "(optimizable_policy \<Rightarrow> 'c) \<Rightarrow> (optimizable_policy \<Rightarrow> optimizer_rejection + evaluation_summary) \<Rightarrow> 'c list evaluator" where
  "logged tag f s p = (f p, s @ [tag p])"

definition improving ::
  "(string \<Rightarrow> digest) \<Rightarrow> optimizable_policy \<Rightarrow> evaluation_summary \<Rightarrow> (optimizable_policy \<Rightarrow> optimizer_rejection + evaluation_summary) \<Rightarrow>
   'n candidate_diff \<Rightarrow> optimizable_policy \<times> evaluation_summary \<Rightarrow> bool" where
  "improving sha256 base dev f diff found \<longleftrightarrow> apply_candidate sha256 base diff = Inr (fst found)
     \<and> f (fst found) = Inr (snd found) \<and> compare_to_baseline dev (snd found) = Inr ()"

definition beats :: "evaluation_summary \<Rightarrow> evaluation_summary \<Rightarrow> bool" where
  "beats a b \<longleftrightarrow> compare_to_baseline b a = Inr ()"

lemma beats_iff: "beats a b \<longleftrightarrow> es_hard_gate_failures a = 0 \<and> (es_verified_successes b < es_verified_successes a
    \<or> es_verified_successes b = es_verified_successes a
      \<and> (\<exists>x y. es_model_requests a = Some x \<and> es_model_requests b = Some y \<and> x < y))"
  by (auto simp: beats_def compare_to_baseline_def word_gt_0 split: option.splits if_splits)

lemma beats_trans: "beats a b \<Longrightarrow> beats b c \<Longrightarrow> beats a c"
  by (auto simp: beats_iff)

lemma beats_irrefl: "\<not> beats a a"
  by (auto simp: beats_iff)

text \<open>The loop's best candidate so far: one of the candidates found, beaten by none of them.\<close>

definition best_of ::
  "(optimizable_policy \<times> evaluation_summary) option \<Rightarrow> (optimizable_policy \<times> evaluation_summary) set \<Rightarrow> bool" where
  "best_of best found \<longleftrightarrow> (case best of None \<Rightarrow> found = {}
     | Some b \<Rightarrow> b \<in> found \<and> (\<forall>x \<in> found. \<not> beats (snd x) (snd b)))"

lemma best_of_insert:
  assumes "best_of best found"
  shows "best_of (Some (better_of best x)) (insert x found)"
proof (cases best)
  case None
  with assms show ?thesis by (simp add: best_of_def better_of_def beats_irrefl)
next
  case (Some b)
  with assms have b: "b \<in> found" "\<forall>x \<in> found. \<not> beats (snd x) (snd b)" by (simp_all add: best_of_def)
  show ?thesis
  proof (cases "beats (snd x) (snd b)")
    case True
    then have "better_of best x = x" by (simp add: better_of_def Some beats_def)
    then show ?thesis using b True beats_trans beats_irrefl by (auto simp: best_of_def)
  next
    case False
    then have "better_of best x = b" by (simp add: better_of_def Some beats_def)
    then show ?thesis using b False by (simp add: best_of_def)
  qed
qed

lemma u32_or_max_ge: "m \<le> u32_or_max n \<longleftrightarrow> unat m \<le> n"
proof (cases "n < 2 ^ 32")
  case True
  then show ?thesis by (simp add: u32_or_max_def word_le_nat_alt unat_of_nat)
next
  case False
  moreover have "unat m < 2 ^ 32" using unsigned_less [where 'a = nat and w = m] by simp
  ultimately show ?thesis by (simp add: u32_or_max_def)
qed

definition found_in ::
  "(string \<Rightarrow> digest) \<Rightarrow> optimizable_policy \<Rightarrow> evaluation_summary \<Rightarrow> (optimizable_policy \<Rightarrow> optimizer_rejection + evaluation_summary) \<Rightarrow>
   'n candidate_diff list \<Rightarrow> (optimizable_policy \<times> evaluation_summary) set" where
  "found_in sha256 base dev f diffs = {x. \<exists>diff \<in> set diffs. improving sha256 base dev f diff x}"

lemma found_in_Cons: "found_in sha256 base dev f (diff # diffs)
    = {x. improving sha256 base dev f diff x} \<union> found_in sha256 base dev f diffs"
  by (auto simp: found_in_def)

lemma improving_unique: "improving sha256 base dev f diff x \<Longrightarrow> {y. improving sha256 base dev f diff y} = {x}"
  by (auto simp: improving_def prod_eq_iff)

lemma evaluate_candidate_logged:
  assumes "evaluate_candidate sha256 base dev (logged tag f) s diff = (r, s1)"
  shows "{x. improving sha256 base dev f diff x} = (case r of Inl _ \<Rightarrow> {} | Inr x \<Rightarrow> {x})
    \<and> (\<exists>calls. s1 = s @ map tag calls \<and> length calls \<le> 1)"
proof -
  have calls: "\<exists>calls. s1 = s @ map tag calls \<and> length calls \<le> 1"
    using assms
    by (auto simp: evaluate_candidate_def logged_def split: sum.splits intro: exI [of _ "[]"] exI [of _ "[_]"])
  show ?thesis
  proof (cases r)
    case (Inl e)
    then have "\<not> improving sha256 base dev f diff x" for x
      using assms by (auto simp: evaluate_candidate_def logged_def improving_def split: sum.splits)
    then show ?thesis using calls Inl by simp
  next
    case (Inr x)
    then have "improving sha256 base dev f diff x"
      using assms by (auto simp: evaluate_candidate_def logged_def improving_def split: sum.splits)
    from improving_unique [OF this] show ?thesis using calls Inr by simp
  qed
qed

lemma cycle_loop_logged:
  assumes "cycle_loop sha256 pd base dev m (logged tag f) index diffs (s, outcomes, best) = (s', outcomes', best')"
    and "best_of best found"
  shows "best_of best' (found \<union> found_in sha256 base dev f (take (unat m - index) diffs))
    \<and> (\<exists>calls. s' = s @ map tag calls \<and> length calls \<le> unat m - index)
    \<and> (\<exists>more. outcomes' = outcomes @ more \<and> length more = length diffs
        \<and> (\<forall>i < length diffs. unat m \<le> index + i \<longrightarrow> cu_rejection (more ! i) = Some OrBudgetExhausted))"
  using assms
proof (induction diffs arbitrary: index s outcomes best found)
  case Nil
  then show ?case by (simp add: found_in_def)
next
  case (Cons diff diffs)
  show ?case
  proof (cases "unat m \<le> index")
    case True
    let ?o = "\<lparr>cu_candidate_digest = None, cu_rejection = Some OrBudgetExhausted\<rparr>"
    have "cycle_loop sha256 pd base dev m (logged tag f) (Suc index) diffs (s, outcomes @ [?o], best) = (s', outcomes', best')"
      using Cons.prems(1) True by (simp add: u32_or_max_ge)
    note ih = Cons.IH [OF this Cons.prems(2)]
    then obtain more where more: "outcomes' = outcomes @ ?o # more" "length more = length diffs"
      "\<forall>i < length diffs. unat m \<le> Suc index + i \<longrightarrow> cu_rejection (more ! i) = Some OrBudgetExhausted" by auto
    have "\<forall>i < length (diff # diffs). unat m \<le> index + i \<longrightarrow> cu_rejection ((?o # more) ! i) = Some OrBudgetExhausted"
      using more(3) True by (auto simp: nth_Cons split: nat.splits)
    then have out: "\<exists>more. outcomes' = outcomes @ more \<and> length more = length (diff # diffs)
        \<and> (\<forall>i < length (diff # diffs). unat m \<le> index + i \<longrightarrow> cu_rejection (more ! i) = Some OrBudgetExhausted)"
      using more(1,2) by (intro exI [of _ "?o # more"]) simp
    show ?thesis using ih out True by (simp add: found_in_def)
  next
    case False
    obtain r s1 where r: "evaluate_candidate sha256 base dev (logged tag f) s diff = (r, s1)" by fastforce
    note step = evaluate_candidate_logged [OF r]
    define oc where "oc = (case r of Inl e \<Rightarrow> \<lparr>cu_candidate_digest = None, cu_rejection = Some e\<rparr>
      | Inr x \<Rightarrow> \<lparr>cu_candidate_digest = digest_ok (pd (fst x)), cu_rejection = None\<rparr>)"
    define b where "b = (case r of Inl _ \<Rightarrow> best | Inr x \<Rightarrow> Some (better_of best x))"
    have rest: "cycle_loop sha256 pd base dev m (logged tag f) (Suc index) diffs (s1, outcomes @ [oc], b) = (s', outcomes', best')"
      using Cons.prems(1) False r by (auto simp: u32_or_max_ge oc_def b_def split: sum.splits prod.splits)
    have "best_of b (found \<union> {x. improving sha256 base dev f diff x})"
      using step Cons.prems(2) best_of_insert [OF Cons.prems(2)] by (auto simp: b_def split: sum.splits)
    note ih = Cons.IH [OF rest this]
    have take: "take (unat m - index) (diff # diffs) = diff # take (unat m - Suc index) diffs"
      using False by (simp add: take_Cons' )
    have best: "best_of best' (found \<union> found_in sha256 base dev f (take (unat m - index) (diff # diffs)))"
      using ih unfolding take found_in_Cons by (simp add: Un_assoc)
    obtain calls calls1 where "s1 = s @ map tag calls1" "length calls1 \<le> 1" "s' = s1 @ map tag calls" "length calls \<le> unat m - Suc index"
      using step ih by blast
    then have calls: "\<exists>calls. s' = s @ map tag calls \<and> length calls \<le> unat m - index"
      using False by (intro exI [of _ "calls1 @ calls"]) auto
    obtain more where more: "outcomes' = outcomes @ oc # more" "length more = length diffs"
      "\<forall>i < length diffs. unat m \<le> Suc index + i \<longrightarrow> cu_rejection (more ! i) = Some OrBudgetExhausted" using ih by auto
    have "\<forall>i < length (diff # diffs). unat m \<le> index + i \<longrightarrow> cu_rejection ((oc # more) ! i) = Some OrBudgetExhausted"
      using more(3) False by (auto simp: nth_Cons split: nat.splits)
    then have "\<exists>more. outcomes' = outcomes @ more \<and> length more = length (diff # diffs)
        \<and> (\<forall>i < length (diff # diffs). unat m \<le> index + i \<longrightarrow> cu_rejection (more ! i) = Some OrBudgetExhausted)"
      using more(1,2) by (intro exI [of _ "oc # more"]) simp
    with best calls show ?thesis by blast
  qed
qed

text \<open>C21. One cycle of the optimizer. Every candidate gets an outcome; at most \<open>max_candidates\<close> are evaluated and the
  others are refused for the budget. The holdout is consulted at most once, for the best candidate, and only if the ledger
  was fresh, which it then is no longer. A promoted policy comes from an admissible change, improved on the baseline,
  is beaten by no other evaluated candidate and held on the holdout.\<close>

theorem optimization_cycle_sound:
  assumes "run_cycle sha256 pd base baseline diffs limits ledger (logged Inl dev) (logged Inr holdout) [] = (d, ledger', log)"
  shows "length (cn_outcomes d) = length diffs
    \<and> (\<forall>i < length diffs. unat (ol_max_candidates limits) \<le> i \<longrightarrow> cu_rejection (cn_outcomes d ! i) = Some OrBudgetExhausted)
    \<and> length (filter isl log) \<le> unat (ol_max_candidates limits)
    \<and> (hl_consultations ledger > 0 \<longrightarrow> filter (Not \<circ> isl) log = [] \<and> cn_promoted d = None \<and> ledger' = ledger)
    \<and> (filter (Not \<circ> isl) log \<noteq> [] \<longrightarrow> hl_consultations ledger' = 1)
    \<and> (\<forall>dg. cn_promoted d = Some dg \<longrightarrow> (\<exists>diff \<in> set (take (unat (ol_max_candidates limits)) diffs). \<exists>c s h.
        improving sha256 base (cb_dev baseline) dev diff (c, s) \<and> pd c = Inr dg
        \<and> (\<forall>other \<in> set (take (unat (ol_max_candidates limits)) diffs). \<forall>c' s'.
            improving sha256 base (cb_dev baseline) dev other (c', s') \<longrightarrow> \<not> beats s' s)
        \<and> filter (Not \<circ> isl) log = [Inr c] \<and> holdout c = Inr h \<and> es_hard_gate_failures h = 0
        \<and> es_verified_successes (cb_holdout baseline) \<le> es_verified_successes h))"
proof -
  obtain s1 :: "(optimizable_policy + optimizable_policy) list" and outcomes best where loop: "cycle_loop sha256 pd base (cb_dev baseline) (ol_max_candidates limits) (logged Inl dev) 0 diffs
      ([], [], None) = (s1, outcomes, best)" by (metis prod_cases3)
  obtain promoted where p: "try_promote pd (cb_holdout baseline) (logged Inr holdout) ledger s1 best = (promoted, ledger', log)"
    and d: "cn_outcomes d = outcomes" "cn_promoted d = promoted"
    using assms by (auto simp: run_cycle_def loop split: prod.splits)
  have "best_of None {}" by (simp add: best_of_def)
  note c = cycle_loop_logged [OF loop this]
  then obtain calls where calls: "s1 = map Inl calls" "length calls \<le> unat (ol_max_candidates limits)" by auto
  have out: "length outcomes = length diffs" "\<forall>i < length diffs. unat (ol_max_candidates limits) \<le> i \<longrightarrow> cu_rejection (outcomes ! i) = Some OrBudgetExhausted"
    using c by auto
  have sep: "filter isl (map Inl calls) = map Inl calls" "filter (Not \<circ> isl) (map Inl calls) = []" by (induction calls) auto
  have log: "log = s1 \<or> (\<exists>cand x. best = Some (cand, x) \<and> log = s1 @ [Inr cand] \<and> hl_consultations ledger = 0 \<and> hl_consultations ledger' = 1)"
    using p by (auto simp: try_promote_def consult_def logged_def word_gt_0 split: option.splits sum.splits if_splits prod.splits)
  have dev: "length (filter isl log) \<le> unat (ol_max_candidates limits)"
    using log calls sep by auto
  have stale: "filter (Not \<circ> isl) log = [] \<and> promoted = None \<and> ledger' = ledger" if "hl_consultations ledger > 0"
    using p that sep calls(1) by (auto simp: try_promote_def consult_def split: option.splits prod.splits)
  have fresh: "hl_consultations ledger' = 1" if "filter (Not \<circ> isl) log \<noteq> []"
    using log that sep calls(1) by auto
  have promoted: "\<exists>diff \<in> set (take (unat (ol_max_candidates limits)) diffs). \<exists>c s h.
        improving sha256 base (cb_dev baseline) dev diff (c, s) \<and> pd c = Inr dg
        \<and> (\<forall>other \<in> set (take (unat (ol_max_candidates limits)) diffs). \<forall>c' s'.
            improving sha256 base (cb_dev baseline) dev other (c', s') \<longrightarrow> \<not> beats s' s)
        \<and> filter (Not \<circ> isl) log = [Inr c] \<and> holdout c = Inr h \<and> es_hard_gate_failures h = 0
        \<and> es_verified_successes (cb_holdout baseline) \<le> es_verified_successes h" if some: "promoted = Some dg" for dg
  proof -
    obtain cand s h where b: "best = Some (cand, s)" "holdout cand = Inr h" "es_hard_gate_failures h = 0"
      "es_verified_successes (cb_holdout baseline) \<le> es_verified_successes h" "pd cand = Inr dg" "log = s1 @ [Inr cand]"
      using p some by (auto simp: try_promote_def consult_def logged_def digest_ok_def word_gt_0 not_less
          split: option.splits sum.splits if_splits prod.splits)
    have "best_of (Some (cand, s)) (found_in sha256 base (cb_dev baseline) dev (take (unat (ol_max_candidates limits)) diffs))"
      using c b(1) by simp
    then obtain diff where "diff \<in> set (take (unat (ol_max_candidates limits)) diffs)" "improving sha256 base (cb_dev baseline) dev diff (cand, s)"
      and "\<And>other c' s'. other \<in> set (take (unat (ol_max_candidates limits)) diffs) \<Longrightarrow>
        improving sha256 base (cb_dev baseline) dev other (c', s') \<Longrightarrow> \<not> beats s' s"
      unfolding best_of_def found_in_def by fastforce
    moreover have "filter (Not \<circ> isl) log = [Inr cand]" using b(6) sep calls(1) by simp
    ultimately show ?thesis using b by blast
  qed
  show ?thesis unfolding d using out dev stale fresh promoted by blast
qed

definition example_summary :: "u32 \<Rightarrow> evaluation_summary" where
  "example_summary n = \<lparr>es_cases = 4, es_hard_gate_failures = 0, es_verified_successes = n, es_model_requests = None, es_elapsed_ms = 1\<rparr>"

definition example_cycle :: "cycle_decision \<times> holdout_ledger \<times> (optimizable_policy + optimizable_policy) list" where
  "example_cycle = run_cycle (\<lambda>_. 0) (\<lambda>_. Inr 7) baseline_policy \<lparr>cb_dev = example_summary 1, cb_holdout = example_summary 1\<rparr>
     [example_diff, example_diff] \<lparr>ol_max_candidates = 1, ol_max_model_requests = 1\<rparr> \<lparr>hl_consultations = 0\<rparr>
     (logged Inl (\<lambda>_. Inr (example_summary 2))) (logged Inr (\<lambda>_. Inr (example_summary 1))) []"

lemma example_cycle_eq: "example_cycle =
  (\<lparr>cn_outcomes = [\<lparr>cu_candidate_digest = Some 7, cu_rejection = None\<rparr>,
      \<lparr>cu_candidate_digest = None, cu_rejection = Some OrBudgetExhausted\<rparr>], cn_promoted = Some 7, cn_optimization_improved = True\<rparr>,
   \<lparr>hl_consultations = 1\<rparr>, [Inl reworded_example, Inr reworded_example])"
  by (simp add: example_cycle_def run_cycle_def u32_or_max_ge evaluate_candidate_def example_accepted logged_def
      compare_to_baseline_def example_summary_def better_of_def try_promote_def consult_def digest_ok_def)

theorem optimization_cycle_sound_witness:
  "\<exists>d log. example_cycle = (d, \<lparr>hl_consultations = 1\<rparr>, log) \<and> cn_promoted d = Some 7 \<and> length (filter isl log) \<le> 1
    \<and> (\<exists>diff \<in> set [example_diff]. \<exists>c s. improving (\<lambda>_. 0) baseline_policy (example_summary 1)
          (\<lambda>_. Inr (example_summary 2)) diff (c, s) \<and> filter (Not \<circ> isl) log = [Inr c])"
proof -
  define d where "d = fst example_cycle"
  define log where "log = snd (snd example_cycle)"
  have run: "example_cycle = (d, \<lparr>hl_consultations = 1\<rparr>, log)" and p: "cn_promoted d = Some 7"
    by (simp_all add: d_def log_def example_cycle_eq)
  note sound = optimization_cycle_sound [OF run [unfolded example_cycle_def]]
  have "length (filter isl log) \<le> 1" using sound by (elim conjE) simp
  moreover have "\<exists>diff \<in> set [example_diff]. \<exists>c s. improving (\<lambda>_. 0) baseline_policy (example_summary 1)
      (\<lambda>_. Inr (example_summary 2)) diff (c, s) \<and> filter (Not \<circ> isl) log = [Inr c]"
    using sound p by (elim conjE allE [of _ 7]) auto
  ultimately show ?thesis using run p by blast
qed

section \<open>The history is a stack\<close>

declare upt_Suc [simp del]

datatype history_op = HpPromote digest | HpRollback

definition history_step :: "policy_history \<Rightarrow> history_op \<Rightarrow> optimizer_rejection + policy_history" where
  "history_step h op = (case op of HpPromote d \<Rightarrow> map_sum id fst (promote h d) | HpRollback \<Rightarrow> map_sum id fst (rollback h))"

text \<open>The specification: the numbers of the versions in force, the active one on top, and how many versions there are.\<close>

definition stack_step :: "nat list \<times> nat \<Rightarrow> history_op \<Rightarrow> optimizer_rejection + nat list \<times> nat" where
  "stack_step st op = (case (op, st) of
     (HpPromote _, (stack, n)) \<Rightarrow> if n = 2 ^ 32 - 1 then Inl OrInvalidHistory else Inr (Suc n # stack, Suc n)
   | (HpRollback, (_ # parent # rest, n)) \<Rightarrow> Inr (parent # rest, n)
   | (HpRollback, _) \<Rightarrow> Inl OrInvalidHistory)"

definition state_in :: "nat list \<Rightarrow> nat \<Rightarrow> policy_state" where
  "state_in stack k = (if stack \<noteq> [] \<and> k = hd stack then PsActive else if k \<in> set stack then PsSuperseded else PsRolledBack)"

fun parent_in :: "nat list \<Rightarrow> nat \<Rightarrow> nat option" where
  "parent_in (a # b # rest) k = (if k = a then Some b else parent_in (b # rest) k)"
| "parent_in _ k = None"

definition history_rel :: "policy_history \<Rightarrow> nat list \<times> nat \<Rightarrow> bool" where
  "history_rel h st \<longleftrightarrow> (case st of (stack, n) \<Rightarrow>
     n < 2 ^ 32 \<and> map (unat \<circ> pv_version) h = [1..<Suc n] \<and> (stack = [] \<longleftrightarrow> n = 0) \<and> sorted_wrt (>) stack \<and> set stack \<subseteq> {1..n}
     \<and> (\<forall>v \<in> set h. pv_state v = state_in stack (unat (pv_version v))
         \<and> (unat (pv_version v) \<in> set stack \<longrightarrow> map_option unat (pv_parent v) = parent_in stack (unat (pv_version v)))))"

lemma history_relD:
  assumes "history_rel h (stack, n)"
  shows "n < 2 ^ 32" "map (unat \<circ> pv_version) h = [1..<Suc n]" "stack = [] \<longleftrightarrow> n = 0" "sorted_wrt (>) stack" "set stack \<subseteq> {1..n}"
    "\<And>v. v \<in> set h \<Longrightarrow> pv_state v = state_in stack (unat (pv_version v))"
    "\<And>v. v \<in> set h \<Longrightarrow> unat (pv_version v) \<in> set stack \<Longrightarrow> map_option unat (pv_parent v) = parent_in stack (unat (pv_version v))"
  using assms by (simp_all add: history_rel_def)

lemma history_relI:
  assumes "n < 2 ^ 32" "map (unat \<circ> pv_version) h = [1..<Suc n]" "stack = [] \<longleftrightarrow> n = 0" "sorted_wrt (>) stack" "set stack \<subseteq> {1..n}"
    "\<And>v. v \<in> set h \<Longrightarrow> pv_state v = state_in stack (unat (pv_version v))"
    "\<And>v. v \<in> set h \<Longrightarrow> unat (pv_version v) \<in> set stack \<Longrightarrow> map_option unat (pv_parent v) = parent_in stack (unat (pv_version v))"
  shows "history_rel h (stack, n)"
  using assms by (simp add: history_rel_def)

lemma history_rel_numbers: "history_rel h (stack, n) \<Longrightarrow> (unat \<circ> pv_version) ` set h = {1..n}"
  using history_relD(2) [of h stack n, THEN arg_cong [where f = set]] by auto

lemma history_rel_versions:
  assumes "history_rel h (stack, n)" and "k \<in> {1..n}"
  obtains v where "v \<in> set h" "unat (pv_version v) = k"
proof -
  have "k \<in> (unat \<circ> pv_version) ` set h" using history_rel_numbers [OF assms(1)] assms(2) by simp
  then show ?thesis using that by auto
qed

lemma history_rel_active:
  assumes rel: "history_rel h (stack, n)"
  shows "map_option (unat \<circ> pv_version) (history_active h) = (case stack of [] \<Rightarrow> None | a # _ \<Rightarrow> Some a)"
proof (cases stack)
  case Nil
  with history_relD [OF rel] have "h = []" by (simp add: upt_rec)
  then show ?thesis using Nil by (simp add: history_active_def)
next
  case (Cons a rest)
  then obtain v where v: "v \<in> set h" "unat (pv_version v) = a"
    using history_rel_versions [OF rel, of a] history_relD(5) [OF rel] by auto
  then have "pv_state v = PsActive" using history_relD(6) [OF rel v(1)] Cons by (simp add: state_in_def)
  then obtain w where w: "history_active h = Some w" using find_SomeI [OF v(1), of "\<lambda>v. pv_state v = PsActive"]
    by (auto simp: history_active_def)
  then have "w \<in> set h" "pv_state w = PsActive" by (auto simp: history_active_def dest: find_Some_filter)
  then have "unat (pv_version w) = a" using history_relD(6) [OF rel, of w] Cons by (auto simp: state_in_def split: if_splits)
  then show ?thesis using w Cons by simp
qed

lemma next_policy_version_rel:
  assumes rel: "history_rel h (stack, n)"
  shows "next_policy_version h = (if n = 2 ^ 32 - 1 then None else Some (of_nat (Suc n)))"
proof (cases "h = []")
  case True
  with history_relD(2) [OF rel] have "n = 0" by (cases n) (auto simp: upt_rec)
  with True show ?thesis by (simp add: next_policy_version_def)
next
  case False
  let ?V = "set (map pv_version h)"
  have img: "unat ` ?V = {1..n}" using history_rel_numbers [OF rel] by (simp add: image_comp)
  have n: "n < 2 ^ 32" using history_relD(1) [OF rel] .
  have "Max ?V \<in> ?V" using False by (intro Max_in) auto
  then have up: "unat (Max ?V) \<in> {1..n}" using img by blast
  then have "n \<in> unat ` ?V" using img by auto
  then obtain v where v: "v \<in> ?V" "unat v = n" by blast
  then have "v \<le> Max ?V" by (intro Max_ge) auto
  then have "n \<le> unat (Max ?V)" using v(2) by (simp only: word_le_nat_alt)
  with up have m: "unat (Max ?V) = n" by simp
  then have "Max ?V = of_nat n" using n by (simp add: word_unat_eq_iff unat_of_nat)
  moreover have "checked_add (of_nat n :: u32) 1 = (if n = 2 ^ 32 - 1 then None else Some (of_nat (Suc n)))"
    using n by (auto simp: checked_add_def unat_of_nat)
  ultimately show ?thesis using False by (simp add: next_policy_version_def)
qed

lemma promote_refines:
  assumes rel: "history_rel h (stack, n)"
  shows "case stack_step (stack, n) (HpPromote d) of Inl e \<Rightarrow> history_step h (HpPromote d) = Inl e
    | Inr st \<Rightarrow> \<exists>h'. history_step h (HpPromote d) = Inr h' \<and> history_rel h' st"
proof (cases "n = 2 ^ 32 - 1")
  case True
  then show ?thesis using next_policy_version_rel [OF rel] by (simp add: history_step_def stack_step_def promote_def)
next
  case False
  note R = history_relD [OF rel]
  have sn: "Suc n < 2 ^ 32" using False R(1) by simp
  define new where "new = \<lparr>pv_version = of_nat (Suc n) :: u32, pv_parent = map_option pv_version (history_active h),
    pv_policy_digest = d, pv_state = PsActive\<rparr>"
  define old where "old = (\<lambda>v :: policy_version. if pv_state v = PsActive then v\<lparr>pv_state := PsSuperseded\<rparr> else v)"
  have step: "history_step h (HpPromote d) = Inr (map old h @ [new])"
    using False by (simp add: history_step_def promote_def next_policy_version_rel [OF rel] new_def old_def)
  have new: "unat (pv_version new) = Suc n" "pv_state new = PsActive" using sn by (simp_all add: new_def unat_of_nat del: of_nat_Suc)
  have old: "pv_version (old v) = pv_version v" "pv_parent (old v) = pv_parent v"
    "pv_state (old v) = (if pv_state v = PsActive then PsSuperseded else pv_state v)" for v by (simp_all add: old_def)
  have below: "unat (pv_version v) \<in> {1..n}" if "v \<in> set h" for v using history_rel_numbers [OF rel] that by auto
  have parent: "map_option unat (pv_parent new) = parent_in (Suc n # stack) (Suc n)"
    using history_rel_active [OF rel] by (cases stack) (auto simp: new_def option.map_comp)
  have "history_rel (map old h @ [new]) (Suc n # stack, Suc n)"
  proof (rule history_relI)
    show "map (unat \<circ> pv_version) (map old h @ [new]) = [1..<Suc (Suc n)]"
      using R(2) new(1) by (simp add: comp_def old upt_Suc)
    show "sorted_wrt (>) (Suc n # stack)" using R(4,5) by auto
    show "set (Suc n # stack) \<subseteq> {1..Suc n}" using R(5) by auto
    fix v
    assume v: "v \<in> set (map old h @ [new])"
    show "pv_state v = state_in (Suc n # stack) (unat (pv_version v))"
    proof (cases "v = new")
      case True
      then show ?thesis using new by (simp add: state_in_def)
    next
      case False
      then obtain u where u: "u \<in> set h" "v = old u" using v by auto
      show ?thesis unfolding u(2) old using R(6) [OF u(1)] below [OF u(1)] by (auto simp: state_in_def split: if_splits)
    qed
    show "map_option unat (pv_parent v) = parent_in (Suc n # stack) (unat (pv_version v))"
      if "unat (pv_version v) \<in> set (Suc n # stack)"
    proof (cases "v = new")
      case True
      then show ?thesis using new parent by simp
    next
      case False
      then obtain u where u: "u \<in> set h" "v = old u" using v by auto
      then have "unat (pv_version u) \<in> set stack" using that below [OF u(1)] by (auto simp: old)
      then show ?thesis using R(7) [OF u(1)] below [OF u(1)] unfolding u(2) old by (cases stack) auto
    qed
  qed (use sn in auto)
  then show ?thesis using False step by (simp add: stack_step_def)
qed

lemma rollback_refines:
  assumes rel: "history_rel h (stack, n)"
  shows "case stack_step (stack, n) HpRollback of Inl e \<Rightarrow> history_step h HpRollback = Inl e
    | Inr st \<Rightarrow> \<exists>h'. history_step h HpRollback = Inr h' \<and> history_rel h' st"
proof -
  note R = history_relD [OF rel]
  consider "stack = []" | a where "stack = [a]" | a b rest where "stack = a # b # rest" by (metis list.exhaust)
  then show ?thesis
  proof cases
    case 1
    then show ?thesis using history_rel_active [OF rel] by (simp add: stack_step_def history_step_def rollback_def)
  next
    case (2 a)
    then obtain v where v: "history_active h = Some v" "unat (pv_version v) = a" using history_rel_active [OF rel] by auto
    have "v \<in> set h" using v(1) by (auto simp: history_active_def dest: find_Some_filter)
    then have "pv_parent v = None" using R(7) [of v] v(2) 2 by simp
    then show ?thesis using v 2 by (simp add: stack_step_def history_step_def rollback_def)
  next
    case (3 a b rest)
    then obtain v where v: "history_active h = Some v" "unat (pv_version v) = a" using history_rel_active [OF rel] by auto
    have "v \<in> set h" using v(1) by (auto simp: history_active_def dest: find_Some_filter)
    then obtain p where p: "pv_parent v = Some p" "unat p = b" using R(7) [of v] v(2) 3 by auto
    define new where "new = (\<lambda>w :: policy_version. if pv_version w = pv_version v then w\<lparr>pv_state := PsRolledBack\<rparr>
      else if pv_version w = p then w\<lparr>pv_state := PsActive\<rparr> else w)"
    have step: "history_step h HpRollback = Inr (map new h)"
      using v p by (simp add: history_step_def rollback_def new_def)
    have num: "pv_version w = pv_version v \<longleftrightarrow> unat (pv_version w) = a" "pv_version w = p \<longleftrightarrow> unat (pv_version w) = b" for w
      using v(2) p(2) by (auto simp: word_unat_eq_iff)
    have new: "pv_version (new w) = pv_version w" "pv_parent (new w) = pv_parent w"
      "pv_state (new w) = (if unat (pv_version w) = a then PsRolledBack else if unat (pv_version w) = b then PsActive else pv_state w)" for w
      unfolding new_def by (simp_all add: num)
    have "history_rel (map new h) (b # rest, n)"
    proof (rule history_relI)
      show "map (unat \<circ> pv_version) (map new h) = [1..<Suc n]" using R(2) by (simp add: comp_def new)
      show "sorted_wrt (>) (b # rest)" "set (b # rest) \<subseteq> {1..n}" "b # rest = [] \<longleftrightarrow> n = 0" using R(3,4,5) 3 by auto
      have ab: "a \<notin> set (b # rest)" "b \<notin> set rest" using R(4) 3 by auto
      fix w
      assume "w \<in> set (map new h)"
      then obtain u where u: "u \<in> set h" "w = new u" by auto
      show "pv_state w = state_in (b # rest) (unat (pv_version w))"
        unfolding u(2) new using R(6) [OF u(1)] ab 3 by (auto simp: state_in_def)
      show "map_option unat (pv_parent w) = parent_in (b # rest) (unat (pv_version w))" if "unat (pv_version w) \<in> set (b # rest)"
        using that R(7) [OF u(1)] ab 3 unfolding u(2) new by (auto split: if_splits)
    qed (rule R(1))
    then show ?thesis using step 3 by (simp add: stack_step_def)
  qed
qed

lemma history_refines:
  assumes "history_rel h st"
  shows "history_rel (run_events history_step h ops) (run_events stack_step st ops)
    \<and> accepted_events history_step h ops = accepted_events stack_step st ops"
  using assms
proof (induction ops arbitrary: h st)
  case (Cons op ops)
  obtain stack n where st: "st = (stack, n)" by fastforce
  have "case stack_step st op of Inl e \<Rightarrow> history_step h op = Inl e
      | Inr st' \<Rightarrow> \<exists>h'. history_step h op = Inr h' \<and> history_rel h' st'"
    using promote_refines rollback_refines Cons.prems unfolding st by (cases op) blast+
  then show ?case using Cons.IH Cons.prems by (auto split: sum.splits)
qed simp

lemma history_rel_init: "history_rel [] ([], 0)"
  by (rule history_relI) (simp_all add: upt_rec)

text \<open>What left the stack does not come back: numbers are not reused.\<close>

lemma stack_run_subset:
  "set (fst st) \<subseteq> {..snd st} \<Longrightarrow>
   set (fst (run_events stack_step st ops)) \<subseteq> set (fst st) \<union> {snd st<..} \<and> snd st \<le> snd (run_events stack_step st ops)"
proof (induction ops arbitrary: st)
  case (Cons op ops)
  show ?case
  proof (cases "stack_step st op")
    case (Inr st')
    then have "set (fst st') \<subseteq> set (fst st) \<union> {snd st<..}" "snd st \<le> snd st'" "set (fst st') \<subseteq> {..snd st'}"
      using Cons.prems by (auto simp: stack_step_def split: history_op.splits prod.splits list.splits if_splits)
    then show ?thesis using Cons.IH [of st'] Inr by auto
  qed (use Cons in simp)
qed simp

text \<open>C23. The history of policy versions is a stack. Whatever sequence of promotions and rollbacks is tried, the
  history accepts exactly what the stack accepts: versions are numbered consecutively, the top of the stack is the
  only active version, those below it are superseded, and all others are rolled back. A version that was rolled back
  never becomes active again, whatever follows.\<close>

theorem policy_history_is_stack:
  fixes ops more :: "history_op list"
  defines "h \<equiv> run_events history_step [] ops" and "st \<equiv> run_events stack_step ([], 0) ops"
  shows "accepted_events history_step [] ops = accepted_events stack_step ([], 0) ops
    \<and> map (\<lambda>v. (unat (pv_version v), pv_state v)) h = map (\<lambda>k. (k, state_in (fst st) k)) [1..<Suc (snd st)]
    \<and> map_option (unat \<circ> pv_version) (history_active h) = (case fst st of [] \<Rightarrow> None | a # _ \<Rightarrow> Some a)
    \<and> pv_version ` {v \<in> set h. pv_state v = PsRolledBack}
        \<subseteq> pv_version ` {v \<in> set (run_events history_step h more). pv_state v = PsRolledBack}"
proof -
  obtain stack n where st: "st = (stack, n)" by fastforce
  have rel: "history_rel h (stack, n)" and acc: "accepted_events history_step [] ops = accepted_events stack_step ([], 0) ops"
    using history_refines [OF history_rel_init, of ops] st unfolding h_def st_def by auto
  have map: "map (\<lambda>v. (unat (pv_version v), pv_state v)) h = map (\<lambda>k. (k, state_in stack k)) [1..<Suc n]"
  proof -
    have "map (\<lambda>v. (unat (pv_version v), pv_state v)) h = map (\<lambda>k. (k, state_in stack k)) (map (unat \<circ> pv_version) h)"
      using history_relD(6) [OF rel] by simp
    then show ?thesis unfolding history_relD(2) [OF rel] .
  qed
  obtain stack' n' where st': "run_events stack_step (stack, n) more = (stack', n')" by fastforce
  then have rel': "history_rel (run_events history_step h more) (stack', n')" using history_refines [OF rel, of more] by simp
  have sub: "set stack' \<subseteq> set stack \<union> {n<..}" "n \<le> n'"
    using stack_run_subset [of "(stack, n)" more] history_relD(5) [OF rel] st' by (auto simp: subset_iff)
  have "pv_version v \<in> pv_version ` {v \<in> set (run_events history_step h more). pv_state v = PsRolledBack}"
    if v: "v \<in> set h" "pv_state v = PsRolledBack" for v
  proof -
    have k: "unat (pv_version v) \<in> {1..n}" using history_rel_numbers [OF rel] v(1) by auto
    have "unat (pv_version v) \<notin> set stack" using history_relD(6) [OF rel v(1)] v(2) by (auto simp: state_in_def split: if_splits)
    then have "unat (pv_version v) \<notin> set stack'" using sub k by auto
    moreover obtain w where w: "w \<in> set (run_events history_step h more)" "unat (pv_version w) = unat (pv_version v)"
      using history_rel_versions [OF rel', of "unat (pv_version v)"] k sub(2) by auto
    ultimately have "pv_state w = PsRolledBack" using history_relD(6) [OF rel' w(1)] by (auto simp: state_in_def)
    moreover have "pv_version w = pv_version v" using w(2) by (simp add: word_unat_eq_iff)
    ultimately show ?thesis using w(1) by (auto intro!: rev_image_eqI)
  qed
  then show ?thesis using acc map history_rel_active [OF rel] unfolding st by auto
qed

declare upt_Suc [simp]

end
