(* ===== verification/Spec2Isabelle.thy ===== *)
theory Spec2Isabelle
  imports Vm_Prelude Btree Domain Identifiers Leases Native_Controller Slots Snapshot Gates Selection
    Loop_Budget Workflow_Record Messages Supervisor Checkpoint
    Digests Dispatch Dispatch_Store Dispatch_Histories Line_Framer
    Canonical_Json Plugin_Protocol Plugin_Session Decision Decision_Store
    Gateway Model_Call Task_Spec Dispatch_Frames Workflow_Rows Model_Calls Workflow_Store Workflow_Histories Lease_Histories
    Call_Ledger Templates Optimizer Context_Bundle
begin

text \<open>
  \<^bold>\<open>VibeMux: the workflow core, the dispatch store and the protocols around them\<close>

  VibeMux runs coding agents (``harnesses'') on tasks of a project. A daemon keeps every decision in pure
  reducers of the crate \<open>vibemux_workflow\<close> and in transactions of \<open>vibemux_store\<close>; models and plugins only
  propose. This development models those reducers and transactions and proves what the daemon relies on.
  All paths below are under \<open>src/crates/\<close>.

  \<^bold>\<open>The parts and their theories\<close>

  \<^item> \<open>Vm_Prelude\<close>, \<open>Btree\<close>: Rust's integers, strings, results, \<open>sort\<close>/\<open>dedup\<close> and \<open>BTreeMap\<close> as the code
    uses them, and the contracts several components share (locales \<open>guarded_reducer\<close>, \<open>metered_reducer\<close>,
    \<open>ending_reducer\<close>, \<open>edge_table\<close>, \<open>ordered_map\<close>), each interpreted on the components' own functions.
  \<^item> \<open>Domain\<close> (\<open>vibemux_types\<close>): tasks and runs, their status tables and restoration from rows.
  \<^item> \<open>Identifiers\<close>, \<open>Slots\<close>, \<open>Snapshot\<close>, \<open>Gates\<close>, \<open>Selection\<close> (\<open>vibemux_workflow/src/\<close>, files of the
    same names): path scopes, which slot may work on what, the manifest of a candidate, the gates that
    accept a candidate or a workflow, and the choice of a winner.
  \<^item> \<open>Leases\<close>, \<open>Native_Controller\<close>: the reducers that own a reservation and an agent's input channel.
  \<^item> \<open>Workflow_Record\<close>, \<open>Loop_Budget\<close>, \<open>Messages\<close>, \<open>Supervisor\<close>: the workflow's record and writer, the
    persisted allowances, supervised messages and the validation of a supervisor's proposals
    (\<open>workflow_record.rs\<close>, \<open>supervisor.rs\<close>, \<open>messages.rs\<close>).
  \<^item> \<open>Checkpoint\<close> (\<open>checkpoint.rs\<close>): recovery state, checkpoints and the assessment of a resume.
  \<^item> \<open>Digests\<close>, \<open>Canonical_Json\<close>: length-prefixed hashing, hexadecimal text and canonical JSON bytes.
  \<^item> \<open>Dispatch\<close>, \<open>Dispatch_Store\<close>, \<open>Dispatch_Histories\<close> (\<open>vibemux_harness/src/dispatch/\<close>,
    \<open>vibemux_store/src/harness_dispatch.rs\<close>): error codes, phases and outcomes of an attempt, every writer
    transaction of the dispatch table with its events, and what holds after any history of them.
  \<^item> \<open>Line_Framer\<close> (\<open>json_line_framer.rs\<close>): incremental JSON Lines framing of an agent's output.
  \<^item> \<open>Plugin_Protocol\<close>, \<open>Plugin_Session\<close> (\<open>vibemux_plugin_protocol\<close>): the envelope and its messages with
    their validation, manifests, the negotiation of a version and of capabilities, the length-prefixed
    frames and the core's side of a session.
  \<^item> \<open>Decision\<close>, \<open>Decision_Store\<close> (\<open>vibemux_decision\<close>, \<open>vibemux_store/src/decision.rs\<close>): questions, local
    rules, the fallback chain that routes a request to a harness, decision records and their events, and
    the transactions that record a decision and admit the dispatch it decides.
  \<^item> \<open>Task_Spec\<close> (\<open>task_spec.rs\<close>, \<open>policy.rs\<close>, \<open>execution_authority.rs\<close>): task specifications with their
    normal form and structural checks, operator policies, their intersection with a specification and the
    authority an execution keeps.
  \<^item> \<open>Gateway\<close>, \<open>Model_Call\<close> (\<open>gateway.rs\<close>, \<open>model_call.rs\<close>): the configuration of the model gateway, the routes
    of the roles, request bodies, completions and streams, and the record of one effectful model call.
  \<^item> \<open>Context_Bundle\<close> (\<open>context_bundle.rs\<close>, \<open>supervisor/context_actions.rs\<close>): bundles of redacted excerpts and
    attributed claims, and the checks of sharing one.
  \<^item> \<open>Optimizer\<close> (\<open>optimizer.rs\<close>, \<open>templates.rs\<close>): prompt templates, candidates that reword them, evaluation
    cycles with a protected holdout, and the history of policy versions.
  \<^item> \<open>Workflow_Rows\<close>, \<open>Workflow_Store\<close>, \<open>Model_Calls\<close> (\<open>vibemux_store/src/workflow.rs\<close>,
    \<open>workflow/workflow_rows.rs\<close>, \<open>workflow/model_calls.rs\<close>): the tables of workflows, contracts, authorities,
    slots, leases, attempts, model calls and their owners, and the transactions over them, down to the
    dispatch that an attempt admits.
  \<^item> \<open>Dispatch_Frames\<close>: what the dispatch commands leave alone, for the theories that combine them with
    the workflow tables. \<open>Workflow_Histories\<close>: all commands of the workflow writer as one step function
    (\<open>workflow_store_step\<close>), with what each command leaves alone.
  \<^item> \<open>Lease_Histories\<close>, \<open>Call_Ledger\<close>: the two invariants of that step function, leases against slots and
    attempts, and model calls against their owners and the budgets of the workflows.

  \<^bold>\<open>Correspondence\<close>

  A Rust struct is a record with the same fields (prefixed, since record fields share one name space), an
  enum a datatype with the same variants, \<open>u32\<close>/\<open>u64\<close> are words, a \<open>String\<close> its UTF-8 bytes, \<open>Result\<close> a
  sum with the error on the left. A method that mutates \<open>self\<close> returns the new value; a handler is one
  definition with its guards in the order of the code, so an error is the first one the code would
  return. A SQLite transaction is a function from the table to the table, with the schema's constraints
  written out; a failed transaction leaves the table unchanged.

  \<^bold>\<open>What is shown\<close>

  \<^item> Safety of the owners: an input is delivered at most once, ownership of an agent moves by handoff, an
    approval is answered by a human, a reservation is lost only when the attempt provably ended, one
    attempt holds a working directory at a time, an interrupted attempt never completes, and a decision
    admits at most one request. Over histories of all workflow commands together a slot and a working
    directory have one lease holder, generations are not reused, a lease outlives its attempt, and a model
    call is submitted at most once.
  \<^item> Exactness of the decisions: gates, eligibility, proposals, resume, selection, routing of tasks and of
    model roles, policies and capability negotiation accept exactly what their conditions say, and refuse
    with the reasons that apply; a policy only narrows what a specification asks for,
    the optimizer changes wording only and promotes what improved, and context is shared within scope.
  \<^item> A session type: the calls a plugin session accepts are the words of a regular protocol, no others.
  \<^item> Invariants over histories: validity of every reachable controller, workflow and dispatch record,
    conservation of budgets (the model requests a workflow was prepared with are what it has left and what
    its owners have used), monotone versions and terminal phases that stay.
  \<^item> Refinement and equivalence: the store refines the phase machine, the version history a stack, the framer the splitting of
    the whole stream, path scopes are sets of paths, canonical bytes are equal iff the values are.
  \<^item> Termination and liveness: the loops of the model are total functions (the dependency work list ends
    with the transitive closure), and recovery always commits and frees what it can.

  \<^bold>\<open>Parameters\<close>

  SHA-256, the digests of receipts and manifests, UUID generation and parsing, the accessors of
  \<open>serde_json::Number\<close>, \<open>serde_json::to_value\<close>, the Protobuf codec of an envelope, the semantic-version
  parser, the TOML reader, the JSON reader of the gateway, the check of an event's payload, the JSON text of
  a slot, the digest of a specification and of an admission, the dispatch check of a supervisor's action
  (\<open>workflow/supervisor_commands.rs\<close>) and the registry of agents are arguments of the definitions that use them; where
  a theorem relies on one, the hypothesis is in its statement (\<open>codec_ok\<close>: decoding inverts encoding).

  \<^bold>\<open>Termination and bounds\<close>

  No definition uses fuel. Recursion that is not structural has a measure: the dependency work list
  (\<open>scope_loop\<close>) decreases the contracts not yet found and then the list, the framer's loop the length of
  the chunk, the canonical writer the size of the value, the recovery of model calls (\<open>recover_calls_from\<close>) the
  calls whose identifier is above the last page, the redaction of tokens the text still to be searched.

  \<^bold>\<open>Not modelled\<close>

  Deserialization by serde, SQL text, process control, terminals, networking, the user interfaces and the
  asynchronous tasks of the daemon, which move bytes between the functions modelled here. The scores of a
  decision backend are IEEE doubles, which the library does not provide, so the acceptance of a backend's
  answer enters the fallback chain as its result. Of \<open>vibemux_workflow\<close> the observation
  of the file system (\<open>path_authority.rs\<close>), the compiler's parsing of requests, agent reports and
  the renderer of prompts are left out; of \<open>workflow.rs\<close> receipts, messages, policy versions and stored content, and of the
  store \<open>recovery_store.rs\<close> and \<open>supervisor_commands.rs\<close>, whose transactions work on further tables.
\<close>

end
